(* ===== verification/Prelude.thy ===== *)
theory Prelude
  imports Main "HOL-Library.Word" "HOL-Library.Monad_Syntax"
begin

text \<open>
  Shared vocabulary of the development: machine integer types, kernel error values, checked array
  accesses, wrap-around time comparison, and the generic interfaces that several components
  instantiate (a bounded moving average, a minimising scan, an invariant of a step function).

  Undefined behaviour of the C code (an array index out of range, a null pointer dereference,
  an access through a pointer of the wrong type) and non-termination are the value \<^const>\<open>None\<close> of
  an option type; the kernel's own error returns are values of \<open>rc\<close>.
\<close>

unbundle bit_operations_syntax

section \<open>Types\<close>

type_synonym u8 = "8 word"
type_synonym u16 = "16 word"
type_synonym u32 = "32 word"
type_synonym u64 = "64 word"
type_synonym cpu = nat

text \<open>The error numbers the code returns, by name.\<close>

datatype errno =
    ENOMEM | EINVAL | EIO | EPROTO | EAGAIN | ENOENT | EPIPE | ECONNRESET | EWOULDBLOCK
  | EXDEV | EFAULT | EALREADY | EINTR | EOTHER nat

text \<open>An \<open>int\<close> return code: a count (0 for plain success) or minus an error number.\<close>

datatype rc = Ret nat | Err errno

fun rc_pos :: "rc \<Rightarrow> bool" where
  "rc_pos (Ret n) = (0 < n)"
| "rc_pos (Err e) = False"

fun rc_neg :: "rc \<Rightarrow> bool" where
  "rc_neg (Ret n) = False"
| "rc_neg (Err e) = True"

section \<open>Collections of rewrite rules\<close>

named_theorems blk_defs \<open>definitions of the block layer that proofs unfold\<close>
named_theorems nvme_defs \<open>definitions of the transport drivers that proofs unfold\<close>

section \<open>Checked arrays\<close>

definition arr_get :: "'a list \<Rightarrow> int \<Rightarrow> 'a option" where
  "arr_get xs i = (if 0 \<le> i \<and> nat i < length xs then Some (xs ! nat i) else None)"

definition arr_set :: "'a list \<Rightarrow> int \<Rightarrow> 'a \<Rightarrow> 'a list option" where
  "arr_set xs i v = (if 0 \<le> i \<and> nat i < length xs then Some (xs[nat i := v]) else None)"

lemma arr_get_Some [simp]: "0 \<le> i \<Longrightarrow> nat i < length xs \<Longrightarrow> arr_get xs i = Some (xs ! nat i)"
  by (simp add: arr_get_def)

lemma arr_set_Some [simp]: "0 \<le> i \<Longrightarrow> nat i < length xs \<Longrightarrow> arr_set xs i v = Some (xs[nat i := v])"
  by (simp add: arr_set_def)

lemma arr_get_int [simp]: "arr_get xs (int n) = (if n < length xs then Some (xs ! n) else None)"
  by (simp add: arr_get_def)

lemma arr_set_int [simp]:
  "arr_set xs (int n) v = (if n < length xs then Some (xs[n := v]) else None)"
  by (simp add: arr_set_def)

lemma arr_get_eq_Some: "arr_get xs i = Some x \<longleftrightarrow> 0 \<le> i \<and> nat i < length xs \<and> x = xs ! nat i"
  by (auto simp: arr_get_def)

lemma arr_set_eq_Some:
  "arr_set xs i v = Some ys \<longleftrightarrow> 0 \<le> i \<and> nat i < length xs \<and> ys = xs[nat i := v]"
  by (auto simp: arr_set_def)

text \<open>The loop \<open>for (i = 0; i < n; i++) a[i] = f(i)\<close>.\<close>

fun arr_fill :: "nat \<Rightarrow> (nat \<Rightarrow> 'a) \<Rightarrow> 'a list \<Rightarrow> 'a list option" where
  "arr_fill 0 f xs = Some xs"
| "arr_fill (Suc n) f xs = do { ys \<leftarrow> arr_fill n f xs; arr_set ys (int n) (f n) }"

lemma arr_fill_Some:
  "n \<le> length xs \<Longrightarrow> arr_fill n f xs = Some (map f [0..<n] @ drop n xs)"
proof (induction n)
  case 0
  then show ?case by simp
next
  case (Suc n)
  then have "arr_fill n f xs = Some (map f [0..<n] @ drop n xs)" by simp
  moreover have "(map f [0..<n] @ drop n xs)[n := f n] = map f [0..<Suc n] @ drop (Suc n) xs"
    using Suc.prems by (simp add: list_update_append Cons_nth_drop_Suc [symmetric])
  ultimately show ?case using Suc.prems by simp
qed

lemma arr_fill_None:
  "length xs < n \<Longrightarrow> arr_fill n f xs = None"
proof (induction n)
  case 0
  then show ?case by simp
next
  case (Suc n)
  show ?case
  proof (cases "length xs = n")
    case True
    then show ?thesis by (simp add: arr_fill_Some)
  next
    case False
    with Suc show ?thesis by simp
  qed
qed

text \<open>The loop \<open>for (i = 0; i < n; i++) dst[i] = src[i]\<close>.\<close>

fun arr_copy :: "nat \<Rightarrow> 'a list \<Rightarrow> 'a list \<Rightarrow> 'a list option" where
  "arr_copy 0 src dst = Some dst"
| "arr_copy (Suc n) src dst = do {
     ys \<leftarrow> arr_copy n src dst;
     x \<leftarrow> arr_get src (int n);
     arr_set ys (int n) x }"

lemma arr_copy_Some:
  "n \<le> length src \<Longrightarrow> n \<le> length dst \<Longrightarrow> arr_copy n src dst = Some (take n src @ drop n dst)"
proof (induction n)
  case 0
  then show ?case by simp
next
  case (Suc n)
  then have "arr_copy n src dst = Some (take n src @ drop n dst)" by simp
  moreover have "(take n src @ drop n dst)[n := src ! n] = take (Suc n) src @ drop (Suc n) dst"
    using Suc.prems
    by (simp add: list_update_append Cons_nth_drop_Suc [symmetric] take_Suc_conv_app_nth)
  ultimately show ?case using Suc.prems by simp
qed

text \<open>A loop whose body may have no defined result, over the values of its control variable.\<close>

fun for_each :: "('i \<Rightarrow> 'st \<Rightarrow> 'st option) \<Rightarrow> 'i list \<Rightarrow> 'st \<Rightarrow> 'st option" where
  "for_each body [] s = Some s"
| "for_each body (i # is) s = do { s' \<leftarrow> body i s; for_each body is s' }"

lemma for_each_append:
  "for_each body (xs @ ys) s = do { s' \<leftarrow> for_each body xs s; for_each body ys s' }"
  by (induction xs arbitrary: s) (auto split: bind_splits)

lemma for_each_inv:
  assumes "\<And>i s s'. i \<in> set is \<Longrightarrow> P s \<Longrightarrow> body i s = Some s' \<Longrightarrow> P s'"
  shows "P s \<Longrightarrow> for_each body is s = Some s' \<Longrightarrow> P s'"
  using assms
proof (induction "is" arbitrary: s)
  case (Cons i "is")
  from Cons.prems(2) obtain t where t: "body i s = Some t" "for_each body is t = Some s'"
    by (auto split: bind_splits)
  have "P t" using Cons.prems(1,3) t(1) by (meson list.set_intros(1))
  then show ?case using Cons.IH Cons.prems(3) t(2) by (meson list.set_intros(2))
qed simp

lemma for_each_Some:
  assumes "\<And>i s. i \<in> set is \<Longrightarrow> P s \<Longrightarrow> \<exists>s'. body i s = Some s' \<and> P s'"
  shows "P s \<Longrightarrow> \<exists>s'. for_each body is s = Some s' \<and> P s'"
  using assms
proof (induction "is" arbitrary: s)
  case (Cons i "is")
  then obtain t where "body i s = Some t" "P t" by fastforce
  with Cons show ?case by auto
qed simp

section \<open>Jiffies\<close>

text \<open>\<open>time_after(a, b)\<close> and \<open>time_after_eq(a, b)\<close> on \<open>unsigned long\<close>: the sign of the difference.\<close>

definition time_after :: "u64 \<Rightarrow> u64 \<Rightarrow> bool" where
  "time_after a b \<longleftrightarrow> sint (b - a) < 0"

definition time_after_eq :: "u64 \<Rightarrow> u64 \<Rightarrow> bool" where
  "time_after_eq a b \<longleftrightarrow> 0 \<le> sint (a - b)"

lemma time_after_irrefl [simp]: "\<not> time_after a a"
  by (simp add: time_after_def)

section \<open>Moving averages\<close>

text \<open>
  The metrics of blk-switch, the metric of its target and the busyness of a hardware queue are moving
  averages in integer arithmetic. What the clients rely on is that an update lies between the old
  value and the sample, as long as neither leaves the range in which the machine arithmetic is exact.
\<close>

locale moving_average =
  fixes upd :: "'m \<Rightarrow> 's \<Rightarrow> 'm"
    and mval :: "'m \<Rightarrow> nat"
    and sval :: "'s \<Rightarrow> nat"
    and exact :: nat
  assumes upd_upper: "mval m < exact \<Longrightarrow> sval s < exact \<Longrightarrow> mval (upd m s) \<le> max (mval m) (sval s)"
    and upd_lower: "mval m < exact \<Longrightarrow> sval s < exact \<Longrightarrow> min (mval m) (sval s) \<le> mval (upd m s)"
begin

lemma upd_range:
  assumes "b < exact" "mval m \<in> {a..b}" "sval s \<in> {a..b}"
  shows "mval (upd m s) \<in> {a..b}"
proof -
  have "mval m < exact" "sval s < exact" using assms by auto
  from upd_upper [OF this] upd_lower [OF this] assms show ?thesis by auto
qed

lemma fold_range:
  assumes "b < exact" "mval m \<in> {a..b}" "\<forall>s\<in>set ss. sval s \<in> {a..b}"
  shows "mval (foldl upd m ss) \<in> {a..b}"
  using assms(2,3)
proof (induction ss arbitrary: m)
  case (Cons s ss)
  have "mval (upd m s) \<in> {a..b}" by (rule upd_range [OF assms(1)]) (use Cons.prems in auto)
  with Cons show ?case by simp
qed simp

end

section \<open>A minimising scan\<close>

text \<open>
  The steering loops keep a best candidate and its cost while they run over the cores. The
  candidate test and the cost read only shared state that the loop does not write, so the loop is
  determined by a step function that replaces the best value only by a strictly better one, or by
  one of equal cost.
\<close>

locale min_scan =
  fixes cand :: "'i \<Rightarrow> bool"
    and cost :: "'i \<Rightarrow> 'c::linorder"
    and best :: "'st \<Rightarrow> 'i option"
    and bound :: "'st \<Rightarrow> 'c"
    and step :: "'i \<Rightarrow> 'st \<Rightarrow> 'st option"
  assumes step_skip: "\<not> cand i \<Longrightarrow> step i s = Some s' \<Longrightarrow> best s' = best s \<and> bound s' = bound s"
    and step_better: "cand i \<Longrightarrow> cost i < bound s \<Longrightarrow> step i s = Some s' \<Longrightarrow>
          best s' = Some i \<and> bound s' = cost i"
    and step_equal: "cand i \<Longrightarrow> cost i = bound s \<Longrightarrow> step i s = Some s' \<Longrightarrow>
          (best s' = best s \<or> best s' = Some i) \<and> bound s' = bound s"
    and step_worse: "cand i \<Longrightarrow> bound s < cost i \<Longrightarrow> step i s = Some s' \<Longrightarrow>
          best s' = best s \<and> bound s' = bound s"
begin

abbreviation scan :: "'i list \<Rightarrow> 'st \<Rightarrow> 'st option" where
  "scan \<equiv> for_each step"

lemma step_cases:
  assumes "step i s = Some s'"
  obtains (skip) "\<not> cand i" "best s' = best s" "bound s' = bound s"
  | (better) "cand i" "cost i < bound s" "best s' = Some i" "bound s' = cost i"
  | (equal) "cand i" "cost i = bound s" "best s' = best s \<or> best s' = Some i" "bound s' = bound s"
  | (worse) "cand i" "bound s < cost i" "best s' = best s" "bound s' = bound s"
proof (cases "cand i")
  case False
  then show thesis using step_skip [OF False assms] skip by simp
next
  case True
  consider "cost i < bound s" | "cost i = bound s" | "bound s < cost i"
    by (rule linorder_cases)
  then show thesis
  proof cases
    case 1
    then show thesis using step_better [OF True 1 assms] better True by simp
  next
    case 2
    then show thesis using step_equal [OF True 2 assms] equal True by simp
  next
    case 3
    then show thesis using step_worse [OF True 3 assms] worse True by simp
  qed
qed

lemma step_bound_le: "step i s = Some s' \<Longrightarrow> bound s' \<le> bound s"
  by (erule step_cases) simp_all

lemma step_cand_le: "cand i \<Longrightarrow> step i s = Some s' \<Longrightarrow> bound s' \<le> cost i"
  by (erule step_cases) simp_all

lemma scan_bound_le: "scan is s = Some s' \<Longrightarrow> bound s' \<le> bound s"
proof (induction "is" arbitrary: s)
  case (Cons i "is")
  then obtain t where "step i s = Some t" "scan is t = Some s'"
    by (auto split: bind_splits)
  then show ?case using step_bound_le Cons.IH order_trans by blast
qed simp

lemma scan_minimal: "scan is s = Some s' \<Longrightarrow> i \<in> set is \<Longrightarrow> cand i \<Longrightarrow> bound s' \<le> cost i"
proof (induction "is" arbitrary: s)
  case (Cons j "is")
  then obtain t where t: "step j s = Some t" "scan is t = Some s'"
    by (auto split: bind_splits)
  show ?case
  proof (cases "i = j")
    case True
    then show ?thesis
      using step_cand_le [OF _ t(1)] scan_bound_le [OF t(2)] Cons.prems(3) by auto
  next
    case False
    with Cons t show ?thesis by auto
  qed
qed simp

definition sound :: "'st \<Rightarrow> bool" where
  "sound s \<longleftrightarrow> (\<forall>i. best s = Some i \<longrightarrow> cand i \<and> cost i = bound s)"

lemma step_sound: "sound s \<Longrightarrow> step i s = Some s' \<Longrightarrow> sound s'"
  by (erule step_cases) (auto simp: sound_def)

lemma scan_sound: "scan is s = Some s' \<Longrightarrow> sound s \<Longrightarrow> sound s'"
  by (induction "is" arbitrary: s) (auto split: bind_splits dest: step_sound)

lemma step_best_in: "step i s = Some s' \<Longrightarrow> best s' = best s \<or> best s' = Some i"
  by (erule step_cases) auto

lemma scan_best_in: "scan is s = Some s' \<Longrightarrow> best s' = best s \<or> (\<exists>i\<in>set is. best s' = Some i)"
proof (induction "is" arbitrary: s)
  case (Cons j "is")
  then obtain t where t: "step j s = Some t" "scan is t = Some s'"
    by (auto split: bind_splits)
  from Cons.IH [OF t(2)] step_best_in [OF t(1)] show ?case by auto
qed simp

lemma scan_finds:
  "scan is s = Some s' \<Longrightarrow> i \<in> set is \<Longrightarrow> cand i \<Longrightarrow> cost i < bound s \<Longrightarrow> best s' \<noteq> None"
proof (induction "is" arbitrary: s)
  case (Cons j "is")
  then obtain t where t: "step j s = Some t" "scan is t = Some s'"
    by (auto split: bind_splits)
  have keep: "best t \<noteq> None \<Longrightarrow> best s' \<noteq> None"
    using scan_best_in [OF t(2)] by auto
  show ?case
  proof (cases "bound t < bound s")
    case True
    with t(1) have "best t \<noteq> None" by (auto elim: step_cases)
    then show ?thesis by (rule keep)
  next
    case False
    then have "bound t = bound s" using step_bound_le [OF t(1)] by simp
    moreover have "i \<noteq> j"
      using False Cons.prems(3,4) step_better [of j s t] t(1) by auto
    ultimately show ?thesis using Cons t(2) by auto
  qed
qed simp

lemma scan_best:
  assumes s: "scan is s = Some s'" and "best s = None"
  shows "(best s' = None \<and> (\<forall>i\<in>set is. cand i \<longrightarrow> bound s \<le> cost i)) \<or>
    (\<exists>k\<in>set is. best s' = Some k \<and> cand k \<and> (\<forall>i\<in>set is. cand i \<longrightarrow> cost k \<le> cost i))"
proof (cases "best s'")
  case None
  then show ?thesis using scan_finds [OF s] not_le by blast
next
  case (Some k)
  have "sound s'" by (rule scan_sound [OF s]) (simp add: sound_def assms(2))
  then have k: "cand k" "cost k = bound s'" using Some by (simp_all add: sound_def)
  moreover have "k \<in> set is" using scan_best_in [OF s] Some assms(2) by auto
  ultimately show ?thesis using Some scan_minimal [OF s] by auto
qed

end

section \<open>Invariants of step functions\<close>

text \<open>
  A component whose operations are functions on its state: the states reached by any sequence of
  operations satisfy every property that holds initially and that each operation keeps. An
  operation that has no defined result (\<^const>\<open>None\<close>) ends the run.
\<close>

locale op_invariant =
  fixes exec :: "'op \<Rightarrow> 'st \<Rightarrow> 'st option"
    and ok :: "'op \<Rightarrow> 'st \<Rightarrow> bool"
    and inv :: "'st \<Rightarrow> bool"
  assumes exec_inv: "inv s \<Longrightarrow> ok a s \<Longrightarrow> exec a s = Some s' \<Longrightarrow> inv s'"
begin

inductive run :: "'st \<Rightarrow> 'op list \<Rightarrow> 'st \<Rightarrow> bool" where
  run_nil: "run s [] s"
| run_cons: "ok a s \<Longrightarrow> exec a s = Some t \<Longrightarrow> run t as u \<Longrightarrow> run s (a # as) u"

lemma run_inv: "run s as t \<Longrightarrow> inv s \<Longrightarrow> inv t"
  by (induction rule: run.induct) (auto dest: exec_inv)

lemma run_append: "run s as t \<Longrightarrow> run t bs u \<Longrightarrow> run s (as @ bs) u"
  by (induction rule: run.induct) (auto intro: run.intros)

end

text \<open>When every admitted operation is also defined, a run can be continued with any of them.\<close>

locale op_progress = op_invariant +
  assumes exec_defined: "inv s \<Longrightarrow> ok a s \<Longrightarrow> \<exists>t. exec a s = Some t"
begin

lemma run_defined: "run s as t \<Longrightarrow> inv s \<Longrightarrow> ok a t \<Longrightarrow> \<exists>u. exec a t = Some u \<and> run s (as @ [a]) u"
proof -
  assume r: "run s as t" and i: "inv s" and a: "ok a t"
  obtain u where u: "exec a t = Some u" using exec_defined [OF run_inv [OF r i] a] by blast
  then show ?thesis using run_append [OF r run_cons [OF a u run_nil]] by blast
qed

end

end
