(* ===== verification/Blk_Types.thy ===== *)
theory Blk_Types
  imports Prelude
begin

text \<open>
  The data of the block layer: the structures of \<open>include/linux/blk-mq.h\<close>,
  \<open>include/linux/blkdev.h\<close> and \<open>block/blk-mq.h\<close>, with pointers as indices. A software context is
  named by its CPU, a hardware context by its \<open>queue_num\<close>, a request by its address. Calls that leave
  the modelled code are recorded, in order, in an event log. Constants and services of kernel
  headers that are not part of the repository are fields of the record \<open>kernel\<close>, which the
  definitions take as a parameter.
\<close>

section \<open>Enumerations\<close>

datatype hctx_type = HCTX_TYPE_DEFAULT | HCTX_TYPE_READ | HCTX_TYPE_POLL

datatype mq_rq_state = MQ_RQ_IDLE | MQ_RQ_IN_FLIGHT | MQ_RQ_COMPLETE

datatype blk_status = BLK_STS_OK | BLK_STS_RESOURCE | BLK_STS_DEV_RESOURCE | BLK_STS_IOERR | BLK_STS_other nat

text \<open>What \<open>hctx->driver_data\<close> points to: a TCP queue or an RDMA queue of the NVMe host drivers.\<close>

datatype driver_data = Nvme_tcp_queue nat | Nvme_rdma_queue nat | Other_driver

definition hctx_type_index :: "hctx_type \<Rightarrow> nat" where
  "hctx_type_index t = (case t of HCTX_TYPE_DEFAULT \<Rightarrow> 0 | HCTX_TYPE_READ \<Rightarrow> 1 | HCTX_TYPE_POLL \<Rightarrow> 2)"

section \<open>Flag words defined in the repository\<close>

definition RQF_STARTED :: u32 where "RQF_STARTED = 2"
definition RQF_SOFTBARRIER :: u32 where "RQF_SOFTBARRIER = 8"
definition RQF_FLUSH_SEQ :: u32 where "RQF_FLUSH_SEQ = 16"
definition RQF_MQ_INFLIGHT :: u32 where "RQF_MQ_INFLIGHT = 64"
definition RQF_DONTPREP :: u32 where "RQF_DONTPREP = 128"
definition RQF_PREEMPT :: u32 where "RQF_PREEMPT = 256"
definition RQF_ELVPRIV :: u32 where "RQF_ELVPRIV = 4096"
definition RQF_IO_STAT :: u32 where "RQF_IO_STAT = 8192"
definition RQF_STATS :: u32 where "RQF_STATS = 131072"
definition RQF_SPECIAL_PAYLOAD :: u32 where "RQF_SPECIAL_PAYLOAD = 262144"
definition RQF_MQ_POLL_SLEPT :: u32 where "RQF_MQ_POLL_SLEPT = 1048576"
definition RQF_TIMED_OUT :: u32 where "RQF_TIMED_OUT = 2097152"

lemmas RQF_defs [blk_defs] = RQF_STARTED_def RQF_SOFTBARRIER_def RQF_FLUSH_SEQ_def
  RQF_MQ_INFLIGHT_def RQF_DONTPREP_def RQF_PREEMPT_def RQF_ELVPRIV_def RQF_IO_STAT_def
  RQF_STATS_def RQF_SPECIAL_PAYLOAD_def RQF_MQ_POLL_SLEPT_def RQF_TIMED_OUT_def

definition BLK_MQ_REQ_NOWAIT :: u32 where "BLK_MQ_REQ_NOWAIT = 1"
definition BLK_MQ_REQ_RESERVED :: u32 where "BLK_MQ_REQ_RESERVED = 2"
definition BLK_MQ_REQ_INTERNAL :: u32 where "BLK_MQ_REQ_INTERNAL = 4"
definition BLK_MQ_REQ_PREEMPT :: u32 where "BLK_MQ_REQ_PREEMPT = 8"

lemmas BLK_MQ_REQ_defs [blk_defs] = BLK_MQ_REQ_NOWAIT_def BLK_MQ_REQ_RESERVED_def
  BLK_MQ_REQ_INTERNAL_def BLK_MQ_REQ_PREEMPT_def

text \<open>\<open>BLK_MQ_F_*\<close> and \<open>BLK_MQ_S_*\<close>: a flag word of which the code tests single bits.\<close>

datatype hctx_flag = BLK_MQ_F_SHOULD_MERGE | BLK_MQ_F_TAG_SHARED | BLK_MQ_F_BLOCKING | BLK_MQ_F_NO_SCHED

datatype hctx_state = BLK_MQ_S_STOPPED | BLK_MQ_S_TAG_ACTIVE | BLK_MQ_S_SCHED_RESTART

datatype queue_flag =
    QUEUE_FLAG_QUIESCED | QUEUE_FLAG_POLL | QUEUE_FLAG_POLL_STATS | QUEUE_FLAG_IO_STAT
  | QUEUE_FLAG_STATS | QUEUE_FLAG_NOMERGES | QUEUE_FLAG_SAME_COMP | QUEUE_FLAG_SAME_FORCE
  | QUEUE_FLAG_RQ_ALLOC_TIME | QUEUE_FLAG_NONROT

section \<open>Structures\<close>

record bio =
  bi_opf :: u32
  bi_size :: u32
  bi_ioprio :: u16
  bi_sector :: u64
  bi_write_hint :: u16

record blk_mq_ctx =
  ctx_cpu :: nat
  rq_lists :: "hctx_type \<Rightarrow> nat list"
  index_hw :: "hctx_type \<Rightarrow> nat"
  ctx_hctxs :: "hctx_type \<Rightarrow> nat"
  rq_dispatched :: "bool \<Rightarrow> u64"
  rq_merged :: u64
  rq_completed :: "bool \<Rightarrow> u64"

record blk_mq_hw_ctx =
  hctx_dispatch :: "nat list"
  hctx_state :: "hctx_state set"
  hctx_cpumask :: "nat list"
  next_cpu :: int
  next_cpu_batch :: int
  hctx_flags :: "hctx_flag set"
  hctx_driver_data :: driver_data
  ctx_map :: "nat set"
  dispatch_from :: "nat option"
  dispatch_busy :: u32
  blk_switch :: bool
  hctx_type_of :: hctx_type
  nr_ctx :: nat
  hctx_ctxs :: "nat list"
  dispatch_wait :: bool
  hctx_tags :: "nat option"
  sched_tags :: "nat option"
  hctx_queued :: u64
  hctx_run :: u64
  dispatched :: "nat \<Rightarrow> u64"
  numa_node :: int
  queue_num :: nat
  nr_active :: int
  poll_considered :: u64
  poll_invoked :: u64
  poll_success :: u64

record request =
  mq_ctx :: nat
  mq_hctx :: "nat option"
  cmd_flags :: u32
  rq_flags :: u32
  rq_tag :: int
  internal_tag :: int
  steered :: bool
  rq_data_len :: u32
  rq_sector :: u64
  rq_bio :: "bio option"
  rq_disk :: "nat option"
  rq_part :: "nat option"
  alloc_time_ns :: u64
  start_time_ns :: u64
  io_start_time_ns :: u64
  stats_sectors :: u16
  nr_phys_segments :: u16
  nr_integrity_segments :: u16
  write_hint :: u16
  rq_ioprio :: u16
  extra_len :: u32
  rq_state :: mq_rq_state
  rq_ref :: nat
  rq_timeout :: u32
  rq_deadline :: u64
  end_io :: "nat option"
  elv_icq :: "nat option"

record blk_mq_tags =
  nr_tags :: nat
  nr_reserved_tags :: nat
  active_queues :: int
  ws_active :: int
  static_rqs :: "nat \<Rightarrow> nat"
  tags_rqs :: "nat \<Rightarrow> nat option"

record blk_mq_alloc_data =
  ad_flags :: u32
  shallow_depth :: nat
  ad_cmd_flags :: u32
  ad_ctx :: "nat option"
  ad_hctx :: "nat option"

text \<open>The hooks of an I/O scheduler that this code calls; schedulers are not part of the repository.\<close>

record elevator =
  limit_depth :: "(u32 \<Rightarrow> blk_mq_alloc_data \<Rightarrow> blk_mq_alloc_data) option"
  has_prepare_request :: bool
  icq_cache :: bool
  has_finish_request :: bool
  has_insert_requests :: bool
  has_dispatch_request :: bool

text \<open>Which of the optional driver operations a queue has.\<close>

record mq_ops =
  has_commit_rqs :: bool
  has_get_budget :: bool
  has_put_budget :: bool
  has_timeout :: bool
  has_poll :: bool

record request_queue =
  queue_ctx :: "nat \<Rightarrow> blk_mq_ctx"
  queue_hw_ctx :: "nat \<Rightarrow> blk_mq_hw_ctx"
  nr_hw_queues :: nat
  q_elevator :: "elevator option"
  queue_flags :: "queue_flag set"
  q_requeue_list :: "nat list"
  mq_freeze_depth :: int
  q_rq_timeout :: u64
  nr_requests :: nat
  q_ops :: mq_ops
  dma_drain_size :: nat
  q_usage_dead :: bool

text \<open>
  Calls that leave the modelled code, in the order in which they happen: the name of the function
  and the addresses or numbers it is given.
\<close>

datatype blk_event = Call string "int list"

section \<open>Kernel services\<close>

text \<open>
  What the code reads of the rest of the kernel. \<open>random_byte n\<close> is the \<open>n\<close>-th byte drawn from
  \<open>get_random_bytes\<close>; \<open>setaffinity_cpu c\<close> is the CPU the caller runs on after
  \<open>sched_setaffinity\<close> with the mask \<open>{c}\<close>; \<open>tcp_nr_req n\<close> is \<open>nr_req\<close> of TCP queue \<open>n\<close>; \<open>get_tag\<close>
  is \<open>blk_mq_get_tag\<close>, which may move the request to another context while it sleeps. The answers of
  the tag allocator and of the driver change over time: \<open>get_tag\<close>, \<open>queue_rq\<close> and \<open>get_budget\<close>
  take the number of such calls made so far (\<open>drv_pos\<close> of the state) as their first argument.
\<close>

record kernel =
  jiffies :: u64
  msecs_to_jiffies :: "nat \<Rightarrow> u64"
  ktime_get_ns :: u64
  num_online_cpus :: nat
  num_online_nodes :: nat
  nr_cpu_ids :: nat
  smp_processor_id :: nat
  current_cpu :: nat
  setaffinity_cpu :: "nat \<Rightarrow> nat"
  kcalloc_mask :: bool
  random_byte :: "nat \<Rightarrow> u8"
  tcp_nr_req :: "nat \<Rightarrow> int"
  get_tag :: "nat \<Rightarrow> request_queue \<Rightarrow> blk_mq_alloc_data \<Rightarrow> (nat \<times> blk_mq_alloc_data) option"
  tag_busy :: "blk_mq_hw_ctx \<Rightarrow> bool"
  tag_is_reserved :: "blk_mq_tags \<Rightarrow> int \<Rightarrow> bool"
  queue_enter :: "u32 \<Rightarrow> errno option"
  add_timer :: "request \<Rightarrow> request"
  update_request :: "request \<Rightarrow> blk_status \<Rightarrow> u32 \<Rightarrow> request \<times> bool"
  driver_timeout :: "nat \<Rightarrow> bool"
  is_flush_rq :: "nat \<Rightarrow> nat \<Rightarrow> bool"
  queue_rq :: "nat \<Rightarrow> nat \<Rightarrow> blk_status"
  get_budget :: "nat \<Rightarrow> bool"
  cpus_share_cache :: "nat \<Rightarrow> nat \<Rightarrow> bool"
  cpu_online :: "nat \<Rightarrow> bool"
  fake_timeout :: bool
  laptop_mode :: bool
  rq_is_passthrough :: "u32 \<Rightarrow> bool"
  integrity_write :: "request \<Rightarrow> bool"
  queue_tryget :: bool
  sched_has_work :: "nat \<Rightarrow> bool"
  req_is_write :: "u32 \<Rightarrow> bool"
  sched_mark_restart :: "blk_mq_hw_ctx \<Rightarrow> blk_mq_hw_ctx"
  sched_needs_restart :: "blk_mq_hw_ctx \<Rightarrow> bool"
  REQ_RAHEAD :: u32
  REQ_FAILFAST_MASK :: u32
  bio_prep :: "bio \<Rightarrow> nat \<Rightarrow> request \<Rightarrow> request"
  IOPRIO_PRIO_CLASS :: "u16 \<Rightarrow> int"
  ioprio_none_norm :: u16
  REQ_HIPRI :: u32
  REQ_PRIO :: u32
  REQ_FUA :: u32
  REQ_NOWAIT :: u32
  op_is_flush :: "u32 \<Rightarrow> bool"
  op_is_sync :: "u32 \<Rightarrow> bool"
  bio_sectors :: "bio \<Rightarrow> nat"

section \<open>The state of the block layer\<close>

text \<open>
  The global variables of \<open>block/blk-switch.h\<close>: the module parameters, the per-core byte counts and
  metrics (arrays of \<open>BLK_SWITCH_NR_CPUS\<close> entries) and the statistics.
\<close>

record blk_switch_vars =
  blk_switch_on :: int
  blk_switch_thresh_B :: int
  blk_switch_nr_cpus :: int
  blk_switch_debug :: int
  T_bytes :: "u64 list"
  L_bytes :: "u64 list"
  T_metric :: "u64 list"
  L_metric :: "u64 list"
  reset_metrics :: u64
  T_appstr :: "u64 list"
  L_appstr :: "u64 list"
  last_appstr :: u64
  appstr_app :: int
  stats_print :: "int list"
  stats_gen :: "int list"
  stats_str :: "int list"
  stats_prc :: "int list"

record blk =
  bsw :: blk_switch_vars
  the_q :: request_queue
  rqs :: "nat \<Rightarrow> request"
  tagsp :: "nat \<Rightarrow> blk_mq_tags"
  rnd_pos :: nat
  drv_pos :: nat
  events :: "blk_event list"

definition log_ev :: "blk_event \<Rightarrow> blk \<Rightarrow> blk" where
  "log_ev e s = s\<lparr>events := events s @ [e]\<rparr>"

definition ctx_at :: "blk \<Rightarrow> nat \<Rightarrow> blk_mq_ctx" where
  "ctx_at s c = queue_ctx (the_q s) c"

definition hctx_at :: "blk \<Rightarrow> nat \<Rightarrow> blk_mq_hw_ctx" where
  "hctx_at s h = queue_hw_ctx (the_q s) h"

definition upd_ctx :: "nat \<Rightarrow> (blk_mq_ctx \<Rightarrow> blk_mq_ctx) \<Rightarrow> blk \<Rightarrow> blk" where
  "upd_ctx c f s = s\<lparr>the_q := (the_q s)\<lparr>queue_ctx := (queue_ctx (the_q s))(c := f (ctx_at s c))\<rparr>\<rparr>"

definition upd_hctx :: "nat \<Rightarrow> (blk_mq_hw_ctx \<Rightarrow> blk_mq_hw_ctx) \<Rightarrow> blk \<Rightarrow> blk" where
  "upd_hctx h f s = s\<lparr>the_q := (the_q s)\<lparr>queue_hw_ctx := (queue_hw_ctx (the_q s))(h := f (hctx_at s h))\<rparr>\<rparr>"

definition upd_rq :: "nat \<Rightarrow> (request \<Rightarrow> request) \<Rightarrow> blk \<Rightarrow> blk" where
  "upd_rq r f s = s\<lparr>rqs := (rqs s)(r := f (rqs s r))\<rparr>"

definition upd_tags :: "nat \<Rightarrow> (blk_mq_tags \<Rightarrow> blk_mq_tags) \<Rightarrow> blk \<Rightarrow> blk" where
  "upd_tags t f s = s\<lparr>tagsp := (tagsp s)(t := f (tagsp s t))\<rparr>"

end
