(* ===== verification/Blk_Switch.thy ===== *)
theory Blk_Switch
  imports Blk_Types "HOL-Library.Product_Lexorder"
begin

text \<open>
  blk-switch proper: \<open>block/blk-switch.h\<close> and the three blocks that
  \<open>blk_mq_get_request\<close> of \<open>block/blk-mq.c\<close> runs before a tag is taken: the reset of the
  metrics after an idle second, application steering (moving the submitting task to another core)
  and request steering (queueing a throughput-bound request at another core), followed by the
  queue selection of \<open>block/blk-mq.h\<close>.

  The arrays of \<open>BLK_SWITCH_NR_CPUS\<close> entries are lists and every access is checked. The
  metrics are 64-bit words; the local \<open>int sample\<close> is a 32-bit word that is truncated and sign
  extended as C does it.
\<close>

section \<open>Constants\<close>

definition BLK_SWITCH_NR_CPUS :: nat where "BLK_SWITCH_NR_CPUS = 64"
definition BLK_SWITCH_RESET_METRICS :: nat where "BLK_SWITCH_RESET_METRICS = 1000"
definition BLK_SWITCH_APPSTR_INTERVAL :: nat where "BLK_SWITCH_APPSTR_INTERVAL = 10"
definition BLK_SWITCH_TCP_BATCH :: int where "BLK_SWITCH_TCP_BATCH = 16"
definition BLK_SWITCH_THRESH_L :: u64 where "BLK_SWITCH_THRESH_L = 98304"
definition BLK_SWITCH_T_APP :: int where "BLK_SWITCH_T_APP = 0"
definition BLK_SWITCH_L_APP :: int where "BLK_SWITCH_L_APP = 1"
definition BLK_SWITCH_TCP :: int where "BLK_SWITCH_TCP = 1"
definition BLK_SWITCH_RDMA :: int where "BLK_SWITCH_RDMA = 2"

lemmas bs_consts [blk_defs] = BLK_SWITCH_NR_CPUS_def BLK_SWITCH_RESET_METRICS_def
  BLK_SWITCH_APPSTR_INTERVAL_def BLK_SWITCH_TCP_BATCH_def BLK_SWITCH_THRESH_L_def
  BLK_SWITCH_T_APP_def BLK_SWITCH_L_APP_def BLK_SWITCH_TCP_def BLK_SWITCH_RDMA_def

section \<open>Classification of bios and queue selection\<close>

text \<open>\<open>blk_switch_set_ioprio\<close>: the priority of the submitting task's I/O context, if it has one.\<close>

definition blk_switch_set_ioprio :: "kernel \<Rightarrow> u16 option \<Rightarrow> bio \<Rightarrow> bio" where
  "blk_switch_set_ioprio k io_context b =
     (let ioprio = (case io_context of None \<Rightarrow> ioprio_none_norm k | Some p \<Rightarrow> p) in
      if IOPRIO_PRIO_CLASS k ioprio = BLK_SWITCH_L_APP
      then b\<lparr>bi_ioprio := ioprio, bi_opf := bi_opf b OR REQ_PRIO k\<rparr>
      else b)"

definition blk_switch_request :: "bio option \<Rightarrow> blk_mq_hw_ctx \<Rightarrow> bool" where
  "blk_switch_request bo hctx \<longleftrightarrow>
     blk_switch hctx \<and> (case bo of None \<Rightarrow> False | Some b \<Rightarrow> 0 < bi_size b)"

definition blk_switch_is_thru_request :: "kernel \<Rightarrow> bio option \<Rightarrow> bool" where
  "blk_switch_is_thru_request k bo \<longleftrightarrow>
     (case bo of None \<Rightarrow> False
      | Some b \<Rightarrow> IOPRIO_PRIO_CLASS k (bi_ioprio b) \<noteq> BLK_SWITCH_L_APP)"

definition blk_mq_map_queue :: "kernel \<Rightarrow> u32 \<Rightarrow> blk_mq_ctx \<Rightarrow> nat" where
  "blk_mq_map_queue k flags ctx =
     (if flags AND REQ_HIPRI k \<noteq> 0 then ctx_hctxs ctx HCTX_TYPE_POLL
      else if flags AND REQ_PRIO k \<noteq> 0 \<and> flags AND REQ_FUA k = 0 then ctx_hctxs ctx HCTX_TYPE_READ
      else ctx_hctxs ctx HCTX_TYPE_DEFAULT)"

text \<open>
  The field \<open>blk_switch\<close> of a hardware context is a \<open>bool\<close>; comparing it with the transport
  constants converts it to 0 or 1.
\<close>

definition hctx_transport :: "blk_mq_hw_ctx \<Rightarrow> int" where
  "hctx_transport hctx = of_bool (blk_switch hctx)"

text \<open>
  \<open>nvme_rdma_init_hctx\<close> assigns 2 to the \<open>bool\<close> field; the assignment converts it to a truth
  value. A queue index beyond the controller's queues is a \<open>BUG_ON\<close>.
\<close>

definition nvme_rdma_init_hctx :: "nat \<Rightarrow> nat \<Rightarrow> blk_mq_hw_ctx \<Rightarrow> blk_mq_hw_ctx option" where
  "nvme_rdma_init_hctx queue_count hctx_idx hctx =
     (if queue_count \<le> hctx_idx then None
      else Some (hctx\<lparr>blk_switch := ((2::int) \<noteq> 0), hctx_driver_data := Nvme_rdma_queue (hctx_idx + 1)\<rparr>))"

definition per_cpu_ptr :: "kernel \<Rightarrow> int \<Rightarrow> nat option" where
  "per_cpu_ptr k c = (if 0 \<le> c \<and> nat c < nr_cpu_ids k then Some (nat c) else None)"

section \<open>Number of cores and reset of the metrics\<close>

definition steer_nr_cpus :: "kernel \<Rightarrow> blk_switch_vars \<Rightarrow> nat" where
  "steer_nr_cpus k v =
     (if blk_switch_nr_cpus v \<le> 0 \<or> int (num_online_cpus k) < blk_switch_nr_cpus v
      then num_online_cpus k else nat (blk_switch_nr_cpus v))"

definition blk_switch_reset :: "kernel \<Rightarrow> nat \<Rightarrow> blk_switch_vars \<Rightarrow> blk_switch_vars option" where
  "blk_switch_reset k n v =
     (if reset_metrics v = 0 \<or> time_after (jiffies k) (reset_metrics v) then do {
        tb \<leftarrow> arr_fill n (\<lambda>_. 0) (T_bytes v);
        lb \<leftarrow> arr_fill n (\<lambda>_. 0) (L_bytes v);
        tm \<leftarrow> arr_fill n (\<lambda>_. 0) (T_metric v);
        lm \<leftarrow> arr_fill n (\<lambda>_. 0) (L_metric v);
        ta \<leftarrow> arr_fill n (\<lambda>_. 0) (T_appstr v);
        la \<leftarrow> arr_fill n (\<lambda>_. 0) (L_appstr v);
        sp \<leftarrow> arr_fill n (\<lambda>_. 1) (stats_print v);
        Some (v\<lparr>T_bytes := tb, L_bytes := lb, T_metric := tm, L_metric := lm,
                T_appstr := ta, L_appstr := la, stats_print := sp,
                last_appstr := 0, appstr_app := 0\<rparr>) }
      else Some v)"

definition blk_switch_print_stats :: "kernel \<Rightarrow> blk_switch_vars \<Rightarrow> blk_switch_vars option" where
  "blk_switch_print_stats k v =
     (if blk_switch_debug v = 0 \<or> reset_metrics v = 0 then Some v
      else do {
        p \<leftarrow> arr_get (stats_print v) (int (current_cpu k));
        if p = 0 then Some v
        else do {
          g \<leftarrow> arr_set (stats_gen v) (int (current_cpu k)) 0;
          st \<leftarrow> arr_set (stats_str v) (int (current_cpu k)) 0;
          pr \<leftarrow> arr_set (stats_prc v) (int (current_cpu k)) 0;
          sp \<leftarrow> arr_set (stats_print v) (int (current_cpu k)) 0;
          Some (v\<lparr>stats_gen := g, stats_str := st, stats_prc := pr, stats_print := sp\<rparr>) } })"

definition blk_switch_idle_reset :: "kernel \<Rightarrow> nat \<Rightarrow> blk_switch_vars \<Rightarrow> blk_switch_vars option" where
  "blk_switch_idle_reset k n v = do {
     v1 \<leftarrow> blk_switch_reset k n v;
     blk_switch_print_stats k
       (v1\<lparr>reset_metrics := jiffies k + msecs_to_jiffies k BLK_SWITCH_RESET_METRICS\<rparr>) }"

section \<open>Application steering\<close>

subsection \<open>Metrics\<close>

definition metric_update :: "u64 \<Rightarrow> u32 \<Rightarrow> u64" where
  "metric_update m sample =
     (if m = 0 then scast sample else m - drop_bit 3 m + scast (signed_drop_bit 3 sample))"

definition metric_floor :: "u64 \<Rightarrow> u64" where
  "metric_floor m = (if m < 10 then 0 else m)"

definition update_T_core :: "kernel \<Rightarrow> bio \<Rightarrow> nat \<Rightarrow> blk_switch_vars \<Rightarrow> blk_switch_vars option" where
  "update_T_core k b cur v = do {
     tb \<leftarrow> arr_get (T_bytes v) (int cur);
     m \<leftarrow> arr_get (T_metric v) (int cur);
     let m' = (if blk_switch_is_thru_request k (Some b) then metric_update m (ucast tb + bi_size b) else m);
     ms \<leftarrow> arr_set (T_metric v) (int cur) (metric_floor m');
     Some (v\<lparr>T_metric := ms\<rparr>) }"

definition update_L_core :: "kernel \<Rightarrow> bio \<Rightarrow> nat \<Rightarrow> blk_switch_vars \<Rightarrow> blk_switch_vars option" where
  "update_L_core k b cur v = do {
     lb \<leftarrow> arr_get (L_bytes v) (int cur);
     m \<leftarrow> arr_get (L_metric v) (int cur);
     let m' = (if \<not> blk_switch_is_thru_request k (Some b) then metric_update m (ucast lb + bi_size b) else m);
     ms \<leftarrow> arr_set (L_metric v) (int cur) (metric_floor m');
     Some (v\<lparr>L_metric := ms\<rparr>) }"

text \<open>Every 10 ms the metrics are copied for the search and the turn passes to the other class.\<close>

definition appstr_interval :: "kernel \<Rightarrow> nat \<Rightarrow> blk_switch_vars \<Rightarrow> blk_switch_vars option" where
  "appstr_interval k n v =
     (if last_appstr v = 0
      then Some (v\<lparr>last_appstr := jiffies k + msecs_to_jiffies k BLK_SWITCH_APPSTR_INTERVAL\<rparr>)
      else if time_after (jiffies k) (last_appstr v) then do {
        ta \<leftarrow> arr_copy n (T_metric v) (T_appstr v);
        la \<leftarrow> arr_copy n (L_metric v) (L_appstr v);
        Some (v\<lparr>T_appstr := ta, L_appstr := la,
                last_appstr := jiffies k + msecs_to_jiffies k BLK_SWITCH_APPSTR_INTERVAL,
                appstr_app := (if appstr_app v = BLK_SWITCH_T_APP then BLK_SWITCH_L_APP
                               else BLK_SWITCH_T_APP)\<rparr>) }
      else Some v)"

subsection \<open>Search for a core\<close>

definition node_cpus :: "nat \<Rightarrow> nat \<Rightarrow> int \<Rightarrow> int list" where
  "node_cpus n_cpus n_nodes node = map (\<lambda>i. int (i * n_nodes) + node) [0..<n_cpus div n_nodes]"

text \<open>One pass of the loop over the cores of the node; \<open>break\<close> ends it with no target.\<close>

fun app_search :: "blk_switch_vars \<Rightarrow> bool \<Rightarrow> int \<Rightarrow> u64 \<Rightarrow> u64 \<Rightarrow> int list \<Rightarrow> int \<times> u64 \<Rightarrow> (int \<times> u64) option"
where
  "app_search v thru cur L_core T_core [] (target, min_metric) = Some (target, min_metric)"
| "app_search v thru cur L_core T_core (iter_cpu # cs) (target, min_metric) = do {
     iter_L \<leftarrow> arr_get (L_appstr v) iter_cpu;
     iter_T \<leftarrow> arr_get (T_appstr v) iter_cpu;
     if iter_cpu = cur \<or> BLK_SWITCH_THRESH_L < iter_L
     then app_search v thru cur L_core T_core cs (target, min_metric)
     else if appstr_app v = BLK_SWITCH_L_APP \<and> \<not> thru then
       (if T_core \<noteq> 0 \<and> iter_L \<noteq> 0 \<and> iter_L + iter_T < L_core + T_core \<and> iter_L + iter_T < min_metric
        then app_search v thru cur L_core T_core cs (iter_cpu, iter_L + iter_T)
        else app_search v thru cur L_core T_core cs (target, min_metric))
     else if appstr_app v = BLK_SWITCH_T_APP \<and> thru then
       (if L_core < iter_L \<and> iter_L < BLK_SWITCH_THRESH_L then Some (-1, min_metric)
        else if iter_L < L_core \<and> iter_T < min_metric
        then app_search v thru cur L_core T_core cs (iter_cpu, iter_T)
        else app_search v thru cur L_core T_core cs (target, min_metric))
     else app_search v thru cur L_core T_core cs (target, min_metric) }"

definition app_target :: "kernel \<Rightarrow> nat \<Rightarrow> bio \<Rightarrow> nat \<Rightarrow> int \<Rightarrow> blk_switch_vars \<Rightarrow> int option" where
  "app_target k n b cur node v = do {
     L_core \<leftarrow> arr_get (L_appstr v) (int cur);
     T_core \<leftarrow> arr_get (T_appstr v) (int cur);
     let thru = blk_switch_is_thru_request k (Some b);
     (t, m) \<leftarrow> app_search v thru (int cur) L_core T_core (node_cpus n (num_online_nodes k) node)
                 (-1, if \<not> thru then L_core + T_core else 8388608);
     Some t }"

subsection \<open>Moving the task\<close>

text \<open>
  The metric of the core that is left is cleared when no other queue uses its tags. The task then
  runs on the CPU that \<open>sched_setaffinity\<close> gave it; a failed allocation of the mask is a null
  pointer dereference. The result carries the CPU the task runs on.
\<close>

definition app_move ::
  "kernel \<Rightarrow> blk \<Rightarrow> bio \<Rightarrow> nat \<Rightarrow> nat \<Rightarrow> int \<Rightarrow> blk_switch_vars \<Rightarrow> (blk_switch_vars \<times> nat) option" where
  "app_move k s b cur h target v =
     (if 0 \<le> target then
        (if \<not> kcalloc_mask k then None else do {
           t \<leftarrow> hctx_tags (hctx_at s h);
           v1 \<leftarrow> (if active_queues (tagsp s t) \<le> 1 then
                   (if \<not> blk_switch_is_thru_request k (Some b)
                    then do { ms \<leftarrow> arr_set (L_metric v) (int cur) 0; Some (v\<lparr>L_metric := ms\<rparr>) }
                    else do { ms \<leftarrow> arr_set (T_metric v) (int cur) 0; Some (v\<lparr>T_metric := ms\<rparr>) })
                 else Some v);
           Some (v1, setaffinity_cpu k (nat target)) })
      else Some (v, current_cpu k))"

text \<open>The whole block: the state, the context and hardware context in use, and \<open>app_steered\<close>.\<close>

definition app_steering ::
  "kernel \<Rightarrow> nat \<Rightarrow> bio \<Rightarrow> u32 \<Rightarrow> nat \<Rightarrow> nat \<Rightarrow> blk \<Rightarrow> (blk \<times> nat \<times> nat \<times> bool) option" where
  "app_steering k n b flags c h s = do {
     let cur = ctx_cpu (ctx_at s c);
     v1 \<leftarrow> update_T_core k b cur (bsw s);
     v2 \<leftarrow> update_L_core k b cur v1;
     v3 \<leftarrow> appstr_interval k n v2;
     target \<leftarrow> app_target k n b cur (numa_node (hctx_at s h)) v3;
     (v4, cpu) \<leftarrow> app_move k s b cur h target v3;
     if cpu \<noteq> cur then do {
       c' \<leftarrow> per_cpu_ptr k (int cpu);
       Some (s\<lparr>bsw := v4\<rparr>, c', blk_mq_map_queue k flags (ctx_at s c'), True) }
     else Some (s\<lparr>bsw := v4\<rparr>, c, h, False) }"

section \<open>Request steering\<close>

text \<open>The number of active requests of the T-queue of a core.\<close>

definition core_active :: "blk \<Rightarrow> nat \<Rightarrow> int" where
  "core_active s c = nr_active (hctx_at s (ctx_hctxs (ctx_at s c) HCTX_TYPE_DEFAULT))"

text \<open>The threshold of request steering; the product with the module parameter is one of 32-bit numbers.\<close>

definition req_thresh :: "blk_switch_vars \<Rightarrow> blk_mq_hw_ctx \<Rightarrow> int" where
  "req_thresh v hctx =
     (if 0 < blk_switch_thresh_B v then sint (word_of_int (blk_switch_thresh_B v * 2) :: 32 word)
      else if hctx_transport hctx = BLK_SWITCH_TCP then BLK_SWITCH_TCP_BATCH * 2
      else BLK_SWITCH_TCP_BATCH div 2)"

text \<open>
  \<open>driver_queue->nr_req\<close>, read through a pointer to \<open>struct nvme_tcp_queue\<close>: undefined when the
  driver data is something else.
\<close>

fun driver_nr_req :: "kernel \<Rightarrow> driver_data \<Rightarrow> int option" where
  "driver_nr_req k (Nvme_tcp_queue n) = Some (tcp_nr_req k n)"
| "driver_nr_req k _ = None"

text \<open>How far the T-queue of a core is from a full batch; 0 on transports other than TCP.\<close>

definition batch_room :: "kernel \<Rightarrow> blk \<Rightarrow> blk_mq_hw_ctx \<Rightarrow> nat \<Rightarrow> int option" where
  "batch_room k s hctx c =
     (if hctx_transport hctx = BLK_SWITCH_TCP then do {
        r \<leftarrow> driver_nr_req k (hctx_driver_data (hctx_at s (ctx_hctxs (ctx_at s c) HCTX_TYPE_DEFAULT)));
        Some (BLK_SWITCH_TCP_BATCH - r) }
      else Some 0)"

record req_scan =
  rs_target :: int
  rs_min_nr :: int
  rs_min_active :: int
  rs_rnd :: nat

text \<open>The choice between the best core so far and a core that can take the request.\<close>

definition req_scan_pick :: "kernel \<Rightarrow> int \<Rightarrow> int \<Rightarrow> int \<Rightarrow> int \<Rightarrow> req_scan \<Rightarrow> req_scan" where
  "req_scan_pick k cur cpu0 nr T_active r =
     (if nr < rs_min_nr r
      then r\<lparr>rs_target := cpu0, rs_min_nr := nr, rs_min_active := T_active\<rparr>
      else if nr = rs_min_nr r then
        (if T_active < rs_min_active r
         then r\<lparr>rs_target := cpu0, rs_min_active := T_active\<rparr>
         else if T_active = rs_min_active r then
           (if cpu0 = cur then r\<lparr>rs_target := cpu0\<rparr>
            else if rs_target r \<noteq> cur then
              (if unat (random_byte k (rs_rnd r)) mod 2 = 0
               then r\<lparr>rs_target := cpu0, rs_rnd := Suc (rs_rnd r)\<rparr>
               else r\<lparr>rs_rnd := Suc (rs_rnd r)\<rparr>)
            else r)
         else r)
      else r)"

text \<open>The body of the loop over the cores of the node.\<close>

definition req_scan_step ::
  "kernel \<Rightarrow> blk \<Rightarrow> blk_mq_hw_ctx \<Rightarrow> int \<Rightarrow> int \<Rightarrow> req_scan \<Rightarrow> req_scan option" where
  "req_scan_step k s hctx cur cpu0 r = do {
     c \<leftarrow> per_cpu_ptr k cpu0;
     lm \<leftarrow> arr_get (L_metric (bsw s)) cpu0;
     nr \<leftarrow> batch_room k s hctx c;
     Some (if lm = 0 \<and> (hctx_transport hctx = BLK_SWITCH_RDMA \<or>
                         (hctx_transport hctx = BLK_SWITCH_TCP \<and> core_active s c < BLK_SWITCH_TCP_BATCH))
           then req_scan_pick k cur cpu0 nr (core_active s c) r else r) }"

text \<open>
  Power of two choices: two different cores of the node at random, and the one with fewer active
  requests. The second draw is repeated until it differs from the first.
\<close>

partial_function (option) draw_other ::
  "kernel \<Rightarrow> nat \<Rightarrow> nat \<Rightarrow> int \<Rightarrow> int \<Rightarrow> nat \<Rightarrow> (int \<times> nat) option" where
  "draw_other k n n_nodes node cpu0 pos =
     (let cpu1 = int ((unat (random_byte k pos) mod n) * n_nodes) + node in
      if cpu0 = cpu1 then draw_other k n n_nodes node cpu0 (Suc pos)
      else Some (cpu1, Suc pos))"

definition two_choices :: "kernel \<Rightarrow> blk \<Rightarrow> nat \<Rightarrow> int \<Rightarrow> nat \<Rightarrow> (int \<times> nat) option" where
  "two_choices k s n node pos = do {
     let m = n div num_online_nodes k;
     let cpu0 = int ((unat (random_byte k pos) mod m) * num_online_nodes k) + node;
     (cpu1, pos') \<leftarrow> draw_other k m (num_online_nodes k) node cpu0 (Suc pos);
     c0 \<leftarrow> per_cpu_ptr k cpu0;
     c1 \<leftarrow> per_cpu_ptr k cpu1;
     Some (if core_active s c0 \<le> core_active s c1 then cpu0 else cpu1, pos') }"

definition arr_inc :: "int list \<Rightarrow> int \<Rightarrow> int list option" where
  "arr_inc xs i = do { x \<leftarrow> arr_get xs i; arr_set xs i (x + 1) }"

text \<open>Choice of the core for a T-request: its own while that is not busy, then the scan, then the draw.\<close>

definition req_target :: "kernel \<Rightarrow> nat \<Rightarrow> nat \<Rightarrow> nat \<Rightarrow> blk \<Rightarrow> (int \<times> blk) option" where
  "req_target k n c h s = do {
     let hctx = hctx_at s h;
     let cur = int (ctx_cpu (ctx_at s c));
     if core_active s c \<le> req_thresh (bsw s) hctx then Some (cur, s)
     else do {
       st \<leftarrow> arr_inc (stats_str (bsw s)) cur;
       let s1 = s\<lparr>bsw := (bsw s)\<lparr>stats_str := st\<rparr>\<rparr>;
       r \<leftarrow> for_each (req_scan_step k s1 hctx cur) (node_cpus n (num_online_nodes k) (numa_node hctx))
              \<lparr>rs_target = -1, rs_min_nr = 1024, rs_min_active = 2048, rs_rnd = rnd_pos s\<rparr>;
       if rs_target r < 0 then do {
         (t, pos) \<leftarrow> two_choices k s1 n (numa_node hctx) (rs_rnd r);
         Some (t, s1\<lparr>rnd_pos := pos\<rparr>) }
       else Some (rs_target r, s1\<lparr>rnd_pos := rs_rnd r\<rparr>) } }"

definition req_steering :: "kernel \<Rightarrow> nat \<Rightarrow> u32 \<Rightarrow> nat \<Rightarrow> nat \<Rightarrow> blk \<Rightarrow> (blk \<times> nat \<times> nat \<times> bool) option" where
  "req_steering k n flags c h s = do {
     let cur = int (ctx_cpu (ctx_at s c));
     (target, s1) \<leftarrow> req_target k n c h s;
     g \<leftarrow> arr_inc (stats_gen (bsw s1)) cur;
     let s2 = s1\<lparr>bsw := (bsw s1)\<lparr>stats_gen := g\<rparr>\<rparr>;
     if cur \<noteq> target then do {
       p \<leftarrow> arr_inc (stats_prc (bsw s2)) target;
       c' \<leftarrow> per_cpu_ptr k target;
       Some (s2\<lparr>bsw := (bsw s2)\<lparr>stats_prc := p\<rparr>\<rparr>, c',
             blk_mq_map_queue k flags (ctx_at s2 c'), True) }
     else Some (s2, c, h, False) }"

text \<open>
  The three blocks in the order of \<open>blk_mq_get_request\<close>, for a given context and hardware context:
  the new state, the context and hardware context to use, and \<open>req_steered\<close>.
\<close>

definition blk_switch_steer ::
  "kernel \<Rightarrow> bio option \<Rightarrow> u32 \<Rightarrow> nat \<Rightarrow> nat \<Rightarrow> blk \<Rightarrow> (blk \<times> nat \<times> nat \<times> bool) option" where
  "blk_switch_steer k bo flags c h s = do {
     let n = steer_nr_cpus k (bsw s);
     s1 \<leftarrow> (if blk_switch_request bo (hctx_at s h)
            then do { v \<leftarrow> blk_switch_idle_reset k n (bsw s); Some (s\<lparr>bsw := v\<rparr>) }
            else Some s);
     (s2, c2, h2, app) \<leftarrow>
       (if 2 \<le> blk_switch_on (bsw s1) \<and> blk_switch_request bo (hctx_at s1 h)
        then app_steering k n (the bo) flags c h s1 else Some (s1, c, h, False));
     (if 1 \<le> blk_switch_on (bsw s2) \<and> blk_switch_request bo (hctx_at s2 h2) \<and>
         blk_switch_is_thru_request k bo \<and> \<not> app \<and> num_online_nodes k * 2 \<le> n
      then req_steering k n flags c2 h2 s2 else Some (s2, c2, h2, False)) }"

end
