(* ===== verification/Blk_Switch_Correct.thy ===== *)
theory Blk_Switch_Correct
  imports Blk_Switch
begin

text \<open>
  Correctness of blk-switch: the metrics are moving averages, the two searches pick a core that is
  best among the admissible ones of the same NUMA node, the power-of-two draw ends, and the steering
  code as a whole has a defined result on a machine of at most 64 CPUs whose T-queues belong to the
  TCP driver.
\<close>

section \<open>Metrics\<close>

lemma sint_small:
  assumes "unat (s::u32) < 2147483648"
  shows "sint s = int (unat s)"
proof -
  have "uint s < 2147483648" unfolding uint_nat using assms by linarith
  moreover have "- 2147483648 \<le> uint s" by (rule order_trans [of _ 0]) simp_all
  ultimately have "signed_take_bit 31 (uint s) = uint s" by (intro signed_take_bit_int_eq_self) simp_all
  then show ?thesis by (simp add: sint_uint)
qed

lemma unat_of_nat_small: "n < 18446744073709551616 \<Longrightarrow> unat (of_nat n :: u64) = n"
  by (simp add: unat_of_nat)

lemma scast_small: "unat (s::u32) < 2147483648 \<Longrightarrow> (scast s :: u64) = of_nat (unat s)"
  by (simp only: scast_eq sint_small of_int_of_nat_eq)

lemma unat_scast_small: "unat (s::u32) < 2147483648 \<Longrightarrow> unat (scast s :: u64) = unat s"
  by (simp only: scast_small unat_of_nat_small)

lemma scast_shift:
  assumes "unat (s::u32) < 2147483648"
  shows "(scast (signed_drop_bit 3 s) :: u64) = of_nat (unat s div 8)"
proof -
  have "sint (signed_drop_bit 3 s) = int (unat s) div 8"
    by (simp only: sint_signed_drop_bit_eq sint_small [OF assms]) (simp add: drop_bit_eq_div)
  then show ?thesis by (simp only: scast_eq zdiv_int of_int_of_nat_eq) (metis of_int_of_nat_eq of_nat_numeral zdiv_int)
qed

lemma unat_shift3: "unat (drop_bit 3 (m::u64)) = unat m div 8"
  by (simp only: unat_drop_bit_eq) (simp add: drop_bit_eq_div)

lemma metric_update_val:
  assumes "unat m < 2147483648" "unat s < 2147483648"
  shows "unat (metric_update m s) = (if m = 0 then unat s else unat m - unat m div 8 + unat s div 8)"
proof (cases "m = 0")
  case True
  then show ?thesis using assms by (simp only: metric_update_def unat_scast_small if_True refl)
next
  case False
  have le: "drop_bit 3 m \<le> m" by (simp only: word_le_nat_alt unat_shift3 div_le_dividend)
  have a: "unat (m - drop_bit 3 m) = unat m - unat m div 8"
    by (simp only: unat_sub [OF le] unat_shift3)
  have b: "unat (of_nat (unat s div 8) :: u64) = unat s div 8"
    using assms by (intro unat_of_nat_small) simp
  have "unat m - unat m div 8 + unat s div 8 < 2 ^ LENGTH(64)"
    using assms by simp
  then have "unat (m - drop_bit 3 m + of_nat (unat s div 8)) = unat m - unat m div 8 + unat s div 8"
    by (subst unat_add_lem [THEN iffD1]) (simp_all only: a b)
  then show ?thesis using False by (simp only: metric_update_def scast_shift [OF assms(2)] if_False)
qed

lemma shift_avg_range:
  fixes m s :: nat
  shows "m - m div 8 + s div 8 \<le> max m s" "min m s \<le> m - m div 8 + s div 8"
  by (simp_all add: max_def min_def; linarith)+

lemma metric_update_range:
  assumes "unat m < 2147483648" "unat s < 2147483648"
  shows "unat (metric_update m s) \<le> max (unat m) (unat s)"
    and "min (unat m) (unat s) \<le> unat (metric_update m s)"
  using shift_avg_range [of "unat m" "unat s"] unfolding metric_update_val [OF assms] by auto

interpretation metric: moving_average metric_update unat unat 2147483648
  by unfold_locales (rule metric_update_range; assumption)+

section \<open>Cores of a node\<close>

lemma node_cpus_bounds:
  assumes "c \<in> set (node_cpus n m node)" "0 \<le> node" "node < int m"
  shows "0 \<le> c" "c < int n" "c mod int m = node"
proof -
  obtain i where i: "i < n div m" "c = int (i * m) + node"
    using assms(1) by (auto simp: node_cpus_def)
  have "Suc i * m \<le> n div m * m" using i(1) by (intro mult_le_mono1) simp
  also have "\<dots> \<le> n" by simp
  finally have "i * m + m \<le> n" by simp
  then have "int (i * m) + int m \<le> int n" by (metis of_nat_add of_nat_le_iff)
  then show "c < int n" using i(2) assms(3) by linarith
  show "0 \<le> c" using i(2) assms(2) by simp
  show "c mod int m = node" using i(2) assms(2,3) by simp
qed

section \<open>The scan of request steering\<close>

text \<open>
  A core can take a foreign T-request when it runs no L-application and its T-queue holds less than
  a batch; among such cores the scan prefers the fullest batch and then the fewest active requests.
\<close>

definition steer_cand :: "kernel \<Rightarrow> blk \<Rightarrow> blk_mq_hw_ctx \<Rightarrow> int \<Rightarrow> bool" where
  "steer_cand k s hctx c \<longleftrightarrow> 0 \<le> c \<and> L_metric (bsw s) ! nat c = 0 \<and>
     (hctx_transport hctx = BLK_SWITCH_RDMA \<or>
      (hctx_transport hctx = BLK_SWITCH_TCP \<and> core_active s (nat c) < BLK_SWITCH_TCP_BATCH))"

definition steer_cost :: "kernel \<Rightarrow> blk \<Rightarrow> blk_mq_hw_ctx \<Rightarrow> int \<Rightarrow> int \<times> int" where
  "steer_cost k s hctx c = (the (batch_room k s hctx (nat c)), core_active s (nat c))"

definition scan_best :: "req_scan \<Rightarrow> int option" where
  "scan_best r = (if rs_target r < 0 then None else Some (rs_target r))"

definition scan_bound :: "req_scan \<Rightarrow> int \<times> int" where
  "scan_bound r = (rs_min_nr r, rs_min_active r)"

lemmas scan_defs = steer_cand_def steer_cost_def scan_best_def scan_bound_def

lemma req_scan_step_Some:
  assumes "req_scan_step k s hctx cur c r = Some r'"
  shows "0 \<le> c"
    and "r' = (if steer_cand k s hctx c
               then req_scan_pick k cur c (fst (steer_cost k s hctx c)) (snd (steer_cost k s hctx c)) r
               else r)"
  using assms
  by (auto simp: req_scan_step_def scan_defs per_cpu_ptr_def arr_get_eq_Some split: bind_splits if_splits)

lemma req_scan_pick_cost:
  assumes "0 \<le> c"
  shows "p < scan_bound r \<Longrightarrow> scan_best (req_scan_pick k cur c (fst p) (snd p) r) = Some c \<and>
      scan_bound (req_scan_pick k cur c (fst p) (snd p) r) = p"
    and "p = scan_bound r \<Longrightarrow> (scan_best (req_scan_pick k cur c (fst p) (snd p) r) = scan_best r \<or>
      scan_best (req_scan_pick k cur c (fst p) (snd p) r) = Some c) \<and>
      scan_bound (req_scan_pick k cur c (fst p) (snd p) r) = scan_bound r"
    and "scan_bound r < p \<Longrightarrow> scan_best (req_scan_pick k cur c (fst p) (snd p) r) = scan_best r \<and>
      scan_bound (req_scan_pick k cur c (fst p) (snd p) r) = scan_bound r"
  using assms by (cases p; auto simp: req_scan_pick_def scan_best_def scan_bound_def)+

interpretation reqscan: min_scan "steer_cand k s hctx" "steer_cost k s hctx" scan_best scan_bound
  "req_scan_step k s hctx cur" for k s hctx cur
  by unfold_locales
    (frule req_scan_step_Some(1), drule req_scan_step_Some(2),
     simp only: if_True if_False req_scan_pick_cost simp_thms)+

section \<open>Request steering\<close>

abbreviation scan_init :: "nat \<Rightarrow> req_scan" where
  "scan_init pos \<equiv> \<lparr>rs_target = -1, rs_min_nr = 1024, rs_min_active = 2048, rs_rnd = pos\<rparr>"

lemma scan_init_sound: "reqscan.sound k s hctx (scan_init pos)"
  by (simp add: reqscan.sound_def scan_best_def)

lemma scan_result:
  assumes "for_each (req_scan_step k s hctx cur) cs (scan_init pos) = Some r"
  shows "0 \<le> rs_target r \<Longrightarrow> rs_target r \<in> set cs \<and> steer_cand k s hctx (rs_target r) \<and>
           (\<forall>c\<in>set cs. steer_cand k s hctx c \<longrightarrow> steer_cost k s hctx (rs_target r) \<le> steer_cost k s hctx c)"
    and "rs_target r < 0 \<Longrightarrow> \<forall>c\<in>set cs. steer_cand k s hctx c \<longrightarrow> (1024, 2048) \<le> steer_cost k s hctx c"
proof -
  have snd: "reqscan.sound k s hctx r"
    using reqscan.scan_sound [OF assms scan_init_sound] .
  have best: "scan_best r = None \<or> (\<exists>i\<in>set cs. scan_best r = Some i)"
    using reqscan.scan_best_in [OF assms] by (simp add: scan_best_def)
  {
    assume t: "0 \<le> rs_target r"
    then have b: "scan_best r = Some (rs_target r)" by (simp add: scan_best_def)
    with snd have "steer_cand k s hctx (rs_target r)" "steer_cost k s hctx (rs_target r) = scan_bound r"
      by (auto simp: reqscan.sound_def)
    with best b reqscan.scan_minimal [OF assms]
    show "rs_target r \<in> set cs \<and> steer_cand k s hctx (rs_target r) \<and>
      (\<forall>c\<in>set cs. steer_cand k s hctx c \<longrightarrow> steer_cost k s hctx (rs_target r) \<le> steer_cost k s hctx c)"
      by auto
  }
  {
    assume t: "rs_target r < 0"
    then have "scan_best r = None" by (simp add: scan_best_def)
    with reqscan.scan_finds [OF assms]
    show "\<forall>c\<in>set cs. steer_cand k s hctx c \<longrightarrow> (1024, 2048) \<le> steer_cost k s hctx c"
      by (force simp: scan_bound_def not_less [symmetric])
  }
qed

section \<open>Power of two choices\<close>

definition fair_random :: "kernel \<Rightarrow> bool" where
  "fair_random k \<longleftrightarrow> (\<forall>p b. \<exists>q\<ge>p. random_byte k q = b)"

abbreviation draw_cpu :: "kernel \<Rightarrow> nat \<Rightarrow> nat \<Rightarrow> int \<Rightarrow> nat \<Rightarrow> int" where
  "draw_cpu k m n_nodes node q \<equiv> int ((unat (random_byte k q) mod m) * n_nodes) + node"

lemma draw_other_returns:
  assumes "p \<le> q" "draw_cpu k m n_nodes node q \<noteq> cpu0"
  shows "\<exists>j. p \<le> j \<and> draw_cpu k m n_nodes node j \<noteq> cpu0 \<and>
           draw_other k m n_nodes node cpu0 p = Some (draw_cpu k m n_nodes node j, Suc j)"
  using assms(1)
proof (induction p rule: inc_induct)
  case base
  show ?case using assms(2) by (subst draw_other.simps) (auto simp: Let_def)
next
  case (step p)
  show ?case
  proof (cases "draw_cpu k m n_nodes node p = cpu0")
    case True
    then have "draw_other k m n_nodes node cpu0 p = draw_other k m n_nodes node cpu0 (Suc p)"
      by (subst draw_other.simps) (simp add: Let_def)
    with step.IH show ?thesis using Suc_leD by auto
  next
    case False
    then show ?thesis by (subst draw_other.simps) (auto simp: Let_def)
  qed
qed

lemma fair_draw_differs:
  assumes "fair_random k" "2 \<le> m" "0 < n_nodes"
  shows "\<exists>q\<ge>p. draw_cpu k m n_nodes node q \<noteq> cpu0"
proof -
  obtain q0 where q0: "q0 \<ge> p" "random_byte k q0 = 0" using assms(1) unfolding fair_random_def by blast
  obtain q1 where q1: "q1 \<ge> p" "random_byte k q1 = 1" using assms(1) unfolding fair_random_def by blast
  have "draw_cpu k m n_nodes node q0 = node" using q0 by simp
  moreover have "draw_cpu k m n_nodes node q1 = int n_nodes + node" using q1 assms(2) by simp
  ultimately show ?thesis using q0(1) q1(1) assms(3)
    by (metis add_0 add_right_cancel of_nat_0_eq_iff order_less_irrefl)
qed

lemma draw_cpu_in: "0 < n div m \<Longrightarrow> draw_cpu k (n div m) m node q \<in> set (node_cpus n m node)"
  by (auto simp: node_cpus_def)

lemma node_two:
  assumes "0 < m" "m * 2 \<le> (n::nat)"
  shows "2 \<le> n div m"
  using div_le_mono [OF assms(2), of m] assms(1) by simp

lemma per_cpu_ptr_node:
  assumes "c \<in> set (node_cpus n m node)" "0 \<le> node" "node < int m" "n \<le> nr_cpu_ids k"
  shows "per_cpu_ptr k c = Some (nat c)"
  using node_cpus_bounds [OF assms(1-3)] assms(4) by (simp add: per_cpu_ptr_def)

lemma two_choices_correct:
  assumes fair: "fair_random k" and nodes: "0 < num_online_nodes k" "num_online_nodes k * 2 \<le> n"
    and node: "0 \<le> node" "node < int (num_online_nodes k)" and ids: "n \<le> nr_cpu_ids k"
  shows "\<exists>t u pos'. two_choices k s n node pos = Some (t, pos') \<and>
     t \<in> set (node_cpus n (num_online_nodes k) node) \<and> u \<in> set (node_cpus n (num_online_nodes k) node) \<and>
     u \<noteq> t \<and> core_active s (nat t) \<le> core_active s (nat u)"
proof -
  let ?m = "n div num_online_nodes k" and ?N = "num_online_nodes k"
  let ?cpu0 = "draw_cpu k ?m ?N node pos"
  have m: "2 \<le> ?m" using node_two nodes by blast
  obtain q where "Suc pos \<le> q" "draw_cpu k ?m ?N node q \<noteq> ?cpu0"
    using fair_draw_differs [OF fair m nodes(1)] by blast
  from draw_other_returns [OF this] obtain j where j: "draw_cpu k ?m ?N node j \<noteq> ?cpu0"
    "draw_other k ?m ?N node ?cpu0 (Suc pos) = Some (draw_cpu k ?m ?N node j, Suc j)" by blast
  let ?cpu1 = "draw_cpu k ?m ?N node j"
  have i: "?cpu0 \<in> set (node_cpus n ?N node)" "?cpu1 \<in> set (node_cpus n ?N node)"
    using draw_cpu_in m by auto
  have e: "two_choices k s n node pos =
      Some (if core_active s (nat ?cpu0) \<le> core_active s (nat ?cpu1) then ?cpu0 else ?cpu1, Suc j)"
    unfolding two_choices_def Let_def j(2)
    by (simp only: bind.bind_lunit split_conv per_cpu_ptr_node [OF i(1) node ids]
        per_cpu_ptr_node [OF i(2) node ids])
  show ?thesis
  proof (cases "core_active s (nat ?cpu0) \<le> core_active s (nat ?cpu1)")
    case True
    then have "two_choices k s n node pos = Some (?cpu0, Suc j)" using e by (simp only: if_True)
    then show ?thesis using i j(1) True by blast
  next
    case False
    then have "two_choices k s n node pos = Some (?cpu1, Suc j)" using e by (simp only: if_False)
    moreover have "core_active s (nat ?cpu1) \<le> core_active s (nat ?cpu0)" using False by (simp only: not_le less_imp_le)
    ultimately show ?thesis using i j(1) [symmetric] by blast
  qed
qed

section \<open>Request steering returns and picks the right core\<close>

definition blk_switch_wf :: "blk_switch_vars \<Rightarrow> bool" where
  "blk_switch_wf v \<longleftrightarrow>
     length (T_bytes v) = BLK_SWITCH_NR_CPUS \<and> length (L_bytes v) = BLK_SWITCH_NR_CPUS \<and>
     length (T_metric v) = BLK_SWITCH_NR_CPUS \<and> length (L_metric v) = BLK_SWITCH_NR_CPUS \<and>
     length (T_appstr v) = BLK_SWITCH_NR_CPUS \<and> length (L_appstr v) = BLK_SWITCH_NR_CPUS \<and>
     length (stats_print v) = BLK_SWITCH_NR_CPUS \<and> length (stats_gen v) = BLK_SWITCH_NR_CPUS \<and>
     length (stats_str v) = BLK_SWITCH_NR_CPUS \<and> length (stats_prc v) = BLK_SWITCH_NR_CPUS"

text \<open>
  The machine the code is written for: at most 64 CPUs, at least one node, every T-queue of the
  device driven by the TCP driver, and a fair source of random bytes.
\<close>

definition steer_machine :: "kernel \<Rightarrow> nat \<Rightarrow> blk \<Rightarrow> bool" where
  "steer_machine k n s \<longleftrightarrow> fair_random k \<and> 0 < num_online_nodes k \<and>
     n \<le> nr_cpu_ids k \<and> n \<le> BLK_SWITCH_NR_CPUS \<and>
     (\<forall>c<nr_cpu_ids k. \<exists>t. hctx_driver_data (hctx_at s (ctx_hctxs (ctx_at s c) HCTX_TYPE_DEFAULT)) = Nvme_tcp_queue t \<and>
        0 \<le> tcp_nr_req k t)"

definition on_node :: "kernel \<Rightarrow> blk_mq_hw_ctx \<Rightarrow> bool" where
  "on_node k hctx \<longleftrightarrow> 0 \<le> numa_node hctx \<and> numa_node hctx < int (num_online_nodes k)"

abbreviation node_cores :: "kernel \<Rightarrow> nat \<Rightarrow> blk_mq_hw_ctx \<Rightarrow> int set" where
  "node_cores k n hctx \<equiv> set (node_cpus n (num_online_nodes k) (numa_node hctx))"

lemma at_bsw [simp]:
  "core_active (s\<lparr>bsw := v\<rparr>) c = core_active s c"
  "ctx_at (s\<lparr>bsw := v\<rparr>) c = ctx_at s c"
  "hctx_at (s\<lparr>bsw := v\<rparr>) h = hctx_at s h"
  "batch_room k (s\<lparr>bsw := v\<rparr>) hctx c = batch_room k s hctx c"
  by (simp_all add: core_active_def ctx_at_def hctx_at_def batch_room_def)

lemma steer_cost_bsw [simp]: "steer_cost k (s\<lparr>bsw := v\<rparr>) hctx c = steer_cost k s hctx c"
  by (simp add: steer_cost_def)

lemma steer_cand_stats [simp]:
  "steer_cand k (s\<lparr>bsw := bsw s\<lparr>stats_str := x\<rparr>\<rparr>) hctx c = steer_cand k s hctx c"
  by (simp add: steer_cand_def)

lemma batch_room_returns:
  assumes "steer_machine k n s" "c < nr_cpu_ids k"
  shows "\<exists>r. batch_room k s hctx c = Some r \<and> r \<le> BLK_SWITCH_TCP_BATCH"
  using assms unfolding steer_machine_def batch_room_def
  by (force simp: BLK_SWITCH_TCP_BATCH_def)

lemma node_core_bounds:
  assumes "steer_machine k n s" "on_node k hctx" "c \<in> node_cores k n hctx"
  shows "0 \<le> c" "nat c < n" "nat c < nr_cpu_ids k" "nat c < BLK_SWITCH_NR_CPUS"
proof -
  have "0 \<le> c" "c < int n"
    using node_cpus_bounds [OF assms(3)] assms(2) by (auto simp: on_node_def)
  then show "0 \<le> c" "nat c < n" "nat c < nr_cpu_ids k" "nat c < BLK_SWITCH_NR_CPUS"
    using assms(1) by (auto simp: steer_machine_def)
qed

lemma req_scan_step_returns:
  assumes "steer_machine k n s" "on_node k hctx" "length (L_metric (bsw s)) = BLK_SWITCH_NR_CPUS"
    "c \<in> node_cores k n hctx"
  shows "\<exists>r'. req_scan_step k s hctx cur c r = Some r'"
proof -
  note b = node_core_bounds [OF assms(1,2,4)]
  obtain x where "batch_room k s hctx (nat c) = Some x"
    using batch_room_returns [OF assms(1) b(3)] by blast
  then show ?thesis using b assms(3) by (simp add: req_scan_step_def per_cpu_ptr_def)
qed

lemma steer_cost_small:
  assumes "steer_machine k n s" "on_node k hctx" "c \<in> node_cores k n hctx"
  shows "steer_cost k s hctx c < (1024, 2048)"
  using batch_room_returns [OF assms(1) node_core_bounds(3) [OF assms], of hctx]
  by (auto simp: steer_cost_def BLK_SWITCH_TCP_BATCH_def)

lemma arr_inc_Some:
  "0 \<le> i \<Longrightarrow> nat i < length xs \<Longrightarrow> arr_inc xs i = Some (xs[nat i := xs ! nat i + 1])"
  by (simp add: arr_inc_def)

text \<open>What the choice of a core guarantees when the local T-queue is busy.\<close>

definition good_core :: "kernel \<Rightarrow> nat \<Rightarrow> blk_mq_hw_ctx \<Rightarrow> blk \<Rightarrow> int \<Rightarrow> bool" where
  "good_core k n hctx s t \<longleftrightarrow> t \<in> node_cores k n hctx \<and>
     (if \<exists>c\<in>node_cores k n hctx. steer_cand k s hctx c
      then steer_cand k s hctx t \<and>
        (\<forall>c\<in>node_cores k n hctx. steer_cand k s hctx c \<longrightarrow> steer_cost k s hctx t \<le> steer_cost k s hctx c)
      else \<exists>u\<in>node_cores k n hctx. u \<noteq> t \<and> core_active s (nat t) \<le> core_active s (nat u))"

lemma req_target_busy:
  assumes m: "steer_machine k n s" and nd: "on_node k (hctx_at s h)" and wf: "blk_switch_wf (bsw s)"
    and two: "num_online_nodes k * 2 \<le> n" and cur: "ctx_cpu (ctx_at s c) < BLK_SWITCH_NR_CPUS"
    and busy: "req_thresh (bsw s) (hctx_at s h) < core_active s c"
  shows "\<exists>t s' st pos. req_target k n c h s = Some (t, s') \<and> good_core k n (hctx_at s h) s t \<and>
     s' = s\<lparr>bsw := (bsw s)\<lparr>stats_str := st\<rparr>, rnd_pos := pos\<rparr> \<and> length st = BLK_SWITCH_NR_CPUS"
proof -
  let ?hctx = "hctx_at s h" and ?cur = "int (ctx_cpu (ctx_at s c))"
  let ?cs = "node_cpus n (num_online_nodes k) (numa_node ?hctx)"
  obtain st where st: "arr_inc (stats_str (bsw s)) ?cur = Some st" "length st = BLK_SWITCH_NR_CPUS"
    using wf cur by (simp add: arr_inc_Some blk_switch_wf_def)
  let ?s1 = "s\<lparr>bsw := (bsw s)\<lparr>stats_str := st\<rparr>\<rparr>"
  have m1: "steer_machine k n ?s1" using m by (simp add: steer_machine_def)
  have "\<exists>r. for_each (req_scan_step k ?s1 ?hctx ?cur) ?cs (scan_init (rnd_pos s)) = Some r \<and> True"
    by (rule for_each_Some)
      (use req_scan_step_returns [OF m1 nd] wf in \<open>auto simp: blk_switch_wf_def\<close>)
  then obtain r where r: "for_each (req_scan_step k ?s1 ?hctx ?cur) ?cs (scan_init (rnd_pos s)) = Some r"
    by blast
  note res = scan_result [OF r]
  have unfold: "req_target k n c h s =
      (if rs_target r < 0 then do {
         (t, pos) \<leftarrow> two_choices k ?s1 n (numa_node ?hctx) (rs_rnd r); Some (t, ?s1\<lparr>rnd_pos := pos\<rparr>) }
       else Some (rs_target r, ?s1\<lparr>rnd_pos := rs_rnd r\<rparr>))"
    using busy st(1) r by (simp add: req_target_def Let_def)
  show ?thesis
  proof (cases "rs_target r < 0")
    case True
    have "0 < num_online_nodes k" "fair_random k" "n \<le> nr_cpu_ids k" using m by (auto simp: steer_machine_def)
    moreover have "0 \<le> numa_node ?hctx" "numa_node ?hctx < int (num_online_nodes k)"
      using nd by (auto simp: on_node_def)
    ultimately obtain t u pos where t: "two_choices k ?s1 n (numa_node ?hctx) (rs_rnd r) = Some (t, pos)"
      "t \<in> set ?cs" "u \<in> set ?cs" "u \<noteq> t" "core_active ?s1 (nat t) \<le> core_active ?s1 (nat u)"
      using two_choices_correct [of k n "numa_node ?hctx" ?s1 "rs_rnd r"] two by auto
    have "\<not> (\<exists>c\<in>set ?cs. steer_cand k s ?hctx c)"
      using res(2) [OF True] steer_cost_small [OF m nd] by (auto simp: not_le [symmetric])
    then have "good_core k n ?hctx s t" using t by (auto simp: good_core_def)
    then show ?thesis using unfold True t(1) st(2) by simp blast
  next
    case False
    have "good_core k n ?hctx s (rs_target r)"
      using res(1) False by (auto simp: good_core_def)
    then show ?thesis using unfold False st(2) by simp blast
  qed
qed

lemma req_target_local:
  assumes "core_active s c \<le> req_thresh (bsw s) (hctx_at s h)"
  shows "req_target k n c h s = Some (int (ctx_cpu (ctx_at s c)), s)"
  using assms by (simp add: req_target_def Let_def)

lemma req_target_choice:
  assumes "steer_machine k n s" "on_node k (hctx_at s h)" "blk_switch_wf (bsw s)"
    "num_online_nodes k * 2 \<le> n" "ctx_cpu (ctx_at s c) < BLK_SWITCH_NR_CPUS"
  shows "\<exists>t s'. req_target k n c h s = Some (t, s') \<and>
     (if core_active s c \<le> req_thresh (bsw s) (hctx_at s h)
      then t = int (ctx_cpu (ctx_at s c)) \<and> s' = s
      else good_core k n (hctx_at s h) s t)"
proof (cases "core_active s c \<le> req_thresh (bsw s) (hctx_at s h)")
  case True
  then show ?thesis using req_target_local by simp
next
  case False
  then have "\<exists>t s'. req_target k n c h s = Some (t, s') \<and> good_core k n (hctx_at s h) s t"
    using req_target_busy [OF assms] not_le by blast
  with False show ?thesis by simp
qed

definition inc_at :: "nat \<Rightarrow> int list \<Rightarrow> int list" where
  "inc_at i xs = xs[i := xs ! i + 1]"

lemma length_inc_at [simp]: "length (inc_at i xs) = length xs"
  by (simp add: inc_at_def)

lemma arr_inc_at [simp]: "i < length xs \<Longrightarrow> arr_inc xs (int i) = Some (inc_at i xs)"
  by (simp add: arr_inc_Some inc_at_def)





section \<open>The search of application steering\<close>

text \<open>
  A core attracts an L-application when it runs other L-applications, is below the L-threshold and
  carries less load in total; it attracts a T-application when it carries less L-load. A
  T-application stays while an L-application of another core has yet to move.
\<close>

definition app_cand :: "blk_switch_vars \<Rightarrow> bool \<Rightarrow> int \<Rightarrow> u64 \<Rightarrow> u64 \<Rightarrow> int \<Rightarrow> bool" where
  "app_cand v thru cur L_core T_core c \<longleftrightarrow> 0 \<le> c \<and> c \<noteq> cur \<and> L_appstr v ! nat c \<le> BLK_SWITCH_THRESH_L \<and>
     (if thru then appstr_app v = BLK_SWITCH_T_APP \<and> L_appstr v ! nat c < L_core
      else appstr_app v = BLK_SWITCH_L_APP \<and> T_core \<noteq> 0 \<and> L_appstr v ! nat c \<noteq> 0 \<and>
           L_appstr v ! nat c + T_appstr v ! nat c < L_core + T_core)"

definition app_cost :: "blk_switch_vars \<Rightarrow> bool \<Rightarrow> int \<Rightarrow> u64" where
  "app_cost v thru c =
     (if thru then T_appstr v ! nat c else L_appstr v ! nat c + T_appstr v ! nat c)"

definition app_blocked :: "blk_switch_vars \<Rightarrow> bool \<Rightarrow> int \<Rightarrow> u64 \<Rightarrow> int \<Rightarrow> bool" where
  "app_blocked v thru cur L_core c \<longleftrightarrow> thru \<and> appstr_app v = BLK_SWITCH_T_APP \<and> c \<noteq> cur \<and>
     L_core < L_appstr v ! nat c \<and> L_appstr v ! nat c < BLK_SWITCH_THRESH_L"

definition app_step ::
  "blk_switch_vars \<Rightarrow> bool \<Rightarrow> int \<Rightarrow> u64 \<Rightarrow> u64 \<Rightarrow> int \<Rightarrow> int \<times> u64 \<Rightarrow> (int \<times> u64) option" where
  "app_step v thru cur L_core T_core c st = do {
     _ \<leftarrow> arr_get (L_appstr v) c;
     _ \<leftarrow> arr_get (T_appstr v) c;
     Some (if app_cand v thru cur L_core T_core c \<and> app_cost v thru c < snd st
           then (c, app_cost v thru c) else st) }"

definition app_best :: "int \<times> u64 \<Rightarrow> int option" where
  "app_best st = (if fst st < 0 then None else Some (fst st))"

interpretation appscan: min_scan "app_cand v thru cur L_core T_core" "app_cost v thru" app_best snd
  "app_step v thru cur L_core T_core" for v thru cur L_core T_core
  by unfold_locales (auto simp: app_step_def app_best_def app_cand_def split: bind_splits if_splits)

abbreviation appstr_len :: "blk_switch_vars \<Rightarrow> int list \<Rightarrow> bool" where
  "appstr_len v cs \<equiv> \<forall>c\<in>set cs. 0 \<le> c \<and> nat c < length (L_appstr v) \<and> nat c < length (T_appstr v)"

lemma app_search_step:
  assumes "0 \<le> c" "nat c < length (L_appstr v)" "nat c < length (T_appstr v)" 
    "\<not> app_blocked v thru cur L c"
  shows "app_search v thru cur L T (c # cs) st =
     app_search v thru cur L T cs (if app_cand v thru cur L T c \<and> app_cost v thru c < snd st
       then (c, app_cost v thru c) else st)"
proof -
  obtain t m where st: "st = (t, m)" by (cases st)
  define iL iT where i: "iL = L_appstr v ! nat c" "iT = T_appstr v ! nat c"
  have g: "arr_get (L_appstr v) c = Some iL" "arr_get (T_appstr v) c = Some iT"
    using assms(1-3) i by simp_all
  note e = app_search.simps(2) [of v thru cur L T c cs t m, unfolded g bind.bind_lunit]
  show ?thesis
  proof (cases "c = cur \<or> BLK_SWITCH_THRESH_L < iL")
    case True
    then have "\<not> app_cand v thru cur L T c" unfolding app_cand_def i [symmetric] by auto
    with True show ?thesis unfolding st e by (simp only: if_True if_False simp_thms)
  next
    case False
    show ?thesis
    proof (cases thru)
      case True
      have nb: "\<not> (appstr_app v = BLK_SWITCH_T_APP \<and> L < iL \<and> iL < BLK_SWITCH_THRESH_L)"
        using assms(4) True False unfolding app_blocked_def i [symmetric] by simp
      have cand: "app_cand v True cur L T c \<longleftrightarrow> appstr_app v = BLK_SWITCH_T_APP \<and> iL < L"
        "app_cost v True c = iT"
        using False assms(1) unfolding app_cand_def app_cost_def i [symmetric] by auto
      show ?thesis unfolding st e using True False nb by (auto simp: cand simp del: app_search.simps)
    next
      case nt: False
      have cand: "app_cand v False cur L T c \<longleftrightarrow> appstr_app v = BLK_SWITCH_L_APP \<and> T \<noteq> 0 \<and> iL \<noteq> 0 \<and> iL + iT < L + T"
        "app_cost v False c = iL + iT"
        using False assms(1) unfolding app_cand_def app_cost_def i [symmetric] by auto
      show ?thesis unfolding st e using nt False by (auto simp: cand simp del: app_search.simps)
    qed
  qed
qed

lemma app_search_scan:
  assumes "appstr_len v cs" "\<forall>c\<in>set cs. \<not> app_blocked v thru cur L c"
  shows "app_search v thru cur L T cs st = for_each (app_step v thru cur L T) cs st"
  using assms
proof (induction cs arbitrary: st)
  case Nil
  then show ?case by (cases st) simp
next
  case (Cons c cs)
  then have c: "0 \<le> c" "nat c < length (L_appstr v)" "nat c < length (T_appstr v)"
    "\<not> app_blocked v thru cur L c" by auto
  have IH: "app_search v thru cur L T cs st = for_each (app_step v thru cur L T) cs st" for st
    using Cons by auto
  have "app_step v thru cur L T c st = Some (if app_cand v thru cur L T c \<and> app_cost v thru c < snd st
       then (c, app_cost v thru c) else st)"
    using c by (simp add: app_step_def)
  then show ?case unfolding app_search_step [OF c] IH for_each.simps by (simp only: bind.bind_lunit)
qed

lemma app_search_blocked:
  assumes "appstr_len v cs" "\<exists>c\<in>set cs. app_blocked v thru cur L c"
  shows "\<exists>m. app_search v thru cur L T cs st = Some (-1, m)"
  using assms
proof (induction cs arbitrary: st)
  case (Cons c cs)
  then have c: "0 \<le> c" "nat c < length (L_appstr v)" "nat c < length (T_appstr v)" by auto
  show ?case
  proof (cases "app_blocked v thru cur L c")
    case True
    obtain t m where st: "st = (t, m)" by (cases st)
    show ?thesis unfolding st using True c
      by (auto simp: app_blocked_def BLK_SWITCH_L_APP_def BLK_SWITCH_T_APP_def dest: order_less_trans)
  next
    case False
    with Cons show ?thesis unfolding app_search_step [OF c False] by auto
  qed
qed simp

definition app_choice ::
  "blk_switch_vars \<Rightarrow> bool \<Rightarrow> int \<Rightarrow> u64 \<Rightarrow> u64 \<Rightarrow> int set \<Rightarrow> u64 \<Rightarrow> int \<Rightarrow> bool" where
  "app_choice v thru cur L T cores bound t \<longleftrightarrow>
     (if \<exists>c\<in>cores. app_blocked v thru cur L c then t = -1
      else if \<exists>c\<in>cores. app_cand v thru cur L T c \<and> app_cost v thru c < bound
      then t \<in> cores \<and> app_cand v thru cur L T t \<and>
           (\<forall>c\<in>cores. app_cand v thru cur L T c \<longrightarrow> app_cost v thru t \<le> app_cost v thru c)
      else t = -1)"

lemma for_each_app_step:
  assumes "appstr_len v cs"
  shows "\<exists>st'. for_each (app_step v thru cur L T) cs st = Some st' \<and> True"
  by (rule for_each_Some) (use assms in \<open>auto simp: app_step_def\<close>)

lemma app_step_target: "app_step v thru cur L T c st = Some st' \<Longrightarrow> fst st \<ge> -1 \<Longrightarrow> fst st' \<ge> -1"
  by (auto simp: app_step_def app_cand_def split: bind_splits if_splits)

lemma app_step_bound:
  "app_step v thru cur L T c st = Some st' \<Longrightarrow> 0 \<le> fst st \<longrightarrow> snd st < b \<Longrightarrow> snd st \<le> b \<Longrightarrow>
   (0 \<le> fst st' \<longrightarrow> snd st' < b) \<and> snd st' \<le> b"
  by (auto simp: app_step_def split: bind_splits if_splits)

lemma app_search_correct:
  assumes len: "appstr_len v cs"
  shows "\<exists>t m. app_search v thru cur L T cs (-1, bound) = Some (t, m) \<and>
     app_choice v thru cur L T (set cs) bound t"
proof (cases "\<exists>c\<in>set cs. app_blocked v thru cur L c")
  case True
  then show ?thesis using app_search_blocked [OF len] by (fastforce simp: app_choice_def)
next
  case False
  then have eq: "app_search v thru cur L T cs (-1, bound) = for_each (app_step v thru cur L T) cs (-1, bound)"
    by (intro app_search_scan [OF len]) auto
  obtain t m where s: "for_each (app_step v thru cur L T) cs (-1, bound) = Some (t, m)"
    using for_each_app_step [OF len] by force
  have ge: "-1 \<le> t"
    using for_each_inv [of cs "\<lambda>st. -1 \<le> fst st", OF _ _ s] app_step_target by fastforce
  have lt: "0 \<le> t \<longrightarrow> m < bound"
    using for_each_inv [of cs "\<lambda>st. (0 \<le> fst st \<longrightarrow> snd st < bound) \<and> snd st \<le> bound", OF _ _ s]
      app_step_bound [of v thru cur L T _ _ _ bound] by fastforce
  have sound: "appscan.sound v thru cur L T (t, m)"
    by (rule appscan.scan_sound [OF s]) (simp add: appscan.sound_def app_best_def)
  have mini: "c \<in> set cs \<Longrightarrow> app_cand v thru cur L T c \<Longrightarrow> m \<le> app_cost v thru c" for c
    using appscan.scan_minimal [OF s] by simp
  have "app_choice v thru cur L T (set cs) bound t"
  proof (cases "t < 0")
    case True
    then have "app_best (t, m) = None" by (simp add: app_best_def)
    then have "\<not> (\<exists>c\<in>set cs. app_cand v thru cur L T c \<and> app_cost v thru c < bound)"
      using appscan.scan_finds [OF s] by auto
    then show ?thesis using False ge True by (auto simp: app_choice_def)
  next
    case t: False
    then have b: "app_best (t, m) = Some t" by (simp add: app_best_def)
    have "t \<in> set cs" using appscan.scan_best_in [OF s] b by (auto simp: app_best_def)
    moreover have c: "app_cand v thru cur L T t" "app_cost v thru t = m"
      using sound b by (auto simp: appscan.sound_def)
    moreover have "app_cost v thru t < bound" using c(2) lt t by simp
    ultimately show ?thesis using False mini c by (auto simp: app_choice_def)
  qed
  with eq s show ?thesis by auto
qed

section \<open>The whole steering pipeline\<close>

text \<open>The module parameters, which no step changes.\<close>

definition bs_params :: "blk_switch_vars \<Rightarrow> int \<times> int \<times> int \<times> int" where
  "bs_params v = (blk_switch_on v, blk_switch_thresh_B v, blk_switch_nr_cpus v, blk_switch_debug v)"

definition keeps :: "blk_switch_vars \<Rightarrow> blk_switch_vars \<Rightarrow> bool" where
  "keeps v v' \<longleftrightarrow> blk_switch_wf v' \<and> bs_params v' = bs_params v"


lemmas keep_defs = keeps_def blk_switch_wf_def bs_params_def

lemma reset_keeps:
  assumes "blk_switch_wf v" "n \<le> BLK_SWITCH_NR_CPUS"
  shows "\<exists>v'. blk_switch_reset k n v = Some v' \<and> keeps v v'"
proof (cases "reset_metrics v = 0 \<or> time_after (jiffies k) (reset_metrics v)")
  case True
  then show ?thesis using assms by (simp add: blk_switch_reset_def keep_defs arr_fill_Some)
next
  case False
  then show ?thesis using assms by (simp add: blk_switch_reset_def keep_defs)
qed







lemma app_target_correct:
  assumes "blk_switch_wf v" "n \<le> BLK_SWITCH_NR_CPUS" "cur < BLK_SWITCH_NR_CPUS"
    "0 \<le> node" "node < int (num_online_nodes k)"
  shows "\<exists>t. app_target k n b cur node v = Some t \<and>
     app_choice v (blk_switch_is_thru_request k (Some b)) (int cur) (L_appstr v ! cur) (T_appstr v ! cur)
       (set (node_cpus n (num_online_nodes k) node))
       (if blk_switch_is_thru_request k (Some b) then 8388608 else L_appstr v ! cur + T_appstr v ! cur) t"
proof -
  let ?thru = "blk_switch_is_thru_request k (Some b)" and ?L = "L_appstr v ! cur" and ?T = "T_appstr v ! cur"
  let ?cs = "node_cpus n (num_online_nodes k) node"
  let ?bound = "if ?thru then 8388608 else ?L + ?T"
  have "appstr_len v ?cs"
    using node_cpus_bounds [OF _ assms(4,5)] assms(1,2) by (force simp: blk_switch_wf_def)
  then obtain t m where tm: "app_search v ?thru (int cur) ?L ?T ?cs (-1, ?bound) = Some (t, m)"
    "app_choice v ?thru (int cur) ?L ?T (set ?cs) ?bound t" using app_search_correct by blast
  have "arr_get (L_appstr v) (int cur) = Some ?L" "arr_get (T_appstr v) (int cur) = Some ?T"
    using assms by (simp_all add: blk_switch_wf_def)
  moreover have "(if \<not> ?thru then ?L + ?T else 8388608) = ?bound" by simp
  ultimately have "app_target k n b cur node v = Some t"
    unfolding app_target_def Let_def using tm(1) by (simp only: bind.bind_lunit split_conv)
  with tm(2) show ?thesis by blast
qed




section \<open>Reset after an idle second\<close>

lemma blk_switch_reset_zero:
  assumes "blk_switch_wf v" "n \<le> BLK_SWITCH_NR_CPUS" "reset_metrics v = 0 \<or> time_after (jiffies k) (reset_metrics v)"
    "blk_switch_reset k n v = Some v'" "i < n"
  shows "T_bytes v' ! i = 0" "L_bytes v' ! i = 0" "T_metric v' ! i = 0" "L_metric v' ! i = 0"
    "T_appstr v' ! i = 0" "L_appstr v' ! i = 0"
  using assms by (auto simp: blk_switch_reset_def arr_fill_Some blk_switch_wf_def nth_append)

section \<open>Steering as a whole\<close>



lemma steer_nr_cpus_keeps: "keeps v v' \<Longrightarrow> steer_nr_cpus k v' = steer_nr_cpus k v"
  by (simp add: keep_defs steer_nr_cpus_def)



section \<open>A machine for the examples\<close>

definition ex_kernel :: kernel where
  "ex_kernel = \<lparr>jiffies = 5000, msecs_to_jiffies = of_nat, ktime_get_ns = 7, num_online_cpus = 4,
     num_online_nodes = 1, nr_cpu_ids = 4, smp_processor_id = 0, current_cpu = 0,
     setaffinity_cpu = (\<lambda>c. c mod 4), kcalloc_mask = True, random_byte = of_nat,
     tcp_nr_req = (\<lambda>_. 3), get_tag = (\<lambda>_ _ d. Some (5, d)),
     tag_busy = (\<lambda>h. BLK_MQ_F_TAG_SHARED \<in> hctx_flags h),
     tag_is_reserved = (\<lambda>t g. g < int (nr_reserved_tags t)), queue_enter = (\<lambda>_. None),
     add_timer = (\<lambda>r. r\<lparr>rq_deadline := 35000\<rparr>),
     update_request = (\<lambda>r _ _. (r\<lparr>rq_data_len := 0, rq_bio := None\<rparr>, False)),
     driver_timeout = (\<lambda>_. True), is_flush_rq = (\<lambda>_ _. False), queue_rq = (\<lambda>_ _. BLK_STS_OK),
     get_budget = (\<lambda>_. True), cpus_share_cache = (\<lambda>_ _. False), cpu_online = (\<lambda>_. True),
     fake_timeout = False, laptop_mode = False, rq_is_passthrough = (\<lambda>_. False),
     integrity_write = (\<lambda>_. False), queue_tryget = True,
     sched_has_work = (\<lambda>_. False), req_is_write = (\<lambda>f. f AND 1 \<noteq> 0),
     sched_mark_restart = (\<lambda>h. h\<lparr>hctx_state := insert BLK_MQ_S_SCHED_RESTART (hctx_state h)\<rparr>),
     sched_needs_restart = (\<lambda>h. BLK_MQ_S_SCHED_RESTART \<in> hctx_state h),
     REQ_RAHEAD = 524288, REQ_FAILFAST_MASK = 1792,
     bio_prep = (\<lambda>b n r. r\<lparr>rq_data_len := bi_size b, rq_bio := Some b, rq_ioprio := bi_ioprio b\<rparr>),
     IOPRIO_PRIO_CLASS = (\<lambda>p. uint p div 8192), ioprio_none_norm = 4,
     REQ_HIPRI = 33554432, REQ_PRIO = 4096, REQ_FUA = 131072, REQ_NOWAIT = 2097152,
     op_is_flush = (\<lambda>f. f AND 393216 \<noteq> 0), op_is_sync = (\<lambda>f. f AND 1 = 0), bio_sectors = (\<lambda>_. 8)\<rparr>"

definition ex_vars :: blk_switch_vars where
  "ex_vars = \<lparr>blk_switch_on = 2, blk_switch_thresh_B = 8, blk_switch_nr_cpus = 0, blk_switch_debug = 0,
     T_bytes = replicate 64 0, L_bytes = replicate 64 0, T_metric = replicate 64 0,
     L_metric = replicate 64 0, reset_metrics = 6000, T_appstr = replicate 64 0,
     L_appstr = replicate 64 0, last_appstr = 0, appstr_app = 0, stats_print = replicate 64 0,
     stats_gen = replicate 64 0, stats_str = replicate 64 0, stats_prc = replicate 64 0\<rparr>"

definition ex_hctx :: "nat \<Rightarrow> blk_mq_hw_ctx" where
  "ex_hctx h = \<lparr>hctx_dispatch = [], hctx_state = {}, hctx_cpumask = [h], next_cpu = int h,
     next_cpu_batch = 8, hctx_flags = {BLK_MQ_F_TAG_SHARED}, hctx_driver_data = Nvme_tcp_queue h,
     ctx_map = {}, dispatch_from = None, dispatch_busy = 0, blk_switch = True,
     hctx_type_of = HCTX_TYPE_DEFAULT, nr_ctx = 1, hctx_ctxs = [h], dispatch_wait = False,
     hctx_tags = Some h, sched_tags = None, hctx_queued = 0, hctx_run = 0, dispatched = (\<lambda>_. 0),
     numa_node = 0, queue_num = h, nr_active = (if h = 0 then 40 else int h), poll_considered = 0,
     poll_invoked = 0, poll_success = 0\<rparr>"

definition ex_ctx :: "nat \<Rightarrow> blk_mq_ctx" where
  "ex_ctx c = \<lparr>ctx_cpu = c, rq_lists = (\<lambda>_. []), index_hw = (\<lambda>_. 0),
     ctx_hctxs = (\<lambda>t. if t = HCTX_TYPE_READ then c + 4 else c), rq_dispatched = (\<lambda>_. 0),
     rq_merged = 0, rq_completed = (\<lambda>_. 0)\<rparr>"

definition ex_rq :: request where
  "ex_rq = \<lparr>mq_ctx = 0, mq_hctx = Some 0, cmd_flags = 0, rq_flags = 0, rq_tag = -1,
     internal_tag = -1, steered = False, rq_data_len = 4096, rq_sector = 0, rq_bio = None, rq_disk = None,
     rq_part = None, alloc_time_ns = 0, start_time_ns = 0, io_start_time_ns = 0, stats_sectors = 0,
     nr_phys_segments = 0, nr_integrity_segments = 0, write_hint = 0, rq_ioprio = 0, extra_len = 0,
     rq_state = MQ_RQ_IDLE, rq_ref = 0, rq_timeout = 0, rq_deadline = 0, end_io = None, elv_icq = None\<rparr>"

definition ex_blk :: blk where
  "ex_blk = \<lparr>bsw = ex_vars,
     the_q = \<lparr>queue_ctx = ex_ctx, queue_hw_ctx = ex_hctx, nr_hw_queues = 8, q_elevator = None,
       queue_flags = {}, q_requeue_list = [], mq_freeze_depth = 0, q_rq_timeout = 30000,
       nr_requests = 128,
       q_ops = \<lparr>has_commit_rqs = False, has_get_budget = False, has_put_budget = False,
         has_timeout = True, has_poll = False\<rparr>, dma_drain_size = 0, q_usage_dead = False\<rparr>,
     rqs = (\<lambda>_. ex_rq),
     tagsp = (\<lambda>_. \<lparr>nr_tags = 128, nr_reserved_tags = 1, active_queues = 1, ws_active = 0, static_rqs = id,
                    tags_rqs = (\<lambda>_. None)\<rparr>),
     rnd_pos = 0, drv_pos = 0, events = []\<rparr>"

definition ex_bio :: bio where
  "ex_bio = \<lparr>bi_opf = 1, bi_size = 65536, bi_ioprio = 4, bi_sector = 0, bi_write_hint = 0\<rparr>"

lemmas ex_defs = ex_kernel_def ex_vars_def ex_hctx_def ex_ctx_def ex_blk_def ex_bio_def

lemma ex_fair: "fair_random ex_kernel"
proof -
  have "p \<le> unat b + 256 * p \<and> of_nat (unat b + 256 * p) = b" for p and b :: u8
  proof -
    have "(of_nat (256 * p) :: u8) = of_nat 256 * of_nat p" by (rule of_nat_mult)
    also have "(of_nat 256 :: u8) = 0" by simp
    finally show ?thesis by (simp only: of_nat_add mult_zero_left) simp
  qed
  then show ?thesis unfolding fair_random_def ex_kernel_def kernel.simps by blast
qed

lemma ex_machine: "n \<le> 4 \<Longrightarrow> steer_machine ex_kernel n ex_blk"
  using ex_fair by (simp add: steer_machine_def ex_defs hctx_at_def ctx_at_def BLK_SWITCH_NR_CPUS_def)

lemma ex_wf: "blk_switch_wf (bsw ex_blk)"
  by (simp add: blk_switch_wf_def ex_defs BLK_SWITCH_NR_CPUS_def)

lemma ex_node: "on_node ex_kernel (hctx_at ex_blk h)"
  by (simp add: on_node_def ex_defs hctx_at_def)


section \<open>Properties\<close>



text \<open>
  C2: the core chosen for a T-request. While the local T-queue holds no more active requests than
  the threshold, the request stays. Otherwise, if some core of the node runs no L-application and has
  less than a batch outstanding, the choice is such a core, with the fullest i10 batch and then the
  fewest active requests; if there is none, the choice is no more loaded than some other core.
\<close>

theorem req_target_correct:
  assumes "steer_machine k n s" "on_node k (hctx_at s h)" "blk_switch_wf (bsw s)"
    "num_online_nodes k * 2 \<le> n" "ctx_cpu (ctx_at s c) < BLK_SWITCH_NR_CPUS"
  shows "\<exists>t s'. req_target k n c h s = Some (t, s') \<and>
     (if core_active s c \<le> req_thresh (bsw s) (hctx_at s h)
      then t = int (ctx_cpu (ctx_at s c)) \<and> s' = s
      else good_core k n (hctx_at s h) s t)"
  using assms by (rule req_target_choice)

theorem req_target_correct_witness:
  "req_thresh (bsw ex_blk) (hctx_at ex_blk 0) < core_active ex_blk 0 \<and>
   (\<exists>t s'. req_target ex_kernel 4 0 0 ex_blk = Some (t, s') \<and> good_core ex_kernel 4 (hctx_at ex_blk 0) ex_blk t)"
proof -
  have busy: "req_thresh (bsw ex_blk) (hctx_at ex_blk 0) < core_active ex_blk 0"
    by (simp add: req_thresh_def core_active_def hctx_at_def ctx_at_def ex_defs)
  have "ctx_cpu (ctx_at ex_blk 0) < BLK_SWITCH_NR_CPUS" "num_online_nodes ex_kernel * 2 \<le> 4"
    by (simp_all add: ctx_at_def ex_defs BLK_SWITCH_NR_CPUS_def)
  with req_target_correct [OF ex_machine [of 4] ex_node [of 0] ex_wf, of 0] busy show ?thesis by simp
qed

text \<open>
  C3: the core to which application steering moves a task. A T-application stays while another core
  of the node holds more L-load that is still below the L-threshold. Otherwise the target is an
  admissible core of minimal cost: for an L-application a core with L-load, below the threshold
  and with less load in total than the current one; for a T-application a core with less
  L-load. Without such a core the task stays.
\<close>

theorem app_target_minimal:
  assumes "blk_switch_wf v" "n \<le> BLK_SWITCH_NR_CPUS" "cur < BLK_SWITCH_NR_CPUS"
    "0 \<le> node" "node < int (num_online_nodes k)"
  shows "\<exists>t. app_target k n b cur node v = Some t \<and>
     app_choice v (blk_switch_is_thru_request k (Some b)) (int cur) (L_appstr v ! cur) (T_appstr v ! cur)
       (set (node_cpus n (num_online_nodes k) node))
       (if blk_switch_is_thru_request k (Some b) then 8388608 else L_appstr v ! cur + T_appstr v ! cur) t"
  using assms by (rule app_target_correct)

theorem app_target_minimal_witness:
  "\<exists>t. app_target ex_kernel 4 ex_bio 1 0 ex_vars = Some t \<and>
     app_choice ex_vars True 1 0 0 (set (node_cpus 4 1 0)) 8388608 t"
proof -
  have "blk_switch_is_thru_request ex_kernel (Some ex_bio)"
    by (simp add: blk_switch_is_thru_request_def ex_defs BLK_SWITCH_L_APP_def)
  moreover have "L_appstr ex_vars ! 1 = 0" "T_appstr ex_vars ! 1 = 0" "num_online_nodes ex_kernel = 1"
    by (simp_all add: ex_defs)
  ultimately show ?thesis
    using app_target_minimal [of ex_vars 4 1 0 ex_kernel ex_bio] ex_wf
    by (simp add: BLK_SWITCH_NR_CPUS_def ex_blk_def)
qed

text \<open>
  the load metrics are moving averages: as long as the samples and the start value stay below
  \<open>2^31\<close>, every value the metric takes lies between the smallest and the largest of them.
\<close>

theorem metric_between:
  assumes "b < 2147483648" "unat m \<in> {a..b}" "\<forall>s\<in>set ss. unat s \<in> {a..b}"
  shows "unat (foldl metric_update m ss) \<in> {a..b}"
  using assms by (rule metric.fold_range)

theorem metric_between_witness: "unat (foldl metric_update 4096 [65536, 131072]) \<in> {4096..131072}"
  by (rule metric_between) simp_all

text \<open>
  a request that comes at least a second after the last one starts from clean counters: the
  reset clears the byte counts, metrics and snapshots of every core in use.
\<close>

theorem idle_reset_clears:
  assumes "blk_switch_wf v" "n \<le> BLK_SWITCH_NR_CPUS" "time_after (jiffies k) (reset_metrics v)"
    "blk_switch_reset k n v = Some v'" "i < n"
  shows "T_bytes v' ! i = 0 \<and> L_bytes v' ! i = 0 \<and> T_metric v' ! i = 0 \<and> L_metric v' ! i = 0 \<and>
     T_appstr v' ! i = 0 \<and> L_appstr v' ! i = 0"
  using blk_switch_reset_zero [of v n k v' i] assms by blast

theorem idle_reset_clears_witness:
  "\<exists>v'. blk_switch_reset ex_kernel 4 (ex_vars\<lparr>reset_metrics := 4000, T_bytes := replicate 64 9\<rparr>) = Some v' \<and>
     T_bytes v' ! 3 = 0"
proof -
  let ?v = "ex_vars\<lparr>reset_metrics := 4000, T_bytes := replicate 64 9\<rparr>"
  have wf: "blk_switch_wf ?v" by (simp add: blk_switch_wf_def ex_defs BLK_SWITCH_NR_CPUS_def)
  obtain v' where v': "blk_switch_reset ex_kernel 4 ?v = Some v'"
    using reset_keeps [OF wf, of 4] by (auto simp: BLK_SWITCH_NR_CPUS_def)
  have "time_after (jiffies ex_kernel) (reset_metrics ?v)" by (simp add: time_after_def ex_defs)
  from idle_reset_clears [OF wf _ this v', of 3] v' show ?thesis by (simp add: BLK_SWITCH_NR_CPUS_def)
qed

text \<open>
  on a machine with more than 64 CPUs the reset leaves the arrays of \<open>block/blk-switch.h\<close>: its
  loop has no defined result.
\<close>

theorem reset_out_of_range:
  assumes "blk_switch_wf v" "BLK_SWITCH_NR_CPUS < n" "reset_metrics v = 0"
  shows "blk_switch_reset k n v = None"
  using assms by (simp add: blk_switch_reset_def blk_switch_wf_def arr_fill_None)

theorem reset_out_of_range_witness: "blk_switch_reset ex_kernel 65 (ex_vars\<lparr>reset_metrics := 0\<rparr>) = None"
  by (rule reset_out_of_range) (simp_all add: blk_switch_wf_def ex_defs BLK_SWITCH_NR_CPUS_def)

text \<open>
  C33: the RDMA driver sets \<open>blk_switch\<close> to 2, which the \<open>bool\<close> field stores as 1. The transport
  test for RDMA is therefore never true, and once the local queue is busy the scan reads the RDMA
  queue through a pointer to a TCP queue, which has no defined result.
\<close>

theorem rdma_steering_undefined:
  assumes rdma: "\<forall>h. \<exists>i h0. nvme_rdma_init_hctx qc i h0 = Some (hctx_at s h)"
    and busy: "req_thresh (bsw s) (hctx_at s h) < core_active s c" and n: "0 < n div num_online_nodes k"
  shows "hctx_transport (hctx_at s h) \<noteq> BLK_SWITCH_RDMA \<and> req_target k n c h s = None"
proof -
  have q: "blk_switch (hctx_at s x)" "\<exists>i. hctx_driver_data (hctx_at s x) = Nvme_rdma_queue i" for x
  proof -
    obtain i h0 where "nvme_rdma_init_hctx qc i h0 = Some (hctx_at s x)" using rdma by blast
    then have "hctx_at s x = h0\<lparr>blk_switch := True, hctx_driver_data := Nvme_rdma_queue (i + 1)\<rparr>"
      by (simp add: nvme_rdma_init_hctx_def split: if_splits)
    then show "blk_switch (hctx_at s x)" "\<exists>i. hctx_driver_data (hctx_at s x) = Nvme_rdma_queue i" by simp_all
  qed
  have room: "batch_room k s (hctx_at s h) x = None" for x
    using q(1) [of h] q(2) [of "ctx_hctxs (ctx_at s x) HCTX_TYPE_DEFAULT"]
    by (auto simp: batch_room_def hctx_transport_def BLK_SWITCH_TCP_def)
  have "req_scan_step k (s\<lparr>bsw := v\<rparr>) (hctx_at s h) cur x r = None" for v cur x r
    by (simp add: req_scan_step_def room split: bind_splits)
  moreover obtain x xs where "node_cpus n (num_online_nodes k) (numa_node (hctx_at s h)) = x # xs"
    using n by (cases "node_cpus n (num_online_nodes k) (numa_node (hctx_at s h))") (auto simp: node_cpus_def)
  ultimately have "req_target k n c h s = None"
    using busy by (simp add: req_target_def Let_def split: bind_splits)
  then show ?thesis using q(1) [of h] by (simp add: hctx_transport_def BLK_SWITCH_RDMA_def)
qed

definition ex_rdma :: blk where
  "ex_rdma = ex_blk\<lparr>the_q := (the_q ex_blk)\<lparr>queue_hw_ctx :=
     (\<lambda>h. (ex_hctx h)\<lparr>hctx_driver_data := Nvme_rdma_queue (h mod 8 + 1), blk_switch := True\<rparr>)\<rparr>\<rparr>"

theorem rdma_steering_undefined_witness:
  "hctx_transport (hctx_at ex_rdma 0) \<noteq> BLK_SWITCH_RDMA \<and> req_target ex_kernel 4 0 0 ex_rdma = None"
proof (rule rdma_steering_undefined)
  have "nvme_rdma_init_hctx 8 (h mod 8) (ex_hctx h) = Some (hctx_at ex_rdma h)" for h
    by (simp add: nvme_rdma_init_hctx_def hctx_at_def ex_rdma_def)
  then show "\<forall>h. \<exists>i h0. nvme_rdma_init_hctx 8 i h0 = Some (hctx_at ex_rdma h)" by blast
  show "req_thresh (bsw ex_rdma) (hctx_at ex_rdma 0) < core_active ex_rdma 0"
    by (simp add: req_thresh_def core_active_def hctx_at_def ctx_at_def ex_rdma_def ex_defs)
  show "0 < (4::nat) div num_online_nodes ex_kernel" by (simp add: ex_defs)
qed

end
