(* ===== verification/Blk_Mq_Request.thy ===== *)
theory Blk_Mq_Request
  imports Blk_Switch_Correct
begin

text \<open>
  The life of a request in \<open>block/blk-mq.c\<close>: allocation with the blk-switch accounting, start,
  completion, requeueing, timeout and release, and the driver tags of requests that a scheduler
  holds. The reference count and state of a request, the counter \<open>nr_active\<close> of its hardware
  context and the byte counts of its core are part of the state; the sbitmap behind the tags is not,
  so taking and returning a tag are recorded as events.
\<close>

section \<open>Allocation\<close>

definition blk_mq_need_time_stamp :: "blk \<Rightarrow> request \<Rightarrow> bool" where
  "blk_mq_need_time_stamp s rq \<longleftrightarrow>
     rq_flags rq AND (RQF_IO_STAT OR RQF_STATS) \<noteq> 0 \<or> q_elevator (the_q s) \<noteq> None"

definition blk_mq_tags_from_data :: "blk \<Rightarrow> u32 \<Rightarrow> nat \<Rightarrow> nat option" where
  "blk_mq_tags_from_data s flags h =
     (if flags AND BLK_MQ_REQ_INTERNAL \<noteq> 0 then sched_tags (hctx_at s h) else hctx_tags (hctx_at s h))"

text \<open>The tag fields of the request, its inflight flag and the counters that go with them.\<close>

definition rq_take_tag :: "u32 \<Rightarrow> nat \<Rightarrow> nat \<Rightarrow> nat \<Rightarrow> nat \<Rightarrow> blk \<Rightarrow> u32 \<times> blk" where
  "rq_take_tag flags h tp tag r s =
     (if flags AND BLK_MQ_REQ_INTERNAL \<noteq> 0
      then (0, upd_rq r (\<lambda>q. q\<lparr>rq_tag := -1, internal_tag := int tag\<rparr>) s)
      else
        (let shared = BLK_MQ_F_TAG_SHARED \<in> hctx_flags (hctx_at s h);
             s1 = (if shared then upd_hctx h (\<lambda>c. c\<lparr>nr_active := nr_active c + 1\<rparr>) s else s)
         in (if shared then RQF_MQ_INFLIGHT else 0,
             upd_tags tp (\<lambda>t. t\<lparr>tags_rqs := (tags_rqs t)(tag := Some r)\<rparr>)
               (upd_rq r (\<lambda>q. q\<lparr>rq_tag := int tag, internal_tag := -1\<rparr>) s1))))"

definition rq_init_fields ::
  "kernel \<Rightarrow> blk \<Rightarrow> u32 \<Rightarrow> u32 \<Rightarrow> u32 \<Rightarrow> nat \<Rightarrow> nat \<Rightarrow> u64 \<Rightarrow> request \<Rightarrow> request" where
  "rq_init_fields k s flags rf op c h atime q =
     (let rf1 = (if flags AND BLK_MQ_REQ_PREEMPT \<noteq> 0 then rf OR RQF_PREEMPT else rf);
          rf2 = (if QUEUE_FLAG_IO_STAT \<in> queue_flags (the_q s) then rf1 OR RQF_IO_STAT else rf1);
          q1 = q\<lparr>mq_ctx := c, mq_hctx := Some h, rq_flags := rf2, cmd_flags := op\<rparr>
      in q1\<lparr>rq_disk := None, rq_part := None, alloc_time_ns := atime,
           start_time_ns := (if blk_mq_need_time_stamp s q1 then ktime_get_ns k else 0),
           io_start_time_ns := 0, stats_sectors := 0, nr_phys_segments := 0,
           nr_integrity_segments := 0, extra_len := 0, rq_deadline := 0, rq_timeout := 0,
           end_io := None, rq_ref := 1\<rparr>)"

definition blk_mq_rq_ctx_init ::
  "kernel \<Rightarrow> u32 \<Rightarrow> nat \<Rightarrow> nat \<Rightarrow> nat \<Rightarrow> u32 \<Rightarrow> u64 \<Rightarrow> blk \<Rightarrow> (nat \<times> blk) option" where
  "blk_mq_rq_ctx_init k flags c h tag op atime s = do {
     tp \<leftarrow> blk_mq_tags_from_data s flags h;
     if nr_tags (tagsp s tp) \<le> tag then None
     else do {
       let r = static_rqs (tagsp s tp) tag;
       let (rf, s1) = rq_take_tag flags h tp tag r s;
       let s2 = upd_rq r (rq_init_fields k s1 flags rf op c h atime) s1;
       let sync = op_is_sync k op;
       Some (r, upd_ctx c (\<lambda>x. x\<lparr>rq_dispatched :=
                  (rq_dispatched x)(sync := rq_dispatched x sync + 1)\<rparr>) s2) } }"

text \<open>With a scheduler a scheduler tag is taken; without one the queue is marked as using its tags.\<close>

definition get_request_limits :: "kernel \<Rightarrow> nat \<Rightarrow> blk_mq_alloc_data \<Rightarrow> blk \<Rightarrow> blk_mq_alloc_data \<times> blk" where
  "get_request_limits k h d s =
     (case q_elevator (the_q s) of
        Some e \<Rightarrow>
          (let d1 = d\<lparr>ad_flags := ad_flags d OR BLK_MQ_REQ_INTERNAL\<rparr> in
           case limit_depth e of
             Some f \<Rightarrow> (if \<not> op_is_flush k (ad_cmd_flags d1) \<and> ad_flags d1 AND BLK_MQ_REQ_RESERVED = 0
                        then f (ad_cmd_flags d1) d1 else d1, s)
           | None \<Rightarrow> (d1, s))
      | None \<Rightarrow> (d, log_ev (Call ''blk_mq_tag_busy'' [int h]) s))"

text \<open>The byte counts of the core the request is issued from; steered requests are not counted.\<close>

definition count_bytes :: "kernel \<Rightarrow> bio option \<Rightarrow> bool \<Rightarrow> nat \<Rightarrow> nat \<Rightarrow> blk \<Rightarrow> blk option" where
  "count_bytes k bo req_steered c h s =
     (case bo of
        None \<Rightarrow> Some s
      | Some b \<Rightarrow>
          (if blk_switch (hctx_at s h) \<and> \<not> req_steered then
             (let cpu = int (ctx_cpu (ctx_at s c)) in
              if blk_switch_is_thru_request k bo
              then do { x \<leftarrow> arr_get (T_bytes (bsw s)) cpu;
                        xs \<leftarrow> arr_set (T_bytes (bsw s)) cpu (x + ucast (bi_size b));
                        Some (s\<lparr>bsw := (bsw s)\<lparr>T_bytes := xs\<rparr>\<rparr>) }
              else do { x \<leftarrow> arr_get (L_bytes (bsw s)) cpu;
                        xs \<leftarrow> arr_set (L_bytes (bsw s)) cpu (x + ucast (bi_size b));
                        Some (s\<lparr>bsw := (bsw s)\<lparr>L_bytes := xs\<rparr>\<rparr>) })
           else Some s))"

definition rq_prepare :: "kernel \<Rightarrow> u32 \<Rightarrow> nat \<Rightarrow> blk \<Rightarrow> blk" where
  "rq_prepare k op r s =
     (if op_is_flush k op then s
      else
        (let s1 = upd_rq r (\<lambda>q. q\<lparr>elv_icq := None\<rparr>) s in
         case q_elevator (the_q s1) of
           Some e \<Rightarrow>
             (if has_prepare_request e then
                upd_rq r (\<lambda>q. q\<lparr>rq_flags := rq_flags q OR RQF_ELVPRIV\<rparr>)
                  (log_ev (Call ''prepare_request'' [int r])
                    (if icq_cache e then log_ev (Call ''blk_mq_sched_assign_ioc'' [int r]) s1 else s1))
              else s1)
         | None \<Rightarrow> s1))"

text \<open>
  \<open>blk_mq_get_request\<close>: the request (none when no tag could be had), the updated allocation data
  and the state.
\<close>

definition blk_mq_get_request ::
  "kernel \<Rightarrow> bio option \<Rightarrow> blk_mq_alloc_data \<Rightarrow> blk \<Rightarrow> (nat option \<times> blk_mq_alloc_data \<times> blk) option" where
  "blk_mq_get_request k bo d s = do {
     let s1 = log_ev (Call ''blk_queue_enter_live'' []) s;
     let atime = (if QUEUE_FLAG_RQ_ALLOC_TIME \<in> queue_flags (the_q s) then ktime_get_ns k else 0);
     let clear_ctx_on_error = (ad_ctx d = None);
     let c = (case ad_ctx d of None \<Rightarrow> smp_processor_id k | Some c \<Rightarrow> c);
     let h = (case ad_hctx d of None \<Rightarrow> blk_mq_map_queue k (ad_cmd_flags d) (ctx_at s1 c) | Some h \<Rightarrow> h);
     let fl = (if ad_cmd_flags d AND REQ_NOWAIT k \<noteq> 0 then ad_flags d OR BLK_MQ_REQ_NOWAIT else ad_flags d);
     (s2, c2, h2, req_steered) \<leftarrow> blk_switch_steer k bo (ad_cmd_flags d) c h s1;
     let (d3, s3) = get_request_limits k h2 (d\<lparr>ad_flags := fl, ad_ctx := Some c2, ad_hctx := Some h2\<rparr>) s2;
     let s4 = s3\<lparr>drv_pos := Suc (drv_pos s3)\<rparr>;
     case get_tag k (drv_pos s3) (the_q s3) d3 of
       None \<Rightarrow> Some (None, if clear_ctx_on_error then d3\<lparr>ad_ctx := None\<rparr> else d3,
                     log_ev (Call ''blk_queue_exit'' []) s4)
     | Some (tag, d4) \<Rightarrow> do {
         c4 \<leftarrow> ad_ctx d4;
         h4 \<leftarrow> ad_hctx d4;
         (r, s5) \<leftarrow> blk_mq_rq_ctx_init k (ad_flags d4) c4 h4 tag (ad_cmd_flags d4) atime s4;
         s6 \<leftarrow> count_bytes k bo req_steered c4 h4 s5;
         let s7 = rq_prepare k (ad_cmd_flags d4) r (upd_rq r (\<lambda>q. q\<lparr>steered := req_steered\<rparr>) s6);
         Some (Some r, d4, upd_hctx h4 (\<lambda>x. x\<lparr>hctx_queued := hctx_queued x + 1\<rparr>) s7) } }"

definition empty_alloc_data :: "u32 \<Rightarrow> u32 \<Rightarrow> blk_mq_alloc_data" where
  "empty_alloc_data flags op =
     \<lparr>ad_flags = flags, shallow_depth = 0, ad_cmd_flags = op, ad_ctx = None, ad_hctx = None\<rparr>"

definition blk_mq_alloc_request :: "kernel \<Rightarrow> u32 \<Rightarrow> u32 \<Rightarrow> blk \<Rightarrow> ((errno + nat) \<times> blk) option" where
  "blk_mq_alloc_request k op flags s =
     (case queue_enter k flags of
        Some e \<Rightarrow> Some (Inl e, s)
      | None \<Rightarrow> do {
          (ro, d, s1) \<leftarrow> blk_mq_get_request k None (empty_alloc_data flags op)
                          (log_ev (Call ''blk_queue_enter'' []) s);
          let s2 = log_ev (Call ''blk_queue_exit'' []) s1;
          case ro of
            None \<Rightarrow> Some (Inl EWOULDBLOCK, s2)
          | Some r \<Rightarrow> Some (Inr r, upd_rq r (\<lambda>q. q\<lparr>rq_data_len := 0, rq_sector := -1, rq_bio := None\<rparr>) s2) })"

definition blk_mq_hw_queue_mapped :: "blk_mq_hw_ctx \<Rightarrow> bool" where
  "blk_mq_hw_queue_mapped hctx \<longleftrightarrow> nr_ctx hctx \<noteq> 0 \<and> hctx_tags hctx \<noteq> None"

text \<open>
  \<open>cpumask_first_and\<close> returns \<open>nr_cpu_ids\<close> when the masks do not meet; \<open>per_cpu_ptr\<close> is then undefined.
\<close>

definition first_online :: "kernel \<Rightarrow> nat list \<Rightarrow> nat" where
  "first_online k cpus =
     (case filter (cpu_online k) (filter (\<lambda>c. c < nr_cpu_ids k) cpus) of [] \<Rightarrow> nr_cpu_ids k
      | c # cs \<Rightarrow> Min (set (c # cs)))"

definition blk_mq_alloc_request_hctx ::
  "kernel \<Rightarrow> u32 \<Rightarrow> u32 \<Rightarrow> nat \<Rightarrow> blk \<Rightarrow> ((errno + nat) \<times> blk) option" where
  "blk_mq_alloc_request_hctx k op flags hctx_idx s =
     (if flags AND BLK_MQ_REQ_NOWAIT = 0 then Some (Inl EINVAL, s)
      else if nr_hw_queues (the_q s) \<le> hctx_idx then Some (Inl EIO, s)
      else case queue_enter k flags of
        Some e \<Rightarrow> Some (Inl e, s)
      | None \<Rightarrow>
          (let s0 = log_ev (Call ''blk_queue_enter'' []) s in
           if \<not> blk_mq_hw_queue_mapped (hctx_at s0 hctx_idx)
           then Some (Inl EXDEV, log_ev (Call ''blk_queue_exit'' []) s0)
           else do {
             c \<leftarrow> per_cpu_ptr k (int (first_online k (hctx_cpumask (hctx_at s0 hctx_idx))));
             (ro, d, s1) \<leftarrow> blk_mq_get_request k None
                ((empty_alloc_data flags op)\<lparr>ad_hctx := Some hctx_idx, ad_ctx := Some c\<rparr>) s0;
             let s2 = log_ev (Call ''blk_queue_exit'' []) s1;
             case ro of None \<Rightarrow> Some (Inl EWOULDBLOCK, s2) | Some r \<Rightarrow> Some (Inr r, s2) }))"

section \<open>Release\<close>

text \<open>
  \<open>refcount_dec_and_test\<close>: the new count and whether it became zero; a count of zero saturates.
\<close>

fun refcount_dec_and_test :: "nat \<Rightarrow> nat \<times> bool" where
  "refcount_dec_and_test 0 = (0, False)"
| "refcount_dec_and_test (Suc n) = (n, n = 0)"

definition blk_mq_put_tag :: "nat \<Rightarrow> nat option \<Rightarrow> nat \<Rightarrow> int \<Rightarrow> blk \<Rightarrow> blk option" where
  "blk_mq_put_tag h tp c tag s = do {
     t \<leftarrow> tp;
     Some (log_ev (Call ''blk_mq_put_tag'' [int h, int t, int c, tag]) s) }"

text \<open>\<open>__blk_mq_free_request\<close>\<close>

definition blk_mq_free_request_tags :: "nat \<Rightarrow> blk \<Rightarrow> blk option" where
  "blk_mq_free_request_tags r s = do {
     let rq = rqs s r;
     h \<leftarrow> mq_hctx rq;
     let s1 = upd_rq r (\<lambda>q. q\<lparr>mq_hctx := None\<rparr>) (log_ev (Call ''blk_pm_mark_last_busy'' [int r]) s);
     s2 \<leftarrow> (if rq_tag rq \<noteq> -1 then blk_mq_put_tag h (hctx_tags (hctx_at s1 h)) (mq_ctx rq) (rq_tag rq) s1
            else Some s1);
     s3 \<leftarrow> (if internal_tag rq \<noteq> -1
            then blk_mq_put_tag h (sched_tags (hctx_at s2 h)) (mq_ctx rq) (internal_tag rq) s2
            else Some s2);
     Some (log_ev (Call ''blk_queue_exit'' []) (log_ev (Call ''blk_mq_sched_restart'' [int h]) s3)) }"

definition rq_finish_elv :: "nat \<Rightarrow> blk \<Rightarrow> blk" where
  "rq_finish_elv r s =
     (if rq_flags (rqs s r) AND RQF_ELVPRIV \<noteq> 0 then
        (let s1 = (case q_elevator (the_q s) of
                     Some e \<Rightarrow> (if has_finish_request e then log_ev (Call ''finish_request'' [int r]) s else s)
                   | None \<Rightarrow> s) in
         case elv_icq (rqs s1 r) of
           Some icq \<Rightarrow> upd_rq r (\<lambda>q. q\<lparr>elv_icq := None\<rparr>) (log_ev (Call ''put_io_context'' [int icq]) s1)
         | None \<Rightarrow> s1)
      else s)"

definition blk_mq_free_request :: "kernel \<Rightarrow> nat \<Rightarrow> blk \<Rightarrow> blk option" where
  "blk_mq_free_request k r s = do {
     let rq = rqs s r;
     let s1 = rq_finish_elv r s;
     let sync = op_is_sync k (cmd_flags rq);
     let s2 = upd_ctx (mq_ctx rq) (\<lambda>x. x\<lparr>rq_completed := (rq_completed x)(sync := rq_completed x sync + 1)\<rparr>) s1;
     s3 \<leftarrow> (if rq_flags rq AND RQF_MQ_INFLIGHT \<noteq> 0
            then do { h \<leftarrow> mq_hctx rq; Some (upd_hctx h (\<lambda>x. x\<lparr>nr_active := nr_active x - 1\<rparr>) s2) }
            else Some s2);
     let s4 = (if laptop_mode k \<and> \<not> rq_is_passthrough k (cmd_flags rq)
               then log_ev (Call ''laptop_io_completion'' []) s3 else s3);
     let s5 = log_ev (Call ''rq_qos_done'' [int r]) s4;
     let (n, zero) = refcount_dec_and_test (rq_ref (rqs s5 r));
     let s6 = upd_rq r (\<lambda>q. q\<lparr>rq_state := MQ_RQ_IDLE, rq_ref := n\<rparr>) s5;
     if zero then blk_mq_free_request_tags r s6 else Some s6 }"

text \<open>\<open>__blk_mq_end_request\<close>\<close>

definition blk_mq_end_request_rest :: "kernel \<Rightarrow> nat \<Rightarrow> blk_status \<Rightarrow> blk \<Rightarrow> blk option" where
  "blk_mq_end_request_rest k r error s =
     (let now = (if blk_mq_need_time_stamp s (rqs s r) then ktime_get_ns k else 0);
          s1 = (if rq_flags (rqs s r) AND RQF_STATS \<noteq> 0
                then log_ev (Call ''blk_stat_add'' [int r, uint now])
                       (log_ev (Call ''blk_mq_poll_stats_start'' []) s) else s);
          s2 = (if internal_tag (rqs s r) \<noteq> -1
                then log_ev (Call ''blk_mq_sched_completed_request'' [int r, uint now]) s1 else s1);
          s3 = log_ev (Call ''blk_account_io_done'' [int r, uint now]) s2
      in case end_io (rqs s r) of
           Some f \<Rightarrow> Some (log_ev (Call ''end_io'' [int r, int f]) (log_ev (Call ''rq_qos_done'' [int r]) s3))
         | None \<Rightarrow> blk_mq_free_request k r s3)"

text \<open>
  The accounting of \<open>blk_mq_end_request\<close>: the bytes of a counted request are taken off again,
  but never below zero.
\<close>

definition sub_bytes :: "u64 \<Rightarrow> u32 \<Rightarrow> u64" where
  "sub_bytes x n = (if ucast n \<le> x then x - ucast n else 0)"

definition uncount_bytes :: "kernel \<Rightarrow> nat \<Rightarrow> blk \<Rightarrow> blk option" where
  "uncount_bytes k r s = do {
     let rq = rqs s r;
     h \<leftarrow> mq_hctx rq;
     if blk_switch (hctx_at s h) \<and> rq_data_len rq \<noteq> 0 \<and> \<not> steered rq \<and> rq_tag rq \<noteq> 0 \<and> rq_bio rq \<noteq> None then
       (let cpu = int (ctx_cpu (ctx_at s (mq_ctx rq))) in
        if blk_switch_is_thru_request k (rq_bio rq)
        then do { x \<leftarrow> arr_get (T_bytes (bsw s)) cpu;
                  xs \<leftarrow> arr_set (T_bytes (bsw s)) cpu (sub_bytes x (rq_data_len rq));
                  Some (s\<lparr>bsw := (bsw s)\<lparr>T_bytes := xs\<rparr>\<rparr>) }
        else do { x \<leftarrow> arr_get (L_bytes (bsw s)) cpu;
                  xs \<leftarrow> arr_set (L_bytes (bsw s)) cpu (sub_bytes x (rq_data_len rq));
                  Some (s\<lparr>bsw := (bsw s)\<lparr>L_bytes := xs\<rparr>\<rparr>) })
     else Some s }"

definition blk_mq_end_request :: "kernel \<Rightarrow> nat \<Rightarrow> blk_status \<Rightarrow> blk \<Rightarrow> blk option" where
  "blk_mq_end_request k r error s = do {
     s1 \<leftarrow> uncount_bytes k r s;
     let (rq, more) = update_request k (rqs s1 r) error (rq_data_len (rqs s1 r));
     if more then None
     else blk_mq_end_request_rest k r error (upd_rq r (\<lambda>_. rq) s1) }"

section \<open>Start and completion\<close>

text \<open>\<open>__blk_mq_complete_request\<close>: where the driver's completion handler runs.\<close>

definition blk_mq_complete_request_now :: "kernel \<Rightarrow> nat \<Rightarrow> blk \<Rightarrow> blk" where
  "blk_mq_complete_request_now k r s =
     (let s1 = upd_rq r (\<lambda>q. q\<lparr>rq_state := MQ_RQ_COMPLETE\<rparr>) s;
          rq = rqs s1 r; q = the_q s1; cpu = smp_processor_id k; target = ctx_cpu (ctx_at s1 (mq_ctx rq)) in
      if nr_hw_queues q = 1 then log_ev (Call ''__blk_complete_request'' [int r]) s1
      else if cmd_flags rq AND REQ_HIPRI k \<noteq> 0 \<or> QUEUE_FLAG_SAME_COMP \<notin> queue_flags q
      then log_ev (Call ''complete'' [int r, int cpu]) s1
      else
        (let shared = (if QUEUE_FLAG_SAME_FORCE \<in> queue_flags q then False else cpus_share_cache k cpu target) in
         if cpu \<noteq> target \<and> \<not> shared \<and> cpu_online k target
         then log_ev (Call ''smp_call_function_single_async'' [int target, int r]) s1
         else log_ev (Call ''complete'' [int r, int cpu]) s1))"

definition blk_mq_complete_request :: "kernel \<Rightarrow> nat \<Rightarrow> blk \<Rightarrow> bool \<times> blk" where
  "blk_mq_complete_request k r s =
     (if fake_timeout k then (False, s) else (True, blk_mq_complete_request_now k r s))"

definition blk_mq_request_started :: "request \<Rightarrow> bool" where
  "blk_mq_request_started rq \<longleftrightarrow> rq_state rq \<noteq> MQ_RQ_IDLE"

definition blk_mq_request_completed :: "request \<Rightarrow> bool" where
  "blk_mq_request_completed rq \<longleftrightarrow> rq_state rq = MQ_RQ_COMPLETE"

definition blk_mq_start_request :: "kernel \<Rightarrow> nat \<Rightarrow> blk \<Rightarrow> blk" where
  "blk_mq_start_request k r s =
     (let s1 = (if QUEUE_FLAG_STATS \<in> queue_flags (the_q s)
                then log_ev (Call ''rq_qos_issue'' [int r])
                  (upd_rq r (\<lambda>q. q\<lparr>io_start_time_ns := ktime_get_ns k,
                                   stats_sectors := ucast (drop_bit 9 (rq_data_len q)),
                                   rq_flags := rq_flags q OR RQF_STATS\<rparr>) s)
                else s);
          s2 = upd_rq r (\<lambda>q. (add_timer k q)\<lparr>rq_state := MQ_RQ_IN_FLIGHT\<rparr>)
                 (log_ev (Call ''blk_add_timer'' [int r]) s1);
          s3 = (if dma_drain_size (the_q s2) \<noteq> 0 \<and> rq_data_len (rqs s2 r) \<noteq> 0
                then upd_rq r (\<lambda>q. q\<lparr>nr_phys_segments := nr_phys_segments q + 1\<rparr>) s2 else s2)
      in if integrity_write k (rqs s3 r) then log_ev (Call ''prepare_fn'' [int r]) s3 else s3)"

section \<open>Driver tags\<close>

text \<open>\<open>__blk_mq_put_driver_tag\<close> and \<open>blk_mq_put_driver_tag\<close>\<close>

definition blk_mq_put_driver_tag_hctx :: "nat \<Rightarrow> nat \<Rightarrow> blk \<Rightarrow> blk option" where
  "blk_mq_put_driver_tag_hctx h r s = do {
     let rq = rqs s r;
     s1 \<leftarrow> blk_mq_put_tag h (hctx_tags (hctx_at s h)) (mq_ctx rq) (rq_tag rq) s;
     let s2 = upd_rq r (\<lambda>q. q\<lparr>rq_tag := -1\<rparr>) s1;
     Some (if rq_flags rq AND RQF_MQ_INFLIGHT \<noteq> 0
           then upd_hctx h (\<lambda>x. x\<lparr>nr_active := nr_active x - 1\<rparr>)
                  (upd_rq r (\<lambda>q. q\<lparr>rq_flags := rq_flags q AND NOT RQF_MQ_INFLIGHT\<rparr>) s2)
           else s2) }"

definition blk_mq_put_driver_tag :: "nat \<Rightarrow> blk \<Rightarrow> blk option" where
  "blk_mq_put_driver_tag r s =
     (if rq_tag (rqs s r) = -1 \<or> internal_tag (rqs s r) = -1 then Some s
      else do { h \<leftarrow> mq_hctx (rqs s r); blk_mq_put_driver_tag_hctx h r s })"

definition blk_mq_get_driver_tag :: "kernel \<Rightarrow> nat \<Rightarrow> blk \<Rightarrow> (bool \<times> blk) option" where
  "blk_mq_get_driver_tag k r s =
     (if rq_tag (rqs s r) \<noteq> -1 then Some (True, s)
      else do {
        h \<leftarrow> mq_hctx (rqs s r);
        st \<leftarrow> sched_tags (hctx_at s h);
        let fl = (if tag_is_reserved k (tagsp s st) (internal_tag (rqs s r))
                  then BLK_MQ_REQ_NOWAIT OR BLK_MQ_REQ_RESERVED else BLK_MQ_REQ_NOWAIT);
        let d = (empty_alloc_data fl (cmd_flags (rqs s r)))\<lparr>ad_hctx := Some h\<rparr>;
        let shared = tag_busy k (hctx_at s h);
        let s1 = (log_ev (Call ''blk_mq_tag_busy'' [int h]) s)\<lparr>drv_pos := Suc (drv_pos s)\<rparr>;
        case get_tag k (drv_pos s) (the_q s) d of
          None \<Rightarrow> Some (False, s1)
        | Some (tag, d') \<Rightarrow> do {
            h' \<leftarrow> ad_hctx d';
            let s2 = upd_rq r (\<lambda>q. q\<lparr>rq_tag := int tag\<rparr>) s1;
            let s3 = (if shared
                      then upd_hctx h' (\<lambda>x. x\<lparr>nr_active := nr_active x + 1\<rparr>)
                             (upd_rq r (\<lambda>q. q\<lparr>rq_flags := rq_flags q OR RQF_MQ_INFLIGHT\<rparr>) s2)
                      else s2);
            tp \<leftarrow> hctx_tags (hctx_at s3 h');
            Some (True, upd_tags tp (\<lambda>t. t\<lparr>tags_rqs := (tags_rqs t)(tag := Some r)\<rparr>) s3) } })"

section \<open>Requeueing\<close>

text \<open>\<open>__blk_mq_requeue_request\<close>\<close>

definition blk_mq_requeue_request_state :: "nat \<Rightarrow> blk \<Rightarrow> blk option" where
  "blk_mq_requeue_request_state r s = do {
     s1 \<leftarrow> blk_mq_put_driver_tag r s;
     let s2 = log_ev (Call ''rq_qos_requeue'' [int r]) s1;
     Some (if blk_mq_request_started (rqs s2 r) then
             (let s3 = upd_rq r (\<lambda>q. q\<lparr>rq_state := MQ_RQ_IDLE, rq_flags := rq_flags q AND NOT RQF_TIMED_OUT\<rparr>) s2 in
              if dma_drain_size (the_q s3) \<noteq> 0 \<and> rq_data_len (rqs s3 r) \<noteq> 0
              then upd_rq r (\<lambda>q. q\<lparr>nr_phys_segments := nr_phys_segments q - 1\<rparr>) s3 else s3)
           else s2) }"

definition blk_mq_kick_requeue_list :: "blk \<Rightarrow> blk" where
  "blk_mq_kick_requeue_list s = log_ev (Call ''requeue_work'' [0]) s"

definition blk_mq_delay_kick_requeue_list :: "kernel \<Rightarrow> nat \<Rightarrow> blk \<Rightarrow> blk" where
  "blk_mq_delay_kick_requeue_list k msecs s = log_ev (Call ''requeue_work'' [uint (msecs_to_jiffies k msecs)]) s"

definition upd_requeue_list :: "(nat list \<Rightarrow> nat list) \<Rightarrow> blk \<Rightarrow> blk" where
  "upd_requeue_list f s = s\<lparr>the_q := (the_q s)\<lparr>q_requeue_list := f (q_requeue_list (the_q s))\<rparr>\<rparr>"

text \<open>A request that is already marked for head insertion is a \<open>BUG_ON\<close>.\<close>

definition blk_mq_add_to_requeue_list :: "nat \<Rightarrow> bool \<Rightarrow> bool \<Rightarrow> blk \<Rightarrow> blk option" where
  "blk_mq_add_to_requeue_list r at_head kick s =
     (if rq_flags (rqs s r) AND RQF_SOFTBARRIER \<noteq> 0 then None
      else
        (let s1 = (if at_head
                   then upd_requeue_list (\<lambda>l. r # l) (upd_rq r (\<lambda>q. q\<lparr>rq_flags := rq_flags q OR RQF_SOFTBARRIER\<rparr>) s)
                   else upd_requeue_list (\<lambda>l. l @ [r]) s)
         in Some (if kick then blk_mq_kick_requeue_list s1 else s1)))"

definition blk_mq_requeue_request :: "nat \<Rightarrow> bool \<Rightarrow> blk \<Rightarrow> blk option" where
  "blk_mq_requeue_request r kick s = do {
     s1 \<leftarrow> blk_mq_requeue_request_state r s;
     blk_mq_add_to_requeue_list r True kick (log_ev (Call ''blk_mq_sched_requeue_request'' [int r]) s1) }"

definition blk_mq_tag_to_rq :: "blk_mq_tags \<Rightarrow> nat \<Rightarrow> nat option" where
  "blk_mq_tag_to_rq tags tag = (if tag < nr_tags tags then tags_rqs tags tag else None)"

section \<open>Timeouts\<close>

definition blk_mq_rq_timed_out :: "kernel \<Rightarrow> nat \<Rightarrow> blk \<Rightarrow> blk" where
  "blk_mq_rq_timed_out k r s =
     (let s1 = upd_rq r (\<lambda>q. q\<lparr>rq_flags := rq_flags q OR RQF_TIMED_OUT\<rparr>) s in
      if has_timeout (q_ops (the_q s1)) then
        (let s2 = log_ev (Call ''timeout'' [int r]) s1 in
         if driver_timeout k r then s2
         else upd_rq r (add_timer k) (log_ev (Call ''blk_add_timer'' [int r]) s2))
      else upd_rq r (add_timer k) (log_ev (Call ''blk_add_timer'' [int r]) s1))"

text \<open>Whether a request has expired, and the earliest deadline of those that have not.\<close>

definition blk_mq_req_expired :: "kernel \<Rightarrow> request \<Rightarrow> u64 \<Rightarrow> bool \<times> u64" where
  "blk_mq_req_expired k rq nxt =
     (if rq_state rq \<noteq> MQ_RQ_IN_FLIGHT then (False, nxt)
      else if rq_flags rq AND RQF_TIMED_OUT \<noteq> 0 then (False, nxt)
      else if time_after_eq (jiffies k) (rq_deadline rq) then (True, nxt)
      else if nxt = 0 then (False, rq_deadline rq)
      else if time_after nxt (rq_deadline rq) then (False, rq_deadline rq)
      else (False, nxt))"

definition blk_mq_check_expired :: "kernel \<Rightarrow> nat \<Rightarrow> nat \<Rightarrow> u64 \<times> blk \<Rightarrow> (u64 \<times> blk) option" where
  "blk_mq_check_expired k h r st =
     (let (nxt, s) = st; (e1, nxt1) = blk_mq_req_expired k (rqs s r) nxt in
      if \<not> e1 then Some (nxt1, s)
      else if rq_ref (rqs s r) = 0 then Some (nxt1, s)
      else
        (let s1 = upd_rq r (\<lambda>q. q\<lparr>rq_ref := rq_ref q + 1\<rparr>) s;
             (e2, nxt2) = blk_mq_req_expired k (rqs s1 r) nxt1;
             s2 = (if e2 then blk_mq_rq_timed_out k r s1 else s1) in
         if is_flush_rq k r h then Some (nxt2, log_ev (Call ''end_io'' [int r, 0]) s2)
         else
           (let (n, zero) = refcount_dec_and_test (rq_ref (rqs s2 r));
                s3 = upd_rq r (\<lambda>q. q\<lparr>rq_ref := n\<rparr>) s2 in
            if zero then do { s4 \<leftarrow> blk_mq_free_request_tags r s3; Some (nxt2, s4) }
            else Some (nxt2, s3))))"

text \<open>
  \<open>blk_mq_timeout_work\<close>; the busy requests, with their hardware contexts, are those that
  \<open>blk_mq_queue_tag_busy_iter\<close> visits.
\<close>

definition blk_mq_timeout_work :: "kernel \<Rightarrow> (nat \<times> nat) list \<Rightarrow> blk \<Rightarrow> blk option" where
  "blk_mq_timeout_work k busy s =
     (if \<not> queue_tryget k then Some s
      else do {
        (nxt, s1) \<leftarrow> for_each (\<lambda>(h, r). blk_mq_check_expired k h r) busy (0, s);
        let s2 = (if nxt \<noteq> 0 then log_ev (Call ''mod_timer'' [uint nxt]) s1
                  else fold (\<lambda>h x. if blk_mq_hw_queue_mapped (hctx_at x h)
                                   then log_ev (Call ''blk_mq_tag_idle'' [int h]) x else x)
                         [0..<nr_hw_queues (the_q s1)] s1);
        Some (log_ev (Call ''blk_queue_exit'' []) s2) })"

end
