(* ===== verification/Blk_Mq_Run.thy ===== *)
theory Blk_Mq_Run
  imports Blk_Mq_Request
begin

text \<open>
  Software queues and the running of hardware queues: the pending map that tells a hardware context
  which software contexts hold requests, insertion and removal of requests, the choice of the CPU on
  which a queue is run, stopping, freezing and quiescing. A run of a queue is the event
  \<open>blk_mq_sched_dispatch_requests\<close> or a scheduled work item. The bitmap is the set of its bits; it is
  scanned in ascending order.
\<close>

section \<open>Pending contexts\<close>

definition BLK_MQ_POLL_STATS_BKTS :: int where "BLK_MQ_POLL_STATS_BKTS = 16"

fun ilog2 :: "nat \<Rightarrow> int" where
  "ilog2 n = (if n = 0 then -1 else if n = 1 then 0 else 1 + ilog2 (n div 2))"

declare ilog2.simps [simp del]

definition blk_mq_poll_stats_bkt :: "kernel \<Rightarrow> request \<Rightarrow> int" where
  "blk_mq_poll_stats_bkt k rq =
     (let ddir = (if req_is_write k (cmd_flags rq) then 1 else 0);
          bucket = ddir + 2 * ilog2 (unat (stats_sectors rq)) in
      if bucket < 0 then -1
      else if BLK_MQ_POLL_STATS_BKTS \<le> bucket then ddir + BLK_MQ_POLL_STATS_BKTS - 2
      else bucket)"

definition blk_mq_hctx_has_pending :: "kernel \<Rightarrow> nat \<Rightarrow> blk \<Rightarrow> bool" where
  "blk_mq_hctx_has_pending k h s \<longleftrightarrow>
     hctx_dispatch (hctx_at s h) \<noteq> [] \<or> ctx_map (hctx_at s h) \<noteq> {} \<or> sched_has_work k h"

definition ctx_bit :: "blk \<Rightarrow> nat \<Rightarrow> nat \<Rightarrow> nat" where
  "ctx_bit s h c = index_hw (ctx_at s c) (hctx_type_of (hctx_at s h))"

definition blk_mq_hctx_mark_pending :: "nat \<Rightarrow> nat \<Rightarrow> blk \<Rightarrow> blk" where
  "blk_mq_hctx_mark_pending h c s =
     (if ctx_bit s h c \<in> ctx_map (hctx_at s h) then s
      else upd_hctx h (\<lambda>x. x\<lparr>ctx_map := insert (ctx_bit s h c) (ctx_map x)\<rparr>) s)"

definition blk_mq_hctx_clear_pending :: "nat \<Rightarrow> nat \<Rightarrow> blk \<Rightarrow> blk" where
  "blk_mq_hctx_clear_pending h c s = upd_hctx h (\<lambda>x. x\<lparr>ctx_map := ctx_map x - {ctx_bit s h c}\<rparr>) s"

section \<open>Requests in flight\<close>

text \<open>
  The iterator \<open>blk_mq_queue_tag_busy_iter\<close> calls its function for every busy request until it
  returns false; the list of busy requests is a parameter.
\<close>

definition blk_mq_in_flight :: "nat option \<Rightarrow> nat list \<Rightarrow> blk \<Rightarrow> nat" where
  "blk_mq_in_flight part busy s = foldl (\<lambda>n r. if rq_part (rqs s r) = part then n + 1 else n) 0 busy"

definition blk_mq_in_flight_rw :: "kernel \<Rightarrow> nat option \<Rightarrow> nat list \<Rightarrow> blk \<Rightarrow> nat \<times> nat" where
  "blk_mq_in_flight_rw k part busy s =
     foldl (\<lambda>(n, m) r. if rq_part (rqs s r) = part
                       then (if req_is_write k (cmd_flags (rqs s r)) then (n, m + 1) else (n + 1, m))
                       else (n, m)) (0, 0) busy"

fun blk_mq_queue_inflight :: "nat list \<Rightarrow> blk \<Rightarrow> bool" where
  "blk_mq_queue_inflight [] s = False"
| "blk_mq_queue_inflight (r # rs) s =
     (if rq_state (rqs s r) = MQ_RQ_IN_FLIGHT then True else blk_mq_queue_inflight rs s)"

section \<open>Moving requests between the lists\<close>

definition list_of_bits :: "nat set \<Rightarrow> nat list" where
  "list_of_bits A = sorted_list_of_set A"

text \<open>\<open>__blk_mq_insert_req_list\<close> and \<open>__blk_mq_insert_request\<close>\<close>

definition blk_mq_insert_req_list :: "nat \<Rightarrow> nat \<Rightarrow> bool \<Rightarrow> blk \<Rightarrow> blk" where
  "blk_mq_insert_req_list h r at_head s =
     (let t = hctx_type_of (hctx_at s h) in
      upd_ctx (mq_ctx (rqs s r))
        (\<lambda>x. x\<lparr>rq_lists := (rq_lists x)(t := if at_head then r # rq_lists x t else rq_lists x t @ [r])\<rparr>) s)"

definition blk_mq_insert_request :: "nat \<Rightarrow> nat \<Rightarrow> bool \<Rightarrow> blk \<Rightarrow> blk" where
  "blk_mq_insert_request h r at_head s =
     blk_mq_hctx_mark_pending h (mq_ctx (rqs s r)) (blk_mq_insert_req_list h r at_head s)"

definition blk_mq_insert_requests :: "nat \<Rightarrow> nat \<Rightarrow> nat list \<Rightarrow> blk \<Rightarrow> blk option" where
  "blk_mq_insert_requests h c l s =
     (if \<exists>r\<in>set l. mq_ctx (rqs s r) \<noteq> c then None
      else
        (let t = hctx_type_of (hctx_at s h) in
         Some (blk_mq_hctx_mark_pending h c
           (upd_ctx c (\<lambda>x. x\<lparr>rq_lists := (rq_lists x)(t := rq_lists x t @ l)\<rparr>) s))))"

text \<open>One call of \<open>flush_busy_ctx\<close>, with the list it fills, and the scan over the bitmap.\<close>

definition flush_busy_ctx :: "nat \<Rightarrow> nat \<Rightarrow> nat list \<times> blk \<Rightarrow> (nat list \<times> blk) option" where
  "flush_busy_ctx h bitnr st =
     (let (l, s) = st; hctx = hctx_at s h; t = hctx_type_of hctx in
      if bitnr < length (hctx_ctxs hctx) then
        (let c = hctx_ctxs hctx ! bitnr in
         Some (l @ rq_lists (ctx_at s c) t,
               upd_hctx h (\<lambda>x. x\<lparr>ctx_map := ctx_map x - {bitnr}\<rparr>)
                 (upd_ctx c (\<lambda>x. x\<lparr>rq_lists := (rq_lists x)(t := [])\<rparr>) s)))
      else None)"

definition blk_mq_flush_busy_ctxs :: "nat \<Rightarrow> nat list \<Rightarrow> blk \<Rightarrow> (nat list \<times> blk) option" where
  "blk_mq_flush_busy_ctxs h l s = for_each (flush_busy_ctx h) (list_of_bits (ctx_map (hctx_at s h))) (l, s)"

text \<open>One call of \<open>dispatch_rq_from_ctx\<close>: the request taken, if any; then the scan stops.\<close>

definition dispatch_rq_from_ctx :: "nat \<Rightarrow> nat \<Rightarrow> blk \<Rightarrow> (nat option \<times> blk) option" where
  "dispatch_rq_from_ctx h bitnr s =
     (let hctx = hctx_at s h; t = hctx_type_of hctx in
      if bitnr < length (hctx_ctxs hctx) then
        (let c = hctx_ctxs hctx ! bitnr in
         case rq_lists (ctx_at s c) t of
           [] \<Rightarrow> Some (None, s)
         | r # rest \<Rightarrow>
             (let s1 = upd_ctx c (\<lambda>x. x\<lparr>rq_lists := (rq_lists x)(t := rest)\<rparr>) s in
              Some (Some r, if rest = [] then upd_hctx h (\<lambda>x. x\<lparr>ctx_map := ctx_map x - {bitnr}\<rparr>) s1 else s1)))
      else None)"

fun dequeue_scan :: "nat \<Rightarrow> nat list \<Rightarrow> blk \<Rightarrow> (nat option \<times> blk) option" where
  "dequeue_scan h [] s = Some (None, s)"
| "dequeue_scan h (b # bs) s = do {
     (ro, s1) \<leftarrow> dispatch_rq_from_ctx h b s;
     if ro \<noteq> None then Some (ro, s1) else dequeue_scan h bs s1 }"

definition blk_mq_dequeue_from_ctx :: "nat \<Rightarrow> nat option \<Rightarrow> blk \<Rightarrow> (nat option \<times> blk) option" where
  "blk_mq_dequeue_from_ctx h start s =
     (let off = (case start of None \<Rightarrow> 0 | Some c \<Rightarrow> ctx_bit s h c);
          bits = list_of_bits (ctx_map (hctx_at s h)) in
      dequeue_scan h (filter (\<lambda>b. off \<le> b) bits @ filter (\<lambda>b. b < off) bits) s)"

definition queued_to_index :: "nat \<Rightarrow> nat" where
  "queued_to_index queued = (if queued = 0 then 0 else min (7 - 1) (nat (ilog2 queued + 1)))"

section \<open>Running a hardware queue\<close>

definition BLK_MQ_CPU_WORK_BATCH :: int where "BLK_MQ_CPU_WORK_BATCH = 8"

text \<open>\<open>WORK_CPU_UNBOUND\<close> is the value \<^const>\<open>None\<close> where a CPU is expected.\<close>

definition cpumask_first :: "kernel \<Rightarrow> nat list \<Rightarrow> nat" where
  "cpumask_first k cpus =
     (case filter (\<lambda>c. c < nr_cpu_ids k) cpus of [] \<Rightarrow> nr_cpu_ids k | c # cs \<Rightarrow> Min (set (c # cs)))"

definition cpumask_next_online :: "kernel \<Rightarrow> int \<Rightarrow> nat list \<Rightarrow> nat" where
  "cpumask_next_online k n cpus =
     (case filter (\<lambda>c. c < nr_cpu_ids k \<and> n < int c \<and> cpu_online k c) cpus of
        [] \<Rightarrow> nr_cpu_ids k | c # cs \<Rightarrow> Min (set (c # cs)))"

definition blk_mq_first_mapped_cpu :: "kernel \<Rightarrow> blk_mq_hw_ctx \<Rightarrow> nat" where
  "blk_mq_first_mapped_cpu k hctx =
     (let cpu = first_online k (hctx_cpumask hctx) in
      if nr_cpu_ids k \<le> cpu then cpumask_first k (hctx_cpumask hctx) else cpu)"

definition select_cpu :: "kernel \<Rightarrow> blk_mq_hw_ctx \<Rightarrow> int \<Rightarrow> int" where
  "select_cpu k hctx cpu =
     (let next = cpumask_next_online k cpu (hctx_cpumask hctx) in
      int (if nr_cpu_ids k \<le> next then blk_mq_first_mapped_cpu k hctx else next))"

abbreviation online_cpu :: "kernel \<Rightarrow> int \<Rightarrow> bool" where
  "online_cpu k c \<equiv> 0 \<le> c \<and> cpu_online k (nat c)"

definition blk_mq_hctx_next_cpu :: "kernel \<Rightarrow> nat \<Rightarrow> blk_mq_hw_ctx \<Rightarrow> int option \<times> blk_mq_hw_ctx" where
  "blk_mq_hctx_next_cpu k nr_hw hctx =
     (if nr_hw = 1 then (None, hctx)
      else
        (let batch = next_cpu_batch hctx - 1;
             selected = (batch \<le> 0);
             cpu1 = (if selected then select_cpu k hctx (next_cpu hctx) else next_cpu hctx);
             batch1 = (if selected then BLK_MQ_CPU_WORK_BATCH else batch) in
         if online_cpu k cpu1 then (Some cpu1, hctx\<lparr>next_cpu := cpu1, next_cpu_batch := batch1\<rparr>)
         else
           (let cpu2 = select_cpu k hctx cpu1 in
            if online_cpu k cpu2
            then (Some cpu2, hctx\<lparr>next_cpu := cpu2, next_cpu_batch := BLK_MQ_CPU_WORK_BATCH\<rparr>)
            else (None, hctx\<lparr>next_cpu := cpu2, next_cpu_batch := 1\<rparr>))))"

definition blk_mq_hctx_stopped :: "blk_mq_hw_ctx \<Rightarrow> bool" where
  "blk_mq_hctx_stopped hctx \<longleftrightarrow> BLK_MQ_S_STOPPED \<in> hctx_state hctx"

text \<open>\<open>__blk_mq_run_hw_queue\<close>; the warning about a wrong CPU is an event.\<close>

definition blk_mq_run_hw_queue_now :: "kernel \<Rightarrow> nat \<Rightarrow> blk \<Rightarrow> blk" where
  "blk_mq_run_hw_queue_now k h s =
     log_ev (Call ''blk_mq_sched_dispatch_requests'' [int h])
       (if smp_processor_id k \<notin> set (hctx_cpumask (hctx_at s h)) \<and> online_cpu k (next_cpu (hctx_at s h))
        then log_ev (Call ''printk'' [int h]) s else s)"

text \<open>\<open>__blk_mq_delay_run_hw_queue\<close>\<close>

definition blk_mq_delay_run_hw_queue_async :: "kernel \<Rightarrow> nat \<Rightarrow> bool \<Rightarrow> nat \<Rightarrow> blk \<Rightarrow> blk" where
  "blk_mq_delay_run_hw_queue_async k h async msecs s =
     (let hctx = hctx_at s h in
      if blk_mq_hctx_stopped hctx then s
      else if \<not> async \<and> BLK_MQ_F_BLOCKING \<notin> hctx_flags hctx \<and> smp_processor_id k \<in> set (hctx_cpumask hctx)
      then blk_mq_run_hw_queue_now k h s
      else
        (let (cpu, hctx') = blk_mq_hctx_next_cpu k (nr_hw_queues (the_q s)) hctx in
         log_ev (Call ''kblockd_mod_delayed_work_on''
             [case cpu of None \<Rightarrow> -1 | Some c \<Rightarrow> c, int h, uint (msecs_to_jiffies k msecs)])
           (upd_hctx h (\<lambda>_. hctx') s)))"

definition blk_mq_delay_run_hw_queue :: "kernel \<Rightarrow> nat \<Rightarrow> nat \<Rightarrow> blk \<Rightarrow> blk" where
  "blk_mq_delay_run_hw_queue k h msecs s = blk_mq_delay_run_hw_queue_async k h True msecs s"

definition blk_mq_run_hw_queue :: "kernel \<Rightarrow> nat \<Rightarrow> bool \<Rightarrow> blk \<Rightarrow> bool \<times> blk" where
  "blk_mq_run_hw_queue k h async s =
     (if QUEUE_FLAG_QUIESCED \<notin> queue_flags (the_q s) \<and> blk_mq_hctx_has_pending k h s
      then (True, blk_mq_delay_run_hw_queue_async k h async 0 s) else (False, s))"

definition blk_mq_run_hw_queues :: "kernel \<Rightarrow> bool \<Rightarrow> blk \<Rightarrow> blk" where
  "blk_mq_run_hw_queues k async s =
     fold (\<lambda>h x. if blk_mq_hctx_stopped (hctx_at x h) then x else snd (blk_mq_run_hw_queue k h async x))
       [0..<nr_hw_queues (the_q s)] s"

definition blk_mq_queue_stopped :: "blk \<Rightarrow> bool" where
  "blk_mq_queue_stopped s \<longleftrightarrow> (\<exists>h\<in>set [0..<nr_hw_queues (the_q s)]. blk_mq_hctx_stopped (hctx_at s h))"

definition blk_mq_stop_hw_queue :: "nat \<Rightarrow> blk \<Rightarrow> blk" where
  "blk_mq_stop_hw_queue h s =
     upd_hctx h (\<lambda>x. x\<lparr>hctx_state := insert BLK_MQ_S_STOPPED (hctx_state x)\<rparr>)
       (log_ev (Call ''cancel_delayed_work'' [int h]) s)"

definition blk_mq_stop_hw_queues :: "blk \<Rightarrow> blk" where
  "blk_mq_stop_hw_queues s = fold blk_mq_stop_hw_queue [0..<nr_hw_queues (the_q s)] s"

definition blk_mq_start_hw_queue :: "kernel \<Rightarrow> nat \<Rightarrow> blk \<Rightarrow> blk" where
  "blk_mq_start_hw_queue k h s =
     snd (blk_mq_run_hw_queue k h False
       (upd_hctx h (\<lambda>x. x\<lparr>hctx_state := hctx_state x - {BLK_MQ_S_STOPPED}\<rparr>) s))"

definition blk_mq_start_hw_queues :: "kernel \<Rightarrow> blk \<Rightarrow> blk" where
  "blk_mq_start_hw_queues k s = fold (blk_mq_start_hw_queue k) [0..<nr_hw_queues (the_q s)] s"

definition blk_mq_start_stopped_hw_queue :: "kernel \<Rightarrow> nat \<Rightarrow> bool \<Rightarrow> blk \<Rightarrow> blk" where
  "blk_mq_start_stopped_hw_queue k h async s =
     (if \<not> blk_mq_hctx_stopped (hctx_at s h) then s
      else snd (blk_mq_run_hw_queue k h async
             (upd_hctx h (\<lambda>x. x\<lparr>hctx_state := hctx_state x - {BLK_MQ_S_STOPPED}\<rparr>) s)))"

definition blk_mq_start_stopped_hw_queues :: "kernel \<Rightarrow> bool \<Rightarrow> blk \<Rightarrow> blk" where
  "blk_mq_start_stopped_hw_queues k async s =
     fold (\<lambda>h. blk_mq_start_stopped_hw_queue k h async) [0..<nr_hw_queues (the_q s)] s"

definition blk_mq_run_work_fn :: "kernel \<Rightarrow> nat \<Rightarrow> blk \<Rightarrow> blk" where
  "blk_mq_run_work_fn k h s =
     (if BLK_MQ_S_STOPPED \<in> hctx_state (hctx_at s h) then s else blk_mq_run_hw_queue_now k h s)"

definition blk_mq_request_bypass_insert :: "kernel \<Rightarrow> nat \<Rightarrow> bool \<Rightarrow> bool \<Rightarrow> blk \<Rightarrow> blk option" where
  "blk_mq_request_bypass_insert k r at_head run_queue s = do {
     h \<leftarrow> mq_hctx (rqs s r);
     let s1 = upd_hctx h (\<lambda>x. x\<lparr>hctx_dispatch :=
                (if at_head then r # hctx_dispatch x else hctx_dispatch x @ [r])\<rparr>) s;
     Some (if run_queue then snd (blk_mq_run_hw_queue k h False s1) else s1) }"

section \<open>Requeue work\<close>

text \<open>
  The first pass takes the requests marked for head insertion or holding driver data, the second
  the rest; \<open>blk_mq_sched_insert_request\<close> belongs to the scheduler.
\<close>

fun requeue_marked :: "kernel \<Rightarrow> nat list \<Rightarrow> blk \<Rightarrow> (nat list \<times> blk) option" where
  "requeue_marked k [] s = Some ([], s)"
| "requeue_marked k (r # l) s =
     (if rq_flags (rqs s r) AND (RQF_SOFTBARRIER OR RQF_DONTPREP) = 0
      then do { (rest, s1) \<leftarrow> requeue_marked k l s; Some (r # rest, s1) }
      else do {
        let s1 = upd_rq r (\<lambda>q. q\<lparr>rq_flags := rq_flags q AND NOT RQF_SOFTBARRIER\<rparr>) s;
        s2 \<leftarrow> (if rq_flags (rqs s1 r) AND RQF_DONTPREP \<noteq> 0
               then blk_mq_request_bypass_insert k r False False s1
               else Some (log_ev (Call ''blk_mq_sched_insert_request'' [int r, 1, 0, 0]) s1));
        requeue_marked k l s2 })"

definition blk_mq_requeue_work :: "kernel \<Rightarrow> blk \<Rightarrow> blk option" where
  "blk_mq_requeue_work k s = do {
     (rest, s1) \<leftarrow> requeue_marked k (q_requeue_list (the_q s)) (upd_requeue_list (\<lambda>_. []) s);
     let s2 = fold (\<lambda>r. log_ev (Call ''blk_mq_sched_insert_request'' [int r, 0, 0, 0])) rest s1;
     Some (blk_mq_run_hw_queues k False s2) }"

section \<open>Freezing and quiescing\<close>

definition upd_q :: "(request_queue \<Rightarrow> request_queue) \<Rightarrow> blk \<Rightarrow> blk" where
  "upd_q f s = s\<lparr>the_q := f (the_q s)\<rparr>"

definition blk_freeze_queue_start :: "kernel \<Rightarrow> blk \<Rightarrow> blk" where
  "blk_freeze_queue_start k s =
     (let s1 = upd_q (\<lambda>q. q\<lparr>mq_freeze_depth := mq_freeze_depth q + 1\<rparr>) s in
      if mq_freeze_depth (the_q s1) = 1
      then blk_mq_run_hw_queues k False (upd_q (\<lambda>q. q\<lparr>q_usage_dead := True\<rparr>) s1)
      else s1)"

definition blk_mq_freeze_queue :: "kernel \<Rightarrow> blk \<Rightarrow> blk" where
  "blk_mq_freeze_queue k s = log_ev (Call ''blk_mq_freeze_queue_wait'' []) (blk_freeze_queue_start k s)"

definition blk_mq_unfreeze_queue :: "blk \<Rightarrow> blk" where
  "blk_mq_unfreeze_queue s =
     (let s1 = upd_q (\<lambda>q. q\<lparr>mq_freeze_depth := mq_freeze_depth q - 1\<rparr>) s in
      if mq_freeze_depth (the_q s1) = 0
      then log_ev (Call ''wake_up_all'' []) (upd_q (\<lambda>q. q\<lparr>q_usage_dead := False\<rparr>) s1)
      else s1)"

definition blk_mq_quiesce_queue_nowait :: "blk \<Rightarrow> blk" where
  "blk_mq_quiesce_queue_nowait s =
     upd_q (\<lambda>q. q\<lparr>queue_flags := insert QUEUE_FLAG_QUIESCED (queue_flags q)\<rparr>) s"

definition blk_mq_quiesce_queue :: "blk \<Rightarrow> blk" where
  "blk_mq_quiesce_queue s =
     (let s1 = blk_mq_quiesce_queue_nowait s;
          hs = [0..<nr_hw_queues (the_q s1)];
          blocking = (\<lambda>h. BLK_MQ_F_BLOCKING \<in> hctx_flags (hctx_at s1 h));
          s2 = fold (\<lambda>h. log_ev (Call ''synchronize_srcu'' [int h])) (filter blocking hs) s1 in
      if \<exists>h\<in>set hs. \<not> blocking h then log_ev (Call ''synchronize_rcu'' []) s2 else s2)"

definition blk_mq_unquiesce_queue :: "kernel \<Rightarrow> blk \<Rightarrow> blk" where
  "blk_mq_unquiesce_queue k s =
     blk_mq_run_hw_queues k True
       (upd_q (\<lambda>q. q\<lparr>queue_flags := queue_flags q - {QUEUE_FLAG_QUIESCED}\<rparr>) s)"

definition blk_mq_wake_waiters :: "blk \<Rightarrow> blk" where
  "blk_mq_wake_waiters s =
     fold (\<lambda>h x. if blk_mq_hw_queue_mapped (hctx_at x h)
                 then log_ev (Call ''blk_mq_tag_wakeup_all'' [int h]) x else x)
       [0..<nr_hw_queues (the_q s)] s"

end
