(* ===== verification/Blk_Mq_Dispatch.thy ===== *)
theory Blk_Mq_Dispatch
  imports Blk_Mq_Run
begin

text \<open>
  Handing requests to the driver: waiting for driver tags, the busyness average, dispatch of a
  list, direct issue, plug lists and \<open>blk_mq_make_request\<close>. The driver's answers and the budget are
  parameters; what is handed over, given back and inserted is recorded as events.
\<close>

section \<open>Budget, waiting for tags, busyness\<close>

definition blk_mq_put_dispatch_budget :: "nat \<Rightarrow> blk \<Rightarrow> blk" where
  "blk_mq_put_dispatch_budget h s =
     (if has_put_budget (q_ops (the_q s)) then log_ev (Call ''put_budget'' [int h]) s else s)"

definition blk_mq_get_dispatch_budget :: "kernel \<Rightarrow> nat \<Rightarrow> blk \<Rightarrow> bool \<times> blk" where
  "blk_mq_get_dispatch_budget k h s =
     (if has_get_budget (q_ops (the_q s))
      then (get_budget k (drv_pos s), (log_ev (Call ''get_budget'' [int h]) s)\<lparr>drv_pos := Suc (drv_pos s)\<rparr>)
      else (True, s))"

definition upd_ws_active :: "nat option \<Rightarrow> int \<Rightarrow> blk \<Rightarrow> blk option" where
  "upd_ws_active tp d s = do { t \<leftarrow> tp; Some (upd_tags t (\<lambda>x. x\<lparr>ws_active := ws_active x + d\<rparr>) s) }"

definition blk_mq_dispatch_wake :: "kernel \<Rightarrow> nat \<Rightarrow> blk \<Rightarrow> blk option" where
  "blk_mq_dispatch_wake k h s = do {
     s1 \<leftarrow> (if dispatch_wait (hctx_at s h)
            then upd_ws_active (hctx_tags (hctx_at s h)) (-1) (upd_hctx h (\<lambda>x. x\<lparr>dispatch_wait := False\<rparr>) s)
            else Some s);
     Some (snd (blk_mq_run_hw_queue k h True s1)) }"

definition blk_mq_mark_tag_wait :: "kernel \<Rightarrow> nat \<Rightarrow> nat \<Rightarrow> blk \<Rightarrow> (bool \<times> blk) option" where
  "blk_mq_mark_tag_wait k h r s =
     (if BLK_MQ_F_TAG_SHARED \<notin> hctx_flags (hctx_at s h)
      then blk_mq_get_driver_tag k r (upd_hctx h (sched_mark_restart k) s)
      else if dispatch_wait (hctx_at s h) then Some (False, s)
      else do {
        s1 \<leftarrow> upd_ws_active (hctx_tags (hctx_at s h)) 1 s;
        (ok, s2) \<leftarrow> blk_mq_get_driver_tag k r (upd_hctx h (\<lambda>x. x\<lparr>dispatch_wait := True\<rparr>) s1);
        if \<not> ok then Some (False, s2)
        else do {
          s3 \<leftarrow> upd_ws_active (hctx_tags (hctx_at s2 h)) (-1) (upd_hctx h (\<lambda>x. x\<lparr>dispatch_wait := False\<rparr>) s2);
          Some (True, s3) } })"

definition busy_ewma :: "u32 \<Rightarrow> bool \<Rightarrow> u32" where
  "busy_ewma ewma busy =
     (if ewma = 0 \<and> \<not> busy then ewma else (ewma * (8 - 1) + (if busy then push_bit 4 1 else 0)) div 8)"

definition blk_mq_update_dispatch_busy :: "nat \<Rightarrow> bool \<Rightarrow> blk \<Rightarrow> blk" where
  "blk_mq_update_dispatch_busy h busy s =
     (if q_elevator (the_q s) \<noteq> None then s
      else upd_hctx h (\<lambda>x. x\<lparr>dispatch_busy := busy_ewma (dispatch_busy x) busy\<rparr>) s)"

section \<open>Dispatch of a list\<close>

definition BLK_MQ_RESOURCE_DELAY :: nat where "BLK_MQ_RESOURCE_DELAY = 3"

definition is_resource :: "blk_status \<Rightarrow> bool" where
  "is_resource st \<longleftrightarrow> st = BLK_STS_RESOURCE \<or> st = BLK_STS_DEV_RESOURCE"

definition call_queue_rq :: "kernel \<Rightarrow> nat \<Rightarrow> nat \<Rightarrow> bool \<Rightarrow> blk \<Rightarrow> blk_status \<times> blk" where
  "call_queue_rq k h r bd_last s =
     (queue_rq k (drv_pos s) r,
      (log_ev (Call ''queue_rq'' [int h, int r, of_bool bd_last]) s)\<lparr>drv_pos := Suc (drv_pos s)\<rparr>)"

definition commit_rqs :: "nat \<Rightarrow> blk \<Rightarrow> blk" where
  "commit_rqs h s = (if has_commit_rqs (q_ops (the_q s)) then log_ev (Call ''commit_rqs'' [int h]) s else s)"

record dispatch_vars =
  dv_hctx :: nat
  dv_no_tag :: bool
  dv_errors :: nat
  dv_queued :: nat
  dv_ret :: blk_status

text \<open>
  The loop of \<open>blk_mq_dispatch_rq_list\<close>: what is left of the list, the variables and the state. The
  next request's tag decides the flag \<open>last\<close>; a request the driver has no resources for stays at the
  head of the list.
\<close>

fun dispatch_loop ::
  "kernel \<Rightarrow> bool \<Rightarrow> nat list \<Rightarrow> dispatch_vars \<Rightarrow> blk \<Rightarrow> (nat list \<times> dispatch_vars \<times> blk) option" where
  "dispatch_loop k got_budget [] d s = Some ([], d, s)"
| "dispatch_loop k got_budget (r # l) d s = do {
     h \<leftarrow> mq_hctx (rqs s r);
     let (budget, s1) = (if got_budget then (True, s) else blk_mq_get_dispatch_budget k h s);
     if \<not> budget then do { s2 \<leftarrow> blk_mq_put_driver_tag r s1; Some (r # l, d\<lparr>dv_hctx := h\<rparr>, s2) }
     else do {
       (tag, s2) \<leftarrow> blk_mq_get_driver_tag k r s1;
       (go, s3) \<leftarrow> (if tag then Some (True, s2) else blk_mq_mark_tag_wait k h r s2);
       if \<not> go then
         Some (r # l, d\<lparr>dv_hctx := h, dv_no_tag := dv_no_tag d \<or> BLK_MQ_F_TAG_SHARED \<in> hctx_flags (hctx_at s3 h)\<rparr>,
               blk_mq_put_dispatch_budget h s3)
       else do {
         (bd_last, s4) \<leftarrow> (case l of [] \<Rightarrow> Some (True, s3)
                        | n # _ \<Rightarrow> do { (t, x) \<leftarrow> blk_mq_get_driver_tag k n s3; Some (\<not> t, x) });
         let (ret, s5) = call_queue_rq k h r bd_last s4;
         if is_resource ret then do {
           s6 \<leftarrow> (case l of [] \<Rightarrow> Some s5 | n # _ \<Rightarrow> blk_mq_put_driver_tag n s5);
           s7 \<leftarrow> blk_mq_requeue_request_state r s6;
           Some (r # l, d\<lparr>dv_hctx := h, dv_ret := ret\<rparr>, s7) }
         else if ret \<noteq> BLK_STS_OK then do {
           s6 \<leftarrow> blk_mq_end_request k r BLK_STS_IOERR s5;
           dispatch_loop k got_budget l (d\<lparr>dv_hctx := h, dv_ret := ret, dv_errors := dv_errors d + 1\<rparr>) s6 }
         else dispatch_loop k got_budget l (d\<lparr>dv_hctx := h, dv_ret := ret, dv_queued := dv_queued d + 1\<rparr>) s5 } } }"

definition blk_mq_dispatch_rq_list :: "kernel \<Rightarrow> nat list \<Rightarrow> bool \<Rightarrow> blk \<Rightarrow> (bool \<times> blk) option" where
  "blk_mq_dispatch_rq_list k l got_budget s =
     (if l = [] then Some (False, s)
      else do {
        (rest, d, s1) \<leftarrow> dispatch_loop k got_budget l
            \<lparr>dv_hctx = 0, dv_no_tag = False, dv_errors = 0, dv_queued = 0, dv_ret = BLK_STS_OK\<rparr> s;
        let h = dv_hctx d;
        let i = queued_to_index (dv_queued d);
        let s2 = upd_hctx h (\<lambda>x. x\<lparr>dispatched := (dispatched x)(i := dispatched x i + 1)\<rparr>) s1;
        if rest \<noteq> [] then do {
          let s3 = upd_hctx h (\<lambda>x. x\<lparr>hctx_dispatch := hctx_dispatch x @ rest\<rparr>) (commit_rqs h s2);
          let needs_restart = sched_needs_restart k (hctx_at s3 h);
          let s4 = (if \<not> needs_restart \<or> (dv_no_tag d \<and> \<not> dispatch_wait (hctx_at s3 h))
                    then snd (blk_mq_run_hw_queue k h True s3)
                    else if needs_restart \<and> dv_ret d = BLK_STS_RESOURCE
                    then blk_mq_delay_run_hw_queue k h BLK_MQ_RESOURCE_DELAY s3 else s3);
          Some (False, blk_mq_update_dispatch_busy h True s4) }
        else do {
          let s3 = blk_mq_update_dispatch_busy h False s2;
          Some (if is_resource (dv_ret d) then False else dv_queued d + dv_errors d \<noteq> 0, s3) } })"

section \<open>Plug lists\<close>

record blk_plug =
  plug_list :: "nat list"
  plug_rq_count :: nat
  multiple_queues :: bool

text \<open>
  \<open>plug_rq_cmp\<close> compares the addresses of the contexts; the address of a software or hardware
  context is a parameter, as is \<open>list_sort\<close> of the kernel's library.
\<close>

record plug_env =
  ctx_addr :: "nat \<Rightarrow> nat"
  hctx_addr :: "nat option \<Rightarrow> nat"
  list_sort :: "(nat \<Rightarrow> nat \<Rightarrow> int) \<Rightarrow> nat list \<Rightarrow> nat list"

definition plug_rq_cmp :: "plug_env \<Rightarrow> blk \<Rightarrow> nat \<Rightarrow> nat \<Rightarrow> int" where
  "plug_rq_cmp a s x y =
     (if ctx_addr a (mq_ctx (rqs s x)) < ctx_addr a (mq_ctx (rqs s y)) then -1
      else if ctx_addr a (mq_ctx (rqs s x)) > ctx_addr a (mq_ctx (rqs s y)) then 1
      else if hctx_addr a (mq_hctx (rqs s x)) < hctx_addr a (mq_hctx (rqs s y)) then -1
      else if hctx_addr a (mq_hctx (rqs s x)) > hctx_addr a (mq_hctx (rqs s y)) then 1
      else of_bool (rq_sector (rqs s x) > rq_sector (rqs s y)))"

text \<open>
  The loop of \<open>blk_mq_flush_plug_list\<close>: runs of requests with the same software and hardware
  context are inserted together.
\<close>

definition rq_home :: "blk \<Rightarrow> nat \<Rightarrow> nat option \<times> nat" where
  "rq_home s r = (mq_hctx (rqs s r), mq_ctx (rqs s r))"

fun plug_groups ::
  "blk \<Rightarrow> nat list \<Rightarrow> (nat option \<times> nat) \<Rightarrow> nat list \<Rightarrow> ((nat option \<times> nat) \<times> nat list) list" where
  "plug_groups s [] this rq_list = (if fst this \<noteq> None then [(this, rq_list)] else [])"
| "plug_groups s (r # l) this rq_list =
     (if rq_home s r \<noteq> this then
        (if fst this \<noteq> None then (this, rq_list) # plug_groups s l (rq_home s r) [r]
         else plug_groups s l (rq_home s r) (rq_list @ [r]))
      else plug_groups s l this (rq_list @ [r]))"

definition insert_group :: "bool \<Rightarrow> (nat option \<times> nat) \<times> nat list \<Rightarrow> blk \<Rightarrow> blk" where
  "insert_group from_schedule g s =
     log_ev (Call ''blk_mq_sched_insert_requests''
        ((case fst (fst g) of None \<Rightarrow> -1 | Some h \<Rightarrow> int h) # int (snd (fst g)) # of_bool from_schedule # map int (snd g))) s"

definition blk_mq_flush_plug_list :: "plug_env \<Rightarrow> bool \<Rightarrow> blk_plug \<Rightarrow> blk \<Rightarrow> blk_plug \<times> blk" where
  "blk_mq_flush_plug_list a from_schedule plug s =
     (let l = (if 2 < plug_rq_count plug \<and> multiple_queues plug
               then list_sort a (plug_rq_cmp a s) (plug_list plug) else plug_list plug) in
      (plug\<lparr>plug_list := [], plug_rq_count := 0\<rparr>,
       fold (insert_group from_schedule) (plug_groups s l (None, 0) []) s))"

text \<open>\<open>blk_add_rq_to_plug\<close>; the queue of a request is a parameter.\<close>

definition blk_add_rq_to_plug :: "(nat \<Rightarrow> nat) \<Rightarrow> nat \<Rightarrow> blk_plug \<Rightarrow> blk_plug" where
  "blk_add_rq_to_plug q_of r plug =
     (let l = plug_list plug @ [r] in
      plug\<lparr>plug_list := l, plug_rq_count := plug_rq_count plug + 1,
           multiple_queues := multiple_queues plug \<or> (length l \<noteq> 1 \<and> q_of (hd l) \<noteq> q_of r)\<rparr>)"

section \<open>Direct issue\<close>

datatype blk_qc = BLK_QC_T_NONE | Qc int nat bool

definition request_to_qc_t :: "blk_mq_hw_ctx \<Rightarrow> request \<Rightarrow> blk_qc" where
  "request_to_qc_t hctx rq =
     (if rq_tag rq \<noteq> -1 then Qc (rq_tag rq) (queue_num hctx) False
      else Qc (internal_tag rq) (queue_num hctx) True)"

definition blk_mq_bio_to_request :: "kernel \<Rightarrow> bio \<Rightarrow> nat \<Rightarrow> nat \<Rightarrow> blk \<Rightarrow> blk" where
  "blk_mq_bio_to_request k b nr_segs r s =
     log_ev (Call ''blk_account_io_start'' [int r])
       (upd_rq r (\<lambda>q. bio_prep k b nr_segs
          (q\<lparr>cmd_flags := (if bi_opf b AND REQ_RAHEAD k \<noteq> 0 then cmd_flags q OR REQ_FAILFAST_MASK k else cmd_flags q),
             rq_sector := bi_sector b, write_hint := bi_write_hint b\<rparr>)) s)"

text \<open>\<open>__blk_mq_issue_directly\<close>: the status, the cookie if it is set, and the state.\<close>

definition blk_mq_issue_directly ::
  "kernel \<Rightarrow> nat \<Rightarrow> nat \<Rightarrow> bool \<Rightarrow> blk \<Rightarrow> (blk_status \<times> blk_qc option \<times> blk) option" where
  "blk_mq_issue_directly k h r bd_last s = do {
     let new_cookie = request_to_qc_t (hctx_at s h) (rqs s r);
     let (ret, s1) = call_queue_rq k h r bd_last s;
     if ret = BLK_STS_OK then Some (ret, Some new_cookie, blk_mq_update_dispatch_busy h False s1)
     else if is_resource ret then do {
       s2 \<leftarrow> blk_mq_requeue_request_state r (blk_mq_update_dispatch_busy h True s1);
       Some (ret, None, s2) }
     else Some (ret, Some BLK_QC_T_NONE, blk_mq_update_dispatch_busy h False s1) }"

text \<open>\<open>__blk_mq_try_issue_directly\<close>\<close>

definition blk_mq_try_issue ::
  "kernel \<Rightarrow> nat \<Rightarrow> nat \<Rightarrow> bool \<Rightarrow> bool \<Rightarrow> blk \<Rightarrow> (blk_status \<times> blk_qc option \<times> blk) option" where
  "blk_mq_try_issue k h r bypass_insert bd_last s =
     (let ins = (\<lambda>bypass run x.
            if bypass then Some (BLK_STS_RESOURCE, None, x)
            else do { y \<leftarrow> blk_mq_request_bypass_insert k r False run x; Some (BLK_STS_OK, None, y) }) in
      if blk_mq_hctx_stopped (hctx_at s h) \<or> QUEUE_FLAG_QUIESCED \<in> queue_flags (the_q s)
      then ins False False s
      else if q_elevator (the_q s) \<noteq> None \<and> \<not> bypass_insert then ins bypass_insert True s
      else
        (let (budget, s1) = blk_mq_get_dispatch_budget k h s in
         if \<not> budget then ins bypass_insert True s1
         else do {
           (tag, s2) \<leftarrow> blk_mq_get_driver_tag k r s1;
           if \<not> tag then ins bypass_insert True (blk_mq_put_dispatch_budget h s2)
           else blk_mq_issue_directly k h r bd_last s2 }))"

definition blk_mq_try_issue_directly :: "kernel \<Rightarrow> nat \<Rightarrow> nat \<Rightarrow> blk \<Rightarrow> (blk_qc option \<times> blk) option" where
  "blk_mq_try_issue_directly k h r s = do {
     (ret, cookie, s1) \<leftarrow> blk_mq_try_issue k h r False True s;
     s2 \<leftarrow> (if is_resource ret then blk_mq_request_bypass_insert k r False True s1
            else if ret \<noteq> BLK_STS_OK then blk_mq_end_request k r ret s1 else Some s1);
     Some (cookie, s2) }"

definition blk_mq_request_issue_directly :: "kernel \<Rightarrow> nat \<Rightarrow> bool \<Rightarrow> blk \<Rightarrow> (blk_status \<times> blk) option" where
  "blk_mq_request_issue_directly k r bd_last s = do {
     h \<leftarrow> mq_hctx (rqs s r);
     (ret, _, s1) \<leftarrow> blk_mq_try_issue k h r True bd_last s;
     Some (ret, s1) }"

fun issue_list :: "kernel \<Rightarrow> nat list \<Rightarrow> blk \<Rightarrow> (nat list \<times> blk) option" where
  "issue_list k [] s = Some ([], s)"
| "issue_list k (r # l) s = do {
     (ret, s1) \<leftarrow> blk_mq_request_issue_directly k r (l = []) s;
     if ret = BLK_STS_OK then issue_list k l s1
     else if is_resource ret then do {
       s2 \<leftarrow> blk_mq_request_bypass_insert k r False (l = []) s1;
       Some (l, s2) }
     else do { s2 \<leftarrow> blk_mq_end_request k r ret s1; issue_list k l s2 } }"

definition blk_mq_try_issue_list_directly :: "kernel \<Rightarrow> nat \<Rightarrow> nat list \<Rightarrow> blk \<Rightarrow> (nat list \<times> blk) option" where
  "blk_mq_try_issue_list_directly k h l s = do {
     (rest, s1) \<leftarrow> issue_list k l s;
     Some (rest, if rest \<noteq> [] then commit_rqs h s1 else s1) }"

section \<open>Submission\<close>

definition BLK_MAX_REQUEST_COUNT :: nat where "BLK_MAX_REQUEST_COUNT = 16"
definition BLK_PLUG_FLUSH_SIZE :: u32 where "BLK_PLUG_FLUSH_SIZE = 131072"

text \<open>
  What \<open>blk_mq_make_request\<close> gets from the code around it: the I/O priority and plug of the
  submitting task, bouncing and splitting of the bio, integrity data, the merge attempts (with the
  plugged request of the same queue that the first one reports) and \<open>blk_flush_plug_list\<close>.
\<close>

record submit_env =
  se_io_context :: "u16 option"
  se_plug :: "blk_plug option"
  se_zoned :: bool
  se_bounce_split :: "bio \<Rightarrow> bio \<times> nat"
  se_integrity_prep :: bool
  se_plug_merge :: "bool \<times> nat option"
  se_bio_merge :: bool
  se_flush_plug :: "blk_plug \<Rightarrow> blk \<Rightarrow> blk_plug \<times> blk"
  se_q_of :: "nat \<Rightarrow> nat"

definition blk_mq_plug :: "kernel \<Rightarrow> submit_env \<Rightarrow> bio \<Rightarrow> blk_plug option" where
  "blk_mq_plug k e b = (if \<not> se_zoned e \<or> \<not> req_is_write k (bi_opf b) then se_plug e else None)"

definition sched_insert :: "nat \<Rightarrow> blk \<Rightarrow> blk" where
  "sched_insert r s = log_ev (Call ''blk_mq_sched_insert_request'' [int r, 0, 1, 1]) s"

text \<open>Adding a request to the plug of the task, flushing the plug first when it is full.\<close>

definition make_request_plugged :: "submit_env \<Rightarrow> nat \<Rightarrow> blk_plug \<Rightarrow> blk \<Rightarrow> blk_plug \<times> blk" where
  "make_request_plugged e r plug s =
     (let full = (BLK_MAX_REQUEST_COUNT \<le> plug_rq_count plug \<or>
                  (plug_rq_count plug \<noteq> 0 \<and> BLK_PLUG_FLUSH_SIZE \<le> rq_data_len (rqs s (last (plug_list plug)))));
          (plug1, s1) = (if full then se_flush_plug e plug s else (plug, s)) in
      (blk_add_rq_to_plug (se_q_of e) r plug1, s1))"

text \<open>Limited plugging: at most one request stays plugged, an earlier one of the same queue is issued.\<close>

definition make_request_limited ::
  "kernel \<Rightarrow> submit_env \<Rightarrow> nat option \<Rightarrow> nat \<Rightarrow> blk_plug \<Rightarrow> blk_qc \<Rightarrow> blk \<Rightarrow> (blk_qc \<times> blk_plug \<times> blk) option" where
  "make_request_limited k e same r plug cookie s =
     (let same1 = (if plug_list plug = [] then None else same) in
      case same1 of
        None \<Rightarrow> Some (cookie, blk_add_rq_to_plug (se_q_of e) r plug, s)
      | Some x \<Rightarrow> do {
          let plug1 = plug\<lparr>plug_list := remove1 x (plug_list plug), plug_rq_count := plug_rq_count plug - 1\<rparr>;
          h \<leftarrow> mq_hctx (rqs s x);
          (co, s1) \<leftarrow> blk_mq_try_issue_directly k h x s;
          Some (case co of None \<Rightarrow> cookie | Some c \<Rightarrow> c, blk_add_rq_to_plug (se_q_of e) r plug1, s1) })"

text \<open>What happens to the new request, by the kind of queue.\<close>

definition make_request_issue ::
  "kernel \<Rightarrow> submit_env \<Rightarrow> bool \<Rightarrow> bool \<Rightarrow> nat option \<Rightarrow> bio \<Rightarrow> nat \<Rightarrow> nat \<Rightarrow> blk_qc \<Rightarrow> blk
    \<Rightarrow> (blk_qc \<times> blk_plug option \<times> blk) option" where
  "make_request_issue k e is_sync is_flush_fua same b h r cookie s =
     (let plug = blk_mq_plug k e b; q = the_q s;
          direct = (\<lambda>x. do { (co, y) \<leftarrow> blk_mq_try_issue_directly k h r x;
                             Some (case co of None \<Rightarrow> cookie | Some c \<Rightarrow> c, plug, y) }) in
      if is_flush_fua
      then Some (cookie, plug, snd (blk_mq_run_hw_queue k h True (log_ev (Call ''blk_insert_flush'' [int r]) s)))
      else if plug \<noteq> None \<and> (nr_hw_queues q = 1 \<or> has_commit_rqs (q_ops q) \<or> QUEUE_FLAG_NONROT \<notin> queue_flags q)
      then (let (p, s1) = make_request_plugged e r (the plug) s in Some (cookie, Some p, s1))
      else if q_elevator q \<noteq> None then Some (cookie, plug, sched_insert r s)
      else if plug \<noteq> None \<and> QUEUE_FLAG_NOMERGES \<notin> queue_flags q
      then do { (c, p, s1) \<leftarrow> make_request_limited k e same r (the plug) cookie s; Some (c, Some p, s1) }
      else if (1 < nr_hw_queues q \<and> is_sync) \<or> dispatch_busy (hctx_at s h) = 0 then direct s
      else Some (cookie, plug, sched_insert r s))"

definition blk_mq_make_request ::
  "kernel \<Rightarrow> submit_env \<Rightarrow> bio \<Rightarrow> blk \<Rightarrow> (blk_qc \<times> blk_plug option \<times> blk) option" where
  "blk_mq_make_request k e b0 s =
     (let is_sync = op_is_sync k (bi_opf b0); is_flush_fua = op_is_flush k (bi_opf b0);
          (b, nr_segs) = se_bounce_split e (blk_switch_set_ioprio k (se_io_context e) b0);
          (merged, same) = (if \<not> is_flush_fua \<and> QUEUE_FLAG_NOMERGES \<notin> queue_flags (the_q s)
                            then se_plug_merge e else (False, None)) in
      if \<not> se_integrity_prep e \<or> merged \<or> se_bio_merge e then Some (BLK_QC_T_NONE, se_plug e, s)
      else do {
        (ro, d, s1) \<leftarrow> blk_mq_get_request k (Some b) (empty_alloc_data 0 (bi_opf b))
                        (log_ev (Call ''rq_qos_throttle'' []) s);
        case ro of
          None \<Rightarrow>
            (let s2 = log_ev (Call ''rq_qos_cleanup'' []) s1 in
             Some (BLK_QC_T_NONE, se_plug e,
                   if bi_opf b AND REQ_NOWAIT k \<noteq> 0 then log_ev (Call ''bio_wouldblock_error'' []) s2 else s2))
        | Some r \<Rightarrow> do {
            h \<leftarrow> ad_hctx d;
            let cookie = request_to_qc_t (hctx_at s1 h) (rqs s1 r);
            let s2 = blk_mq_bio_to_request k b nr_segs r (log_ev (Call ''rq_qos_track'' [int r]) s1);
            make_request_issue k e is_sync is_flush_fua same b h r cookie s2 } })"

end
