(* ===== verification/Blk_Mq_Run_Correct.thy ===== *)
theory Blk_Mq_Run_Correct
  imports Blk_Mq_Dispatch
begin

text \<open>
  The software queues of a hardware context refine a list of request lists; pending work is reported and
  run on an online CPU; freezing nests and a quiesced queue is left alone.
\<close>

section \<open>Reading a state after an update\<close>

lemma at_upd_ctx [simp]:
  "ctx_at (upd_ctx c f s) c' = (if c' = c then f (ctx_at s c) else ctx_at s c')" "hctx_at (upd_ctx c f s) h = hctx_at s h"
  "rqs (upd_ctx c f s) = rqs s" "tagsp (upd_ctx c f s) = tagsp s" "events (upd_ctx c f s) = events s"
  by (simp_all add: upd_ctx_def ctx_at_def hctx_at_def)

lemma at_upd_hctx [simp]:
  "hctx_at (upd_hctx h f s) h' = (if h' = h then f (hctx_at s h) else hctx_at s h')" "ctx_at (upd_hctx h f s) c = ctx_at s c"
  "rqs (upd_hctx h f s) = rqs s" "tagsp (upd_hctx h f s) = tagsp s" "events (upd_hctx h f s) = events s"
  by (simp_all add: upd_hctx_def ctx_at_def hctx_at_def)

lemma at_upd_rq [simp]:
  "rqs (upd_rq r f s) r' = (if r' = r then f (rqs s r) else rqs s r')" "the_q (upd_rq r f s) = the_q s"
  "hctx_at (upd_rq r f s) h = hctx_at s h" "ctx_at (upd_rq r f s) c = ctx_at s c" "events (upd_rq r f s) = events s"
  "tagsp (upd_rq r f s) = tagsp s"
  by (simp_all add: upd_rq_def ctx_at_def hctx_at_def)

lemma at_log_ev [simp]:
  "rqs (log_ev e s) = rqs s" "the_q (log_ev e s) = the_q s" "hctx_at (log_ev e s) h = hctx_at s h"
  "ctx_at (log_ev e s) c = ctx_at s c" "tagsp (log_ev e s) = tagsp s" "events (log_ev e s) = events s @ [e]"
  by (simp_all add: log_ev_def ctx_at_def hctx_at_def)

section \<open>The software queues of a hardware context\<close>

text \<open>
  What the pending map stands for: the queues of the software contexts that are mapped to the hardware
  context, in the order of their bits.
\<close>

definition qlist :: "nat \<Rightarrow> blk \<Rightarrow> nat \<Rightarrow> nat list" where
  "qlist h s b = rq_lists (ctx_at s (hctx_ctxs (hctx_at s h) ! b)) (hctx_type_of (hctx_at s h))"

definition queues :: "nat \<Rightarrow> blk \<Rightarrow> nat list list" where
  "queues h s = map (qlist h s) [0..<length (hctx_ctxs (hctx_at s h))]"

definition maps_ok :: "nat \<Rightarrow> blk \<Rightarrow> bool" where
  "maps_ok h s \<longleftrightarrow> distinct (hctx_ctxs (hctx_at s h)) \<and>
     (\<forall>b < length (hctx_ctxs (hctx_at s h)). ctx_bit s h (hctx_ctxs (hctx_at s h) ! b) = b)"

definition pend_inv :: "nat \<Rightarrow> blk \<Rightarrow> bool" where
  "pend_inv h s \<longleftrightarrow> maps_ok h s \<and> ctx_map (hctx_at s h) \<subseteq> {..<length (hctx_ctxs (hctx_at s h))} \<and>
     (\<forall>b < length (hctx_ctxs (hctx_at s h)). qlist h s b \<noteq> [] \<longrightarrow> b \<in> ctx_map (hctx_at s h))"

text \<open>The mapping itself is not changed by moving requests around.\<close>

definition same_maps :: "nat \<Rightarrow> blk \<Rightarrow> blk \<Rightarrow> bool" where
  "same_maps h s s' \<longleftrightarrow> hctx_ctxs (hctx_at s' h) = hctx_ctxs (hctx_at s h) \<and> hctx_type_of (hctx_at s' h) = hctx_type_of (hctx_at s h) \<and>
     (\<forall>c. index_hw (ctx_at s' c) = index_hw (ctx_at s c)) \<and> rqs s' = rqs s"

lemma same_maps_refl [simp]: "same_maps h s s"
  by (simp add: same_maps_def)

lemma same_maps_trans: "same_maps h s t \<Longrightarrow> same_maps h t u \<Longrightarrow> same_maps h s u"
  by (simp add: same_maps_def)

lemma same_maps_ok: "same_maps h s s' \<Longrightarrow> maps_ok h s' = maps_ok h s"
  by (simp add: same_maps_def maps_ok_def ctx_bit_def)

lemma mark_pending_maps: "same_maps h s (blk_mq_hctx_mark_pending h c s)"
  by (simp add: same_maps_def blk_mq_hctx_mark_pending_def)

lemma qlist_mark [simp]: "qlist h (blk_mq_hctx_mark_pending h' c s) b = qlist h s b"
  by (simp add: qlist_def blk_mq_hctx_mark_pending_def)

lemma ctx_map_mark [simp]: "ctx_map (hctx_at (blk_mq_hctx_mark_pending h c s) h) = insert (ctx_bit s h c) (ctx_map (hctx_at s h))"
  by (auto simp: blk_mq_hctx_mark_pending_def)

lemma qlist_upd:
  assumes "maps_ok h s" "b < length (hctx_ctxs (hctx_at s h))" "b' < length (hctx_ctxs (hctx_at s h))"
  shows "qlist h (upd_ctx (hctx_ctxs (hctx_at s h) ! b) (\<lambda>x. x\<lparr>rq_lists := (rq_lists x)(hctx_type_of (hctx_at s h) := v)\<rparr>) s) b' =
    (if b' = b then v else qlist h s b')"
  using assms by (auto simp: qlist_def maps_ok_def nth_eq_iff_index_eq)

lemma map_upt_upd: "b < n \<Longrightarrow> (\<And>i. i < n \<Longrightarrow> g i = (if i = b then v else f i)) \<Longrightarrow> map g [0..<n] = (map f [0..<n])[b := v]"
  by (rule nth_equalityI) (auto simp: nth_list_update)

text \<open>Storing a list of requests in the queue of one context, and marking it.\<close>

lemma store_queue:
  assumes inv: "pend_inv h s" and b: "b < length (hctx_ctxs (hctx_at s h))" and c: "c = hctx_ctxs (hctx_at s h) ! b"
    and t: "t = hctx_type_of (hctx_at s h)"
  shows "pend_inv h (blk_mq_hctx_mark_pending h c (upd_ctx c (\<lambda>x. x\<lparr>rq_lists := (rq_lists x)(t := v)\<rparr>) s))"
    and "queues h (blk_mq_hctx_mark_pending h c (upd_ctx c (\<lambda>x. x\<lparr>rq_lists := (rq_lists x)(t := v)\<rparr>) s)) = (queues h s)[b := v]"
proof -
  let ?s1 = "upd_ctx c (\<lambda>x. x\<lparr>rq_lists := (rq_lists x)(t := v)\<rparr>) s"
  let ?s2 = "blk_mq_hctx_mark_pending h c ?s1"
  have m: "maps_ok h s" using inv by (simp add: pend_inv_def)
  have s1: "same_maps h s ?s1" by (simp add: same_maps_def)
  have s2: "same_maps h s ?s2" using same_maps_trans [OF s1 mark_pending_maps] .
  have bit: "ctx_bit ?s1 h c = b" using m b c s1 by (simp add: maps_ok_def ctx_bit_def)
  have q: "qlist h ?s2 b' = (if b' = b then v else qlist h s b')" if "b' < length (hctx_ctxs (hctx_at s h))" for b'
    using qlist_upd [OF m b that] by (simp add: c t)
  have cm: "ctx_map (hctx_at ?s2 h) = insert b (ctx_map (hctx_at s h))" using bit by simp
  have len: "hctx_ctxs (hctx_at ?s2 h) = hctx_ctxs (hctx_at s h)" using s2 by (simp add: same_maps_def)
  show "queues h ?s2 = (queues h s)[b := v]"
    unfolding queues_def len using b q by (rule map_upt_upd)
  show "pend_inv h ?s2" unfolding pend_inv_def len cm same_maps_ok [OF s2]
    using inv b q by (auto simp: pend_inv_def)
qed

lemma insert_request_refines:
  assumes inv: "pend_inv h s" and b: "b < length (hctx_ctxs (hctx_at s h))" and c: "mq_ctx (rqs s r) = hctx_ctxs (hctx_at s h) ! b"
  shows "pend_inv h (blk_mq_insert_request h r at_head s)"
    "queues h (blk_mq_insert_request h r at_head s) = (queues h s)[b := (if at_head then r # queues h s ! b else queues h s ! b @ [r])]"
proof -
  define v where "v = (if at_head then r # queues h s ! b else queues h s ! b @ [r])"
  have q: "rq_lists (ctx_at s (mq_ctx (rqs s r))) (hctx_type_of (hctx_at s h)) = queues h s ! b"
    using b c by (simp add: queues_def qlist_def)
  have eq: "blk_mq_insert_request h r at_head s = blk_mq_hctx_mark_pending h (mq_ctx (rqs s r))
      (upd_ctx (mq_ctx (rqs s r)) (\<lambda>x. x\<lparr>rq_lists := (rq_lists x)(hctx_type_of (hctx_at s h) := v)\<rparr>) s)"
    by (simp add: blk_mq_insert_request_def blk_mq_insert_req_list_def Let_def v_def q upd_ctx_def)
  show "pend_inv h (blk_mq_insert_request h r at_head s)" unfolding eq by (rule store_queue(1) [OF inv b c refl])
  show "queues h (blk_mq_insert_request h r at_head s) = (queues h s)[b := (if at_head then r # queues h s ! b else queues h s ! b @ [r])]"
    unfolding eq v_def [symmetric] by (rule store_queue(2) [OF inv b c refl])
qed

lemma insert_requests_refines:
  assumes inv: "pend_inv h s" and b: "b < length (hctx_ctxs (hctx_at s h))" and c: "c = hctx_ctxs (hctx_at s h) ! b"
    and l: "\<forall>r\<in>set l. mq_ctx (rqs s r) = c"
  obtains s' where "blk_mq_insert_requests h c l s = Some s'" "pend_inv h s'" "queues h s' = (queues h s)[b := queues h s ! b @ l]"
proof -
  define v where "v = queues h s ! b @ l"
  have q: "rq_lists (ctx_at s c) (hctx_type_of (hctx_at s h)) = queues h s ! b"
    using b c by (simp add: queues_def qlist_def)
  have "blk_mq_insert_requests h c l s = Some (blk_mq_hctx_mark_pending h c
      (upd_ctx c (\<lambda>x. x\<lparr>rq_lists := (rq_lists x)(hctx_type_of (hctx_at s h) := v)\<rparr>) s))"
    using l by (simp add: blk_mq_insert_requests_def Let_def v_def q upd_ctx_def)
  then show ?thesis using that store_queue [OF inv b c refl, of v] by (simp add: v_def)
qed

lemma flush_one:
  assumes m: "maps_ok h s" and b: "b < length (hctx_ctxs (hctx_at s h))"
  obtains s' where "flush_busy_ctx h b (l, s) = Some (l @ qlist h s b, s')" "same_maps h s s'"
    "ctx_map (hctx_at s' h) = ctx_map (hctx_at s h) - {b}"
    "\<And>b'. b' < length (hctx_ctxs (hctx_at s h)) \<Longrightarrow> qlist h s' b' = (if b' = b then [] else qlist h s b')"
proof -
  let ?c = "hctx_ctxs (hctx_at s h) ! b"
  let ?s1 = "upd_ctx ?c (\<lambda>x. x\<lparr>rq_lists := (rq_lists x)(hctx_type_of (hctx_at s h) := [])\<rparr>) s"
  let ?s2 = "upd_hctx h (\<lambda>x. x\<lparr>ctx_map := ctx_map x - {b}\<rparr>) ?s1"
  have "qlist h ?s2 b' = qlist h ?s1 b'" for b' by (simp add: qlist_def)
  then have "qlist h ?s2 b' = (if b' = b then [] else qlist h s b')" if "b' < length (hctx_ctxs (hctx_at s h))" for b'
    using qlist_upd [OF m b that, of "[]"] by simp
  moreover have "flush_busy_ctx h b (l, s) = Some (l @ qlist h s b, ?s2)"
    using b by (simp add: flush_busy_ctx_def Let_def qlist_def)
  ultimately show ?thesis by (intro that [of ?s2]) (simp_all add: same_maps_def)
qed

lemma flush_scan:
  assumes "maps_ok h s" "set bs \<subseteq> {..<length (hctx_ctxs (hctx_at s h))}" "distinct bs"
  shows "\<exists>s'. for_each (flush_busy_ctx h) bs (l, s) = Some (l @ concat (map (qlist h s) bs), s') \<and> same_maps h s s' \<and>
    ctx_map (hctx_at s' h) = ctx_map (hctx_at s h) - set bs \<and>
    (\<forall>b < length (hctx_ctxs (hctx_at s h)). qlist h s' b = (if b \<in> set bs then [] else qlist h s b))"
  using assms
proof (induction bs arbitrary: l s)
  case Nil
  then show ?case by simp
next
  case (Cons b bs)
  obtain s1 where s1: "flush_busy_ctx h b (l, s) = Some (l @ qlist h s b, s1)" "same_maps h s s1"
    "ctx_map (hctx_at s1 h) = ctx_map (hctx_at s h) - {b}"
    "\<And>b'. b' < length (hctx_ctxs (hctx_at s h)) \<Longrightarrow> qlist h s1 b' = (if b' = b then [] else qlist h s b')"
    using flush_one [of h s b l] Cons.prems by auto
  have len: "hctx_ctxs (hctx_at s1 h) = hctx_ctxs (hctx_at s h)" using s1(2) by (simp add: same_maps_def)
  have qs: "map (qlist h s1) bs = map (qlist h s) bs" using s1(4) Cons.prems by (intro map_cong refl) auto
  obtain s2 where s2: "for_each (flush_busy_ctx h) bs (l @ qlist h s b, s1) = Some ((l @ qlist h s b) @ concat (map (qlist h s1) bs), s2)"
    "same_maps h s1 s2" "ctx_map (hctx_at s2 h) = ctx_map (hctx_at s1 h) - set bs"
    "\<forall>b < length (hctx_ctxs (hctx_at s1 h)). qlist h s2 b = (if b \<in> set bs then [] else qlist h s1 b)"
    using Cons.IH [of s1 "l @ qlist h s b"] Cons.prems same_maps_ok [OF s1(2)] len by auto
  show ?case
    using s1 s2 same_maps_trans [OF s1(2) s2(2)] qs len by (intro exI [of _ s2]) auto
qed

lemma bits_upto: "A \<subseteq> {..<n} \<Longrightarrow> list_of_bits A = filter (\<lambda>b. b \<in> A) [0..<n]"
proof -
  assume A: "A \<subseteq> {..<n}"
  have "sorted (filter (\<lambda>b. b \<in> A) [0..<n])" "distinct (filter (\<lambda>b. b \<in> A) [0..<n])" "set (filter (\<lambda>b. b \<in> A) [0..<n]) = A"
    using A by (auto simp: sorted_wrt_filter)
  then show ?thesis unfolding list_of_bits_def by (metis sorted_distinct_set_unique sorted_list_of_set.sorted_sorted_key_list_of_set
      sorted_list_of_set.distinct_sorted_key_list_of_set finite_subset [OF A] finite_lessThan sorted_list_of_set.set_sorted_key_list_of_set)
qed

lemma concat_filter_empty: "(\<And>b. b \<in> set bs \<Longrightarrow> \<not> P b \<Longrightarrow> f b = []) \<Longrightarrow> concat (map f (filter P bs)) = concat (map f bs)"
  by (induction bs) auto

lemma flush_refines:
  assumes inv: "pend_inv h s"
  obtains s' where "blk_mq_flush_busy_ctxs h l s = Some (l @ concat (queues h s), s')" "pend_inv h s'" "same_maps h s s'"
    "queues h s' = replicate (length (queues h s)) []" "ctx_map (hctx_at s' h) = {}"
proof -
  define n where "n = length (hctx_ctxs (hctx_at s h))"
  define bs where "bs = list_of_bits (ctx_map (hctx_at s h))"
  have A: "ctx_map (hctx_at s h) \<subseteq> {..<n}" "maps_ok h s" using inv by (simp_all add: pend_inv_def n_def)
  have bs: "bs = filter (\<lambda>b. b \<in> ctx_map (hctx_at s h)) [0..<n]" using bits_upto [OF A(1)] by (simp add: bs_def)
  then have set: "set bs = ctx_map (hctx_at s h)" "distinct bs" using A(1) by auto
  obtain s' where s': "for_each (flush_busy_ctx h) bs (l, s) = Some (l @ concat (map (qlist h s) bs), s')" "same_maps h s s'"
    "ctx_map (hctx_at s' h) = ctx_map (hctx_at s h) - set bs"
    "\<forall>b < n. qlist h s' b = (if b \<in> set bs then [] else qlist h s b)"
    using flush_scan [of h s bs l] A set by (auto simp: n_def)
  have none: "qlist h s b = []" if "b < n" "b \<notin> ctx_map (hctx_at s h)" for b
    using inv that by (auto simp: pend_inv_def n_def)
  have "concat (map (qlist h s) bs) = concat (queues h s)"
    unfolding bs queues_def n_def [symmetric] by (rule concat_filter_empty) (use none in auto)
  moreover have e: "qlist h s' b = []" if "b < n" for b using s'(4) none set that by auto
  have len: "length (hctx_ctxs (hctx_at s' h)) = n" using s'(2) by (simp add: same_maps_def n_def)
  have "queues h s' = replicate (length (queues h s)) []"
    unfolding queues_def len using e by (intro nth_equalityI) (simp_all add: n_def)
  moreover have "pend_inv h s'"
    using A s' set e same_maps_ok [OF s'(2)] by (simp add: pend_inv_def len)
  ultimately show ?thesis using that s' set by (simp add: blk_mq_flush_busy_ctxs_def bs_def)
qed

lemma dispatch_one:
  assumes m: "maps_ok h s" and b: "b < length (hctx_ctxs (hctx_at s h))" and q: "qlist h s b = r # rest"
  obtains s' where "dispatch_rq_from_ctx h b s = Some (Some r, s')" "same_maps h s s'"
    "ctx_map (hctx_at s' h) = (if rest = [] then ctx_map (hctx_at s h) - {b} else ctx_map (hctx_at s h))"
    "\<And>b'. b' < length (hctx_ctxs (hctx_at s h)) \<Longrightarrow> qlist h s' b' = (if b' = b then rest else qlist h s b')"
proof -
  let ?c = "hctx_ctxs (hctx_at s h) ! b"
  let ?s1 = "upd_ctx ?c (\<lambda>x. x\<lparr>rq_lists := (rq_lists x)(hctx_type_of (hctx_at s h) := rest)\<rparr>) s"
  let ?s2 = "if rest = [] then upd_hctx h (\<lambda>x. x\<lparr>ctx_map := ctx_map x - {b}\<rparr>) ?s1 else ?s1"
  have "qlist h ?s2 b' = qlist h ?s1 b'" for b' by (simp add: qlist_def)
  then have "qlist h ?s2 b' = (if b' = b then rest else qlist h s b')" if "b' < length (hctx_ctxs (hctx_at s h))" for b'
    using qlist_upd [OF m b that, of rest] by simp
  moreover have "dispatch_rq_from_ctx h b s = Some (Some r, ?s2)"
    using b q by (simp add: dispatch_rq_from_ctx_def Let_def qlist_def)
  ultimately show ?thesis by (intro that [of ?s2]) (simp_all add: same_maps_def)
qed

text \<open>The scan finds the first context of its list whose queue is not empty.\<close>

definition dequeued :: "nat \<Rightarrow> blk \<Rightarrow> nat \<Rightarrow> nat \<times> blk \<Rightarrow> bool" where
  "dequeued h s b y \<longleftrightarrow> (case y of (r, s') \<Rightarrow>
     qlist h s b \<noteq> [] \<and> r = hd (qlist h s b) \<and> same_maps h s s' \<and> queues h s' = (queues h s)[b := tl (qlist h s b)] \<and>
     ctx_map (hctx_at s' h) = (if tl (qlist h s b) = [] then ctx_map (hctx_at s h) - {b} else ctx_map (hctx_at s h)))"

lemma dequeue_scan_finds:
  assumes m: "maps_ok h s" and bs: "set bs \<subseteq> {..<length (hctx_ctxs (hctx_at s h))}"
  shows "case find (\<lambda>b. qlist h s b \<noteq> []) bs of
      None \<Rightarrow> dequeue_scan h bs s = Some (None, s)
    | Some b \<Rightarrow> (\<exists>r s'. dequeue_scan h bs s = Some (Some r, s') \<and> dequeued h s b (r, s'))"
  using bs
proof (induction bs)
  case Nil
  then show ?case by simp
next
  case (Cons b bs)
  show ?case
  proof (cases "qlist h s b")
    case Nil
    then have "dispatch_rq_from_ctx h b s = Some (None, s)"
      using Cons.prems by (simp add: dispatch_rq_from_ctx_def Let_def qlist_def)
    then have "dequeue_scan h (b # bs) s = dequeue_scan h bs s" by simp
    then show ?thesis using Nil Cons.IH Cons.prems by (simp split: option.splits)
  next
    case q: (Cons r rest)
    have b: "b < length (hctx_ctxs (hctx_at s h))" using Cons.prems by simp
    obtain s' where s': "dispatch_rq_from_ctx h b s = Some (Some r, s')" "same_maps h s s'"
      "ctx_map (hctx_at s' h) = (if rest = [] then ctx_map (hctx_at s h) - {b} else ctx_map (hctx_at s h))"
      "\<And>b'. b' < length (hctx_ctxs (hctx_at s h)) \<Longrightarrow> qlist h s' b' = (if b' = b then rest else qlist h s b')"
      using dispatch_one [OF m b q] by blast
    have "length (hctx_ctxs (hctx_at s' h)) = length (hctx_ctxs (hctx_at s h))" using s'(2) by (simp add: same_maps_def)
    then have "queues h s' = (queues h s)[b := rest]"
      unfolding queues_def using map_upt_upd [OF b s'(4)] by simp
    then show ?thesis using s' q by (simp add: dequeued_def)
  qed
qed

lemma dequeue_refines:
  assumes inv: "pend_inv h s" and c: "case start of None \<Rightarrow> True | Some c \<Rightarrow> c \<in> set (hctx_ctxs (hctx_at s h))"
  defines "n \<equiv> length (hctx_ctxs (hctx_at s h))" and "off \<equiv> (case start of None \<Rightarrow> 0 | Some c \<Rightarrow> ctx_bit s h c)"
  shows "case find (\<lambda>b. queues h s ! b \<noteq> []) ([off..<n] @ [0..<off]) of
      None \<Rightarrow> blk_mq_dequeue_from_ctx h start s = Some (None, s)
    | Some b \<Rightarrow> (\<exists>s'. blk_mq_dequeue_from_ctx h start s = Some (Some (hd (queues h s ! b)), s') \<and> pend_inv h s' \<and>
        queues h s' = (queues h s)[b := tl (queues h s ! b)])"
proof -
  have A: "ctx_map (hctx_at s h) \<subseteq> {..<n}" "maps_ok h s" using inv by (simp_all add: pend_inv_def n_def)
  have off: "off \<le> n"
    using A(2) c by (force simp: off_def n_def maps_ok_def in_set_conv_nth split: option.splits)
  define M where "M = ctx_map (hctx_at s h)"
  define bs where "bs = filter (\<lambda>b. off \<le> b) (list_of_bits M) @ filter (\<lambda>b. b < off) (list_of_bits M)"
  have up: "[0..<n] = [0..<off] @ [off..<n]" using off by (metis bot_nat_0.extremum upt_add_eq_append le_add_diff_inverse)
  have bits: "list_of_bits M = filter (\<lambda>b. b \<in> M) [0..<n]" using bits_upto A(1) by (simp add: M_def)
  have bs: "bs = filter (\<lambda>b. b \<in> M) ([off..<n] @ [0..<off])"
  proof -
    have "filter (\<lambda>b. b \<in> M \<and> off \<le> b) [off..<n] = filter (\<lambda>b. b \<in> M) [off..<n]"
      "filter (\<lambda>b. b \<in> M \<and> b < off) [0..<off] = filter (\<lambda>b. b \<in> M) [0..<off]" by (auto intro: filter_cong)
    then show ?thesis unfolding bs_def bits up by (auto simp: filter_empty_conv)
  qed
  have q: "queues h s ! b = qlist h s b" if "b < n" for b using that by (simp add: queues_def n_def)
  have none: "qlist h s b = []" if "b < n" "b \<notin> M" for b using inv that by (auto simp: pend_inv_def n_def M_def)
  have find: "find (\<lambda>b. queues h s ! b \<noteq> []) xs = find (\<lambda>b. qlist h s b \<noteq> []) (filter (\<lambda>b. b \<in> M) xs)" if "set xs \<subseteq> {..<n}" for xs
    using that by (induction xs) (auto simp: q none)
  have xs: "set ([off..<n] @ [0..<off]) \<subseteq> {..<n}" using off by auto
  have dq: "blk_mq_dequeue_from_ctx h start s = dequeue_scan h bs s"
    by (simp add: blk_mq_dequeue_from_ctx_def Let_def bs_def off_def M_def)
  have scan: "case find (\<lambda>b. qlist h s b \<noteq> []) bs of None \<Rightarrow> dequeue_scan h bs s = Some (None, s)
    | Some b \<Rightarrow> (\<exists>r s'. dequeue_scan h bs s = Some (Some r, s') \<and> dequeued h s b (r, s'))"
    using xs by (intro dequeue_scan_finds [OF A(2)]) (auto simp: bs n_def)
  show ?thesis unfolding find [OF xs] bs [symmetric] dq
  proof (cases "find (\<lambda>b. qlist h s b \<noteq> []) bs")
    case None
    then show "case find (\<lambda>b. qlist h s b \<noteq> []) bs of None \<Rightarrow> dequeue_scan h bs s = Some (None, s)
      | Some b \<Rightarrow> (\<exists>s'. dequeue_scan h bs s = Some (Some (hd (queues h s ! b)), s') \<and> pend_inv h s' \<and>
          queues h s' = (queues h s)[b := tl (queues h s ! b)])" using scan by simp
  next
    case (Some b)
    then have "b \<in> set bs" by (auto simp: find_Some_iff)
    then have b: "b < n" using xs by (auto simp: bs)
    obtain r s' where s': "dequeue_scan h bs s = Some (Some r, s')" "dequeued h s b (r, s')" using scan Some by auto
    have len: "length (hctx_ctxs (hctx_at s' h)) = n" using s'(2) by (simp add: dequeued_def same_maps_def n_def)
    have qs: "qlist h s' b' = (if b' = b then tl (qlist h s b) else qlist h s b')" if "b' < n" for b'
    proof -
      have "qlist h s' b' = queues h s' ! b'" using that by (simp add: queues_def len)
      then show ?thesis using s'(2) that b q by (simp add: dequeued_def nth_list_update) (simp add: queues_def n_def nth_list_update)
    qed
    have "pend_inv h s'" unfolding pend_inv_def len
      using inv A s'(2) qs same_maps_ok [of h s s'] by (auto simp: dequeued_def pend_inv_def n_def split: if_splits)
    then show "case find (\<lambda>b. qlist h s b \<noteq> []) bs of None \<Rightarrow> dequeue_scan h bs s = Some (None, s)
      | Some b \<Rightarrow> (\<exists>s'. dequeue_scan h bs s = Some (Some (hd (queues h s ! b)), s') \<and> pend_inv h s' \<and>
          queues h s' = (queues h s)[b := tl (queues h s ! b)])" using s' Some b q by (simp add: dequeued_def)
  qed
qed

section \<open>An example\<close>

text \<open>Hardware context 0 with two software contexts, the second of which holds requests 7 and 8.\<close>

definition ex_swq :: blk where
  "ex_swq = upd_ctx 1 (\<lambda>x. x\<lparr>index_hw := (\<lambda>_. 1), rq_lists := (\<lambda>_. [7, 8])\<rparr>)
     (upd_hctx 0 (\<lambda>x. x\<lparr>hctx_ctxs := [0, 1], ctx_map := {1}\<rparr>) ex_blk)"

lemma ex_swq_at: "hctx_at ex_swq 0 = (ex_hctx 0)\<lparr>hctx_ctxs := [0, 1], ctx_map := {1}\<rparr>"
  "ctx_at ex_swq c = (if c = 1 then (ex_ctx 1)\<lparr>index_hw := (\<lambda>_. 1), rq_lists := (\<lambda>_. [7, 8])\<rparr> else ex_ctx c)"
  "rqs ex_swq = (\<lambda>_. ex_rq)"
  by (simp_all add: ex_swq_def ex_blk_def hctx_at_def ctx_at_def upd_ctx_def upd_hctx_def)

lemma ex_swq_inv: "pend_inv 0 ex_swq" "queues 0 ex_swq = [[], [7, 8]]"
  by (auto simp: pend_inv_def maps_ok_def ctx_bit_def qlist_def queues_def ex_swq_at ex_hctx_def ex_ctx_def less_2_cases_iff
      numeral_2_eq_2 less_Suc_eq)

section \<open>Sequences of operations on the software queues\<close>

datatype swq_op = Insert nat bool | Insert_list nat "nat list" | Flush | Dequeue "nat option"

fun swq_exec :: "nat \<Rightarrow> swq_op \<Rightarrow> blk \<Rightarrow> blk option" where
  "swq_exec h (Insert r at_head) s = Some (blk_mq_insert_request h r at_head s)"
| "swq_exec h (Insert_list c l) s = blk_mq_insert_requests h c l s"
| "swq_exec h Flush s = map_option snd (blk_mq_flush_busy_ctxs h [] s)"
| "swq_exec h (Dequeue start) s = map_option snd (blk_mq_dequeue_from_ctx h start s)"

fun swq_ok :: "nat \<Rightarrow> swq_op \<Rightarrow> blk \<Rightarrow> bool" where
  "swq_ok h (Insert r at_head) s = (mq_ctx (rqs s r) \<in> set (hctx_ctxs (hctx_at s h)))"
| "swq_ok h (Insert_list c l) s = (c \<in> set (hctx_ctxs (hctx_at s h)) \<and> (\<forall>r\<in>set l. mq_ctx (rqs s r) = c))"
| "swq_ok h Flush s = True"
| "swq_ok h (Dequeue start) s = (case start of None \<Rightarrow> True | Some c \<Rightarrow> c \<in> set (hctx_ctxs (hctx_at s h)))"

interpretation swq: op_invariant "swq_exec h" "swq_ok h" "pend_inv h" for h
proof
  fix s a s' assume inv: "pend_inv h s" and ok: "swq_ok h a s" and x: "swq_exec h a s = Some s'"
  show "pend_inv h s'"
  proof (cases a)
    case (Insert r at_head)
    then obtain b where "b < length (hctx_ctxs (hctx_at s h))" "mq_ctx (rqs s r) = hctx_ctxs (hctx_at s h) ! b"
      using ok by (auto simp: in_set_conv_nth)
    then show ?thesis using insert_request_refines(1) [OF inv] x Insert by auto
  next
    case (Insert_list c l)
    then obtain b where b: "b < length (hctx_ctxs (hctx_at s h))" "c = hctx_ctxs (hctx_at s h) ! b" "\<forall>r\<in>set l. mq_ctx (rqs s r) = c"
      using ok by (auto simp: in_set_conv_nth)
    obtain t where "blk_mq_insert_requests h c l s = Some t" "pend_inv h t" using insert_requests_refines [OF inv b] .
    then show ?thesis using x Insert_list by simp
  next
    case Flush
    obtain t where "blk_mq_flush_busy_ctxs h [] s = Some ([] @ concat (queues h s), t)" "pend_inv h t" using flush_refines [OF inv] .
    then show ?thesis using x Flush by simp
  next
    case (Dequeue start)
    then show ?thesis using dequeue_refines [OF inv, of start] ok x inv by (auto split: option.splits)
  qed
qed

text \<open>
  C18: No software queue is forgotten. However requests are inserted into, flushed from and dequeued
  from the software queues of a hardware context, the context reports pending work as long as one of
  them holds a request.
\<close>

theorem pending_reported:
  assumes "pend_inv h s" "swq.run h s ops s'" "q \<in> set (queues h s')" "q \<noteq> []"
  shows "blk_mq_hctx_has_pending k h s'"
  using swq.run_inv [OF assms(2,1)] assms(3,4) by (auto simp: pend_inv_def queues_def blk_mq_hctx_has_pending_def)

theorem pending_reported_witness: "blk_mq_hctx_has_pending ex_kernel 0 ex_swq"
  using pending_reported [OF ex_swq_inv(1) swq.run_nil, of "[7, 8]"] ex_swq_inv(2) by simp

text \<open>
  C28: Flushing takes everything. \<open>blk_mq_flush_busy_ctxs\<close> returns and appends to its list exactly the
  requests of all software queues of the context, queue by queue and each in its order; afterwards all
  of them and the pending map are empty.
\<close>

theorem flush_takes_all:
  assumes "pend_inv h s"
  shows "\<exists>s'. blk_mq_flush_busy_ctxs h l s = Some (l @ concat (queues h s), s') \<and>
    queues h s' = replicate (length (queues h s)) [] \<and> ctx_map (hctx_at s' h) = {} \<and> rqs s' = rqs s"
  using flush_refines [OF assms] by (metis same_maps_def)

theorem flush_takes_all_witness:
  "\<exists>s'. blk_mq_flush_busy_ctxs 0 [3] ex_swq = Some ([3, 7, 8], s') \<and> queues 0 s' = [[], []]"
  using flush_takes_all [OF ex_swq_inv(1), of "[3]"] by (auto simp: ex_swq_inv(2) numeral_2_eq_2)

text \<open>
  C29: Dequeueing is round robin. \<open>blk_mq_dequeue_from_ctx\<close> takes the oldest request of the first
  non-empty software queue at or after the starting context, wrapping around at the end, and changes
  nothing else; it finds no request only when all queues are empty.
\<close>

theorem dequeue_round_robin:
  assumes "pend_inv h s" "case start of None \<Rightarrow> True | Some c \<Rightarrow> c \<in> set (hctx_ctxs (hctx_at s h))"
  shows "case find (\<lambda>b. queues h s ! b \<noteq> [])
      ([(case start of None \<Rightarrow> 0 | Some c \<Rightarrow> ctx_bit s h c)..<length (hctx_ctxs (hctx_at s h))] @
       [0..<(case start of None \<Rightarrow> 0 | Some c \<Rightarrow> ctx_bit s h c)]) of
      None \<Rightarrow> blk_mq_dequeue_from_ctx h start s = Some (None, s)
    | Some b \<Rightarrow> (\<exists>s'. blk_mq_dequeue_from_ctx h start s = Some (Some (hd (queues h s ! b)), s') \<and>
        queues h s' = (queues h s)[b := tl (queues h s ! b)])"
  using dequeue_refines [OF assms] by (auto split: option.splits)

theorem dequeue_round_robin_witness:
  "\<exists>s'. blk_mq_dequeue_from_ctx 0 None ex_swq = Some (Some 7, s') \<and> queues 0 s' = [[], [8]]"
  using dequeue_round_robin [OF ex_swq_inv(1), of None]
  by (simp add: ex_swq_inv(2) ex_swq_at numeral_2_eq_2 upt_conv_Cons)

section \<open>Running\<close>

text \<open>
  C30: Work gets run. On a queue that is neither quiesced nor stopped, a hardware context with a request
  in a software queue or on its dispatch list is dispatched at once or gets its work item scheduled.
\<close>

theorem pending_is_run:
  assumes "pend_inv h s" "(\<exists>q\<in>set (queues h s). q \<noteq> []) \<or> hctx_dispatch (hctx_at s h) \<noteq> []"
    and "QUEUE_FLAG_QUIESCED \<notin> queue_flags (the_q s)" "\<not> blk_mq_hctx_stopped (hctx_at s h)"
  shows "\<exists>s'. blk_mq_run_hw_queue k h async s = (True, s') \<and>
    (last (events s') = Call ''blk_mq_sched_dispatch_requests'' [int h] \<or>
     (\<exists>cpu. last (events s') = Call ''kblockd_mod_delayed_work_on'' [cpu, int h, uint (msecs_to_jiffies k 0)]))"
proof -
  have "blk_mq_hctx_has_pending k h s"
    using assms(1,2) by (auto simp: pend_inv_def queues_def blk_mq_hctx_has_pending_def)
  then show ?thesis using assms(3,4)
    by (simp add: blk_mq_run_hw_queue_def blk_mq_delay_run_hw_queue_async_def Let_def blk_mq_run_hw_queue_now_def split: prod.splits)
qed

theorem pending_is_run_witness:
  "\<exists>s'. blk_mq_run_hw_queue ex_kernel 0 True ex_swq = (True, s') \<and> events s' \<noteq> []"
proof -
  have "QUEUE_FLAG_QUIESCED \<notin> queue_flags (the_q ex_swq)" "\<not> blk_mq_hctx_stopped (hctx_at ex_swq 0)"
    "(\<exists>q\<in>set (queues 0 ex_swq). q \<noteq> []) \<or> hctx_dispatch (hctx_at ex_swq 0) \<noteq> []"
    by (simp_all add: ex_swq_inv(2) ex_swq_at blk_mq_hctx_stopped_def ex_hctx_def)
      (simp_all add: ex_swq_def ex_blk_def upd_ctx_def upd_hctx_def)
  then obtain s' where s': "blk_mq_run_hw_queue ex_kernel 0 True ex_swq = (True, s')"
    using pending_is_run [OF ex_swq_inv(1)] by blast
  moreover have "events s' \<noteq> []"
    using s' by (auto simp: log_ev_def blk_mq_run_hw_queue_def blk_mq_delay_run_hw_queue_async_def Let_def ex_swq_at blk_mq_hctx_stopped_def
        ex_hctx_def split: prod.splits if_splits)
  ultimately show ?thesis by simp
qed

text \<open>The CPUs of a hardware context's mask that are online.\<close>

definition online_mask :: "kernel \<Rightarrow> blk_mq_hw_ctx \<Rightarrow> nat set" where
  "online_mask k hctx = {c \<in> set (hctx_cpumask hctx). c < nr_cpu_ids k \<and> cpu_online k c}"

definition next_in_mask :: "kernel \<Rightarrow> blk_mq_hw_ctx \<Rightarrow> int \<Rightarrow> nat" where
  "next_in_mask k hctx n =
     (if \<exists>c\<in>online_mask k hctx. n < int c then Min {c \<in> online_mask k hctx. n < int c} else Min (online_mask k hctx))"

lemma list_case_Min: "(case xs of [] \<Rightarrow> d | c # cs \<Rightarrow> Min (set (c # cs))) = (if set xs = {} then d else Min (set xs))"
  by (cases xs) auto

lemma finite_online [simp]: "finite (online_mask k hctx)" "finite {c \<in> online_mask k hctx. P c}"
  by (simp_all add: online_mask_def)

lemma select_cpu_next:
  assumes "online_mask k hctx \<noteq> {}"
  shows "select_cpu k hctx n = int (next_in_mask k hctx n)"
proof -
  let ?A = "online_mask k hctx"
  let ?B = "{c \<in> ?A. n < int c}"
  have b: "set (filter (\<lambda>c. c < nr_cpu_ids k \<and> n < int c \<and> cpu_online k c) (hctx_cpumask hctx)) = ?B"
    "set (filter (cpu_online k) (filter (\<lambda>c. c < nr_cpu_ids k) (hctx_cpumask hctx))) = ?A"
    by (auto simp: online_mask_def)
  have nx: "cpumask_next_online k n (hctx_cpumask hctx) = (if ?B = {} then nr_cpu_ids k else Min ?B)"
    unfolding cpumask_next_online_def list_case_Min b(1) ..
  have first: "first_online k (hctx_cpumask hctx) = Min ?A"
    unfolding first_online_def list_case_Min b(2) using assms by simp
  have lt: "Min C < nr_cpu_ids k" if "C \<subseteq> ?A" "C \<noteq> {}" "finite C" for C
    using Min_in [OF that(3,2)] that(1) by (auto simp: online_mask_def)
  have m: "blk_mq_first_mapped_cpu k hctx = Min ?A"
    using lt [of ?A] assms by (simp only: blk_mq_first_mapped_cpu_def Let_def first) (simp add: not_le [symmetric] del: Min_less_iff Min_ge_iff)
  have e: "(\<exists>c\<in>?A. n < int c) = (?B \<noteq> {})" by auto
  show ?thesis
  proof (cases "?B = {}")
    case True
    then show ?thesis using m unfolding select_cpu_def Let_def nx next_in_mask_def e by simp
  next
    case False
    then have "\<not> nr_cpu_ids k \<le> Min ?B" using lt [of ?B] by fastforce
    then show ?thesis using False unfolding select_cpu_def Let_def nx next_in_mask_def e by (simp only: if_False not_False_eq_True if_True)
  qed
qed

lemma next_in_mask_in: "online_mask k hctx \<noteq> {} \<Longrightarrow> next_in_mask k hctx n \<in> online_mask k hctx"
  using Min_in [of "{c \<in> online_mask k hctx. n < int c}"] Min_in [of "online_mask k hctx"]
  by (auto simp: next_in_mask_def)

text \<open>
  The CPU a queue is run on. As long as a CPU of its mask is online, a hardware context is run on an
  online CPU of the mask, at most eight times in a row; then the next online CPU of the mask is taken,
  cyclically. The same happens at once when the current CPU has gone offline.
\<close>

theorem next_cpu_round_robin:
  assumes "nr_hw \<noteq> 1" "online_mask k hctx \<noteq> {}" "\<exists>c\<in>set (hctx_cpumask hctx). c < nr_cpu_ids k \<and> next_cpu hctx = int c"
    and "next_cpu_batch hctx \<le> BLK_MQ_CPU_WORK_BATCH"
  shows "\<exists>c hctx'. blk_mq_hctx_next_cpu k nr_hw hctx = (Some (int c), hctx') \<and> c \<in> online_mask k hctx \<and> next_cpu hctx' = int c \<and>
    0 < next_cpu_batch hctx' \<and> next_cpu_batch hctx' \<le> BLK_MQ_CPU_WORK_BATCH \<and>
    (if 1 < next_cpu_batch hctx \<and> cpu_online k (nat (next_cpu hctx))
     then int c = next_cpu hctx \<and> next_cpu_batch hctx' = next_cpu_batch hctx - 1
     else c = next_in_mask k hctx (next_cpu hctx) \<and> next_cpu_batch hctx' = BLK_MQ_CPU_WORK_BATCH)"
proof -
  obtain c where c: "c \<in> set (hctx_cpumask hctx)" "c < nr_cpu_ids k" "next_cpu hctx = int c" using assms(3) by blast
  let ?n = "next_in_mask k hctx (int c)"
  have n: "?n \<in> online_mask k hctx" "cpu_online k ?n" using next_in_mask_in [OF assms(2), of "int c"] by (auto simp: online_mask_def)
  have sel: "select_cpu k hctx (int c) = int ?n" using select_cpu_next [OF assms(2)] .
  consider (stay) "1 < next_cpu_batch hctx" "cpu_online k c" | (move) "\<not> 1 < next_cpu_batch hctx"
    | (offline) "1 < next_cpu_batch hctx" "\<not> cpu_online k c" by blast
  then show ?thesis
  proof cases
    case stay
    then show ?thesis using assms(1,4) c by (simp add: blk_mq_hctx_next_cpu_def Let_def online_mask_def)
  next
    case move
    then show ?thesis using assms(1) c sel n by (simp add: blk_mq_hctx_next_cpu_def Let_def BLK_MQ_CPU_WORK_BATCH_def)
  next
    case offline
    then show ?thesis using assms(1) c sel n by (simp add: blk_mq_hctx_next_cpu_def Let_def BLK_MQ_CPU_WORK_BATCH_def)
  qed
qed

theorem next_cpu_round_robin_witness:
  "\<exists>c hctx'. blk_mq_hctx_next_cpu ex_kernel 8 ((ex_hctx 1)\<lparr>hctx_cpumask := [1, 3], next_cpu_batch := 1\<rparr>) = (Some (int c), hctx') \<and>
     c \<in> {1, 3}"
proof -
  let ?h = "(ex_hctx 1)\<lparr>hctx_cpumask := [1, 3], next_cpu_batch := 1\<rparr>"
  have eight: "(8::nat) \<noteq> 1" by simp
  have m: "online_mask ex_kernel ?h = {1, 3}" by (auto simp: online_mask_def ex_kernel_def ex_hctx_def)
  have "\<exists>c\<in>set (hctx_cpumask ?h). c < nr_cpu_ids ex_kernel \<and> next_cpu ?h = int c" "next_cpu_batch ?h \<le> BLK_MQ_CPU_WORK_BATCH"
    by (auto simp: ex_kernel_def ex_hctx_def BLK_MQ_CPU_WORK_BATCH_def)
  then show ?thesis using next_cpu_round_robin [of 8 ex_kernel ?h, unfolded m, OF eight insert_not_empty] by blast
qed

section \<open>Freezing and quiescing\<close>

definition freeze_state :: "blk \<Rightarrow> int \<times> bool" where
  "freeze_state s = (mq_freeze_depth (the_q s), q_usage_dead (the_q s))"

lemma freeze_state_upd [simp]: "freeze_state (upd_hctx h f s) = freeze_state s" "freeze_state (log_ev e s) = freeze_state s"
  by (simp_all add: freeze_state_def upd_hctx_def log_ev_def)

lemma run_hw_queue_freeze: "freeze_state (snd (blk_mq_run_hw_queue k h async s)) = freeze_state s"
  by (simp add: blk_mq_run_hw_queue_def blk_mq_delay_run_hw_queue_async_def Let_def blk_mq_run_hw_queue_now_def split: prod.splits)

lemma run_hw_queues_freeze: "freeze_state (blk_mq_run_hw_queues k async s) = freeze_state s"
proof -
  have "freeze_state (fold (\<lambda>h x. if blk_mq_hctx_stopped (hctx_at x h) then x else snd (blk_mq_run_hw_queue k h async x)) hs s) =
      freeze_state s" for hs
    by (induction hs arbitrary: s) (simp_all add: run_hw_queue_freeze)
  then show ?thesis by (simp add: blk_mq_run_hw_queues_def)
qed

datatype freeze_op = Freeze | Unfreeze

fun freeze_exec :: "kernel \<Rightarrow> freeze_op \<Rightarrow> blk \<Rightarrow> blk option" where
  "freeze_exec k Freeze s = Some (blk_mq_freeze_queue k s)"
| "freeze_exec k Unfreeze s = Some (blk_mq_unfreeze_queue s)"

fun freeze_ok :: "freeze_op \<Rightarrow> blk \<Rightarrow> bool" where
  "freeze_ok Freeze s = True"
| "freeze_ok Unfreeze s = (0 < mq_freeze_depth (the_q s))"

definition freeze_inv :: "blk \<Rightarrow> bool" where
  "freeze_inv s \<longleftrightarrow> 0 \<le> mq_freeze_depth (the_q s) \<and> q_usage_dead (the_q s) = (0 < mq_freeze_depth (the_q s))"

lemma freeze_step:
  assumes "freeze_inv s"
  shows "freeze_state (blk_mq_freeze_queue k s) = (mq_freeze_depth (the_q s) + 1, True)"
    "freeze_state (blk_mq_unfreeze_queue s) = (mq_freeze_depth (the_q s) - 1, 1 < mq_freeze_depth (the_q s) \<or> mq_freeze_depth (the_q s) \<le> 0 \<and> q_usage_dead (the_q s))"
proof -
  let ?s1 = "upd_q (\<lambda>q. q\<lparr>mq_freeze_depth := mq_freeze_depth q + 1\<rparr>) s"
  have "freeze_state (blk_freeze_queue_start k s) = (mq_freeze_depth (the_q s) + 1, True)"
    using assms run_hw_queues_freeze [of k False "upd_q (\<lambda>q. q\<lparr>q_usage_dead := True\<rparr>) ?s1"]
    by (auto simp: blk_freeze_queue_start_def Let_def freeze_inv_def freeze_state_def upd_q_def)
  then show "freeze_state (blk_mq_freeze_queue k s) = (mq_freeze_depth (the_q s) + 1, True)"
    by (simp add: blk_mq_freeze_queue_def)
  show "freeze_state (blk_mq_unfreeze_queue s) = (mq_freeze_depth (the_q s) - 1, 1 < mq_freeze_depth (the_q s) \<or> mq_freeze_depth (the_q s) \<le> 0 \<and> q_usage_dead (the_q s))"
    using assms by (auto simp: blk_mq_unfreeze_queue_def Let_def freeze_inv_def freeze_state_def upd_q_def log_ev_def)
qed

interpretation frz: op_invariant "freeze_exec k" freeze_ok freeze_inv for k
proof
  fix s a s' assume "freeze_inv s" "freeze_ok a s" "freeze_exec k a s = Some s'"
  then show "freeze_inv s'"
    using freeze_step(1) [of s k] freeze_step(2) [of s] by (cases a) (auto simp: freeze_inv_def freeze_state_def)
qed

lemma freeze_depth:
  "frz.run k s ops s' \<Longrightarrow> freeze_inv s \<Longrightarrow>
     mq_freeze_depth (the_q s') = mq_freeze_depth (the_q s) + int (count_list ops Freeze) - int (count_list ops Unfreeze)"
proof (induction rule: frz.run.induct)
  case (run_cons a s t as u)
  then have "freeze_inv t" using frz.exec_inv by blast
  moreover have "mq_freeze_depth (the_q t) = mq_freeze_depth (the_q s) + (if a = Freeze then 1 else -1)"
    using run_cons.hyps run_cons.prems freeze_step(1) [of s k] freeze_step(2) [of s] by (cases a) (auto simp: freeze_state_def)
  ultimately show ?case using run_cons by (cases a) simp_all
qed simp

text \<open>
  Freezing nests. After any sequence of freezes and unfreezes that never unfreezes an unfrozen
  queue, the depth is the number of freezes that are not undone, and new requests are kept out of the
  queue exactly while it is positive.
\<close>

theorem freeze_nests:
  assumes "freeze_inv s" "mq_freeze_depth (the_q s) = 0" "frz.run k s ops s'"
  shows "mq_freeze_depth (the_q s') = int (count_list ops Freeze) - int (count_list ops Unfreeze) \<and>
    (q_usage_dead (the_q s') \<longleftrightarrow> count_list ops Unfreeze < count_list ops Freeze)"
  using freeze_depth [OF assms(3,1)] frz.run_inv [OF assms(3,1)] assms(2) by (auto simp: freeze_inv_def)

theorem freeze_nests_witness:
  "q_usage_dead (the_q (blk_mq_freeze_queue ex_kernel ex_blk)) \<and> mq_freeze_depth (the_q (blk_mq_freeze_queue ex_kernel ex_blk)) = 1"
proof -
  have i: "freeze_inv ex_blk" "mq_freeze_depth (the_q ex_blk) = 0" by (simp_all add: freeze_inv_def ex_blk_def)
  have "frz.run ex_kernel ex_blk [Freeze] (blk_mq_freeze_queue ex_kernel ex_blk)"
    by (rule frz.run_cons [OF _ _ frz.run_nil]) simp_all
  then show ?thesis using freeze_nests [OF i] by simp
qed

lemma quiesce_shape: "\<exists>es. blk_mq_quiesce_queue s = (blk_mq_quiesce_queue_nowait s)\<lparr>events := events s @ es\<rparr>"
proof -
  have f: "\<exists>es. fold (\<lambda>h. log_ev (Call ''synchronize_srcu'' [int h])) hs t = t\<lparr>events := events t @ es\<rparr>" for hs t
  proof (induction hs arbitrary: t)
    case Nil
    then show ?case by (intro exI [of _ "[]"]) simp
  next
    case (Cons h hs)
    then obtain es where "fold (\<lambda>h. log_ev (Call ''synchronize_srcu'' [int h])) hs (log_ev (Call ''synchronize_srcu'' [int h]) t) =
        (log_ev (Call ''synchronize_srcu'' [int h]) t)\<lparr>events := events (log_ev (Call ''synchronize_srcu'' [int h]) t) @ es\<rparr>" by blast
    then show ?case by (intro exI [of _ "Call ''synchronize_srcu'' [int h] # es"]) (simp, simp add: log_ev_def)
  qed
  have e: "events (blk_mq_quiesce_queue_nowait s) = events s" by (simp add: blk_mq_quiesce_queue_nowait_def upd_q_def)
  show ?thesis
    using f [of "filter (\<lambda>h. BLK_MQ_F_BLOCKING \<in> hctx_flags (hctx_at (blk_mq_quiesce_queue_nowait s) h))
        [0..<nr_hw_queues (the_q (blk_mq_quiesce_queue_nowait s))]" "blk_mq_quiesce_queue_nowait s"]
    by (auto simp: blk_mq_quiesce_queue_def Let_def log_ev_def e)
qed

text \<open>
  A quiesced queue does not reach its driver. After \<open>blk_mq_quiesce_queue\<close> running a hardware
  context does nothing, and a request that is to be issued directly is put on the dispatch list of its
  hardware context instead; the driver is not called.
\<close>

theorem quiesced_holds:
  "let q = blk_mq_quiesce_queue s in
   blk_mq_run_hw_queue k h async q = (False, q) \<and>
   blk_mq_try_issue k h r bypass bd_last q =
     map_option (\<lambda>h'. (BLK_STS_OK, None, upd_hctx h' (\<lambda>x. x\<lparr>hctx_dispatch := hctx_dispatch x @ [r]\<rparr>) q)) (mq_hctx (rqs s r))"
proof -
  obtain es where q: "blk_mq_quiesce_queue s = (blk_mq_quiesce_queue_nowait s)\<lparr>events := events s @ es\<rparr>" using quiesce_shape by blast
  have "QUEUE_FLAG_QUIESCED \<in> queue_flags (the_q (blk_mq_quiesce_queue s))" "rqs (blk_mq_quiesce_queue s) = rqs s"
    by (simp_all add: q blk_mq_quiesce_queue_nowait_def upd_q_def)
  then show ?thesis
    by (cases "mq_hctx (rqs s r)")
      (simp_all add: blk_mq_run_hw_queue_def blk_mq_try_issue_def Let_def blk_mq_request_bypass_insert_def)
qed
end
