(* ===== verification/Blk_Mq_Request_Correct.thy ===== *)
theory Blk_Mq_Request_Correct
  imports Blk_Mq_Run_Correct
begin

text \<open>
  The life of a request keeps the counters: \<open>nr_active\<close>, the references to the queue and the byte counts
  of the cores. Timeouts are reported once.
\<close>

section \<open>The request counters\<close>

text \<open>
  References to the queue: \<open>blk_queue_enter\<close> and \<open>blk_queue_enter_live\<close> take one, \<open>blk_queue_exit\<close>
  returns one.
\<close>

fun ev_weight :: "blk_event \<Rightarrow> int" where
  "ev_weight (Call f xs) =
     (if f = ''blk_queue_enter'' \<or> f = ''blk_queue_enter_live'' then 1 else if f = ''blk_queue_exit'' then -1 else 0)"

definition usage :: "blk \<Rightarrow> int" where
  "usage s = sum_list (map ev_weight (events s))"

text \<open>A request is allocated while it has a hardware context; it is counted there when its flag says so.\<close>

definition rq_live :: "request \<Rightarrow> bool" where
  "rq_live q \<longleftrightarrow> mq_hctx q \<noteq> None"

definition rq_counted :: "nat \<Rightarrow> request \<Rightarrow> bool" where
  "rq_counted h q \<longleftrightarrow> mq_hctx q = Some h \<and> rq_flags q AND RQF_MQ_INFLIGHT \<noteq> 0"

definition rq_ok :: "request \<Rightarrow> bool" where
  "rq_ok q \<longleftrightarrow> rq_live q \<longrightarrow> rq_ref q = 1 \<and> (rq_tag q = -1 \<longrightarrow> rq_flags q AND RQF_MQ_INFLIGHT = 0)"

definition rq_inv :: "blk \<Rightarrow> bool" where
  "rq_inv s \<longleftrightarrow> finite {r. rq_live (rqs s r)} \<and> (\<forall>r. rq_ok (rqs s r)) \<and>
     (\<forall>h. nr_active (hctx_at s h) = int (card {r. rq_counted h (rqs s r)})) \<and>
     usage s = int (card {r. rq_live (rqs s r)})"

text \<open>What an operation on one request may do to the counters.\<close>

definition moves :: "nat \<Rightarrow> blk \<Rightarrow> blk \<Rightarrow> bool" where
  "moves r s s' \<longleftrightarrow> (\<forall>x. x \<noteq> r \<longrightarrow> rqs s' x = rqs s x) \<and> rq_ok (rqs s' r) \<and>
     (\<forall>h. nr_active (hctx_at s' h) - nr_active (hctx_at s h) = of_bool (rq_counted h (rqs s' r)) - of_bool (rq_counted h (rqs s r))) \<and>
     usage s' - usage s = of_bool (rq_live (rqs s' r)) - of_bool (rq_live (rqs s r))"

lemma card_one_change:
  assumes "finite {x. P x}" "\<And>x. x \<noteq> r \<Longrightarrow> Q x = P x"
  shows "finite {x. Q x} \<and> int (card {x. Q x}) = int (card {x. P x}) + of_bool (Q r) - of_bool (P r)"
proof -
  have p: "{x. P x} = (if P r then insert r {x. x \<noteq> r \<and> P x} else {x. x \<noteq> r \<and> P x})"
    by auto
  have e: "Q x \<longleftrightarrow> (if x = r then Q r else P x)" for x using assms(2) by simp
  have q: "{x. Q x} = (if Q r then insert r {x. x \<noteq> r \<and> P x} else {x. x \<noteq> r \<and> P x})"
    by (subst e) auto
  have "finite {x. x \<noteq> r \<and> P x}" using assms(1) by (rule rev_finite_subset) auto
  then show ?thesis by (subst (1 2) q, subst p) simp
qed

lemma moves_inv:
  assumes "rq_inv s" "moves r s s'"
  shows "rq_inv s'"
proof -
  have o: "\<And>x. x \<noteq> r \<Longrightarrow> rqs s' x = rqs s x" using assms(2) by (simp add: moves_def)
  have fl: "finite {x. rq_live (rqs s x)}" using assms(1) by (simp add: rq_inv_def)
  then have fc: "finite {x. rq_counted h (rqs s x)}" for h
    by (rule rev_finite_subset) (auto simp: rq_counted_def rq_live_def)
  note l = card_one_change [OF fl, of r "\<lambda>x. rq_live (rqs s' x)"]
  note c = card_one_change [OF fc, of r "\<lambda>x. rq_counted h (rqs s' x)" h for h]
  have "rq_ok (rqs s' x)" for x
    using o [of x] assms by (cases "x = r") (simp_all add: moves_def rq_inv_def)
  moreover have "nr_active (hctx_at s' h) = int (card {x. rq_counted h (rqs s' x)})" for h
  proof -
    have "nr_active (hctx_at s' h) - nr_active (hctx_at s h) = of_bool (rq_counted h (rqs s' r)) - of_bool (rq_counted h (rqs s r))"
      using assms(2) by (simp add: moves_def)
    moreover have "nr_active (hctx_at s h) = int (card {x. rq_counted h (rqs s x)})" using assms(1) by (simp add: rq_inv_def)
    ultimately show ?thesis using c [of h] o by simp
  qed
  moreover have "usage s' = int (card {x. rq_live (rqs s' x)}) \<and> finite {x. rq_live (rqs s' x)}"
  proof -
    have "usage s' - usage s = of_bool (rq_live (rqs s' r)) - of_bool (rq_live (rqs s r))"
      using assms(2) by (simp add: moves_def)
    moreover have "usage s = int (card {x. rq_live (rqs s x)})" using assms(1) by (simp add: rq_inv_def)
    ultimately show ?thesis using l o by simp
  qed
  ultimately show ?thesis by (simp add: rq_inv_def)
qed

lemma moves_trans: "moves r s t \<Longrightarrow> moves r t u \<Longrightarrow> moves r s u"
proof -
  assume a: "moves r s t" and b: "moves r t u"
  have "nr_active (hctx_at u h) - nr_active (hctx_at s h) = of_bool (rq_counted h (rqs u r)) - of_bool (rq_counted h (rqs s r))" for h
  proof -
    have "nr_active (hctx_at t h) - nr_active (hctx_at s h) = of_bool (rq_counted h (rqs t r)) - of_bool (rq_counted h (rqs s r))"
      "nr_active (hctx_at u h) - nr_active (hctx_at t h) = of_bool (rq_counted h (rqs u r)) - of_bool (rq_counted h (rqs t r))"
      using a b by (simp_all add: moves_def)
    then show ?thesis by linarith
  qed
  moreover have "usage u - usage s = of_bool (rq_live (rqs u r)) - of_bool (rq_live (rqs s r))"
    using a b unfolding moves_def by linarith
  ultimately show ?thesis using a b by (simp add: moves_def)
qed

text \<open>The parts of a state the counters are read from, after an update.\<close>

lemma usage_upd [simp]:
  "usage (upd_ctx c f s) = usage s" "usage (upd_hctx h g s) = usage s" "usage (upd_rq r q s) = usage s"
  "usage (upd_tags t p s) = usage s" "usage (s\<lparr>bsw := v\<rparr>) = usage s" "usage (s\<lparr>rnd_pos := n\<rparr>) = usage s"
  "usage (s\<lparr>drv_pos := n\<rparr>) = usage s" "usage (s\<lparr>the_q := tq\<rparr>) = usage s"
  by (simp_all add: usage_def upd_ctx_def upd_hctx_def upd_rq_def upd_tags_def)

lemma usage_log [simp]: "usage (log_ev e s) = usage s + ev_weight e"
  by (simp add: usage_def)

lemma at_other [simp]:
  "hctx_at (s\<lparr>bsw := v\<rparr>) h = hctx_at s h" "hctx_at (s\<lparr>rnd_pos := n\<rparr>) h = hctx_at s h" "hctx_at (s\<lparr>drv_pos := n\<rparr>) h = hctx_at s h"
  "ctx_at (s\<lparr>bsw := v\<rparr>) c = ctx_at s c" "ctx_at (s\<lparr>rnd_pos := n\<rparr>) c = ctx_at s c" "ctx_at (s\<lparr>drv_pos := n\<rparr>) c = ctx_at s c"
  "hctx_at (upd_tags t p s) h = hctx_at s h" "rqs (upd_tags t p s) = rqs s" "ctx_at (upd_tags t p s) c = ctx_at s c"
  "tagsp (upd_tags t p s) t' = (if t' = t then p (tagsp s t) else tagsp s t')" "events (upd_tags t p s) = events s"
  "the_q (upd_tags t p s) = the_q s"
  by (simp_all add: hctx_at_def ctx_at_def upd_tags_def)

lemma inflight_or [simp]: "c AND RQF_MQ_INFLIGHT = 0 \<Longrightarrow> (x OR c) AND RQF_MQ_INFLIGHT = x AND RQF_MQ_INFLIGHT"
  by (simp add: bit.conj_disj_distrib2)

lemma inflight_and_not [simp]: "c AND RQF_MQ_INFLIGHT = 0 \<Longrightarrow> (x AND NOT c) AND RQF_MQ_INFLIGHT = x AND RQF_MQ_INFLIGHT"
proof -
  assume a: "c AND RQF_MQ_INFLIGHT = 0"
  have "\<not> (bit c n \<and> bit RQF_MQ_INFLIGHT n)" for n using a by (metis bit_0_eq bit_and_iff bot_apply bot_bool_def)
  then show ?thesis by (intro bit_eqI) (auto simp: bit_and_iff bit_not_iff)
qed

lemma inflight_flags [simp]:
  "RQF_PREEMPT AND RQF_MQ_INFLIGHT = 0" "RQF_IO_STAT AND RQF_MQ_INFLIGHT = 0" "RQF_ELVPRIV AND RQF_MQ_INFLIGHT = 0"
  "RQF_STATS AND RQF_MQ_INFLIGHT = 0" "RQF_TIMED_OUT AND RQF_MQ_INFLIGHT = 0" "RQF_SOFTBARRIER AND RQF_MQ_INFLIGHT = 0"
  "RQF_MQ_INFLIGHT \<noteq> 0"
  by (simp_all add: blk_defs)

lemma inflight_set [simp]: "(x OR RQF_MQ_INFLIGHT) AND RQF_MQ_INFLIGHT \<noteq> 0" "(x AND NOT RQF_MQ_INFLIGHT) AND RQF_MQ_INFLIGHT = 0"
  by (simp add: bit.conj_disj_distrib2 RQF_MQ_INFLIGHT_def) (intro bit_eqI, auto simp: bit_and_iff bit_not_iff)

section \<open>Allocation\<close>

text \<open>Steering changes the variables of blk-switch and consumes random bytes, nothing else.\<close>

definition same_queue :: "blk \<Rightarrow> blk \<Rightarrow> bool" where
  "same_queue s s' \<longleftrightarrow> the_q s' = the_q s \<and> rqs s' = rqs s \<and> tagsp s' = tagsp s \<and> drv_pos s' = drv_pos s \<and> events s' = events s"

lemma same_queue_trans: "same_queue s t \<Longrightarrow> same_queue t u \<Longrightarrow> same_queue s u"
  by (simp add: same_queue_def)

lemma app_steering_frame: "app_steering k n b flags c h s = Some (s', c', h', st) \<Longrightarrow> same_queue s s'"
  by (auto simp: app_steering_def Let_def same_queue_def split: bind_splits if_splits)

lemma req_target_frame: "req_target k n c h s = Some (t, s') \<Longrightarrow> same_queue s s'"
  by (auto simp: req_target_def Let_def same_queue_def split: bind_splits if_splits)

lemma req_steering_frame:
  assumes "req_steering k n flags c h s = Some (s', c', h', st)"
  shows "same_queue s s'"
proof -
  obtain t s1 where t: "req_target k n c h s = Some (t, s1)" using assms by (auto simp: req_steering_def Let_def split: bind_splits)
  then show ?thesis using req_target_frame [OF t] assms
    by (auto simp: req_steering_def Let_def same_queue_def split: bind_splits if_splits)
qed

lemma steer_frame:
  assumes "blk_switch_steer k bo flags c h s = Some (s', c', h', st)"
  shows "same_queue s s'"
proof -
  let ?n = "steer_nr_cpus k (bsw s)"
  let ?reset = "if blk_switch_request bo (hctx_at s h)
      then do { v \<leftarrow> blk_switch_idle_reset k ?n (bsw s); Some (s\<lparr>bsw := v\<rparr>) } else Some s"
  obtain s1 where s1: "?reset = Some s1" using assms unfolding blk_switch_steer_def Let_def by (cases ?reset) simp_all
  let ?app = "if 2 \<le> blk_switch_on (bsw s1) \<and> blk_switch_request bo (hctx_at s1 h)
      then app_steering k ?n (the bo) flags c h s1 else Some (s1, c, h, False)"
  obtain s2 c2 h2 app where s2: "?app = Some (s2, c2, h2, app)"
    using assms unfolding blk_switch_steer_def Let_def s1 by (cases ?app) auto
  have "(if 1 \<le> blk_switch_on (bsw s2) \<and> blk_switch_request bo (hctx_at s2 h2) \<and> blk_switch_is_thru_request k bo \<and> \<not> app \<and>
        num_online_nodes k * 2 \<le> ?n then req_steering k ?n flags c2 h2 s2 else Some (s2, c2, h2, False)) = Some (s', c', h', st)"
    using assms unfolding blk_switch_steer_def Let_def s1 bind.bind_lunit s2 prod.case .
  then have "same_queue s2 s'" by (auto simp: same_queue_def dest: req_steering_frame split: if_split_asm)
  moreover have "same_queue s s1" using s1 by (auto simp: same_queue_def split: if_split_asm bind_splits)
  moreover have "same_queue s1 s2" using s2 by (auto simp: same_queue_def dest: app_steering_frame split: if_split_asm)
  ultimately show ?thesis by (blast intro: same_queue_trans)
qed

text \<open>Updates of a request that the counters do not see.\<close>

definition rq_same :: "request \<Rightarrow> request \<Rightarrow> bool" where
  "rq_same q q' \<longleftrightarrow> mq_hctx q' = mq_hctx q \<and> rq_ref q' = rq_ref q \<and> rq_tag q' = rq_tag q \<and>
     rq_flags q' AND RQF_MQ_INFLIGHT = rq_flags q AND RQF_MQ_INFLIGHT"

definition quiet :: "nat \<Rightarrow> int \<Rightarrow> blk \<Rightarrow> blk \<Rightarrow> bool" where
  "quiet r n s s' \<longleftrightarrow> (\<forall>x. x \<noteq> r \<longrightarrow> rqs s' x = rqs s x) \<and> rq_same (rqs s r) (rqs s' r) \<and>
     (\<forall>h. nr_active (hctx_at s' h) = nr_active (hctx_at s h)) \<and> usage s' = usage s + n"

lemma quiet_trans: "quiet r m s t \<Longrightarrow> quiet r n t u \<Longrightarrow> quiet r (m + n) s u"
  by (simp add: quiet_def rq_same_def)

lemma rq_same_ok: "rq_same q q' \<Longrightarrow> rq_ok q' = rq_ok q \<and> rq_live q' = rq_live q \<and> rq_counted h q' = rq_counted h q"
  by (simp add: rq_same_def rq_ok_def rq_live_def rq_counted_def)

lemma quiet_moves: "quiet r 0 s s' \<Longrightarrow> rq_ok (rqs s r) \<Longrightarrow> moves r s s'"
  by (simp add: quiet_def moves_def rq_same_def rq_ok_def rq_live_def rq_counted_def)

lemma moves_quiet: "moves r s t \<Longrightarrow> quiet r 0 t u \<Longrightarrow> moves r s u"
  using moves_trans quiet_moves moves_def by blast

text \<open>The tag allocator hands out tags of free requests only.\<close>

definition tags_fresh :: "kernel \<Rightarrow> blk \<Rightarrow> bool" where
  "tags_fresh k s \<longleftrightarrow> (\<forall>q d tag d' h tp. get_tag k (drv_pos s) q d = Some (tag, d') \<longrightarrow> ad_hctx d' = Some h \<longrightarrow>
     blk_mq_tags_from_data s (ad_flags d') h = Some tp \<longrightarrow> \<not> rq_live (rqs s (static_rqs (tagsp s tp) tag)))"

lemma rq_ctx_init_effect:
  assumes i: "blk_mq_rq_ctx_init k flags c h tag op atime s = Some (r, s')"
    and tp: "\<And>tp. blk_mq_tags_from_data s flags h = Some tp \<Longrightarrow> \<not> rq_live (rqs s (static_rqs (tagsp s tp) tag))"
  shows "(\<forall>x. x \<noteq> r \<longrightarrow> rqs s' x = rqs s x) \<and> rq_ok (rqs s' r) \<and> rq_live (rqs s' r) \<and> \<not> rq_live (rqs s r) \<and>
    (\<forall>g. nr_active (hctx_at s' g) - nr_active (hctx_at s g) = of_bool (rq_counted g (rqs s' r))) \<and> usage s' = usage s"
proof -
  obtain tp where t: "blk_mq_tags_from_data s flags h = Some tp" using i by (auto simp: blk_mq_rq_ctx_init_def split: bind_splits)
  obtain rf s1 where rf: "rq_take_tag flags h tp tag (static_rqs (tagsp s tp) tag) s = (rf, s1)" by fastforce
  have r: "r = static_rqs (tagsp s tp) tag"
    and s': "s' = upd_ctx c (\<lambda>x. x\<lparr>rq_dispatched := (rq_dispatched x)(op_is_sync k op := rq_dispatched x (op_is_sync k op) + 1)\<rparr>)
        (upd_rq r (rq_init_fields k s1 flags rf op c h atime) s1)"
    using i t rf by (auto simp: blk_mq_rq_ctx_init_def Let_def split: if_split_asm)
  have s1: "(\<forall>x. x \<noteq> r \<longrightarrow> rqs s1 x = rqs s x)" "usage s1 = usage s" "rf = 0 \<or> rf = RQF_MQ_INFLIGHT \<and> rq_tag (rqs s1 r) \<noteq> -1"
    "\<forall>g. nr_active (hctx_at s1 g) - nr_active (hctx_at s g) = of_bool (g = h \<and> rf \<noteq> 0)"
    using rf by (auto simp: rq_take_tag_def Let_def r RQF_MQ_INFLIGHT_def split: if_split_asm)
  have q: "mq_hctx (rqs s' r) = Some h" "rq_ref (rqs s' r) = 1" "rq_tag (rqs s' r) = rq_tag (rqs s1 r)"
    "rq_flags (rqs s' r) AND RQF_MQ_INFLIGHT = rf AND RQF_MQ_INFLIGHT"
    by (simp_all add: s' rq_init_fields_def Let_def)
  have "(rf AND RQF_MQ_INFLIGHT \<noteq> 0) = (rf \<noteq> 0)" using s1(3) by auto
  then show ?thesis using q s1 tp [OF t] by (auto simp: s' rq_ok_def rq_live_def rq_counted_def r)
qed

lemma count_bytes_frame: "count_bytes k bo st c h s = Some s' \<Longrightarrow> same_queue s s'"
  by (auto simp: count_bytes_def Let_def same_queue_def split: option.splits bind_splits if_splits)

lemma uncount_bytes_frame: "uncount_bytes k r s = Some s' \<Longrightarrow> same_queue s s'"
  by (auto simp: uncount_bytes_def Let_def same_queue_def split: option.splits bind_splits if_splits)

lemma same_queue_quiet: "same_queue s s' \<Longrightarrow> quiet r 0 s s'"
  by (simp add: same_queue_def quiet_def usage_def hctx_at_def rq_same_def)

lemma rq_prepare_quiet: "quiet r 0 s (rq_prepare k op r s)"
  by (auto simp: rq_prepare_def Let_def quiet_def rq_same_def split: option.splits)

lemma limits_quiet: "get_request_limits k h d s = (d', s') \<Longrightarrow> same_queue s (s'\<lparr>events := events s\<rparr>) \<and> usage s' = usage s"
  by (auto simp: get_request_limits_def Let_def same_queue_def log_ev_def usage_def split: option.splits)

text \<open>
  \<open>blk_mq_get_request\<close>: without a tag no request and no reference of the queue is taken; otherwise
  a request and a reference are.
\<close>

lemma get_request_effect:
  assumes g: "blk_mq_get_request k bo d s = Some (ro, d', s')" and f: "tags_fresh k s"
  shows "case ro of None \<Rightarrow> (\<forall>r. quiet r 0 s s') | Some r \<Rightarrow> moves r s s' \<and> \<not> rq_live (rqs s r) \<and> rq_live (rqs s' r)"
proof -
  define s1 where "s1 = log_ev (Call ''blk_queue_enter_live'' []) s"
  obtain c h fl atime clear where g1: "do {
     (s2, c2, h2, req_steered) \<leftarrow> blk_switch_steer k bo (ad_cmd_flags d) c h s1;
     let (d3, s3) = get_request_limits k h2 (d\<lparr>ad_flags := fl, ad_ctx := Some c2, ad_hctx := Some h2\<rparr>) s2;
     let s4 = s3\<lparr>drv_pos := Suc (drv_pos s3)\<rparr>;
     case get_tag k (drv_pos s3) (the_q s3) d3 of
       None \<Rightarrow> Some (None, if clear then d3\<lparr>ad_ctx := None\<rparr> else d3, log_ev (Call ''blk_queue_exit'' []) s4)
     | Some (tag, d4) \<Rightarrow> do {
         c4 \<leftarrow> ad_ctx d4;
         h4 \<leftarrow> ad_hctx d4;
         (r, s5) \<leftarrow> blk_mq_rq_ctx_init k (ad_flags d4) c4 h4 tag (ad_cmd_flags d4) atime s4;
         s6 \<leftarrow> count_bytes k bo req_steered c4 h4 s5;
         let s7 = rq_prepare k (ad_cmd_flags d4) r (upd_rq r (\<lambda>q. q\<lparr>steered := req_steered\<rparr>) s6);
         Some (Some r, d4, upd_hctx h4 (\<lambda>x. x\<lparr>hctx_queued := hctx_queued x + 1\<rparr>) s7) } } = Some (ro, d', s')"
    using g unfolding blk_mq_get_request_def Let_def s1_def by blast
  obtain s2 c2 h2 st where s2: "blk_switch_steer k bo (ad_cmd_flags d) c h s1 = Some (s2, c2, h2, st)"
    using g1 by (cases "blk_switch_steer k bo (ad_cmd_flags d) c h s1") auto
  obtain d3 s3 where s3: "get_request_limits k h2 (d\<lparr>ad_flags := fl, ad_ctx := Some c2, ad_hctx := Some h2\<rparr>) s2 = (d3, s3)" by fastforce
  define s4 where "s4 = s3\<lparr>drv_pos := Suc (drv_pos s3)\<rparr>"
  have e: "the_q s3 = the_q s" "rqs s3 = rqs s" "tagsp s3 = tagsp s" "drv_pos s3 = drv_pos s" "usage s3 = usage s + 1"
    using steer_frame [OF s2] limits_quiet [OF s3] by (simp_all add: same_queue_def s1_def log_ev_def usage_def)
  have e4: "the_q s4 = the_q s" "rqs s4 = rqs s" "tagsp s4 = tagsp s" "usage s4 = usage s + 1" "\<And>x. hctx_at s4 x = hctx_at s x"
    using e by (simp_all add: s4_def hctx_at_def)
  note g2 = g1 [unfolded s2 bind.bind_lunit prod.case Let_def s3 s4_def [symmetric]]
  show ?thesis
  proof (cases "get_tag k (drv_pos s3) (the_q s3) d3")
    case None
    then show ?thesis using g2 e4 by (auto simp: quiet_def rq_same_def)
  next
    case (Some td)
    obtain tag d4 where td: "td = (tag, d4)" by fastforce
    note g3 = g2 [unfolded Some td option.case prod.case]
    obtain c4 h4 where c4: "ad_ctx d4 = Some c4" "ad_hctx d4 = Some h4"
      using g3 by (cases "ad_ctx d4"; cases "ad_hctx d4") simp_all
    note g4 = g3 [unfolded c4 bind.bind_lunit]
    obtain r s5 where s5: "blk_mq_rq_ctx_init k (ad_flags d4) c4 h4 tag (ad_cmd_flags d4) atime s4 = Some (r, s5)"
      using g4 by (cases "blk_mq_rq_ctx_init k (ad_flags d4) c4 h4 tag (ad_cmd_flags d4) atime s4") auto
    note g5 = g4 [unfolded s5 bind.bind_lunit prod.case]
    obtain s6 where s6: "count_bytes k bo st c4 h4 s5 = Some s6" using g5 by (cases "count_bytes k bo st c4 h4 s5") simp_all
    note g6 = g5 [unfolded s6 bind.bind_lunit]
    define s7 where "s7 = upd_rq r (\<lambda>q. q\<lparr>steered := st\<rparr>) s6"
    have ro: "ro = Some r" "s' = upd_hctx h4 (\<lambda>x. x\<lparr>hctx_queued := hctx_queued x + 1\<rparr>) (rq_prepare k (ad_cmd_flags d4) r s7)"
      using g6 by (auto simp: s7_def)
    have "\<not> rq_live (rqs s4 (static_rqs (tagsp s4 tp) tag))" if "blk_mq_tags_from_data s4 (ad_flags d4) h4 = Some tp" for tp
    proof -
      have "blk_mq_tags_from_data s (ad_flags d4) h4 = Some tp" using that by (simp add: e4 blk_mq_tags_from_data_def split: if_split_asm)
      then show ?thesis using f Some c4(2) e4 unfolding tags_fresh_def td e by simp
    qed
    note init = rq_ctx_init_effect [OF s5 this]
    have m: "moves r s s5" and l: "\<not> rq_live (rqs s r)" "rq_live (rqs s5 r)"
      using init e4 by (simp_all add: moves_def rq_counted_def rq_live_def)
    have q: "quiet r 0 s5 s6" using same_queue_quiet [OF count_bytes_frame [OF s6]] .
    have q2: "quiet r 0 s6 s7" by (simp add: s7_def quiet_def rq_same_def)
    have q3: "quiet r 0 s7 s'" using rq_prepare_quiet [of r s7 k "ad_cmd_flags d4"] by (simp add: ro quiet_def)
    have q4: "quiet r 0 s5 s'" using quiet_trans [OF quiet_trans [OF q q2] q3] by simp
    then have "rq_live (rqs s' r)" using l by (simp add: quiet_def rq_same_def rq_live_def)
    then show ?thesis using moves_quiet [OF m q4] l by (simp add: ro)
  qed
qed

lemma quiet_around:
  assumes "moves r s1 s2" "quiet r m s s1" "quiet r (-m) s2 s3"
  shows "moves r s s3"
  using assms by (simp add: moves_def quiet_def rq_same_def rq_ok_def rq_live_def rq_counted_def)

lemma alloc_request_effect:
  assumes a: "blk_mq_alloc_request k op flags s = Some (x, s')" and f: "tags_fresh k s"
  shows "case x of Inl e \<Rightarrow> (\<forall>r. quiet r 0 s s') | Inr r \<Rightarrow> moves r s s'"
proof (cases "queue_enter k flags")
  case (Some e)
  then show ?thesis using a by (auto simp: blk_mq_alloc_request_def quiet_def rq_same_def)
next
  case None
  define s0 where "s0 = log_ev (Call ''blk_queue_enter'' []) s"
  note a1 = a [unfolded blk_mq_alloc_request_def None option.case s0_def [symmetric]]
  obtain ro d s1 where g: "blk_mq_get_request k None (empty_alloc_data flags op) s0 = Some (ro, d, s1)"
    using a1 by (cases "blk_mq_get_request k None (empty_alloc_data flags op) s0") auto
  have "tags_fresh k s0" using f by (simp add: tags_fresh_def s0_def blk_mq_tags_from_data_def log_ev_def hctx_at_def)
  note e = get_request_effect [OF g this]
  have q0: "quiet r 1 s s0" for r by (simp add: s0_def quiet_def rq_same_def)
  show ?thesis
  proof (cases ro)
    case None
    then have "x = Inl EWOULDBLOCK" "s' = log_ev (Call ''blk_queue_exit'' []) s1" using a1 g by auto
    then show ?thesis using e None q0 by (simp add: quiet_def rq_same_def)
  next
    case (Some r)
    let ?s2 = "log_ev (Call ''blk_queue_exit'' []) s1"
    have x: "x = Inr r" "s' = upd_rq r (\<lambda>q. q\<lparr>rq_data_len := 0, rq_sector := -1, rq_bio := None\<rparr>) ?s2"
      using a1 g Some by auto
    have "quiet r (-1) s1 s'" by (simp add: x quiet_def rq_same_def)
    then show ?thesis using quiet_around [OF _ q0, of r s1 s'] e Some by (simp add: x)
  qed
qed

lemma alloc_request_hctx_effect:
  assumes a: "blk_mq_alloc_request_hctx k op flags i s = Some (x, s')" and f: "tags_fresh k s"
  shows "case x of Inl e \<Rightarrow> (\<forall>r. quiet r 0 s s') | Inr r \<Rightarrow> moves r s s'"
proof -
  define s0 where "s0 = log_ev (Call ''blk_queue_enter'' []) s"
  have q0: "quiet r 1 s s0" for r by (simp add: s0_def quiet_def rq_same_def)
  consider (early) e where "x = Inl e" "s' = s" | (unmapped) e where "x = Inl e" "s' = log_ev (Call ''blk_queue_exit'' []) s0"
    | (got) c ro d s1 where "blk_mq_get_request k None ((empty_alloc_data flags op)\<lparr>ad_hctx := Some i, ad_ctx := Some c\<rparr>) s0 = Some (ro, d, s1)"
        "s' = log_ev (Call ''blk_queue_exit'' []) s1" "x = (case ro of None \<Rightarrow> Inl EWOULDBLOCK | Some r \<Rightarrow> Inr r)"
    using a unfolding blk_mq_alloc_request_hctx_def Let_def s0_def [symmetric]
    by (auto split: if_split_asm option.split_asm bind_splits)
  then show ?thesis
  proof cases
    case early
    then show ?thesis by (simp add: quiet_def rq_same_def)
  next
    case unmapped
    then show ?thesis by (simp add: quiet_def rq_same_def s0_def)
  next
    case got
    have "tags_fresh k s0" using f by (simp add: tags_fresh_def s0_def blk_mq_tags_from_data_def log_ev_def hctx_at_def)
    note e = get_request_effect [OF got(1) this]
    have q1: "quiet r (-1) s1 s'" for r by (simp add: got(2) quiet_def rq_same_def)
    show ?thesis
    proof (cases ro)
      case None
      then show ?thesis using e q0 q1 by (simp add: got(3) quiet_def rq_same_def)
    next
      case (Some r)
      then show ?thesis using e quiet_around [OF _ q0 q1] by (simp add: got(3))
    qed
  qed
qed

section \<open>Operations on a request\<close>

text \<open>
  What the rest of the kernel keeps of a request: \<open>blk_add_timer\<close> and \<open>blk_update_request\<close> leave its
  context, tags and reference count alone, and \<open>blk_mq_get_tag\<close> without waiting stays on the hardware
  context it was given.
\<close>

definition kernel_ok :: "kernel \<Rightarrow> bool" where
  "kernel_ok k \<longleftrightarrow> (\<forall>q. rq_same q (add_timer k q)) \<and> (\<forall>q e n. rq_same q (fst (update_request k q e n))) \<and>
     (\<forall>n q d tag d'. get_tag k n q d = Some (tag, d') \<longrightarrow> ad_flags d AND BLK_MQ_REQ_NOWAIT \<noteq> 0 \<longrightarrow> ad_hctx d' = ad_hctx d)"

lemma rq_same_trans: "rq_same a b \<Longrightarrow> rq_same b c \<Longrightarrow> rq_same a c"
  by (simp add: rq_same_def)

lemma start_quiet: "kernel_ok k \<Longrightarrow> quiet r 0 s (blk_mq_start_request k r s)"
proof -
  assume "kernel_ok k"
  then have t: "rq_same q (add_timer k q)" for q by (simp add: kernel_ok_def)
  define s1 where "s1 = (if QUEUE_FLAG_STATS \<in> queue_flags (the_q s)
                then log_ev (Call ''rq_qos_issue'' [int r])
                  (upd_rq r (\<lambda>q. q\<lparr>io_start_time_ns := ktime_get_ns k,
                                   stats_sectors := ucast (drop_bit 9 (rq_data_len q)),
                                   rq_flags := rq_flags q OR RQF_STATS\<rparr>) s)
                else s)"
  define s2 where "s2 = upd_rq r (\<lambda>q. (add_timer k q)\<lparr>rq_state := MQ_RQ_IN_FLIGHT\<rparr>) (log_ev (Call ''blk_add_timer'' [int r]) s1)"
  have q1: "quiet r 0 s s1" by (simp add: s1_def quiet_def rq_same_def)
  have q2: "quiet r 0 s1 s2" using t [of "rqs s1 r"] by (simp add: s2_def quiet_def rq_same_def)
  have "quiet r 0 s2 (blk_mq_start_request k r s)"
    unfolding blk_mq_start_request_def Let_def s1_def [symmetric] s2_def [symmetric]
    by (simp add: quiet_def rq_same_def)
  then show ?thesis using quiet_trans [OF quiet_trans [OF q1 q2]] by simp
qed

lemma complete_quiet: "blk_mq_complete_request k r s = (b, s') \<Longrightarrow> quiet r 0 s s'"
  by (auto simp: blk_mq_complete_request_def blk_mq_complete_request_now_def Let_def quiet_def rq_same_def split: if_split_asm)

lemma get_driver_tag_moves:
  assumes g: "blk_mq_get_driver_tag k r s = Some (b, s')" and ok: "rq_ok (rqs s r)" and k: "kernel_ok k"
  shows "moves r s s'"
proof (cases "rq_tag (rqs s r) = -1")
  case False
  then show ?thesis using g ok by (auto simp: blk_mq_get_driver_tag_def moves_def)
next
  case True
  obtain h where h: "mq_hctx (rqs s r) = Some h" using g True by (auto simp: blk_mq_get_driver_tag_def split: bind_splits)
  have z: "rq_flags (rqs s r) AND RQF_MQ_INFLIGHT = 0" using ok True h by (simp add: rq_ok_def rq_live_def)
  obtain st where st: "sched_tags (hctx_at s h) = Some st" using g True h by (auto simp: blk_mq_get_driver_tag_def split: bind_splits)
  define d where "d = (empty_alloc_data (if tag_is_reserved k (tagsp s st) (internal_tag (rqs s r))
                  then BLK_MQ_REQ_NOWAIT OR BLK_MQ_REQ_RESERVED else BLK_MQ_REQ_NOWAIT) (cmd_flags (rqs s r)))\<lparr>ad_hctx := Some h\<rparr>"
  define s1 where "s1 = (log_ev (Call ''blk_mq_tag_busy'' [int h]) s)\<lparr>drv_pos := Suc (drv_pos s)\<rparr>"
  have g1: "(case get_tag k (drv_pos s) (the_q s) d of
          None \<Rightarrow> Some (False, s1)
        | Some (tag, d') \<Rightarrow> do {
            h' \<leftarrow> ad_hctx d';
            let s2 = upd_rq r (\<lambda>q. q\<lparr>rq_tag := int tag\<rparr>) s1;
            let s3 = (if tag_busy k (hctx_at s h)
                      then upd_hctx h' (\<lambda>x. x\<lparr>nr_active := nr_active x + 1\<rparr>)
                             (upd_rq r (\<lambda>q. q\<lparr>rq_flags := rq_flags q OR RQF_MQ_INFLIGHT\<rparr>) s2)
                      else s2);
            tp \<leftarrow> hctx_tags (hctx_at s3 h');
            Some (True, upd_tags tp (\<lambda>t. t\<lparr>tags_rqs := (tags_rqs t)(tag := Some r)\<rparr>) s3) }) = Some (b, s')"
    using g unfolding blk_mq_get_driver_tag_def h st bind.bind_lunit Let_def d_def s1_def by (simp add: True)
  have e1: "rqs s1 = rqs s" "usage s1 = usage s" "\<And>g. hctx_at s1 g = hctx_at s g" by (simp_all add: s1_def)
  show ?thesis
  proof (cases "get_tag k (drv_pos s) (the_q s) d")
    case None
    then show ?thesis using g1 ok e1 by (auto simp: moves_def)
  next
    case (Some td)
    obtain tag d' where td: "td = (tag, d')" by fastforce
    have "ad_flags d AND BLK_MQ_REQ_NOWAIT \<noteq> 0" by (simp add: d_def empty_alloc_data_def blk_defs)
    then have "ad_hctx d' = Some h" using k Some td unfolding kernel_ok_def by (force simp: d_def)
    then obtain tp where "s' = upd_tags tp (\<lambda>t. t\<lparr>tags_rqs := (tags_rqs t)(tag := Some r)\<rparr>)
        (if tag_busy k (hctx_at s h)
         then upd_hctx h (\<lambda>x. x\<lparr>nr_active := nr_active x + 1\<rparr>)
           (upd_rq r (\<lambda>q. q\<lparr>rq_flags := rq_flags q OR RQF_MQ_INFLIGHT\<rparr>) (upd_rq r (\<lambda>q. q\<lparr>rq_tag := int tag\<rparr>) s1))
         else upd_rq r (\<lambda>q. q\<lparr>rq_tag := int tag\<rparr>) s1)"
      using g1 [unfolded Some td option.case prod.case] by (auto simp: Let_def split: bind_splits)
    then show ?thesis using ok z h e1 by (auto simp: moves_def rq_ok_def rq_live_def rq_counted_def)
  qed
qed

lemma put_tag_frame: "blk_mq_put_tag h tp c tag s = Some s' \<Longrightarrow> \<exists>xs. s' = log_ev (Call ''blk_mq_put_tag'' xs) s"
  by (auto simp: blk_mq_put_tag_def split: bind_splits)

lemma put_driver_tag_moves:
  assumes p: "blk_mq_put_driver_tag r s = Some s'" and ok: "rq_ok (rqs s r)"
  shows "moves r s s'"
proof (cases "rq_tag (rqs s r) = -1 \<or> internal_tag (rqs s r) = -1")
  case True
  then show ?thesis using p ok by (auto simp: blk_mq_put_driver_tag_def moves_def)
next
  case False
  obtain h where h: "mq_hctx (rqs s r) = Some h" and p1: "blk_mq_put_driver_tag_hctx h r s = Some s'"
    using p False by (auto simp: blk_mq_put_driver_tag_def split: bind_splits)
  obtain s1 where s1: "blk_mq_put_tag h (hctx_tags (hctx_at s h)) (mq_ctx (rqs s r)) (rq_tag (rqs s r)) s = Some s1"
    using p1 by (auto simp: blk_mq_put_driver_tag_hctx_def Let_def split: bind_splits)
  obtain xs where "s1 = log_ev (Call ''blk_mq_put_tag'' xs) s" using put_tag_frame [OF s1] by blast
  then show ?thesis using p1 s1 h ok
    by (auto simp: blk_mq_put_driver_tag_hctx_def Let_def moves_def rq_ok_def rq_live_def rq_counted_def split: if_split_asm)
qed

lemma requeue_state_moves:
  assumes p: "blk_mq_requeue_request_state r s = Some s'" and ok: "rq_ok (rqs s r)"
  shows "moves r s s'"
proof -
  obtain s1 where s1: "blk_mq_put_driver_tag r s = Some s1" using p by (auto simp: blk_mq_requeue_request_state_def split: bind_splits)
  have "quiet r 0 s1 s'"
    using p s1 by (auto simp: blk_mq_requeue_request_state_def Let_def quiet_def rq_same_def split: if_split_asm)
  then show ?thesis using moves_quiet [OF put_driver_tag_moves [OF s1 ok]] by blast
qed

lemma upd_requeue_list_at [simp]:
  "rqs (upd_requeue_list f s) = rqs s" "hctx_at (upd_requeue_list f s) h = hctx_at s h" "usage (upd_requeue_list f s) = usage s"
  by (simp_all add: upd_requeue_list_def hctx_at_def)

lemma requeue_moves:
  assumes p: "blk_mq_requeue_request r kick s = Some s'" and ok: "rq_ok (rqs s r)"
  shows "moves r s s'"
proof -
  obtain s1 where s1: "blk_mq_requeue_request_state r s = Some s1" using p by (auto simp: blk_mq_requeue_request_def split: bind_splits)
  have "quiet r 0 s1 s'" using p s1
    by (auto simp: blk_mq_requeue_request_def blk_mq_add_to_requeue_list_def blk_mq_kick_requeue_list_def Let_def quiet_def rq_same_def
        split: if_split_asm)
  then show ?thesis using moves_quiet [OF requeue_state_moves [OF s1 ok]] by blast
qed

lemma free_tags_effect:
  assumes "blk_mq_free_request_tags r s = Some s'"
  shows "\<exists>h. mq_hctx (rqs s r) = Some h \<and> (\<forall>x. x \<noteq> r \<longrightarrow> rqs s' x = rqs s x) \<and> mq_hctx (rqs s' r) = None \<and>
    (\<forall>h. hctx_at s' h = hctx_at s h) \<and> usage s' = usage s - 1"
proof -
  obtain h where h: "mq_hctx (rqs s r) = Some h" using assms by (auto simp: blk_mq_free_request_tags_def Let_def split: bind_splits)
  let ?s1 = "upd_rq r (\<lambda>q. q\<lparr>mq_hctx := None\<rparr>) (log_ev (Call ''blk_pm_mark_last_busy'' [int r]) s)"
  obtain s2 where s2: "(if rq_tag (rqs s r) \<noteq> -1 then blk_mq_put_tag h (hctx_tags (hctx_at ?s1 h)) (mq_ctx (rqs s r)) (rq_tag (rqs s r)) ?s1
            else Some ?s1) = Some s2"
    using assms unfolding blk_mq_free_request_tags_def Let_def h bind.bind_lunit by (auto split: bind_splits)
  obtain s3 where s3: "(if internal_tag (rqs s r) \<noteq> -1
            then blk_mq_put_tag h (sched_tags (hctx_at s2 h)) (mq_ctx (rqs s r)) (internal_tag (rqs s r)) s2 else Some s2) = Some s3"
    and s': "s' = log_ev (Call ''blk_queue_exit'' []) (log_ev (Call ''blk_mq_sched_restart'' [int h]) s3)"
    using assms unfolding blk_mq_free_request_tags_def Let_def h bind.bind_lunit s2 by (auto split: bind_splits)
  have "rqs s2 = rqs ?s1 \<and> (\<forall>h. hctx_at s2 h = hctx_at s h) \<and> usage s2 = usage s"
    using s2 by (auto dest!: put_tag_frame split: if_split_asm)
  moreover have "rqs s3 = rqs s2 \<and> (\<forall>h. hctx_at s3 h = hctx_at s2 h) \<and> usage s3 = usage s2"
    using s3 by (auto dest!: put_tag_frame split: if_split_asm)
  ultimately show ?thesis using h by (simp add: s')
qed

lemma finish_elv_quiet: "quiet r 0 s (rq_finish_elv r s)"
  by (auto simp: rq_finish_elv_def Let_def quiet_def rq_same_def split: option.splits)

lemma free_moves:
  assumes p: "blk_mq_free_request k r s = Some s'" and ok: "rq_ok (rqs s r)" and live: "rq_live (rqs s r)"
  shows "moves r s s'"
proof -
  define s1 where "s1 = rq_finish_elv r s"
  let ?sync = "op_is_sync k (cmd_flags (rqs s r))"
  define s2 where "s2 = upd_ctx (mq_ctx (rqs s r)) (\<lambda>x. x\<lparr>rq_completed := (rq_completed x)(?sync := rq_completed x ?sync + 1)\<rparr>) s1"
  obtain h where h: "mq_hctx (rqs s r) = Some h" using live by (auto simp: rq_live_def)
  define s3 where "s3 = (if rq_flags (rqs s r) AND RQF_MQ_INFLIGHT \<noteq> 0 then upd_hctx h (\<lambda>x. x\<lparr>nr_active := nr_active x - 1\<rparr>) s2 else s2)"
  define s5 where "s5 = log_ev (Call ''rq_qos_done'' [int r]) (if laptop_mode k \<and> \<not> rq_is_passthrough k (cmd_flags (rqs s r))
               then log_ev (Call ''laptop_io_completion'' []) s3 else s3)"
  have q1: "quiet r 0 s s1" unfolding s1_def by (rule finish_elv_quiet)
  have ref: "rq_ref (rqs s5 r) = 1" using q1 ok live by (simp add: s5_def s3_def s2_def quiet_def rq_same_def rq_ok_def)
  define s6 where "s6 = upd_rq r (\<lambda>q. q\<lparr>rq_state := MQ_RQ_IDLE, rq_ref := 0\<rparr>) s5"
  have s3: "(if rq_flags (rqs s r) AND RQF_MQ_INFLIGHT \<noteq> 0
            then do { h \<leftarrow> mq_hctx (rqs s r); Some (upd_hctx h (\<lambda>x. x\<lparr>nr_active := nr_active x - 1\<rparr>) s2) }
            else Some s2) = Some s3" by (simp add: s3_def h)
  note p1 = p [unfolded blk_mq_free_request_def Let_def s1_def [symmetric] s2_def [symmetric] s3 bind.bind_lunit s5_def [symmetric]]
  have f: "blk_mq_free_request_tags r s6 = Some s'" using p1 by (simp add: ref s6_def)
  have "\<forall>x. x \<noteq> r \<longrightarrow> rqs s6 x = rqs s x" "usage s6 = usage s"
    "\<forall>g. nr_active (hctx_at s6 g) = nr_active (hctx_at s g) - of_bool (rq_counted g (rqs s r))"
    using q1 h by (auto simp: s6_def s5_def s3_def s2_def quiet_def rq_counted_def)
  then show ?thesis using free_tags_effect [OF f] live by (auto simp: moves_def rq_ok_def rq_live_def rq_counted_def)
qed

lemma end_rest_moves:
  assumes p: "blk_mq_end_request_rest k r e s = Some s'" and ok: "rq_ok (rqs s r)" and live: "rq_live (rqs s r)"
  shows "moves r s s'"
proof -
  define now where "now = (if blk_mq_need_time_stamp s (rqs s r) then ktime_get_ns k else 0)"
  define s1 where "s1 = (if rq_flags (rqs s r) AND RQF_STATS \<noteq> 0
                then log_ev (Call ''blk_stat_add'' [int r, uint now]) (log_ev (Call ''blk_mq_poll_stats_start'' []) s) else s)"
  define s2 where "s2 = (if internal_tag (rqs s r) \<noteq> -1
                then log_ev (Call ''blk_mq_sched_completed_request'' [int r, uint now]) s1 else s1)"
  define s3 where "s3 = log_ev (Call ''blk_account_io_done'' [int r, uint now]) s2"
  have q: "quiet r 0 s s3" by (simp add: s3_def s2_def s1_def quiet_def rq_same_def)
  have ok3: "rq_ok (rqs s3 r)" "rq_live (rqs s3 r)" using ok live by (simp_all add: s3_def s2_def s1_def)
  have e: "(case end_io (rqs s r) of
           Some f \<Rightarrow> Some (log_ev (Call ''end_io'' [int r, int f]) (log_ev (Call ''rq_qos_done'' [int r]) s3))
         | None \<Rightarrow> blk_mq_free_request k r s3) = Some s'"
    using p unfolding blk_mq_end_request_rest_def Let_def now_def [symmetric] s1_def [symmetric] s2_def [symmetric] s3_def [symmetric] .
  show ?thesis
  proof (cases "end_io (rqs s r)")
    case None
    then show ?thesis using e free_moves [OF _ ok3] moves_trans [OF quiet_moves [OF q ok]] by simp
  next
    case (Some f)
    then have "quiet r 0 s3 s'" using e by (auto simp: quiet_def rq_same_def)
    then show ?thesis using moves_quiet [OF quiet_moves [OF q ok]] by blast
  qed
qed

lemma end_moves:
  assumes p: "blk_mq_end_request k r e s = Some s'" and ok: "rq_ok (rqs s r)" and live: "rq_live (rqs s r)" and k: "kernel_ok k"
  shows "moves r s s'"
proof -
  obtain s1 where s1: "uncount_bytes k r s = Some s1" using p by (auto simp: blk_mq_end_request_def split: bind_splits)
  obtain rq m where rq: "update_request k (rqs s1 r) e (rq_data_len (rqs s1 r)) = (rq, m)" by fastforce
  have f: "blk_mq_end_request_rest k r e (upd_rq r (\<lambda>_. rq) s1) = Some s'"
    using p s1 rq by (auto simp: blk_mq_end_request_def Let_def split: if_split_asm)
  have "rq_same (rqs s1 r) (fst (update_request k (rqs s1 r) e (rq_data_len (rqs s1 r))))" using k by (simp add: kernel_ok_def)
  then have "rq_same (rqs s1 r) rq" by (simp add: rq)
  then have "quiet r 0 s1 (upd_rq r (\<lambda>_. rq) s1)" by (simp add: quiet_def)
  then have q: "quiet r 0 s (upd_rq r (\<lambda>_. rq) s1)" using quiet_trans [OF same_queue_quiet [OF uncount_bytes_frame [OF s1]]] by simp
  then have ok': "rq_ok (rqs (upd_rq r (\<lambda>_. rq) s1) r)" "rq_live (rqs (upd_rq r (\<lambda>_. rq) s1) r)"
    using ok live by (simp_all add: quiet_def rq_same_def rq_ok_def rq_live_def)
  show ?thesis using moves_trans [OF quiet_moves [OF q ok]] end_rest_moves [OF f ok'] by blast
qed

lemma timed_out_quiet: "kernel_ok k \<Longrightarrow> quiet r 0 s (blk_mq_rq_timed_out k r s)"
proof -
  assume "kernel_ok k"
  then have t: "rq_same q (add_timer k q)" for q by (simp add: kernel_ok_def)
  define s1 where "s1 = upd_rq r (\<lambda>q. q\<lparr>rq_flags := rq_flags q OR RQF_TIMED_OUT\<rparr>) s"
  have q1: "quiet r 0 s s1" by (simp add: s1_def quiet_def rq_same_def)
  have "quiet r 0 s1 (blk_mq_rq_timed_out k r s)"
    using t [of "rqs s1 r"] unfolding blk_mq_rq_timed_out_def Let_def s1_def [symmetric] by (simp add: quiet_def rq_same_def)
  then show ?thesis using quiet_trans [OF q1] by simp
qed

lemma check_expired_moves:
  assumes p: "blk_mq_check_expired k h r (nxt, s) = Some (nxt', s')" and ok: "rq_ok (rqs s r)" and k: "kernel_ok k"
    and fl: "\<not> is_flush_rq k r h"
  shows "moves r s s'"
proof -
  obtain e1 nxt1 where e1: "blk_mq_req_expired k (rqs s r) nxt = (e1, nxt1)" by fastforce
  show ?thesis
  proof (cases "\<not> e1 \<or> rq_ref (rqs s r) = 0")
    case True
    then have "s' = s" using p e1 unfolding blk_mq_check_expired_def by (cases e1) auto
    then show ?thesis using ok by (simp add: moves_def)
  next
    case False
    define s1 where "s1 = upd_rq r (\<lambda>q. q\<lparr>rq_ref := rq_ref q + 1\<rparr>) s"
    obtain e2 nxt2 where e2: "blk_mq_req_expired k (rqs s1 r) nxt1 = (e2, nxt2)" by fastforce
    define s2 where "s2 = (if e2 then blk_mq_rq_timed_out k r s1 else s1)"
    have q: "quiet r 0 s1 s2" using timed_out_quiet [OF k] by (simp add: s2_def quiet_def rq_same_def)
    then have ref: "rq_ref (rqs s2 r) = Suc (rq_ref (rqs s r))" by (simp add: quiet_def rq_same_def s1_def)
    have "s' = upd_rq r (\<lambda>q. q\<lparr>rq_ref := rq_ref (rqs s r)\<rparr>) s2"
      using p [unfolded blk_mq_check_expired_def Let_def prod.case e1 s1_def [symmetric] e2 s2_def [symmetric]] False fl ref by simp
    then have "quiet r 0 s s'" using q by (auto simp: quiet_def rq_same_def s1_def)
    then show ?thesis using ok by (rule quiet_moves)
  qed
qed

section \<open>Sequences of operations\<close>

datatype rq_op = Get "bio option" blk_mq_alloc_data | Alloc u32 u32 | Alloc_hctx u32 u32 nat | Start nat | Complete nat
  | Take_tag nat | Drop_tag nat | Requeue nat bool | End nat blk_status | Free nat | Expire nat nat u64

fun rq_exec :: "kernel \<Rightarrow> rq_op \<Rightarrow> blk \<Rightarrow> blk option" where
  "rq_exec k (Get bo d) s = map_option (\<lambda>(_, _, s'). s') (blk_mq_get_request k bo d s)"
| "rq_exec k (Alloc op flags) s = map_option snd (blk_mq_alloc_request k op flags s)"
| "rq_exec k (Alloc_hctx op flags h) s = map_option snd (blk_mq_alloc_request_hctx k op flags h s)"
| "rq_exec k (Start r) s = Some (blk_mq_start_request k r s)"
| "rq_exec k (Complete r) s = Some (snd (blk_mq_complete_request k r s))"
| "rq_exec k (Take_tag r) s = map_option snd (blk_mq_get_driver_tag k r s)"
| "rq_exec k (Drop_tag r) s = blk_mq_put_driver_tag r s"
| "rq_exec k (Requeue r kick) s = blk_mq_requeue_request r kick s"
| "rq_exec k (End r e) s = blk_mq_end_request k r e s"
| "rq_exec k (Free r) s = blk_mq_free_request k r s"
| "rq_exec k (Expire h r nxt) s = map_option snd (blk_mq_check_expired k h r (nxt, s))"

text \<open>
  Allocations find fresh tags; only allocated requests are ended or freed; flush requests are left to
  their own machinery.
\<close>

fun rq_op_ok :: "kernel \<Rightarrow> rq_op \<Rightarrow> blk \<Rightarrow> bool" where
  "rq_op_ok k (Get bo d) s = tags_fresh k s"
| "rq_op_ok k (Alloc op flags) s = tags_fresh k s"
| "rq_op_ok k (Alloc_hctx op flags h) s = tags_fresh k s"
| "rq_op_ok k (End r e) s = (kernel_ok k \<and> rq_live (rqs s r))"
| "rq_op_ok k (Free r) s = rq_live (rqs s r)"
| "rq_op_ok k (Expire h r nxt) s = (kernel_ok k \<and> \<not> is_flush_rq k r h)"
| "rq_op_ok k _ s = kernel_ok k"

lemma rq_exec_inv:
  assumes inv: "rq_inv s" and ok: "rq_op_ok k a s" and e: "rq_exec k a s = Some s'"
  shows "rq_inv s'"
proof -
  have l: "rq_ok (rqs s r)" for r using inv by (simp add: rq_inv_def)
  have "\<exists>r. moves r s s'"
  proof (cases a)
    case (Get bo d)
    obtain ro d' where g: "blk_mq_get_request k bo d s = Some (ro, d', s')" using e Get by (auto split: prod.splits)
    show ?thesis using get_request_effect [OF g] ok Get l quiet_moves by (cases ro) auto
  next
    case (Alloc op flags)
    obtain x where g: "blk_mq_alloc_request k op flags s = Some (x, s')" using e Alloc by auto
    show ?thesis using alloc_request_effect [OF g] ok Alloc l quiet_moves by (cases x) auto
  next
    case (Alloc_hctx op flags h)
    obtain x where g: "blk_mq_alloc_request_hctx k op flags h s = Some (x, s')" using e Alloc_hctx by auto
    show ?thesis using alloc_request_hctx_effect [OF g] ok Alloc_hctx l quiet_moves by (cases x) auto
  next
    case (Start r)
    then show ?thesis using e ok quiet_moves [OF start_quiet l] by auto
  next
    case (Complete r)
    have "quiet r 0 s s'" using e Complete complete_quiet [of k r s] by (metis option.inject prod.collapse rq_exec.simps(5))
    then show ?thesis using l quiet_moves by blast
  next
    case (Take_tag r)
    then show ?thesis using e ok get_driver_tag_moves l by fastforce
  next
    case (Drop_tag r)
    then show ?thesis using e put_driver_tag_moves l by fastforce
  next
    case (Requeue r kick)
    then show ?thesis using e requeue_moves l by fastforce
  next
    case (End r st)
    then show ?thesis using e ok end_moves l by fastforce
  next
    case (Free r)
    then show ?thesis using e ok free_moves l by fastforce
  next
    case (Expire h r nxt)
    obtain nxt' where g: "blk_mq_check_expired k h r (nxt, s) = Some (nxt', s')" using e Expire by auto
    show ?thesis using check_expired_moves [OF g l] ok Expire by auto
  qed
  then show ?thesis using moves_inv [OF inv] by blast
qed

interpretation rqi: op_invariant "rq_exec k" "rq_op_ok k" rq_inv for k
  by unfold_locales (rule rq_exec_inv)

text \<open>
  C5: The counters of requests are exact. After any sequence of allocations, starts, completions, driver tag
  changes, requeueings, timeouts, ends and releases, \<open>nr_active\<close> of every hardware context, which is the
  load that steering compares, is the number of allocated requests that are counted there, and the
  references to the queue that are still held are as many as the allocated requests: no path leaks or
  returns twice.
\<close>

theorem requests_counted:
  assumes "rq_inv s" "rqi.run k s ops s'"
  shows "nr_active (hctx_at s' h) = int (card {r. rq_counted h (rqs s' r)}) \<and> usage s' = int (card {r. rq_live (rqs s' r)})"
  using rqi.run_inv [OF assms(2,1)] by (simp add: rq_inv_def)

text \<open>A machine without requests.\<close>

definition ex_idle :: blk where
  "ex_idle = ex_blk\<lparr>rqs := (\<lambda>_. ex_rq\<lparr>mq_hctx := None\<rparr>),
     the_q := (the_q ex_blk)\<lparr>queue_hw_ctx := (\<lambda>h. (ex_hctx h)\<lparr>nr_active := 0\<rparr>)\<rparr>\<rparr>"

lemma ex_idle_inv: "rq_inv ex_idle" "tags_fresh ex_kernel ex_idle"
  by (simp_all add: ex_idle_def ex_rq_def ex_hctx_def ex_blk_def rq_inv_def rq_live_def rq_ok_def rq_counted_def usage_def hctx_at_def
      tags_fresh_def)

theorem requests_counted_witness:
  "\<exists>s'. rq_exec ex_kernel (Alloc 1 0) ex_idle = Some s' \<and> nr_active (hctx_at s' 0) = int (card {r. rq_counted 0 (rqs s' r)}) \<and>
     usage s' = int (card {r. rq_live (rqs s' r)})"
proof -
  have "\<exists>s'. rq_exec ex_kernel (Alloc 1 0) ex_idle = Some s'"
    by (simp add: ex_idle_def blk_mq_alloc_request_def blk_mq_get_request_def blk_switch_steer_def blk_switch_request_def Let_def ex_defs
        get_request_limits_def blk_mq_rq_ctx_init_def count_bytes_def empty_alloc_data_def hctx_at_def blk_defs log_ev_def
        blk_mq_tags_from_data_def split: prod.splits)
  then obtain s' where s': "rq_exec ex_kernel (Alloc 1 0) ex_idle = Some s'" by blast
  have "rqi.run ex_kernel ex_idle [Alloc 1 0] s'" by (rule rqi.run_cons [OF _ s' rqi.run_nil]) (simp add: ex_idle_inv)
  then show ?thesis using requests_counted [OF ex_idle_inv(1), of ex_kernel "[Alloc 1 0]" s' 0] s' by blast
qed

section \<open>The byte counts of the cores\<close>

text \<open>
  What a request adds to the count of a core, and what the requests in a set owe together; \<open>thru\<close>
  selects the counts of T-requests or of L-requests.
\<close>

definition bytes_of :: "bool \<Rightarrow> blk_switch_vars \<Rightarrow> u64 list" where
  "bytes_of thru v = (if thru then T_bytes v else L_bytes v)"

definition rq_cpu :: "blk \<Rightarrow> nat \<Rightarrow> nat" where
  "rq_cpu s r = ctx_cpu (ctx_at s (mq_ctx (rqs s r)))"

definition rq_thru :: "kernel \<Rightarrow> blk \<Rightarrow> nat \<Rightarrow> bool" where
  "rq_thru k s r = blk_switch_is_thru_request k (rq_bio (rqs s r))"

definition charge :: "kernel \<Rightarrow> blk \<Rightarrow> bool \<Rightarrow> nat \<Rightarrow> nat \<Rightarrow> nat" where
  "charge k s thru c r = (if rq_cpu s r = c \<and> rq_thru k s r = thru then unat (rq_data_len (rqs s r)) else 0)"

definition owed :: "kernel \<Rightarrow> blk \<Rightarrow> bool \<Rightarrow> nat \<Rightarrow> nat set \<Rightarrow> nat" where
  "owed k s thru c out = (\<Sum>r\<in>out. charge k s thru c r)"

text \<open>A request that is counted when it is issued and when it ends.\<close>

definition chargeable :: "blk \<Rightarrow> nat \<Rightarrow> bool" where
  "chargeable s r \<longleftrightarrow> (\<exists>h b. mq_hctx (rqs s r) = Some h \<and> blk_switch (hctx_at s h) \<and> rq_bio (rqs s r) = Some b \<and>
     bi_size b = rq_data_len (rqs s r)) \<and> rq_data_len (rqs s r) \<noteq> 0 \<and> \<not> steered (rqs s r) \<and> rq_tag (rqs s r) \<noteq> 0 \<and>
     rq_cpu s r < BLK_SWITCH_NR_CPUS"

definition ledger :: "kernel \<Rightarrow> (bool \<Rightarrow> nat \<Rightarrow> nat) \<Rightarrow> blk \<times> nat set \<Rightarrow> bool" where
  "ledger k base st \<longleftrightarrow> (case st of (s, out) \<Rightarrow> finite out \<and> (\<forall>r\<in>out. chargeable s r) \<and>
     (\<forall>thru. length (bytes_of thru (bsw s)) = BLK_SWITCH_NR_CPUS) \<and>
     (\<forall>c < BLK_SWITCH_NR_CPUS. \<forall>thru. unat (bytes_of thru (bsw s) ! c) = base thru c + owed k s thru c out))"

datatype byte_op = Issue nat | Done nat

fun byte_exec :: "kernel \<Rightarrow> byte_op \<Rightarrow> blk \<times> nat set \<Rightarrow> (blk \<times> nat set) option" where
  "byte_exec k (Issue r) (s, out) = do {
     h \<leftarrow> mq_hctx (rqs s r);
     s' \<leftarrow> count_bytes k (rq_bio (rqs s r)) (steered (rqs s r)) (mq_ctx (rqs s r)) h s;
     Some (s', insert r out) }"
| "byte_exec k (Done r) (s, out) = do { s' \<leftarrow> uncount_bytes k r s; Some (s', out - {r}) }"

fun byte_ok :: "kernel \<Rightarrow> byte_op \<Rightarrow> blk \<times> nat set \<Rightarrow> bool" where
  "byte_ok k (Issue r) (s, out) \<longleftrightarrow> r \<notin> out \<and> chargeable s r \<and>
     unat (bytes_of (rq_thru k s r) (bsw s) ! rq_cpu s r) + unat (rq_data_len (rqs s r)) < 2 ^ 64"
| "byte_ok k (Done r) (s, out) \<longleftrightarrow> r \<in> out"

definition put_bytes :: "bool \<Rightarrow> nat \<Rightarrow> u64 \<Rightarrow> blk \<Rightarrow> blk" where
  "put_bytes thru c x s = s\<lparr>bsw := (if thru then (bsw s)\<lparr>T_bytes := (T_bytes (bsw s))[c := x]\<rparr>
     else (bsw s)\<lparr>L_bytes := (L_bytes (bsw s))[c := x]\<rparr>)\<rparr>"

lemma put_bytes_at [simp]:
  "the_q (put_bytes t c x s) = the_q s" "rqs (put_bytes t c x s) = rqs s"
  "bytes_of t' (bsw (put_bytes t c x s)) = (if t' = t then (bytes_of t (bsw s))[c := x] else bytes_of t' (bsw s))"
  by (simp_all add: put_bytes_def bytes_of_def)

lemma put_bytes_rq [simp]: "rq_cpu (put_bytes t c x s) = rq_cpu s" "rq_thru k (put_bytes t c x s) = rq_thru k s"
  by (simp_all add: fun_eq_iff rq_cpu_def rq_thru_def ctx_at_def)

lemma put_bytes_frame [simp]:
  "chargeable (put_bytes t c x s) = chargeable s" "owed k (put_bytes t c x s) = owed k s"
proof -
  show "chargeable (put_bytes t c x s) = chargeable s" by (simp add: fun_eq_iff chargeable_def hctx_at_def)
  have "charge k (put_bytes t c x s) thru c' r = charge k s thru c' r" for thru c' r by (simp add: charge_def)
  then show "owed k (put_bytes t c x s) = owed k s" by (simp add: fun_eq_iff owed_def)
qed

lemma cpu_in_range:
  assumes "chargeable s r" "\<forall>thru. length (bytes_of thru (bsw s)) = BLK_SWITCH_NR_CPUS"
  shows "rq_cpu s r < length (T_bytes (bsw s))" "rq_cpu s r < length (L_bytes (bsw s))"
  using assms(1) assms(2) [rule_format, of True] assms(2) [rule_format, of False] by (simp_all add: chargeable_def bytes_of_def)

lemma count_bytes_put:
  assumes "chargeable s r" "mq_hctx (rqs s r) = Some h" "\<forall>thru. length (bytes_of thru (bsw s)) = BLK_SWITCH_NR_CPUS"
  shows "count_bytes k (rq_bio (rqs s r)) (steered (rqs s r)) (mq_ctx (rqs s r)) h s =
    Some (put_bytes (rq_thru k s r) (rq_cpu s r) (bytes_of (rq_thru k s r) (bsw s) ! rq_cpu s r + ucast (rq_data_len (rqs s r))) s)"
proof -
  obtain b where b: "rq_bio (rqs s r) = Some b" "bi_size b = rq_data_len (rqs s r)" "blk_switch (hctx_at s h)" "\<not> steered (rqs s r)"
    using assms(1,2) unfolding chargeable_def by (metis option.inject)
  note l = cpu_in_range [OF assms(1,3)]
  show ?thesis
    using b l by (cases "rq_thru k s r") (simp_all add: count_bytes_def put_bytes_def bytes_of_def rq_thru_def rq_cpu_def Let_def)
qed

lemma uncount_bytes_put:
  assumes "chargeable s r" "\<forall>thru. length (bytes_of thru (bsw s)) = BLK_SWITCH_NR_CPUS"
  shows "uncount_bytes k r s =
    Some (put_bytes (rq_thru k s r) (rq_cpu s r) (sub_bytes (bytes_of (rq_thru k s r) (bsw s) ! rq_cpu s r) (rq_data_len (rqs s r))) s)"
proof -
  obtain h b where b: "mq_hctx (rqs s r) = Some h" "rq_bio (rqs s r) = Some b" "blk_switch (hctx_at s h)" "\<not> steered (rqs s r)"
    "rq_data_len (rqs s r) \<noteq> 0" "rq_tag (rqs s r) \<noteq> 0"
    using assms(1) unfolding chargeable_def by blast
  note l = cpu_in_range [OF assms]
  show ?thesis
    using b l by (cases "rq_thru k s r") (simp_all add: uncount_bytes_def put_bytes_def bytes_of_def rq_thru_def rq_cpu_def Let_def)
qed

lemma unat_ucast_32_64 [simp]: "unat (ucast (x::u32) :: u64) = unat x"
  using unsigned_less [of x, where ?'a = nat] by (simp add: unsigned_ucast_eq take_bit_nat_eq_self_iff)

lemma ledger_exec:
  assumes l: "ledger k base st" and ok: "byte_ok k a st"
  shows "\<exists>st'. byte_exec k a st = Some st' \<and> ledger k base st'"
proof -
  obtain s out where st: "st = (s, out)" by fastforce
  have f: "finite out" and ch: "\<forall>r\<in>out. chargeable s r" and len: "\<forall>thru. length (bytes_of thru (bsw s)) = BLK_SWITCH_NR_CPUS"
    and eq: "\<And>c thru. c < BLK_SWITCH_NR_CPUS \<Longrightarrow> unat (bytes_of thru (bsw s) ! c) = base thru c + owed k s thru c out"
    using l by (auto simp: ledger_def st)
  show ?thesis
  proof (cases a)
    case (Issue r)
    let ?t = "rq_thru k s r" and ?c = "rq_cpu s r"
    let ?x = "bytes_of ?t (bsw s) ! ?c + ucast (rq_data_len (rqs s r))"
    have r: "r \<notin> out" "chargeable s r" "unat (bytes_of ?t (bsw s) ! ?c) + unat (rq_data_len (rqs s r)) < 2 ^ 64"
      using ok by (simp_all add: Issue st)
    obtain h where h: "mq_hctx (rqs s r) = Some h" and c: "?c < BLK_SWITCH_NR_CPUS" using r(2) by (auto simp: chargeable_def)
    have x: "unat ?x = unat (bytes_of ?t (bsw s) ! ?c) + unat (rq_data_len (rqs s r))"
      using r(3) by (subst unat_add_lem [THEN iffD1]) simp_all
    have o: "owed k s thru c (insert r out) = owed k s thru c out + charge k s thru c r" for thru c
      using f r(1) by (simp add: owed_def)
    have "ledger k base (put_bytes ?t ?c ?x s, insert r out)"
      using f ch len eq x c r(2) by (auto simp: ledger_def o charge_def nth_list_update)
    then show ?thesis using count_bytes_put [OF r(2) h len, of k] by (simp add: Issue st h)
  next
    case (Done r)
    let ?t = "rq_thru k s r" and ?c = "rq_cpu s r"
    let ?x = "sub_bytes (bytes_of ?t (bsw s) ! ?c) (rq_data_len (rqs s r))"
    have r: "r \<in> out" "chargeable s r" using ok ch by (simp_all add: Done st)
    have c: "?c < BLK_SWITCH_NR_CPUS" using r(2) by (simp add: chargeable_def)
    have o: "owed k s thru c out = owed k s thru c (out - {r}) + charge k s thru c r" for thru c
      using f r(1) by (simp add: owed_def sum.remove)
    have "unat (rq_data_len (rqs s r)) \<le> unat (bytes_of ?t (bsw s) ! ?c)"
      using eq [OF c, of ?t] o [of ?t ?c] by (simp add: charge_def)
    then have x: "unat ?x = unat (bytes_of ?t (bsw s) ! ?c) - unat (rq_data_len (rqs s r))"
      by (simp add: sub_bytes_def word_le_nat_alt unat_sub)
    have "unat (bytes_of thru (bsw (put_bytes ?t ?c ?x s)) ! i) = base thru i + owed k s thru i (out - {r})"
      if i: "i < BLK_SWITCH_NR_CPUS" for i thru
    proof (cases "thru = ?t \<and> i = ?c")
      case True
      have "unat (bytes_of thru (bsw (put_bytes ?t ?c ?x s)) ! i) = unat ?x" using True c len by simp
      moreover have "charge k s thru i r = unat (rq_data_len (rqs s r))" using True by (simp add: charge_def)
      ultimately show ?thesis using eq [OF i, of thru] o [of thru i] x True by simp
    next
      case False
      then have "bytes_of thru (bsw (put_bytes ?t ?c ?x s)) ! i = bytes_of thru (bsw s) ! i" "charge k s thru i r = 0"
        by (auto simp: charge_def)
      then show ?thesis using eq [OF i, of thru] o [of thru i] by simp
    qed
    then have "ledger k base (put_bytes ?t ?c ?x s, out - {r})" using f ch len by (simp add: ledger_def)
    then show ?thesis using uncount_bytes_put [OF r(2) len, of k] by (simp add: Done st)
  qed
qed

interpretation byti: op_invariant "byte_exec k" "byte_ok k" "ledger k base" for k base
  by unfold_locales (metis ledger_exec option.inject)

text \<open>
  C20: The byte counts are a ledger for the requests that are both counted and discounted: those on a
  blk-switch queue and a core below 64, with a tag other than 0, not steered, and with one bio that holds
  all their bytes (not none, and no bio merged in). However the issuing of such requests, each while the
  count has room for its bytes in 64 bits, and their ending interleave, with no reset of the metrics in
  between, the count of every core and class is what it was before plus the bytes of the requests
  outstanding there: it neither wraps nor is cut off at zero, and it is back to its old value when nothing
  is outstanding. Every issue and end of this kind is defined.
\<close>

theorem bytes_ledger:
  assumes "ledger k base (s, out)" "byti.run k (s, out) ops (s', out')" "c < BLK_SWITCH_NR_CPUS"
  shows "unat (bytes_of thru (bsw s') ! c) = base thru c + owed k s' thru c out' \<and>
    (\<forall>a. byte_ok k a (s', out') \<longrightarrow> byte_exec k a (s', out') \<noteq> None)"
proof -
  have l: "ledger k base (s', out')" using byti.run_inv [OF assms(2,1)] .
  then have "byte_ok k a (s', out') \<longrightarrow> byte_exec k a (s', out') \<noteq> None" for a using ledger_exec by blast
  then show ?thesis using l assms(3) by (simp add: ledger_def)
qed

text \<open>A machine with a T-request of 64 KB on the queue of core 0, under the given tag.\<close>

definition ex_io :: "int \<Rightarrow> blk" where
  "ex_io tag = ex_blk\<lparr>rqs := (\<lambda>_. ex_rq\<lparr>rq_tag := tag, rq_bio := Some ex_bio, rq_data_len := 65536, rq_ref := 1,
     rq_state := MQ_RQ_IN_FLIGHT, rq_deadline := 4000\<rparr>)\<rparr>"

lemma ex_io_at:
  "rqs (ex_io tag) r = ex_rq\<lparr>rq_tag := tag, rq_bio := Some ex_bio, rq_data_len := 65536, rq_ref := 1,
     rq_state := MQ_RQ_IN_FLIGHT, rq_deadline := 4000\<rparr>"
  "hctx_at (ex_io tag) = ex_hctx" "rq_cpu (ex_io tag) r = 0" "bsw (ex_io tag) = ex_vars" "rq_thru ex_kernel (ex_io tag) r"
  by (simp_all add: ex_io_def ex_blk_def hctx_at_def rq_cpu_def ctx_at_def ex_ctx_def ex_rq_def rq_thru_def
      blk_switch_is_thru_request_def ex_bio_def ex_kernel_def fun_eq_iff BLK_SWITCH_L_APP_def)

theorem bytes_ledger_witness:
  "\<exists>s'. byte_exec ex_kernel (Issue 3) (ex_io 3, {}) = Some (s', {3}) \<and>
     unat (bytes_of True (bsw s') ! 0) = owed ex_kernel s' True 0 {3}"
proof -
  have l: "ledger ex_kernel (\<lambda>_ _. 0) (ex_io 3, {})"
    by (simp add: ledger_def ex_io_at ex_vars_def bytes_of_def owed_def BLK_SWITCH_NR_CPUS_def)
  have ok: "byte_ok ex_kernel (Issue 3) (ex_io 3, {})"
    by (simp add: chargeable_def ex_io_at ex_rq_def ex_hctx_def ex_bio_def ex_vars_def bytes_of_def BLK_SWITCH_NR_CPUS_def)
  obtain s' where s': "byte_exec ex_kernel (Issue 3) (ex_io 3, {}) = Some (s', {3})"
    using ledger_exec [OF l ok] by (auto split: bind_splits)
  have "byti.run ex_kernel (ex_io 3, {}) [Issue 3] (s', {3})" by (rule byti.run_cons [OF ok s' byti.run_nil])
  then show ?thesis using bytes_ledger [OF l, of "[Issue 3]" s' "{3}" 0 True] s' by (simp add: BLK_SWITCH_NR_CPUS_def)
qed

text \<open>
  C38: Requests with tag 0 are counted but never discounted: \<open>blk_mq_end_request\<close> takes the tag for a truth
  value, so the bytes of the request that has the first tag stay in the count of its core.
\<close>

theorem tag_zero_leaks:
  assumes "mq_hctx (rqs s r) = Some h" "blk_switch (hctx_at s h)" "rq_bio (rqs s r) = Some b" "\<not> steered (rqs s r)"
    and "rq_tag (rqs s r) = 0" "rq_cpu s r < length (T_bytes (bsw s))" "rq_thru k s r"
  shows "\<exists>s'. do { t \<leftarrow> count_bytes k (Some b) False (mq_ctx (rqs s r)) h s; uncount_bytes k r t } = Some s' \<and>
    T_bytes (bsw s') ! rq_cpu s r = T_bytes (bsw s) ! rq_cpu s r + ucast (bi_size b)"
  using assms by (simp add: count_bytes_def uncount_bytes_def rq_cpu_def rq_thru_def Let_def)

theorem tag_zero_leaks_witness:
  "\<exists>s'. do { t \<leftarrow> count_bytes ex_kernel (Some ex_bio) False 0 0 (ex_io 0); uncount_bytes ex_kernel 7 t } = Some s' \<and>
     T_bytes (bsw s') ! 0 = 65536"
  using tag_zero_leaks [of "ex_io 0" 7 0 ex_bio ex_kernel]
  by (simp add: ex_io_at ex_rq_def ex_hctx_def ex_vars_def) (simp add: ex_bio_def)

section \<open>Timeouts\<close>

text \<open>
  A timeout is reported once. When an in-flight request is past its deadline the driver's handler is
  called exactly once and the reference taken for the call is returned; when the driver says it is
  dealing with the request, later checks, at whatever time, leave it alone.
\<close>

theorem timeout_once:
  assumes "rq_state (rqs s r) = MQ_RQ_IN_FLIGHT" "rq_flags (rqs s r) AND RQF_TIMED_OUT = 0" "time_after_eq (jiffies k) (rq_deadline (rqs s r))"
    and "0 < rq_ref (rqs s r)" "\<not> is_flush_rq k r h" "has_timeout (q_ops (the_q s))" "driver_timeout k r"
  shows "\<exists>s'. blk_mq_check_expired k h r (nxt, s) = Some (nxt, s') \<and> events s' = events s @ [Call ''timeout'' [int r]] \<and>
    rq_ref (rqs s' r) = rq_ref (rqs s r) \<and> (\<forall>k' h' nxt'. blk_mq_check_expired k' h' r (nxt', s') = Some (nxt', s'))"
proof -
  define s1 where "s1 = upd_rq r (\<lambda>q. q\<lparr>rq_ref := rq_ref q + 1\<rparr>) s"
  define s2 where "s2 = log_ev (Call ''timeout'' [int r]) (upd_rq r (\<lambda>q. q\<lparr>rq_flags := rq_flags q OR RQF_TIMED_OUT\<rparr>) s1)"
  define s3 where "s3 = upd_rq r (\<lambda>q. q\<lparr>rq_ref := rq_ref (rqs s r)\<rparr>) s2"
  have e: "blk_mq_req_expired k (rqs s r) nxt = (True, nxt)" "blk_mq_req_expired k (rqs s1 r) nxt = (True, nxt)"
    using assms(1-3) by (simp_all add: blk_mq_req_expired_def s1_def)
  have t: "blk_mq_rq_timed_out k r s1 = s2" using assms(6,7) by (simp add: blk_mq_rq_timed_out_def s2_def s1_def)
  have ref: "rq_ref (rqs s2 r) = Suc (rq_ref (rqs s r))" by (simp add: s2_def s1_def)
  have c: "blk_mq_check_expired k h r (nxt, s) = Some (nxt, s3)"
    unfolding blk_mq_check_expired_def Let_def prod.case e s1_def [symmetric] using assms(4,5) by (simp add: e t ref s3_def)
  have "rq_flags (rqs s3 r) AND RQF_TIMED_OUT \<noteq> 0"
    by (simp add: s3_def s2_def bit.conj_disj_distrib2 RQF_TIMED_OUT_def)
  then have "blk_mq_req_expired k' (rqs s3 r) nxt' = (False, nxt')" for k' nxt' by (simp add: blk_mq_req_expired_def)
  then have "blk_mq_check_expired k' h' r (nxt', s3) = Some (nxt', s3)" for k' h' nxt' by (simp add: blk_mq_check_expired_def)
  moreover have "events s3 = events s @ [Call ''timeout'' [int r]]" "rq_ref (rqs s3 r) = rq_ref (rqs s r)"
    by (simp_all add: s3_def s2_def s1_def)
  ultimately show ?thesis using c by blast
qed

theorem timeout_once_witness:
  "\<exists>s'. blk_mq_check_expired ex_kernel 0 3 (0, ex_io 3) = Some (0, s') \<and> blk_mq_check_expired ex_kernel 0 3 (0, s') = Some (0, s')"
proof -
  have "has_timeout (q_ops (the_q (ex_io 3)))" by (simp add: ex_io_def ex_blk_def)
  then show ?thesis using timeout_once [of "ex_io 3" 3 ex_kernel 0 0]
    by (auto simp: ex_io_at ex_rq_def ex_kernel_def time_after_eq_def)
qed

end
