(* ===== verification/Blk_Mq_Dispatch_Correct.thy ===== *)
theory Blk_Mq_Dispatch_Correct
  imports Blk_Mq_Request_Correct "HOL-Library.Multiset"
begin

text \<open>
  Dispatch loses no request and keeps their order; flushing a plug inserts every request once, in batches of
  one context; the busyness average that decides on direct issue is bounded and decays.
\<close>

section \<open>What a dispatch step keeps\<close>

text \<open>The calls that hand requests to the driver, in order.\<close>

fun is_drv :: "blk_event \<Rightarrow> bool" where
  "is_drv (Call f xs) \<longleftrightarrow> f = ''queue_rq'' \<or> f = ''commit_rqs''"

definition drv_evs :: "blk \<Rightarrow> blk_event list" where
  "drv_evs s = filter is_drv (events s)"

lemma drv_evs_upd [simp]:
  "drv_evs (upd_ctx c f s) = drv_evs s" "drv_evs (upd_hctx h g s) = drv_evs s" "drv_evs (upd_rq r q s) = drv_evs s"
  "drv_evs (upd_tags t p s) = drv_evs s" "drv_evs (s\<lparr>bsw := v\<rparr>) = drv_evs s" "drv_evs (s\<lparr>drv_pos := n\<rparr>) = drv_evs s"
  "drv_evs (log_ev e s) = drv_evs s @ (if is_drv e then [e] else [])"
  by (simp_all add: drv_evs_def upd_ctx_def upd_hctx_def upd_rq_def upd_tags_def log_ev_def)

text \<open>A request of hardware context \<open>h\<close> that can be handed over, put back or ended.\<close>

definition rq_fit :: "nat \<Rightarrow> blk \<Rightarrow> nat \<Rightarrow> bool" where
  "rq_fit h s r \<longleftrightarrow> mq_hctx (rqs s r) = Some h \<and> hctx_tags (hctx_at s h) \<noteq> None \<and>
     (sched_tags (hctx_at s h) = None \<longrightarrow> rq_tag (rqs s r) \<noteq> -1 \<and> internal_tag (rqs s r) = -1) \<and>
     rq_cpu s r < length (T_bytes (bsw s)) \<and> rq_cpu s r < length (L_bytes (bsw s))"

definition keepd :: "nat set \<Rightarrow> nat \<Rightarrow> blk \<Rightarrow> blk \<Rightarrow> bool" where
  "keepd X h s s' \<longleftrightarrow> hctx_dispatch (hctx_at s' h) = hctx_dispatch (hctx_at s h) \<and> hctx_tags (hctx_at s' h) = hctx_tags (hctx_at s h) \<and>
     sched_tags (hctx_at s' h) = sched_tags (hctx_at s h) \<and> q_ops (the_q s') = q_ops (the_q s) \<and>
     (\<forall>c. ctx_cpu (ctx_at s' c) = ctx_cpu (ctx_at s c)) \<and>
     length (T_bytes (bsw s')) = length (T_bytes (bsw s)) \<and> length (L_bytes (bsw s')) = length (L_bytes (bsw s)) \<and>
     (\<forall>x. x \<notin> X \<longrightarrow> mq_hctx (rqs s' x) = mq_hctx (rqs s x) \<and> mq_ctx (rqs s' x) = mq_ctx (rqs s x) \<and>
        internal_tag (rqs s' x) = internal_tag (rqs s x) \<and>
        (rq_tag (rqs s' x) = -1 \<longrightarrow> rq_tag (rqs s x) = -1 \<or> internal_tag (rqs s x) \<noteq> -1)) \<and>
     drv_evs s' = drv_evs s"

lemma keepd_refl [simp]: "keepd X h s s"
  by (simp add: keepd_def)

lemma keepd_trans: "keepd X h s t \<Longrightarrow> keepd Y h t u \<Longrightarrow> keepd (X \<union> Y) h s u"
  unfolding keepd_def by force

lemma keepd_fit: "keepd X h s s' \<Longrightarrow> r \<notin> X \<Longrightarrow> rq_fit h s r \<Longrightarrow> rq_fit h s' r"
  unfolding keepd_def rq_fit_def rq_cpu_def by force

lemma same_queue_keepd:
  "same_queue s s' \<Longrightarrow> length (T_bytes (bsw s')) = length (T_bytes (bsw s)) \<Longrightarrow> length (L_bytes (bsw s')) = length (L_bytes (bsw s)) \<Longrightarrow>
   keepd X h s s'"
  by (simp add: same_queue_def keepd_def hctx_at_def ctx_at_def drv_evs_def)

lemma q_upd [simp]:
  "q_ops (the_q (upd_ctx c f s)) = q_ops (the_q s)" "q_ops (the_q (upd_hctx h g s)) = q_ops (the_q s)"
  "bsw (upd_ctx c f s) = bsw s" "bsw (upd_hctx h g s) = bsw s" "bsw (upd_rq r p s) = bsw s" "bsw (upd_tags t w s) = bsw s"
  "bsw (log_ev e s) = bsw s"
  by (simp_all add: upd_ctx_def upd_hctx_def upd_rq_def upd_tags_def log_ev_def)

section \<open>The single steps\<close>

text \<open>
  What dispatch needs of the rest of the kernel: \<open>blk_update_request\<close> completes the whole request and keeps
  its contexts and tags, a tag taken without waiting belongs to the hardware context asked for, and
  marking a context for restart only touches its state.
\<close>

definition dispatch_ok :: "kernel \<Rightarrow> bool" where
  "dispatch_ok k \<longleftrightarrow> (\<forall>q e. \<not> snd (update_request k q e (rq_data_len q)) \<and> (let q' = fst (update_request k q e (rq_data_len q)) in
       mq_hctx q' = mq_hctx q \<and> mq_ctx q' = mq_ctx q \<and> rq_tag q' = rq_tag q \<and> internal_tag q' = internal_tag q)) \<and>
     (\<forall>n q d tag d'. get_tag k n q d = Some (tag, d') \<longrightarrow> ad_flags d AND BLK_MQ_REQ_NOWAIT \<noteq> 0 \<longrightarrow> ad_hctx d' = ad_hctx d) \<and>
     (\<forall>x. hctx_dispatch (sched_mark_restart k x) = hctx_dispatch x \<and> hctx_tags (sched_mark_restart k x) = hctx_tags x \<and>
          sched_tags (sched_mark_restart k x) = sched_tags x)"

lemma get_budget_keepd: "blk_mq_get_dispatch_budget k h s = (b, s') \<Longrightarrow> keepd X h' s s'"
  by (auto simp: blk_mq_get_dispatch_budget_def keepd_def log_ev_def hctx_at_def ctx_at_def drv_evs_def split: if_split_asm)

lemma put_budget_keepd: "keepd X h' s (blk_mq_put_dispatch_budget h s)"
  by (simp add: blk_mq_put_dispatch_budget_def keepd_def)

lemma put_driver_tag_keepd:
  assumes "rq_fit h s r"
  shows "\<exists>s'. blk_mq_put_driver_tag r s = Some s' \<and> keepd {} h s s'"
  using assms
  by (auto simp: blk_mq_put_driver_tag_def blk_mq_put_driver_tag_hctx_def blk_mq_put_tag_def rq_fit_def keepd_def Let_def)

lemma get_driver_tag_keepd:
  assumes f: "rq_fit h s r" and k: "dispatch_ok k"
  shows "\<exists>b s'. blk_mq_get_driver_tag k r s = Some (b, s') \<and> keepd {} h s s'"
proof (cases "rq_tag (rqs s r) = -1")
  case False
  then have "blk_mq_get_driver_tag k r s = Some (True, s)" by (simp add: blk_mq_get_driver_tag_def)
  then show ?thesis using keepd_refl by blast
next
  case True
  have h: "mq_hctx (rqs s r) = Some h" using f by (simp add: rq_fit_def)
  obtain st tp where st: "sched_tags (hctx_at s h) = Some st" "hctx_tags (hctx_at s h) = Some tp" using f True by (auto simp: rq_fit_def)
  define d where "d = (empty_alloc_data (if tag_is_reserved k (tagsp s st) (internal_tag (rqs s r))
                  then BLK_MQ_REQ_NOWAIT OR BLK_MQ_REQ_RESERVED else BLK_MQ_REQ_NOWAIT) (cmd_flags (rqs s r)))\<lparr>ad_hctx := Some h\<rparr>"
  define s1 where "s1 = (log_ev (Call ''blk_mq_tag_busy'' [int h]) s)\<lparr>drv_pos := Suc (drv_pos s)\<rparr>"
  have g: "blk_mq_get_driver_tag k r s = (case get_tag k (drv_pos s) (the_q s) d of
          None \<Rightarrow> Some (False, s1)
        | Some (tag, d') \<Rightarrow> do {
            h' \<leftarrow> ad_hctx d';
            let s2 = upd_rq r (\<lambda>q. q\<lparr>rq_tag := int tag\<rparr>) s1;
            let s3 = (if tag_busy k (hctx_at s h)
                      then upd_hctx h' (\<lambda>x. x\<lparr>nr_active := nr_active x + 1\<rparr>)
                             (upd_rq r (\<lambda>q. q\<lparr>rq_flags := rq_flags q OR RQF_MQ_INFLIGHT\<rparr>) s2)
                      else s2);
            tp \<leftarrow> hctx_tags (hctx_at s3 h');
            Some (True, upd_tags tp (\<lambda>t. t\<lparr>tags_rqs := (tags_rqs t)(tag := Some r)\<rparr>) s3) })"
    unfolding blk_mq_get_driver_tag_def h st bind.bind_lunit Let_def d_def s1_def by (simp add: True)
  have q1: "keepd {} h s s1" by (simp add: s1_def keepd_def)
  show ?thesis
  proof (cases "get_tag k (drv_pos s) (the_q s) d")
    case None
    then have "blk_mq_get_driver_tag k r s = Some (False, s1)" using g by simp
    then show ?thesis using q1 by blast
  next
    case (Some td)
    obtain tag d' where td: "td = (tag, d')" by fastforce
    have "ad_flags d AND BLK_MQ_REQ_NOWAIT \<noteq> 0" by (simp add: d_def empty_alloc_data_def blk_defs)
    then have "ad_hctx d' = Some h" using k Some td unfolding dispatch_ok_def by (force simp: d_def)
    then have "\<exists>s'. blk_mq_get_driver_tag k r s = Some (True, s') \<and> keepd {} h s1 s'"
      using st by (simp add: g Some td Let_def s1_def keepd_def)
    then show ?thesis using keepd_trans [OF q1] by fastforce
  qed
qed

lemma mark_tag_wait_keepd:
  assumes f: "rq_fit h s r" and k: "dispatch_ok k"
  shows "\<exists>b s'. blk_mq_mark_tag_wait k h r s = Some (b, s') \<and> keepd {} h s s'"
proof -
  obtain tp where tp: "hctx_tags (hctx_at s h) = Some tp" using f by (auto simp: rq_fit_def)
  consider (alone) "BLK_MQ_F_TAG_SHARED \<notin> hctx_flags (hctx_at s h)"
    | (waiting) "BLK_MQ_F_TAG_SHARED \<in> hctx_flags (hctx_at s h)" "dispatch_wait (hctx_at s h)"
    | (wait) "BLK_MQ_F_TAG_SHARED \<in> hctx_flags (hctx_at s h)" "\<not> dispatch_wait (hctx_at s h)" by blast
  then show ?thesis
  proof cases
    case alone
    let ?s1 = "upd_hctx h (sched_mark_restart k) s"
    have q: "keepd {} h s ?s1" using k by (simp add: keepd_def dispatch_ok_def)
    show ?thesis
      using get_driver_tag_keepd [OF keepd_fit [OF q _ f] k] keepd_trans [OF q] alone by (fastforce simp: blk_mq_mark_tag_wait_def)
  next
    case waiting
    then have "blk_mq_mark_tag_wait k h r s = Some (False, s)" by (simp add: blk_mq_mark_tag_wait_def)
    then show ?thesis using keepd_refl by blast
  next
    case wait
    let ?s1 = "upd_hctx h (\<lambda>x. x\<lparr>dispatch_wait := True\<rparr>) (upd_tags tp (\<lambda>x. x\<lparr>ws_active := ws_active x + 1\<rparr>) s)"
    have q: "keepd {} h s ?s1" by (simp add: keepd_def)
    obtain b s2 where s2: "blk_mq_get_driver_tag k r ?s1 = Some (b, s2)" "keepd {} h ?s1 s2"
      using get_driver_tag_keepd [OF keepd_fit [OF q _ f] k] by blast
    have q2: "keepd {} h s s2" using keepd_trans [OF q s2(2)] by simp
    then have tp2: "hctx_tags (hctx_at s2 h) = Some tp" using tp by (simp add: keepd_def)
    let ?s3 = "upd_tags tp (\<lambda>x. x\<lparr>ws_active := ws_active x + (-1)\<rparr>) (upd_hctx h (\<lambda>x. x\<lparr>dispatch_wait := False\<rparr>) s2)"
    have "keepd {} h s2 ?s3" by (simp add: keepd_def)
    then have q3: "keepd {} h s ?s3" using keepd_trans [OF q2] by fastforce
    have "blk_mq_mark_tag_wait k h r s = Some (if b then (True, ?s3) else (False, s2))"
      using wait s2(1) tp tp2 by (simp add: blk_mq_mark_tag_wait_def upd_ws_active_def)
    then show ?thesis using q2 q3 by (cases b) auto
  qed
qed

lemma requeue_state_keepd:
  assumes f: "rq_fit h s r"
  shows "\<exists>s'. blk_mq_requeue_request_state r s = Some s' \<and> keepd {} h s s'"
proof -
  obtain s1 where s1: "blk_mq_put_driver_tag r s = Some s1" "keepd {} h s s1" using put_driver_tag_keepd [OF f] by blast
  have "\<exists>s'. blk_mq_requeue_request_state r s = Some s' \<and> keepd {} h s1 s'"
    by (simp add: blk_mq_requeue_request_state_def s1 Let_def keepd_def)
  then show ?thesis using keepd_trans [OF s1(2)] by fastforce
qed

lemma free_tags_keepd:
  assumes f: "rq_fit h s r"
  shows "\<exists>s'. blk_mq_free_request_tags r s = Some s' \<and> keepd {r} h s s'"
proof -
  have h: "mq_hctx (rqs s r) = Some h" using f by (simp add: rq_fit_def)
  obtain tp where tp: "hctx_tags (hctx_at s h) = Some tp" using f by (auto simp: rq_fit_def)
  have sched: "internal_tag (rqs s r) \<noteq> -1 \<Longrightarrow> \<exists>st. sched_tags (hctx_at s h) = Some st" using f by (auto simp: rq_fit_def)
  show ?thesis
    using tp sched by (auto simp: blk_mq_free_request_tags_def h Let_def blk_mq_put_tag_def keepd_def)
qed

lemma finish_elv_keepd: "keepd {} h s (rq_finish_elv r s)"
  by (auto simp: rq_finish_elv_def Let_def keepd_def split: option.splits)

lemma free_request_keepd:
  assumes f: "rq_fit h s r"
  shows "\<exists>s'. blk_mq_free_request k r s = Some s' \<and> keepd {r} h s s'"
proof -
  have h: "mq_hctx (rqs s r) = Some h" using f by (simp add: rq_fit_def)
  define s1 where "s1 = rq_finish_elv r s"
  let ?sync = "op_is_sync k (cmd_flags (rqs s r))"
  define s2 where "s2 = upd_ctx (mq_ctx (rqs s r)) (\<lambda>x. x\<lparr>rq_completed := (rq_completed x)(?sync := rq_completed x ?sync + 1)\<rparr>) s1"
  define s3 where "s3 = (if rq_flags (rqs s r) AND RQF_MQ_INFLIGHT \<noteq> 0 then upd_hctx h (\<lambda>x. x\<lparr>nr_active := nr_active x - 1\<rparr>) s2 else s2)"
  define s5 where "s5 = log_ev (Call ''rq_qos_done'' [int r]) (if laptop_mode k \<and> \<not> rq_is_passthrough k (cmd_flags (rqs s r))
               then log_ev (Call ''laptop_io_completion'' []) s3 else s3)"
  obtain n z where z: "refcount_dec_and_test (rq_ref (rqs s5 r)) = (n, z)" by fastforce
  define s6 where "s6 = upd_rq r (\<lambda>q. q\<lparr>rq_state := MQ_RQ_IDLE, rq_ref := n\<rparr>) s5"
  have s3: "(if rq_flags (rqs s r) AND RQF_MQ_INFLIGHT \<noteq> 0
            then do { h \<leftarrow> mq_hctx (rqs s r); Some (upd_hctx h (\<lambda>x. x\<lparr>nr_active := nr_active x - 1\<rparr>) s2) }
            else Some s2) = Some s3" by (simp add: s3_def h)
  have e: "blk_mq_free_request k r s = (if z then blk_mq_free_request_tags r s6 else Some s6)"
    unfolding blk_mq_free_request_def Let_def s1_def [symmetric] s2_def [symmetric] s3 bind.bind_lunit s5_def [symmetric] z prod.case
      s6_def [symmetric] ..
  have "keepd {} h s1 s6" by (simp add: s6_def s5_def s3_def s2_def keepd_def)
  then have q6: "keepd {} h s s6" using keepd_trans [OF finish_elv_keepd] unfolding s1_def by fastforce
  then have f6: "rq_fit h s6 r" using keepd_fit f by blast
  obtain s' where s': "blk_mq_free_request_tags r s6 = Some s'" "keepd {r} h s6 s'" using free_tags_keepd [OF f6] by blast
  have "keepd {r} h s s'" using keepd_trans [OF q6 s'(2)] by simp
  moreover have "keepd {r} h s s6" using keepd_trans [OF q6 keepd_refl, of "{r}"] by simp
  ultimately show ?thesis using s'(1) by (cases z) (simp_all add: e)
qed

lemma end_rest_keepd:
  assumes f: "rq_fit h s r"
  shows "\<exists>s'. blk_mq_end_request_rest k r e s = Some s' \<and> keepd {r} h s s'"
proof -
  define now where "now = (if blk_mq_need_time_stamp s (rqs s r) then ktime_get_ns k else 0)"
  define s1 where "s1 = (if rq_flags (rqs s r) AND RQF_STATS \<noteq> 0
                then log_ev (Call ''blk_stat_add'' [int r, uint now]) (log_ev (Call ''blk_mq_poll_stats_start'' []) s) else s)"
  define s2 where "s2 = (if internal_tag (rqs s r) \<noteq> -1
                then log_ev (Call ''blk_mq_sched_completed_request'' [int r, uint now]) s1 else s1)"
  define s3 where "s3 = log_ev (Call ''blk_account_io_done'' [int r, uint now]) s2"
  have q: "keepd {} h s s3" by (simp add: s3_def s2_def s1_def keepd_def)
  have e: "blk_mq_end_request_rest k r e s = (case end_io (rqs s r) of
           Some f \<Rightarrow> Some (log_ev (Call ''end_io'' [int r, int f]) (log_ev (Call ''rq_qos_done'' [int r]) s3))
         | None \<Rightarrow> blk_mq_free_request k r s3)"
    unfolding blk_mq_end_request_rest_def Let_def now_def [symmetric] s1_def [symmetric] s2_def [symmetric] s3_def [symmetric] ..
  show ?thesis
  proof (cases "end_io (rqs s r)")
    case None
    obtain s' where s': "blk_mq_free_request k r s3 = Some s'" "keepd {r} h s3 s'"
      using free_request_keepd [OF keepd_fit [OF q _ f]] by blast
    then show ?thesis using keepd_trans [OF q s'(2)] None by (simp add: e)
  next
    case (Some g)
    have "keepd {r} h s3 (log_ev (Call ''end_io'' [int r, int g]) (log_ev (Call ''rq_qos_done'' [int r]) s3))" by (simp add: keepd_def)
    from keepd_trans [OF q this] show ?thesis using Some by (simp add: e)
  qed
qed

lemma uncount_keepd:
  assumes f: "rq_fit h s r"
  shows "\<exists>s'. uncount_bytes k r s = Some s' \<and> same_queue s s' \<and> keepd {} h s s'"
proof -
  have "\<exists>s'. uncount_bytes k r s = Some s' \<and> length (T_bytes (bsw s')) = length (T_bytes (bsw s)) \<and>
      length (L_bytes (bsw s')) = length (L_bytes (bsw s))"
    using f by (auto simp: uncount_bytes_def rq_fit_def rq_cpu_def Let_def)
  then show ?thesis using uncount_bytes_frame same_queue_keepd by blast
qed

lemma end_request_keepd:
  assumes f: "rq_fit h s r" and k: "dispatch_ok k"
  shows "\<exists>s'. blk_mq_end_request k r e s = Some s' \<and> keepd {r} h s s'"
proof -
  obtain s1 where s1: "uncount_bytes k r s = Some s1" "same_queue s s1" "keepd {} h s s1" using uncount_keepd [OF f] by blast
  obtain rq m where rq: "update_request k (rqs s1 r) e (rq_data_len (rqs s1 r)) = (rq, m)" by fastforce
  have "\<not> snd (update_request k (rqs s1 r) e (rq_data_len (rqs s1 r))) \<and>
      (let q' = fst (update_request k (rqs s1 r) e (rq_data_len (rqs s1 r))) in mq_hctx q' = mq_hctx (rqs s1 r) \<and>
        mq_ctx q' = mq_ctx (rqs s1 r) \<and> rq_tag q' = rq_tag (rqs s1 r) \<and> internal_tag q' = internal_tag (rqs s1 r))"
    using k unfolding dispatch_ok_def by blast
  then have m: "\<not> m" "mq_hctx rq = mq_hctx (rqs s1 r)" "mq_ctx rq = mq_ctx (rqs s1 r)" "rq_tag rq = rq_tag (rqs s1 r)"
    "internal_tag rq = internal_tag (rqs s1 r)" by (simp_all add: rq Let_def)
  define s2 where "s2 = upd_rq r (\<lambda>_. rq) s1"
  have "keepd {} h s1 s2" using m by (simp add: s2_def keepd_def)
  then have q2: "keepd {} h s s2" using keepd_trans [OF s1(3)] by fastforce
  obtain s' where s': "blk_mq_end_request_rest k r e s2 = Some s'" "keepd {r} h s2 s'"
    using end_rest_keepd [OF keepd_fit [OF q2 _ f]] by blast
  have "blk_mq_end_request k r e s = Some s'" using s'(1) m(1) by (simp add: blk_mq_end_request_def s1 rq s2_def)
  then show ?thesis using keepd_trans [OF q2 s'(2)] by simp
qed

section \<open>The loop\<close>

definition queue_ev :: "nat \<Rightarrow> nat \<times> bool \<Rightarrow> blk_event" where
  "queue_ev h p = Call ''queue_rq'' [int h, int (fst p), of_bool (snd p)]"

text \<open>
  The outcome of dispatching \<open>l\<close> from context \<open>h\<close>: a prefix is taken, one more request may have been offered
  and refused, and the driver sees the offers in order.
\<close>

definition dispatched_as :: "nat list \<Rightarrow> nat list \<Rightarrow> (nat \<times> bool) list \<Rightarrow> nat list \<Rightarrow> bool" where
  "dispatched_as l taken ps rest \<longleftrightarrow> l = taken @ rest \<and>
     (map fst ps = taken \<or> rest \<noteq> [] \<and> map fst ps = taken @ [hd rest]) \<and> (rest = [] \<longrightarrow> l \<noteq> [] \<longrightarrow> snd (last ps))"

definition keepx :: "nat \<Rightarrow> (nat \<times> bool) list \<Rightarrow> blk \<Rightarrow> blk \<Rightarrow> bool" where
  "keepx h ps s s' \<longleftrightarrow> hctx_dispatch (hctx_at s' h) = hctx_dispatch (hctx_at s h) \<and> q_ops (the_q s') = q_ops (the_q s) \<and>
     drv_evs s' = drv_evs s @ map (queue_ev h) ps"

lemma call_queue_rq_effect:
  assumes "call_queue_rq k h r b s = (ret, s')"
  shows "drv_evs s' = drv_evs s @ [queue_ev h (r, b)] \<and> hctx_dispatch (hctx_at s' h) = hctx_dispatch (hctx_at s h) \<and>
    q_ops (the_q s') = q_ops (the_q s) \<and> (\<forall>x. rq_fit h s' x = rq_fit h s x)"
  using assms by (auto simp: call_queue_rq_def queue_ev_def rq_fit_def rq_cpu_def)

lemma dispatched_as_Cons:
  "dispatched_as l taken ps rest \<Longrightarrow> (l = [] \<Longrightarrow> b) \<Longrightarrow> dispatched_as (r # l) (r # taken) ((r, b) # ps) rest"
  by (cases l) (auto simp: dispatched_as_def)

lemma keepd_keepx: "keepd X h s t \<Longrightarrow> keepx h ps t u \<Longrightarrow> keepx h ps s u"
  by (simp add: keepd_def keepx_def)

lemma keepx_keepd: "keepx h ps s t \<Longrightarrow> keepd X h t u \<Longrightarrow> keepx h ps s u"
  by (simp add: keepd_def keepx_def)

lemma keepx_append: "keepx h ps s t \<Longrightarrow> keepx h qs t u \<Longrightarrow> keepx h (ps @ qs) s u"
  by (simp add: keepx_def)

lemma keepx_nil: "keepd X h s t \<Longrightarrow> keepx h [] s t"
  by (simp add: keepd_def keepx_def)

definition loop_outcome :: "nat \<Rightarrow> nat list \<Rightarrow> dispatch_vars \<Rightarrow> blk \<Rightarrow> nat list \<times> dispatch_vars \<times> blk \<Rightarrow> bool" where
  "loop_outcome h l d s y \<longleftrightarrow> (case y of (rest, d', s') \<Rightarrow> \<exists>taken ps. dispatched_as l taken ps rest \<and> (l \<noteq> [] \<longrightarrow> dv_hctx d' = h) \<and>
     dv_queued d' + dv_errors d' = dv_queued d + dv_errors d + length taken \<and> keepx h ps s s')"

lemma loop_outcome_stop:
  "keepx h ps s s' \<Longrightarrow> map fst ps = [] \<or> map fst ps = [r] \<Longrightarrow> dv_hctx d' = h \<Longrightarrow> dv_queued d' + dv_errors d' = dv_queued d + dv_errors d \<Longrightarrow>
   loop_outcome h (r # l) d s (r # l, d', s')"
  unfolding loop_outcome_def dispatched_as_def by (auto intro!: exI [of _ "[]"] exI [of _ ps])

lemma loop_outcome_step:
  assumes "loop_outcome h l d1 s1 y" "keepx h [(r, b)] s s1" "l = [] \<Longrightarrow> b" "dv_hctx d1 = h \<or> l \<noteq> []" "l = [] \<Longrightarrow> fst (snd y) = d1"
    and "dv_queued d1 + dv_errors d1 = Suc (dv_queued d + dv_errors d)"
  shows "loop_outcome h (r # l) d s y"
proof -
  obtain rest d' s' where y: "y = (rest, d', s')" by (cases y)
  obtain taken ps where t: "dispatched_as l taken ps rest" "l \<noteq> [] \<longrightarrow> dv_hctx d' = h"
    "dv_queued d' + dv_errors d' = dv_queued d1 + dv_errors d1 + length taken" "keepx h ps s1 s'"
    using assms(1) unfolding loop_outcome_def y prod.case by blast
  have "dispatched_as (r # l) (r # taken) ((r, b) # ps) rest" using dispatched_as_Cons [OF t(1) assms(3)] .
  moreover have "dv_hctx d' = h" using t(2) assms(4,5) y by (cases "l = []") auto
  moreover have "keepx h ((r, b) # ps) s s'" using keepx_append [OF assms(2) t(4)] by simp
  moreover have "dv_queued d' + dv_errors d' = dv_queued d + dv_errors d + length (r # taken)" using t(3) assms(6) by simp
  ultimately show ?thesis unfolding loop_outcome_def y prod.case by blast
qed

lemma dispatch_loop_outcome:
  assumes k: "dispatch_ok k" and "distinct l" "\<forall>r\<in>set l. rq_fit h s r"
  shows "\<exists>y. dispatch_loop k gb l d s = Some y \<and> loop_outcome h l d s y"
  using assms(2,3)
proof (induction l arbitrary: d s)
  case Nil
  show ?case by (simp add: loop_outcome_def dispatched_as_def keepx_def)
next
  case (Cons r l)
  have f: "rq_fit h s r" and h: "mq_hctx (rqs s r) = Some h" using Cons.prems by (simp_all add: rq_fit_def)
  obtain bu s1 where s1: "(if gb then (True, s) else blk_mq_get_dispatch_budget k h s) = (bu, s1)" by fastforce
  then have q1: "keepd {} h s s1" by (auto intro: get_budget_keepd split: if_split_asm)
  note f1 = keepd_fit [OF q1]
  note unf = dispatch_loop.simps(2) h bind.bind_lunit Let_def s1 prod.case
  show ?case
  proof (cases bu)
    case False
    obtain s2 where s2: "blk_mq_put_driver_tag r s1 = Some s2" "keepd {} h s1 s2" using put_driver_tag_keepd [OF f1 [OF _ f]] by blast
    have "dispatch_loop k gb (r # l) d s = Some (r # l, d\<lparr>dv_hctx := h\<rparr>, s2)" unfolding unf using False s2(1) by simp
    moreover have "loop_outcome h (r # l) d s (r # l, d\<lparr>dv_hctx := h\<rparr>, s2)"
      by (rule loop_outcome_stop [OF keepx_keepd [OF keepx_nil [OF q1] s2(2)]]) simp_all
    ultimately show ?thesis by blast
  next
    case True
    obtain tag s2 where s2: "blk_mq_get_driver_tag k r s1 = Some (tag, s2)" "keepd {} h s1 s2"
      using get_driver_tag_keepd [OF f1 [OF _ f] k] by blast
    have q2: "keepd {} h s s2" using keepd_trans [OF q1 s2(2)] by simp
    obtain go s3 where s3: "(if tag then Some (True, s2) else blk_mq_mark_tag_wait k h r s2) = Some (go, s3)" "keepd {} h s2 s3"
      using mark_tag_wait_keepd [OF keepd_fit [OF q2 _ f] k] keepd_refl by (cases tag) force+
    have q3: "keepd {} h s s3" using keepd_trans [OF q2 s3(2)] by simp
    show ?thesis
    proof (cases go)
      case False
      let ?d = "d\<lparr>dv_hctx := h, dv_no_tag := dv_no_tag d \<or> BLK_MQ_F_TAG_SHARED \<in> hctx_flags (hctx_at s3 h)\<rparr>"
      have "dispatch_loop k gb (r # l) d s = Some (r # l, ?d, blk_mq_put_dispatch_budget h s3)"
        unfolding unf s2(1) s3(1) using True False by simp
      moreover have "loop_outcome h (r # l) d s (r # l, ?d, blk_mq_put_dispatch_budget h s3)"
        by (rule loop_outcome_stop [OF keepx_keepd [OF keepx_nil [OF q3] put_budget_keepd [where X = "{}"]]]) simp_all
      ultimately show ?thesis by blast
    next
      case go: True
      obtain b s4 where s4: "(case l of [] \<Rightarrow> Some (True, s3) | n # _ \<Rightarrow> do { (t, x) \<leftarrow> blk_mq_get_driver_tag k n s3; Some (\<not> t, x) }) = Some (b, s4)"
        and b: "l = [] \<Longrightarrow> b" and q34: "keepd {} h s3 s4"
      proof (cases l)
        case Nil
        then show ?thesis using that [of True s3] by simp
      next
        case l: (Cons n l')
        have "n \<in> set (r # l)" using l by simp
        then have "rq_fit h s3 n" using keepd_fit [OF q3, of n] Cons.prems(2) by blast
        then obtain t x where "blk_mq_get_driver_tag k n s3 = Some (t, x)" "keepd {} h s3 x" using get_driver_tag_keepd [OF _ k] by blast
        then show ?thesis using that [of "\<not> t" x] l by simp
      qed
      have q4: "keepd {} h s s4" using keepd_trans [OF q3 q34] by simp
      obtain ret s5 where s5: "call_queue_rq k h r b s4 = (ret, s5)" by fastforce
      have x5: "keepx h [(r, b)] s s5" using call_queue_rq_effect [OF s5] q4 by (simp add: keepx_def keepd_def)
      have f5: "x \<in> set (r # l) \<Longrightarrow> rq_fit h s5 x" for x
        using call_queue_rq_effect [OF s5] keepd_fit [OF q4] Cons.prems(2) by blast
      note unf2 = unf s2(1) s3(1) s4 s5
      consider (refused) "is_resource ret" | (failed) "\<not> is_resource ret" "ret \<noteq> BLK_STS_OK" | (queued) "\<not> is_resource ret" "ret = BLK_STS_OK" by blast
      then show ?thesis
      proof cases
        case refused
        obtain s6 where s6: "(case l of [] \<Rightarrow> Some s5 | n # _ \<Rightarrow> blk_mq_put_driver_tag n s5) = Some s6" "keepd {} h s5 s6"
          using put_driver_tag_keepd [of h s5] f5 keepd_refl by (cases l) force+
        obtain s7 where s7: "blk_mq_requeue_request_state r s6 = Some s7" "keepd {} h s6 s7"
          using requeue_state_keepd [OF keepd_fit [OF s6(2) _ f5]] by auto
        have "dispatch_loop k gb (r # l) d s = Some (r # l, d\<lparr>dv_hctx := h, dv_ret := ret\<rparr>, s7)"
          unfolding unf2 s6(1) using True go refused s7(1) by simp
        moreover have "loop_outcome h (r # l) d s (r # l, d\<lparr>dv_hctx := h, dv_ret := ret\<rparr>, s7)"
          by (rule loop_outcome_stop [OF keepx_keepd [OF keepx_keepd [OF x5 s6(2)] s7(2)]]) simp_all
        ultimately show ?thesis by blast
      next
        case failed
        let ?d = "d\<lparr>dv_hctx := h, dv_ret := ret, dv_errors := dv_errors d + 1\<rparr>"
        obtain s6 where s6: "blk_mq_end_request k r BLK_STS_IOERR s5 = Some s6" "keepd {r} h s5 s6"
          using end_request_keepd [OF f5 k] by auto
        have "rq_fit h s6 x" if "x \<in> set l" for x
          using keepd_fit [OF s6(2), of x] f5 [of x] that Cons.prems(1) by fastforce
        then obtain y where y: "dispatch_loop k gb l ?d s6 = Some y" "loop_outcome h l ?d s6 y"
          using Cons.IH [of s6 ?d] Cons.prems(1) by auto
        have "dispatch_loop k gb (r # l) d s = Some y" unfolding unf2 using True go failed s6(1) y(1) by simp
        moreover have "loop_outcome h (r # l) d s y"
          by (rule loop_outcome_step [OF y(2) keepx_keepd [OF x5 s6(2)] b]) (use y(1) in auto)
        ultimately show ?thesis by blast
      next
        case queued
        let ?d = "d\<lparr>dv_hctx := h, dv_ret := ret, dv_queued := dv_queued d + 1\<rparr>"
        obtain y where y: "dispatch_loop k gb l ?d s5 = Some y" "loop_outcome h l ?d s5 y"
          using Cons.IH [of s5 ?d] Cons.prems(1) f5 by auto
        have "dispatch_loop k gb (r # l) d s = Some y" unfolding unf2 using True go queued y(1) by simp
        moreover have "loop_outcome h (r # l) d s y" by (rule loop_outcome_step [OF y(2) x5 b]) (use y(1) in auto)
        ultimately show ?thesis by blast
      qed
    qed
  qed
qed

section \<open>Dispatch of a list\<close>

lemma next_cpu_dispatch: "blk_mq_hctx_next_cpu k n x = (c, x') \<Longrightarrow> hctx_dispatch x' = hctx_dispatch x"
  by (auto simp: blk_mq_hctx_next_cpu_def Let_def split: if_split_asm)

lemma delay_run_keeps:
  "hctx_dispatch (hctx_at (blk_mq_delay_run_hw_queue_async k h async ms s) h) = hctx_dispatch (hctx_at s h) \<and>
   drv_evs (blk_mq_delay_run_hw_queue_async k h async ms s) = drv_evs s"
proof -
  obtain c x where c: "blk_mq_hctx_next_cpu k (nr_hw_queues (the_q s)) (hctx_at s h) = (c, x)" by fastforce
  show ?thesis
    unfolding blk_mq_delay_run_hw_queue_async_def Let_def c prod.case
    using next_cpu_dispatch [OF c] by (simp add: blk_mq_run_hw_queue_now_def)
qed

lemma update_busy_keeps:
  "hctx_dispatch (hctx_at (blk_mq_update_dispatch_busy h b s) g) = hctx_dispatch (hctx_at s g) \<and>
   drv_evs (blk_mq_update_dispatch_busy h b s) = drv_evs s"
  by (simp add: blk_mq_update_dispatch_busy_def)

text \<open>
  C9: Dispatch neither loses, duplicates nor reorders. On requests of one hardware context
  \<open>blk_mq_dispatch_rq_list\<close> returns; it offers the driver a prefix of the list, in order, and each request
  once; the requests the driver has not taken, starting with the one it refused, go to the end of the
  context's dispatch list in their order. The driver is told that a batch ends: either its last request
  comes with the flag for it, or \<open>commit_rqs\<close> follows.
\<close>

theorem dispatch_conserves:
  assumes "dispatch_ok k" "distinct l" "l \<noteq> []" "\<forall>r\<in>set l. rq_fit h s r"
  shows "\<exists>b s' taken ps rest. blk_mq_dispatch_rq_list k l gb s = Some (b, s') \<and> l = taken @ rest \<and>
    (map fst ps = taken \<or> rest \<noteq> [] \<and> map fst ps = taken @ [hd rest]) \<and>
    drv_evs s' = drv_evs s @ map (queue_ev h) ps @ (if rest \<noteq> [] \<and> has_commit_rqs (q_ops (the_q s)) then [Call ''commit_rqs'' [int h]] else []) \<and>
    (rest = [] \<longrightarrow> snd (last ps)) \<and> hctx_dispatch (hctx_at s' h) = hctx_dispatch (hctx_at s h) @ rest \<and> (b \<longrightarrow> rest = [])"
proof -
  let ?d0 = "\<lparr>dv_hctx = 0, dv_no_tag = False, dv_errors = 0, dv_queued = 0, dv_ret = BLK_STS_OK\<rparr>"
  obtain rest d s1 where y: "dispatch_loop k gb l ?d0 s = Some (rest, d, s1)" "loop_outcome h l ?d0 s (rest, d, s1)"
    using dispatch_loop_outcome [OF assms(1,2,4), of gb ?d0] by (metis prod_cases3)
  obtain taken ps where t: "dispatched_as l taken ps rest" "dv_hctx d = h" "keepx h ps s s1"
    using y(2) assms(3) unfolding loop_outcome_def by blast
  define s2 where "s2 = upd_hctx h (\<lambda>x. x\<lparr>dispatched := (dispatched x)(queued_to_index (dv_queued d) :=
      dispatched x (queued_to_index (dv_queued d)) + 1)\<rparr>) s1"
  have s2: "hctx_dispatch (hctx_at s2 h) = hctx_dispatch (hctx_at s h)" "drv_evs s2 = drv_evs s @ map (queue_ev h) ps"
    "q_ops (the_q s2) = q_ops (the_q s)" using t(3) by (simp_all add: s2_def keepx_def)
  note unf = blk_mq_dispatch_rq_list_def if_not_P [OF assms(3)] y(1) bind.bind_lunit prod.case Let_def t(2) s2_def [symmetric]
  have "\<exists>b s'. blk_mq_dispatch_rq_list k l gb s = Some (b, s') \<and>
      drv_evs s' = drv_evs s @ map (queue_ev h) ps @ (if rest \<noteq> [] \<and> has_commit_rqs (q_ops (the_q s)) then [Call ''commit_rqs'' [int h]] else []) \<and>
      hctx_dispatch (hctx_at s' h) = hctx_dispatch (hctx_at s h) @ rest \<and> (b \<longrightarrow> rest = [])"
  proof (cases "rest = []")
    case True
    define b where "b = (if is_resource (dv_ret d) then False else dv_queued d + dv_errors d \<noteq> 0)"
    have "blk_mq_dispatch_rq_list k l gb s = Some (b, blk_mq_update_dispatch_busy h False s2)" unfolding unf b_def using True by simp
    moreover have "drv_evs (blk_mq_update_dispatch_busy h False s2) = drv_evs s @ map (queue_ev h) ps"
      "hctx_dispatch (hctx_at (blk_mq_update_dispatch_busy h False s2) h) = hctx_dispatch (hctx_at s h)"
      using update_busy_keeps [of h False s2 h] s2 by simp_all
    ultimately show ?thesis using True by (intro exI [of _ b] exI [of _ "blk_mq_update_dispatch_busy h False s2"]) simp
  next
    case False
    define s3 where "s3 = upd_hctx h (\<lambda>x. x\<lparr>hctx_dispatch := hctx_dispatch x @ rest\<rparr>) (commit_rqs h s2)"
    define s4 where "s4 = (if \<not> sched_needs_restart k (hctx_at s3 h) \<or> (dv_no_tag d \<and> \<not> dispatch_wait (hctx_at s3 h))
        then snd (blk_mq_run_hw_queue k h True s3)
        else if sched_needs_restart k (hctx_at s3 h) \<and> dv_ret d = BLK_STS_RESOURCE
        then blk_mq_delay_run_hw_queue k h BLK_MQ_RESOURCE_DELAY s3 else s3)"
    have s4: "blk_mq_dispatch_rq_list k l gb s = Some (False, blk_mq_update_dispatch_busy h True s4)"
      unfolding unf s3_def [symmetric] s4_def using False by simp
    have r: "s4 = s3 \<or> (\<exists>ms. s4 = blk_mq_delay_run_hw_queue_async k h True ms s3)"
      by (auto simp: s4_def blk_mq_run_hw_queue_def blk_mq_delay_run_hw_queue_def)
    have "hctx_dispatch (hctx_at s3 h) = hctx_dispatch (hctx_at s h) @ rest"
      "drv_evs s3 = drv_evs s @ map (queue_ev h) ps @ (if has_commit_rqs (q_ops (the_q s)) then [Call ''commit_rqs'' [int h]] else [])"
      using s2 by (simp_all add: s3_def commit_rqs_def)
    moreover have "hctx_dispatch (hctx_at s4 h) = hctx_dispatch (hctx_at s3 h) \<and> drv_evs s4 = drv_evs s3"
      using r delay_run_keeps [of k h True _ s3] by blast
    ultimately show ?thesis using s4 update_busy_keeps [of h True s4 h] False by auto
  qed
  then show ?thesis using t(1) assms(3) unfolding dispatched_as_def by blast
qed

lemma ex_dispatch_ok: "dispatch_ok ex_kernel"
  by (simp add: dispatch_ok_def ex_kernel_def Let_def)

lemma ex_io_fit: "rq_fit 0 (ex_io 3) r"
  by (simp add: rq_fit_def ex_io_at ex_rq_def ex_hctx_def ex_vars_def)

theorem dispatch_conserves_witness:
  "\<exists>b s' taken rest. blk_mq_dispatch_rq_list ex_kernel [1, 2] False (ex_io 3) = Some (b, s') \<and> [1, 2] = taken @ rest \<and>
     hctx_dispatch (hctx_at s' 0) = rest"
proof -
  have "hctx_dispatch (hctx_at (ex_io 3) 0) = []" by (simp add: ex_io_at ex_hctx_def)
  moreover have "distinct [1::nat, 2]" by simp
  ultimately show ?thesis using dispatch_conserves [OF ex_dispatch_ok, of "[1, 2]" 0 "ex_io 3" False] ex_io_fit by auto
qed

section \<open>Plug lists\<close>

text \<open>
  What the kernel documents of \<open>list_sort\<close>: given a comparison that is a total preorder, it permutes the
  list so that no element compares greater than a later one.
\<close>

definition preorder_cmp :: "(nat \<Rightarrow> nat \<Rightarrow> int) \<Rightarrow> bool" where
  "preorder_cmp cmp \<longleftrightarrow> (\<forall>x y. cmp x y \<le> 0 \<or> cmp y x \<le> 0) \<and> (\<forall>x y z. cmp x y \<le> 0 \<longrightarrow> cmp y z \<le> 0 \<longrightarrow> cmp x z \<le> 0)"

definition sorts :: "plug_env \<Rightarrow> bool" where
  "sorts a \<longleftrightarrow> (\<forall>cmp l. preorder_cmp cmp \<longrightarrow> mset (list_sort a cmp l) = mset l \<and> sorted_wrt (\<lambda>x y. cmp x y \<le> 0) (list_sort a cmp l))"

lemma plug_rq_cmp_le:
  "plug_rq_cmp a s x y \<le> 0 \<longleftrightarrow>
     (ctx_addr a (mq_ctx (rqs s x)) < ctx_addr a (mq_ctx (rqs s y)) \<or>
      ctx_addr a (mq_ctx (rqs s x)) = ctx_addr a (mq_ctx (rqs s y)) \<and>
      (hctx_addr a (mq_hctx (rqs s x)) < hctx_addr a (mq_hctx (rqs s y)) \<or>
       hctx_addr a (mq_hctx (rqs s x)) = hctx_addr a (mq_hctx (rqs s y)) \<and> rq_sector (rqs s x) \<le> rq_sector (rqs s y)))"
  by (auto simp: plug_rq_cmp_def)

lemma lex_total:
  fixes a b c d :: nat and e f :: "'a::linorder"
  shows "a < b \<or> a = b \<and> (c < d \<or> c = d \<and> e \<le> f) \<or> b < a \<or> b = a \<and> (d < c \<or> d = c \<and> f \<le> e)"
  using linear [of e f] by linarith

lemma lex_trans:
  fixes a b c a' b' c' :: nat and e f g :: "'a::linorder"
  assumes "a < b \<or> a = b \<and> (a' < b' \<or> a' = b' \<and> e \<le> f)" "b < c \<or> b = c \<and> (b' < c' \<or> b' = c' \<and> f \<le> g)"
  shows "a < c \<or> a = c \<and> (a' < c' \<or> a' = c' \<and> e \<le> g)"
  using assms order_trans [of e f g] by linarith

lemma plug_rq_cmp_preorder: "preorder_cmp (plug_rq_cmp a s)"
proof -
  have "plug_rq_cmp a s x y \<le> 0 \<or> plug_rq_cmp a s y x \<le> 0" for x y
    unfolding plug_rq_cmp_le using lex_total by blast
  moreover have "plug_rq_cmp a s x z \<le> 0" if "plug_rq_cmp a s x y \<le> 0" "plug_rq_cmp a s y z \<le> 0" for x y z
    using that unfolding plug_rq_cmp_le by (rule lex_trans)
  ultimately show ?thesis unfolding preorder_cmp_def by blast
qed

lemma plug_groups_homes:
  assumes "fst this \<noteq> None" "acc \<noteq> []" "\<forall>r\<in>set acc. rq_home s r = this" "\<forall>r\<in>set l. mq_hctx (rqs s r) \<noteq> None"
  shows "concat (map snd (plug_groups s l this acc)) = acc @ l \<and>
    map fst (plug_groups s l this acc) = remdups_adj (map (rq_home s) (acc @ l)) \<and>
    (\<forall>g\<in>set (plug_groups s l this acc). snd g \<noteq> [] \<and> (\<forall>r\<in>set (snd g). rq_home s r = fst g))"
  using assms
proof (induction l arbitrary: this acc)
  case Nil
  have "map (rq_home s) acc = replicate (length acc) this" using Nil.prems(3) by (simp add: map_idI map_replicate_const [symmetric] list_eq_iff_nth_eq)
  then show ?case using Nil.prems by (simp add: remdups_adj_replicate)
next
  case (Cons r l)
  show ?case
  proof (cases "rq_home s r = this")
    case True
    have "concat (map snd (plug_groups s l this (acc @ [r]))) = (acc @ [r]) @ l \<and>
      map fst (plug_groups s l this (acc @ [r])) = remdups_adj (map (rq_home s) ((acc @ [r]) @ l)) \<and>
      (\<forall>g\<in>set (plug_groups s l this (acc @ [r])). snd g \<noteq> [] \<and> (\<forall>r\<in>set (snd g). rq_home s r = fst g))"
      by (rule Cons.IH) (use Cons.prems True in auto)
    then show ?thesis using True by simp
  next
    case False
    have ih: "concat (map snd (plug_groups s l (rq_home s r) [r])) = [r] @ l \<and>
      map fst (plug_groups s l (rq_home s r) [r]) = remdups_adj (map (rq_home s) ([r] @ l)) \<and>
      (\<forall>g\<in>set (plug_groups s l (rq_home s r) [r]). snd g \<noteq> [] \<and> (\<forall>x\<in>set (snd g). rq_home s x = fst g))"
      by (rule Cons.IH) (use Cons.prems in \<open>auto simp: rq_home_def\<close>)
    have acc: "map (rq_home s) acc = replicate (length acc) this" using Cons.prems(3) by (simp add: list_eq_iff_nth_eq)
    obtain n where n: "length acc = Suc n" using Cons.prems(2) by (cases acc) auto
    have "remdups_adj (replicate (Suc n) this @ rq_home s r # map (rq_home s) l) = this # remdups_adj (rq_home s r # map (rq_home s) l)"
      using False by (induction n) auto
    then show ?thesis using ih False Cons.prems by (simp add: acc n)
  qed
qed

lemma plug_groups_all:
  assumes "\<forall>r\<in>set l. mq_hctx (rqs s r) \<noteq> None"
  shows "concat (map snd (plug_groups s l (None, 0) [])) = l \<and>
    map fst (plug_groups s l (None, 0) []) = remdups_adj (map (rq_home s) l) \<and>
    (\<forall>g\<in>set (plug_groups s l (None, 0) []). snd g \<noteq> [] \<and> (\<forall>r\<in>set (snd g). rq_home s r = fst g))"
proof (cases l)
  case (Cons r l')
  have n: "rq_home s r \<noteq> (None, 0)" "fst (rq_home s r) \<noteq> None" using assms Cons by (auto simp: rq_home_def)
  have "concat (map snd (plug_groups s l' (rq_home s r) [r])) = [r] @ l' \<and>
    map fst (plug_groups s l' (rq_home s r) [r]) = remdups_adj (map (rq_home s) ([r] @ l')) \<and>
    (\<forall>g\<in>set (plug_groups s l' (rq_home s r) [r]). snd g \<noteq> [] \<and> (\<forall>x\<in>set (snd g). rq_home s x = fst g))"
    by (rule plug_groups_homes) (use assms Cons n in auto)
  then show ?thesis using n by (simp add: Cons)
qed simp

lemma sorted_adj_distinct:
  assumes "sorted_wrt le xs" "\<And>x y. le x y \<Longrightarrow> le y x \<Longrightarrow> x = y"
  shows "distinct (remdups_adj xs)"
  using assms(1)
proof (induction xs rule: remdups_adj.induct)
  case (3 x y xs)
  show ?case
  proof (cases "x = y")
    case True
    then show ?thesis using 3 by simp
  next
    case False
    have "x \<notin> set (y # xs)"
    proof
      assume "x \<in> set (y # xs)"
      then have "x \<in> set xs" using False by simp
      then have "le x y" "le y x" using "3.prems" by auto
      then show False using assms(2) False by blast
    qed
    then show ?thesis using 3 False by simp
  qed
qed simp_all

lemma sorted_by_group:
  assumes "sorted_wrt P (concat xss)" "xs \<in> set xss"
  shows "sorted_wrt P xs"
  using assms by (induction xss) (auto simp: sorted_wrt_append)

definition insert_ev :: "bool \<Rightarrow> (nat option \<times> nat) \<times> nat list \<Rightarrow> blk_event" where
  "insert_ev fs g = Call ''blk_mq_sched_insert_requests''
     ((case fst (fst g) of None \<Rightarrow> -1 | Some h \<Rightarrow> int h) # int (snd (fst g)) # of_bool fs # map int (snd g))"

lemma insert_groups_events: "events (fold (insert_group fs) gs s) = events s @ map (insert_ev fs) gs"
  by (induction gs arbitrary: s) (simp_all add: insert_group_def insert_ev_def)

text \<open>
  C26: Flushing a plug. Every plugged request is inserted exactly once, in a batch of requests of its own
  hardware and software context, and the plug is empty afterwards. When the plug holds several queues the
  list is sorted first: then every context gets a single batch, and inside it the requests are in the
  order of their sectors.
\<close>

theorem plug_flush_batches:
  assumes "sorts a" "inj (ctx_addr a)" "inj (hctx_addr a)" "\<forall>r\<in>set (plug_list plug). mq_hctx (rqs s r) \<noteq> None"
  shows "\<exists>gs. events (snd (blk_mq_flush_plug_list a fs plug s)) = events s @ map (insert_ev fs) gs \<and>
    mset (concat (map snd gs)) = mset (plug_list plug) \<and>
    (\<forall>g\<in>set gs. snd g \<noteq> [] \<and> (\<forall>r\<in>set (snd g). rq_home s r = fst g)) \<and>
    (2 < plug_rq_count plug \<longrightarrow> multiple_queues plug \<longrightarrow> distinct (map fst gs) \<and>
       (\<forall>g\<in>set gs. sorted_wrt (\<lambda>x y. rq_sector (rqs s x) \<le> rq_sector (rqs s y)) (snd g))) \<and>
    plug_list (fst (blk_mq_flush_plug_list a fs plug s)) = [] \<and> plug_rq_count (fst (blk_mq_flush_plug_list a fs plug s)) = 0"
proof -
  define sorted where "sorted \<longleftrightarrow> 2 < plug_rq_count plug \<and> multiple_queues plug"
  define l where "l = (if sorted then list_sort a (plug_rq_cmp a s) (plug_list plug) else plug_list plug)"
  have sorts: "mset (list_sort a (plug_rq_cmp a s) (plug_list plug)) = mset (plug_list plug)"
    "sorted_wrt (\<lambda>x y. plug_rq_cmp a s x y \<le> 0) (list_sort a (plug_rq_cmp a s) (plug_list plug))"
    using assms(1) plug_rq_cmp_preorder unfolding sorts_def by blast+
  have ms: "mset l = mset (plug_list plug)" using sorts(1) by (simp add: l_def)
  then have "\<forall>r\<in>set l. mq_hctx (rqs s r) \<noteq> None" using assms(4) by (metis set_mset_mset)
  note g = plug_groups_all [OF this]
  define gs where "gs = plug_groups s l (None, 0) []"
  have fl: "blk_mq_flush_plug_list a fs plug s = (plug\<lparr>plug_list := [], plug_rq_count := 0\<rparr>, fold (insert_group fs) gs s)"
    by (simp add: blk_mq_flush_plug_list_def Let_def gs_def l_def sorted_def)
  have "distinct (map fst gs) \<and> (\<forall>g\<in>set gs. sorted_wrt (\<lambda>x y. rq_sector (rqs s x) \<le> rq_sector (rqs s y)) (snd g))" if sorted
  proof -
    let ?le = "\<lambda>p q. ctx_addr a (snd p) < ctx_addr a (snd q) \<or> ctx_addr a (snd p) = ctx_addr a (snd q) \<and>
        hctx_addr a (fst p) \<le> hctx_addr a (fst q)"
    have sl: "sorted_wrt (\<lambda>x y. plug_rq_cmp a s x y \<le> 0) l" using sorts(2) that by (simp add: l_def)
    have "sorted_wrt ?le (map (rq_home s) l)"
      unfolding sorted_wrt_map by (rule sorted_wrt_mono_rel [OF _ sl]) (auto simp: plug_rq_cmp_le rq_home_def)
    moreover have "p = q" if "?le p q" "?le q p" for p q
    proof -
      have "ctx_addr a (snd p) = ctx_addr a (snd q) \<and> hctx_addr a (fst p) = hctx_addr a (fst q)" using that by linarith
      then show ?thesis using injD [OF assms(2)] injD [OF assms(3)] by (blast intro: prod_eqI)
    qed
    ultimately have d: "distinct (map fst gs)" using sorted_adj_distinct [of ?le "map (rq_home s) l"] g unfolding gs_def by simp
    have "sorted_wrt (\<lambda>x y. rq_sector (rqs s x) \<le> rq_sector (rqs s y)) (snd x)" if x: "x \<in> set gs" for x
    proof -
      have "concat (map snd gs) = l" using g by (simp add: gs_def)
      then have c: "sorted_wrt (\<lambda>x y. plug_rq_cmp a s x y \<le> 0) (snd x)" using sorted_by_group [of _ "map snd gs"] sl x by simp
      have "rq_home s r = fst x" if "r \<in> set (snd x)" for r using g x that unfolding gs_def by blast
      then have h: "\<forall>r\<in>set (snd x). mq_hctx (rqs s r) = fst (fst x) \<and> mq_ctx (rqs s r) = snd (fst x)"
        by (metis fst_conv rq_home_def snd_conv)
      show ?thesis by (rule sorted_wrt_mono_rel [OF _ c]) (use h in \<open>auto simp: plug_rq_cmp_le rq_home_def\<close>)
    qed
    then show ?thesis using d by blast
  qed
  then show ?thesis using g ms unfolding fl fst_conv snd_conv insert_groups_events sorted_def gs_def [symmetric]
    by (intro exI [of _ gs]) auto
qed

text \<open>Insertion sort as the sorting routine, addresses as numbers.\<close>

fun cmp_insert :: "(nat \<Rightarrow> nat \<Rightarrow> int) \<Rightarrow> nat \<Rightarrow> nat list \<Rightarrow> nat list" where
  "cmp_insert cmp x [] = [x]"
| "cmp_insert cmp x (y # ys) = (if cmp x y \<le> 0 then x # y # ys else y # cmp_insert cmp x ys)"

definition ex_plug_env :: plug_env where
  "ex_plug_env = \<lparr>ctx_addr = id, hctx_addr = (\<lambda>h. case h of None \<Rightarrow> 0 | Some n \<Rightarrow> Suc n),
     list_sort = (\<lambda>cmp l. foldr (cmp_insert cmp) l [])\<rparr>"

lemma cmp_insert_mset: "mset (cmp_insert cmp x ys) = add_mset x (mset ys)"
  by (induction ys) auto

lemma cmp_insert_set: "set (cmp_insert cmp x ys) = insert x (set ys)"
  using cmp_insert_mset [of cmp x ys] by (metis set_mset_add_mset_insert set_mset_mset)

lemma cmp_insert_sorted:
  assumes "preorder_cmp cmp" "sorted_wrt (\<lambda>x y. cmp x y \<le> 0) ys"
  shows "sorted_wrt (\<lambda>x y. cmp x y \<le> 0) (cmp_insert cmp x ys)"
  using assms(2)
proof (induction ys)
  case (Cons y ys)
  have t: "cmp a c \<le> 0" if "cmp a b \<le> 0" "cmp b c \<le> 0" for a b c using assms(1) that unfolding preorder_cmp_def by blast
  have l: "cmp a b \<le> 0 \<or> cmp b a \<le> 0" for a b using assms(1) unfolding preorder_cmp_def by blast
  show ?case
  proof (cases "cmp x y \<le> 0")
    case True
    then show ?thesis using Cons.prems t [OF True] by auto
  next
    case False
    then show ?thesis using Cons l [of x y] by (auto simp: cmp_insert_set)
  qed
qed simp

lemma ex_plug_env_sorts: "sorts ex_plug_env"
proof -
  have "mset (foldr (cmp_insert cmp) l []) = mset l \<and> sorted_wrt (\<lambda>x y. cmp x y \<le> 0) (foldr (cmp_insert cmp) l [])"
    if "preorder_cmp cmp" for cmp l
    using cmp_insert_sorted [OF that] by (induction l) (simp_all add: cmp_insert_mset)
  then show ?thesis by (simp add: sorts_def ex_plug_env_def)
qed

theorem plug_flush_batches_witness:
  "\<exists>gs. events (snd (blk_mq_flush_plug_list ex_plug_env True \<lparr>plug_list = [4, 1, 2], plug_rq_count = 3, multiple_queues = True\<rparr> ex_swq)) =
     events ex_swq @ map (insert_ev True) gs \<and> mset (concat (map snd gs)) = {#1, 2, 4#} \<and> distinct (map fst gs)"
proof -
  let ?plug = "\<lparr>plug_list = [4, 1, 2], plug_rq_count = 3, multiple_queues = True\<rparr>"
  have i: "inj (ctx_addr ex_plug_env)" "inj (hctx_addr ex_plug_env)"
    by (auto simp: ex_plug_env_def inj_def split: option.splits)
  have "\<forall>r\<in>set (plug_list ?plug). mq_hctx (rqs ex_swq r) \<noteq> None" by (simp add: ex_swq_at ex_rq_def)
  from plug_flush_batches [OF ex_plug_env_sorts i this, of True] show ?thesis by auto
qed

section \<open>The busyness of a context\<close>

definition busy_sample :: "bool \<Rightarrow> nat" where
  "busy_sample b = (if b then 16 else 0)"

lemma busy_ewma_nat:
  assumes "unat m < 2 ^ 28"
  shows "unat (busy_ewma m b) = (unat m * 7 + busy_sample b) div 8"
proof -
  define n where "n = unat m"
  have m: "m = of_nat n" and n: "n < 2 ^ 28" using assms by (simp_all add: n_def)
  have w: "unat (of_nat j :: u32) = j" if "j < 2 ^ 32" for j using that by (simp add: unsigned_of_nat take_bit_nat_eq_self_iff)
  have "n * 7 + 16 < 2 ^ 32" "n * 7 < 2 ^ 32" using n by simp_all
  from w [OF this(1)] w [OF this(2)] have u: "unat ((m * 7 + 16) :: u32) = n * 7 + 16" "unat ((m * 7) :: u32) = n * 7"
    by (simp_all add: m)
  show ?thesis
  proof (cases "m = 0 \<and> \<not> b")
    case True
    then show ?thesis by (simp add: busy_ewma_def busy_sample_def)
  next
    case False
    then show ?thesis using u by (auto simp: busy_ewma_def busy_sample_def unat_div n_def)
  qed
qed

interpretation busy: moving_average busy_ewma unat busy_sample "2 ^ 28"
  by unfold_locales (auto simp: busy_ewma_nat busy_sample_def)

lemma busy_idle_bound:
  assumes "unat m \<le> b" "b < 2 ^ 28"
  shows "unat (foldl busy_ewma m (replicate k False)) \<le> ((\<lambda>n. n * 7 div 8) ^^ k) b"
  using assms
proof (induction k arbitrary: m b)
  case (Suc k)
  have "unat (busy_ewma m False) \<le> b * 7 div 8" using Suc.prems by (simp add: busy_ewma_nat busy_sample_def div_le_mono)
  from Suc.IH [OF this] show ?case using Suc.prems by (simp add: funpow_Suc_right del: funpow.simps)
qed simp

lemma twelve_idle: "((\<lambda>n. n * 7 div 8) ^^ 12) (16::nat) = 0"
proof -
  have "(12::nat) = Suc (Suc (Suc (Suc (Suc (Suc (Suc (Suc (Suc (Suc (Suc (Suc 0)))))))))))" by simp
  then show ?thesis by (simp only: funpow.simps comp_apply id_apply) simp
qed

definition busy_run :: "nat \<Rightarrow> bool list \<Rightarrow> blk \<Rightarrow> blk" where
  "busy_run h bs s = fold (blk_mq_update_dispatch_busy h) bs s"

lemma busy_run_avg:
  assumes "q_elevator (the_q s) = None"
  shows "dispatch_busy (hctx_at (busy_run h bs s) h) = foldl busy_ewma (dispatch_busy (hctx_at s h)) bs"
  using assms
proof (induction bs arbitrary: s)
  case (Cons b bs)
  have "q_elevator (the_q (blk_mq_update_dispatch_busy h b s)) = None" using Cons.prems
    by (simp add: blk_mq_update_dispatch_busy_def upd_hctx_def)
  from Cons.IH [OF this] show ?case using Cons.prems
    by (simp add: busy_run_def blk_mq_update_dispatch_busy_def)
qed (simp add: busy_run_def)

text \<open>
  The busyness of a hardware context. However dispatches of a context without scheduler turn out, the
  average stays at 16 or below; right after a dispatch that left requests behind it is not zero, so new
  requests are queued rather than issued directly; and twelve undisturbed dispatches bring it back to
  zero.
\<close>

theorem busy_average:
  assumes "q_elevator (the_q s) = None" "dispatch_busy (hctx_at s h) = 0"
  shows "unat (dispatch_busy (hctx_at (busy_run h bs s) h)) \<le> 16 \<and>
    dispatch_busy (hctx_at (busy_run h (bs @ [True]) s) h) \<noteq> 0 \<and>
    dispatch_busy (hctx_at (busy_run h (bs @ replicate 12 False) s) h) = 0"
proof -
  let ?m = "foldl busy_ewma 0 bs"
  have "unat ?m \<in> {0..16}" by (rule busy.fold_range) (auto simp: busy_sample_def)
  then have m: "unat ?m \<le> 16" by simp
  have "unat (busy_ewma ?m True) \<noteq> 0" using m by (simp add: busy_ewma_nat busy_sample_def)
  then have "busy_ewma ?m True \<noteq> 0" by (metis unat_0)
  moreover have "unat (foldl busy_ewma ?m (replicate 12 False)) \<le> 0"
    using busy_idle_bound [OF m, of 12] by (simp only: twelve_idle) simp
  ultimately show ?thesis using m by (simp add: busy_run_avg [OF assms(1)] assms(2) unat_eq_zero)
qed

theorem busy_average_witness:
  "dispatch_busy (hctx_at (busy_run 0 [False, True, True] ex_blk) 0) \<noteq> 0"
proof -
  have "q_elevator (the_q ex_blk) = None" "dispatch_busy (hctx_at ex_blk 0) = 0" by (simp_all add: ex_blk_def hctx_at_def ex_hctx_def)
  from busy_average [OF this, of "[False, True]"] show ?thesis by simp
qed

end
