(* ===== verification/Kobj.thy ===== *)
theory Kobj
  imports Prelude
begin

text \<open>
  Kernel objects with a lifetime, for the code that sets components up and takes them down: a pointer is
  null, points to a live object, to one that was freed, or holds an error number; \<open>kmem\<close> counts the live
  objects. Freeing a freed object, and using an object that is not live, has no result. Whether an allocation
  succeeds and what a call outside the modelled code returns are parameters, indexed by the number of such
  calls made so far.
\<close>

section \<open>Pointers\<close>

datatype ptr = Null | Live | Freed | ErrPtr

record kstate =
  kmem :: int
  kpos :: nat

record kenv =
  k_alloc :: "nat \<Rightarrow> bool"
  k_call :: "nat \<Rightarrow> rc"

definition kmem_add :: "int \<Rightarrow> kstate \<Rightarrow> kstate" where
  "kmem_add n k = k\<lparr>kmem := kmem k + n\<rparr>"

definition k_next :: "kstate \<Rightarrow> kstate" where
  "k_next k = k\<lparr>kpos := Suc (kpos k)\<rparr>"

text \<open>\<open>kmalloc\<close> and its relatives: the new pointer.\<close>

definition k_new :: "kenv \<Rightarrow> kstate \<Rightarrow> ptr \<times> kstate" where
  "k_new v k = (if k_alloc v (kpos k) then (Live, kmem_add 1 (k_next k)) else (Null, k_next k))"

text \<open>\<open>kfree\<close>: nothing for the null pointer.\<close>

fun k_free :: "ptr \<Rightarrow> kstate \<Rightarrow> (ptr \<times> kstate) option" where
  "k_free Null k = Some (Null, k)"
| "k_free Live k = Some (Freed, kmem_add (-1) k)"
| "k_free _ k = None"

text \<open>The release of an object that has to be there.\<close>

fun k_release :: "ptr \<Rightarrow> kstate \<Rightarrow> (ptr \<times> kstate) option" where
  "k_release Live k = Some (Freed, kmem_add (-1) k)"
| "k_release _ k = None"

text \<open>A use of an object.\<close>

definition k_use :: "ptr \<Rightarrow> unit option" where
  "k_use p = (if p = Live then Some () else None)"

section \<open>Calls\<close>

definition k_do :: "kenv \<Rightarrow> kstate \<Rightarrow> rc \<times> kstate" where
  "k_do v k = (k_call v (kpos k), k_next k)"

text \<open>Calls of which each is made when the one before has returned zero.\<close>

fun k_all :: "kenv \<Rightarrow> nat \<Rightarrow> kstate \<Rightarrow> rc \<times> kstate" where
  "k_all v 0 k = (Ret 0, k)"
| "k_all v (Suc n) k = (case k_do v k of (r, k1) \<Rightarrow> if r \<noteq> Ret 0 then (r, k1) else k_all v n k1)"

text \<open>A call that makes an object, or returns an error.\<close>

definition k_make :: "kenv \<Rightarrow> kstate \<Rightarrow> rc \<times> kstate" where
  "k_make v k = (case k_do v k of (r, k1) \<Rightarrow> (r, if r = Ret 0 then kmem_add 1 k1 else k1))"

section \<open>Laws\<close>

lemma kmem_add_simps [simp]: "kmem (kmem_add n k) = kmem k + n" "kpos (kmem_add n k) = kpos k"
  by (simp_all add: kmem_add_def)

lemma k_next_simps [simp]: "kmem (k_next k) = kmem k" "kpos (k_next k) = Suc (kpos k)"
  by (simp_all add: k_next_def)

lemma k_new_cases:
  obtains (ok) k1 where "k_new v k = (Live, k1)" "kmem k1 = kmem k + 1"
  | (fail) k1 where "k_new v k = (Null, k1)" "kmem k1 = kmem k" "\<not> k_alloc v (kpos k)"
  by (cases "k_alloc v (kpos k)") (simp_all add: k_new_def)

lemma k_do_mem: "k_do v k = (r, k1) \<Longrightarrow> kmem k1 = kmem k"
  by (auto simp: k_do_def)

lemma k_all_mem: "k_all v n k = (r, k1) \<Longrightarrow> kmem k1 = kmem k"
  by (induction n arbitrary: k) (auto dest: k_do_mem split: prod.splits if_splits)

lemma k_make_mem: "k_make v k = (r, k1) \<Longrightarrow> kmem k1 = kmem k + (if r = Ret 0 then 1 else 0)"
  by (auto simp: k_make_def dest: k_do_mem split: prod.splits)

lemma k_free_Some: "k_free p k = Some (p', k') \<Longrightarrow> p' \<noteq> Live \<and> kmem k' = kmem k - (if p = Live then 1 else 0)"
  by (cases p) auto

lemma k_release_Some: "k_release p k = Some (p', k') \<Longrightarrow> p = Live \<and> p' = Freed \<and> kmem k' = kmem k - 1"
  by (cases p) auto

lemma k_use_Live [simp]: "k_use Live = Some ()"
  by (simp add: k_use_def)

lemma k_use_Some [simp]: "k_use p = Some u \<longleftrightarrow> p = Live"
  by (simp add: k_use_def)

end
