(* ===== verification/Blk_Mq_Tags.thy ===== *)
theory Blk_Mq_Tags
  imports Blk_Mq_Run Kobj
begin

text \<open>
  Tag sets of the block layer, \<open>block/blk-mq.c\<close> from \<open>blk_mq_free_rqs\<close> on: the requests of a hardware queue, which
  are cut out of pages, the maps of requests, and the allocation of a tag set with its queue maps. A request is
  named by the page it lies in and its offset there. What the driver sets up in \<open>init_request\<close> counts as one object,
  which \<open>exit_request\<close> takes down. The tag allocator and the spreading of CPUs over queues are parameters.
\<close>

section \<open>State\<close>

definition BLK_MQ_MAX_DEPTH :: nat where "BLK_MQ_MAX_DEPTH = 10240"
definition HCTX_MAX_TYPES :: nat where "HCTX_MAX_TYPES = 3"
definition NUMA_NO_NODE :: int where "NUMA_NO_NODE = -1"

text \<open>The tags of a hardware queue with their array of requests; pages are named by their position in the list.\<close>

record rq_tags =
  rt_nr_tags :: nat
  rt_reserved :: nat
  rt_static :: "(nat \<times> nat) option list"
  rt_pages :: "nat list"

text \<open>An entry of the array of tags: null, tags, or a pointer to tags that were freed.\<close>

datatype tags_ptr = No_tags | Tags rq_tags | Dead_tags

record blk_mq_queue_map =
  mq_map :: "nat list"
  map_nr_queues :: nat
  map_offset :: nat

record blk_mq_tag_set =
  set_map :: "hctx_type \<Rightarrow> blk_mq_queue_map"
  set_map_mem :: "hctx_type \<Rightarrow> ptr"
  nr_maps :: nat
  set_nr_hw :: nat
  queue_depth :: nat
  reserved_tags :: nat
  cmd_size :: nat
  set_node :: int
  set_flags :: "hctx_flag set"
  set_tags :: "tags_ptr list"
  tags_mem :: ptr

text \<open>
  Parameters: sizes, the operations of the driver, and calls outside. \<open>map_cpus nr offset\<close> is what
  \<open>blk_mq_map_queues\<close> writes, \<open>op_map_queues\<close> what the driver's own \<open>map_queues\<close> does to the maps, \<open>op_init_hctx\<close> what its
  \<open>init_hctx\<close> does to a hardware context; a driver with an \<open>exit_hctx\<close> holds one object for each of them. \<open>tag_idle\<close> is
  \<open>blk_mq_tag_idle\<close>, \<open>default_elevator\<close> what \<open>elevator_init_mq\<close> picks.
\<close>

record menv =
  mk :: kenv
  mkern :: kernel
  possible_cpus :: "nat list"
  m_page_size :: nat
  m_sizeof_request :: nat
  m_cache_line :: nat
  TAG_MIN :: nat
  is_kdump :: bool
  op_queue_rq :: bool
  op_get_budget :: bool
  op_put_budget :: bool
  op_init_request :: bool
  op_exit_request :: bool
  op_map_queues :: "(blk_mq_tag_set \<Rightarrow> rc \<times> (hctx_type \<Rightarrow> blk_mq_queue_map)) option"
  map_cpus :: "nat \<Rightarrow> nat \<Rightarrow> nat list"
  op_init_hctx :: "(nat \<Rightarrow> blk_mq_hw_ctx \<Rightarrow> blk_mq_hw_ctx) option"
  op_exit_hctx :: bool
  tag_idle :: "blk_mq_hw_ctx \<Rightarrow> blk_mq_hw_ctx"
  hw_queue_to_node :: "blk_mq_queue_map \<Rightarrow> nat \<Rightarrow> int"
  local_memory_node :: "nat \<Rightarrow> int"
  default_elevator :: "elevator option"

section \<open>Requests\<close>

definition round_up :: "nat \<Rightarrow> nat \<Rightarrow> nat" where
  "round_up n a = (n + a - 1) div a * a"

definition order_to_size :: "menv \<Rightarrow> nat \<Rightarrow> nat" where
  "order_to_size v ord = m_page_size v * 2 ^ ord"

definition blk_mq_init_request :: "menv \<Rightarrow> kstate \<Rightarrow> rc \<times> kstate" where
  "blk_mq_init_request v k = (if op_init_request v then k_make (mk v) k else (Ret 0, k))"

text \<open>Every request that was set up is given back to the driver, then the pages are freed.\<close>

definition blk_mq_free_rqs :: "menv \<Rightarrow> rq_tags \<Rightarrow> kstate \<Rightarrow> rq_tags \<times> kstate" where
  "blk_mq_free_rqs v t k =
     (let (t1, k1) =
        (if op_exit_request v
         then (t\<lparr>rt_static := map (\<lambda>_. None) (rt_static t)\<rparr>, kmem_add (- int (length (filter (\<lambda>x. x \<noteq> None) (rt_static t)))) k)
         else (t, k)) in
      (t1\<lparr>rt_pages := []\<rparr>, kmem_add (- int (length (rt_pages t1))) k1))"

definition blk_mq_free_rq_map :: "kstate \<Rightarrow> kstate" where
  "blk_mq_free_rq_map k = kmem_add (-3) k"

text \<open>The tags and two arrays, undone when one of them fails.\<close>

definition blk_mq_alloc_rq_map :: "menv \<Rightarrow> nat \<Rightarrow> nat \<Rightarrow> kstate \<Rightarrow> rq_tags option \<times> kstate" where
  "blk_mq_alloc_rq_map v tags reserved k =
     (case k_new (mk v) k of (a, k1) \<Rightarrow>
        if a = Null then (None, k1)
        else
          (case k_new (mk v) k1 of (b, k2) \<Rightarrow>
             if b = Null then (None, kmem_add (-1) k2)
             else
               (case k_new (mk v) k2 of (c, k3) \<Rightarrow>
                  if c = Null then (None, kmem_add (-2) k3)
                  else (Some \<lparr>rt_nr_tags = tags, rt_reserved = reserved, rt_static = replicate tags None, rt_pages = []\<rparr>, k3))))"

text \<open>The largest order of pages that the rest of the requests fills, and smaller ones when there are none.\<close>

fun shrink_order :: "menv \<Rightarrow> nat \<Rightarrow> nat \<Rightarrow> nat" where
  "shrink_order v left 0 = 0"
| "shrink_order v left (Suc ord) = (if left < order_to_size v ord then shrink_order v left ord else Suc ord)"

fun get_pages :: "menv \<Rightarrow> nat \<Rightarrow> nat \<Rightarrow> kstate \<Rightarrow> nat option \<times> kstate" where
  "get_pages v sz 0 k = (case k_new (mk v) k of (p, k1) \<Rightarrow> (if p \<noteq> Null then Some 0 else None, k1))"
| "get_pages v sz (Suc ord) k =
     (case k_new (mk v) k of (p, k1) \<Rightarrow>
        if p \<noteq> Null then (Some (Suc ord), k1)
        else if order_to_size v ord < sz then (None, k1) else get_pages v sz ord k1)"

text \<open>Requests \<open>i\<close>, \<open>i + 1\<close> and so on in one page, from an offset on.\<close>

fun init_slots :: "menv \<Rightarrow> nat \<Rightarrow> nat \<Rightarrow> nat \<Rightarrow> nat \<Rightarrow> nat \<Rightarrow> rq_tags \<Rightarrow> kstate \<Rightarrow> (bool \<times> rq_tags \<times> kstate) option" where
  "init_slots v sz page off i 0 t k = Some (True, t, k)"
| "init_slots v sz page off i (Suc n) t k = do {
     a \<leftarrow> arr_set (rt_static t) (int i) (Some (page, off));
     case blk_mq_init_request v k of (ret, k1) \<Rightarrow>
       if ret \<noteq> Ret 0 then Some (False, t\<lparr>rt_static := a[i := None]\<rparr>, k1)
       else init_slots v sz page (off + sz) (Suc i) n (t\<lparr>rt_static := a\<rparr>) k1 }"

definition max_order :: nat where "max_order = 4"

text \<open>The loop over the pages; no result stands for a loop that does not end.\<close>

partial_function (option) alloc_rqs_loop ::
  "menv \<Rightarrow> nat \<Rightarrow> nat \<Rightarrow> nat \<Rightarrow> nat \<Rightarrow> rq_tags \<Rightarrow> kstate \<Rightarrow> (bool \<times> rq_tags \<times> kstate) option" where
  "alloc_rqs_loop v sz depth i left t k =
     (if depth \<le> i then Some (True, t, k)
      else
        (case get_pages v sz (shrink_order v left max_order) k of
           (None, k1) \<Rightarrow> Some (False, t, k1)
         | (Some ord, k1) \<Rightarrow> do {
             let to_do = min (order_to_size v ord div sz) (depth - i);
             (ok, t1, k2) \<leftarrow> init_slots v sz (length (rt_pages t)) 0 i to_do (t\<lparr>rt_pages := rt_pages t @ [ord]\<rparr>) k1;
             if \<not> ok then Some (False, t1, k2) else alloc_rqs_loop v sz depth (i + to_do) (left - to_do * sz) t1 k2 }))"

declare alloc_rqs_loop.simps [code]

definition rq_size :: "menv \<Rightarrow> blk_mq_tag_set \<Rightarrow> nat" where
  "rq_size v ts = round_up (m_sizeof_request v + cmd_size ts) (m_cache_line v)"

definition blk_mq_alloc_rqs :: "menv \<Rightarrow> blk_mq_tag_set \<Rightarrow> nat \<Rightarrow> rq_tags \<Rightarrow> kstate \<Rightarrow> (rc \<times> rq_tags \<times> kstate) option" where
  "blk_mq_alloc_rqs v ts depth t k = do {
     (ok, t1, k1) \<leftarrow> alloc_rqs_loop v (rq_size v ts) depth 0 (rq_size v ts * depth) (t\<lparr>rt_pages := []\<rparr>) k;
     if ok then Some (Ret 0, t1, k1)
     else (case blk_mq_free_rqs v t1 k1 of (t2, k2) \<Rightarrow> Some (Err ENOMEM, t2, k2)) }"

section \<open>Maps of requests\<close>

definition put_tags :: "nat \<Rightarrow> tags_ptr \<Rightarrow> blk_mq_tag_set \<Rightarrow> blk_mq_tag_set option" where
  "put_tags i p ts = do { a \<leftarrow> arr_set (set_tags ts) (int i) p; Some (ts\<lparr>set_tags := a\<rparr>) }"

text \<open>\<open>__blk_mq_alloc_rq_map\<close>\<close>

definition alloc_rq_map' :: "menv \<Rightarrow> nat \<Rightarrow> blk_mq_tag_set \<Rightarrow> kstate \<Rightarrow> (bool \<times> blk_mq_tag_set \<times> kstate) option" where
  "alloc_rq_map' v i ts k =
     (case blk_mq_alloc_rq_map v (queue_depth ts) (reserved_tags ts) k of
        (None, k1) \<Rightarrow> do { ts1 \<leftarrow> put_tags i No_tags ts; Some (False, ts1, k1) }
      | (Some t, k1) \<Rightarrow> do {
          (ret, t1, k2) \<leftarrow> blk_mq_alloc_rqs v ts (queue_depth ts) t k1;
          if ret = Ret 0 then do { ts1 \<leftarrow> put_tags i (Tags t1) ts; Some (True, ts1, k2) }
          else do { ts1 \<leftarrow> put_tags i No_tags ts; Some (False, ts1, blk_mq_free_rq_map k2) } })"

definition blk_mq_free_map_and_requests :: "menv \<Rightarrow> nat \<Rightarrow> blk_mq_tag_set \<Rightarrow> kstate \<Rightarrow> (blk_mq_tag_set \<times> kstate) option" where
  "blk_mq_free_map_and_requests v i ts k =
     (if tags_mem ts = Null then Some (ts, k)
      else do {
        p \<leftarrow> arr_get (set_tags ts) (int i);
        case p of
          No_tags \<Rightarrow> Some (ts, k)
        | Dead_tags \<Rightarrow> None
        | Tags t \<Rightarrow> do { ts1 \<leftarrow> put_tags i No_tags ts; Some (ts1, blk_mq_free_rq_map (snd (blk_mq_free_rqs v t k))) } })"

text \<open>
  \<open>__blk_mq_alloc_rq_maps\<close>: when the tags of a queue cannot be allocated, the maps of the ones before are freed; their
  requests and pages are not, and the pointers stay.
\<close>

definition unwind_map :: "nat \<Rightarrow> blk_mq_tag_set \<times> kstate \<Rightarrow> (blk_mq_tag_set \<times> kstate) option" where
  "unwind_map i y = (case y of (ts, k) \<Rightarrow> do { ts1 \<leftarrow> put_tags i Dead_tags ts; Some (ts1, blk_mq_free_rq_map k) })"

fun alloc_maps_loop :: "menv \<Rightarrow> nat \<Rightarrow> nat \<Rightarrow> blk_mq_tag_set \<Rightarrow> kstate \<Rightarrow> (rc \<times> blk_mq_tag_set \<times> kstate) option" where
  "alloc_maps_loop v i 0 ts k = Some (Ret 0, ts, k)"
| "alloc_maps_loop v i (Suc n) ts k = do {
     (ok, ts1, k1) \<leftarrow> alloc_rq_map' v i ts k;
     if ok then alloc_maps_loop v (Suc i) n ts1 k1
     else do { (ts2, k2) \<leftarrow> for_each unwind_map (rev [0..<i]) (ts1, k1); Some (Err ENOMEM, ts2, k2) } }"

definition alloc_rq_maps' :: "menv \<Rightarrow> blk_mq_tag_set \<Rightarrow> kstate \<Rightarrow> (rc \<times> blk_mq_tag_set \<times> kstate) option" where
  "alloc_rq_maps' v ts k = alloc_maps_loop v 0 (set_nr_hw ts) ts k"

text \<open>The depth is halved until the maps fit into memory; \<open>n\<close> bounds the number of halvings.\<close>

fun depth_loop :: "menv \<Rightarrow> nat \<Rightarrow> blk_mq_tag_set \<Rightarrow> kstate \<Rightarrow> (rc \<times> blk_mq_tag_set \<times> kstate) option" where
  "depth_loop v 0 ts k = None"
| "depth_loop v (Suc n) ts k = do {
     (err, ts1, k1) \<leftarrow> alloc_rq_maps' v ts k;
     if err = Ret 0 then Some (Ret 0, ts1, k1)
     else
       (let ts2 = ts1\<lparr>queue_depth := queue_depth ts1 div 2\<rparr> in
        if queue_depth ts2 < reserved_tags ts2 + TAG_MIN v then Some (Err ENOMEM, ts2, k1)
        else if queue_depth ts2 = 0 then Some (err, ts2, k1) else depth_loop v n ts2 k1) }"

definition blk_mq_alloc_rq_maps :: "menv \<Rightarrow> blk_mq_tag_set \<Rightarrow> kstate \<Rightarrow> (rc \<times> blk_mq_tag_set \<times> kstate) option" where
  "blk_mq_alloc_rq_maps v ts k = do {
     (err, ts1, k1) \<leftarrow> depth_loop v (Suc (queue_depth ts)) ts k;
     Some (if queue_depth ts1 = 0 \<or> err \<noteq> Ret 0 then Err ENOMEM else Ret 0, ts1, k1) }"

section \<open>Tag sets\<close>

definition hctx_types :: "nat \<Rightarrow> hctx_type list" where
  "hctx_types n = take n [HCTX_TYPE_DEFAULT, HCTX_TYPE_READ, HCTX_TYPE_POLL]"

definition set_nr_queues :: "menv \<Rightarrow> blk_mq_tag_set \<Rightarrow> nat" where
  "set_nr_queues v ts = (if nr_maps ts = 1 then nr_cpu_ids (mkern v) else max (set_nr_hw ts) (nr_cpu_ids (mkern v)))"

definition blk_mq_clear_mq_map :: "menv \<Rightarrow> blk_mq_queue_map \<Rightarrow> blk_mq_queue_map" where
  "blk_mq_clear_mq_map v m = m\<lparr>mq_map := map (\<lambda>c. if c \<in> set (possible_cpus v) then 0 else mq_map m ! c) [0..<length (mq_map m)]\<rparr>"

definition upd_map :: "hctx_type \<Rightarrow> (blk_mq_queue_map \<Rightarrow> blk_mq_queue_map) \<Rightarrow> blk_mq_tag_set \<Rightarrow> blk_mq_tag_set" where
  "upd_map j f s = s\<lparr>set_map := (set_map s)(j := f (set_map s j))\<rparr>"

definition map_default :: "menv \<Rightarrow> blk_mq_tag_set \<Rightarrow> blk_mq_tag_set" where
  "map_default v s =
     upd_map HCTX_TYPE_DEFAULT (\<lambda>m. m\<lparr>mq_map := map_cpus v (map_nr_queues m) (map_offset m)\<rparr>) s"

definition blk_mq_update_queue_map :: "menv \<Rightarrow> blk_mq_tag_set \<Rightarrow> (rc \<times> blk_mq_tag_set) option" where
  "blk_mq_update_queue_map v s =
     (let s1 = (if nr_maps s = 1 then upd_map HCTX_TYPE_DEFAULT (\<lambda>m. m\<lparr>map_nr_queues := set_nr_hw s\<rparr>) s else s) in
      case op_map_queues v of
        Some f \<Rightarrow>
          (if is_kdump v then (if 1 < nr_maps s1 then None else Some (Ret 0, map_default v s1))
           else
             (let s2 = fold (\<lambda>j. upd_map j (blk_mq_clear_mq_map v)) (hctx_types (nr_maps s1)) s1;
                  (ret, m) = f s2 in Some (ret, s2\<lparr>set_map := m\<rparr>)))
      | None \<Rightarrow> if 1 < nr_maps s1 then None else Some (Ret 0, map_default v s1))"

text \<open>The arguments that are refused, in the order of the code; a depth that is too large is reduced in between.\<close>

definition tag_set_args :: "menv \<Rightarrow> blk_mq_tag_set \<Rightarrow> rc \<times> blk_mq_tag_set" where
  "tag_set_args v s =
     (if set_nr_hw s = 0 \<or> queue_depth s = 0 \<or> queue_depth s < reserved_tags s + TAG_MIN v \<or> \<not> op_queue_rq v \<or>
         op_get_budget v \<noteq> op_put_budget v then (Err EINVAL, s)
      else
        (let s0 = s\<lparr>queue_depth := min (queue_depth s) BLK_MQ_MAX_DEPTH\<rparr> in
         if HCTX_MAX_TYPES < nr_maps s0 then (Err EINVAL, s0)
         else
           (let s1 = s0\<lparr>nr_maps := (if nr_maps s0 = 0 then 1 else nr_maps s0)\<rparr>;
                s2 = (if is_kdump v then s1\<lparr>set_nr_hw := 1, nr_maps := 1, queue_depth := min 64 (queue_depth s1)\<rparr> else s1) in
            (Ret 0, if nr_maps s2 = 1 then s2\<lparr>set_nr_hw := min (set_nr_hw s2) (nr_cpu_ids (mkern v))\<rparr> else s2))))"

fun alloc_mq_maps :: "menv \<Rightarrow> hctx_type list \<Rightarrow> blk_mq_tag_set \<Rightarrow> kstate \<Rightarrow> bool \<times> blk_mq_tag_set \<times> kstate" where
  "alloc_mq_maps v [] s k = (True, s, k)"
| "alloc_mq_maps v (j # js) s k =
     (case k_new (mk v) k of (p, k1) \<Rightarrow>
        let s1 = s\<lparr>set_map_mem := (set_map_mem s)(j := p)\<rparr> in
        if p = Null then (False, s1, k1)
        else alloc_mq_maps v js
          (upd_map j (\<lambda>m. m\<lparr>mq_map := replicate (nr_cpu_ids (mkern v)) 0, map_nr_queues := (if is_kdump v then 1 else set_nr_hw s1)\<rparr>) s1) k1)"

text \<open>The maps and the array of tags are freed, on the error path and at the end.\<close>

definition free_mq_map :: "hctx_type \<Rightarrow> blk_mq_tag_set \<times> kstate \<Rightarrow> (blk_mq_tag_set \<times> kstate) option" where
  "free_mq_map j y = (case y of (s, k) \<Rightarrow> do {
     (p, k1) \<leftarrow> k_free (set_map_mem s j) k;
     Some (s\<lparr>set_map_mem := (set_map_mem s)(j := Null)\<rparr>, k1) })"

definition free_mq_maps :: "blk_mq_tag_set \<Rightarrow> kstate \<Rightarrow> (blk_mq_tag_set \<times> kstate) option" where
  "free_mq_maps s k = do {
     (s1, k1) \<leftarrow> for_each free_mq_map (hctx_types (nr_maps s)) (s, k);
     (p, k2) \<leftarrow> k_free (tags_mem s1) k1;
     Some (s1\<lparr>tags_mem := Null\<rparr>, k2) }"

definition tag_set_fail :: "rc \<Rightarrow> blk_mq_tag_set \<Rightarrow> kstate \<Rightarrow> (rc \<times> blk_mq_tag_set \<times> kstate) option" where
  "tag_set_fail ret s k = do { (s1, k1) \<leftarrow> free_mq_maps s k; Some (ret, s1, k1) }"

text \<open>What is done when the arguments are in order. Maps of an earlier use are expected to be null.\<close>

definition alloc_tag_set_mem :: "menv \<Rightarrow> blk_mq_tag_set \<Rightarrow> kstate \<Rightarrow> (rc \<times> blk_mq_tag_set \<times> kstate) option" where
  "alloc_tag_set_mem v s k =
     (case k_new (mk v) k of (p, k1) \<Rightarrow>
        if p = Null then Some (Err ENOMEM, s\<lparr>tags_mem := Null\<rparr>, k1)
        else
          (case alloc_mq_maps v (hctx_types (nr_maps s)) (s\<lparr>tags_mem := Live, set_tags := replicate (set_nr_queues v s) No_tags\<rparr>) k1 of
             (ok, s1, k2) \<Rightarrow>
               if \<not> ok then tag_set_fail (Err ENOMEM) s1 k2
               else do {
                 (ret, s2) \<leftarrow> blk_mq_update_queue_map v s1;
                 if ret \<noteq> Ret 0 then tag_set_fail ret s2 k2
                 else do {
                   (ret2, s3, k3) \<leftarrow> blk_mq_alloc_rq_maps v s2 k2;
                   if ret2 \<noteq> Ret 0 then tag_set_fail ret2 s3 k3 else Some (Ret 0, s3, k3) } }))"

definition blk_mq_alloc_tag_set :: "menv \<Rightarrow> blk_mq_tag_set \<Rightarrow> kstate \<Rightarrow> (rc \<times> blk_mq_tag_set \<times> kstate) option" where
  "blk_mq_alloc_tag_set v s k =
     (case tag_set_args v s of (r, s1) \<Rightarrow> if r = Ret 0 then alloc_tag_set_mem v s1 k else Some (r, s1, k))"

definition free_tags_at :: "menv \<Rightarrow> nat \<Rightarrow> blk_mq_tag_set \<times> kstate \<Rightarrow> (blk_mq_tag_set \<times> kstate) option" where
  "free_tags_at v i y = (case y of (s, k) \<Rightarrow> blk_mq_free_map_and_requests v i s k)"

definition blk_mq_free_tag_set :: "menv \<Rightarrow> blk_mq_tag_set \<Rightarrow> kstate \<Rightarrow> (blk_mq_tag_set \<times> kstate) option" where
  "blk_mq_free_tag_set v s k = do {
     (s1, k1) \<leftarrow> for_each (free_tags_at v) [0..<set_nr_queues v s] (s, k);
     free_mq_maps s1 k1 }"

end
