(* ===== verification/Blk_Mq_Setup.thy ===== *)
theory Blk_Mq_Setup
  imports Blk_Mq_Tags
begin

text \<open>
  Request queues of the block layer, \<open>block/blk-mq.c\<close> from \<open>blk_mq_hctx_notify_dead\<close> on: hardware contexts are allocated,
  set up and kept for reuse, software contexts are mapped to them, queues share a tag set, and the number of hardware
  queues of a live tag set is changed. A queue is the state of \<open>Blk_Types\<close> together with its array of hardware contexts,
  of which \<open>hw_slots\<close> tells the entries that are not null. Entries of sysfs and debugfs are left out.
\<close>

section \<open>State\<close>

definition BLK_MQ_POLL_CLASSIC :: int where "BLK_MQ_POLL_CLASSIC = -1"

record mq_queue =
  q_blk :: blk
  hw_slots :: "bool list"
  unused_hctxs :: "blk_mq_hw_ctx list"
  poll_cb :: ptr
  mq_kobj :: ptr
  has_mq_ops :: bool
  has_tag_set :: bool
  poll_nsec :: int

abbreviation q_nr_hw :: "mq_queue \<Rightarrow> nat" where
  "q_nr_hw q \<equiv> nr_hw_queues (the_q (q_blk q))"

definition on_blk :: "(blk \<Rightarrow> blk) \<Rightarrow> mq_queue \<Rightarrow> mq_queue" where
  "on_blk f q = q\<lparr>q_blk := f (q_blk q)\<rparr>"

text \<open>The hardware context in an entry of the array; a null entry must not be used.\<close>

definition hw_get :: "nat \<Rightarrow> mq_queue \<Rightarrow> blk_mq_hw_ctx option" where
  "hw_get i q = do { p \<leftarrow> arr_get (hw_slots q) (int i); if p then Some (hctx_at (q_blk q) i) else None }"

definition on_hw :: "(blk_mq_hw_ctx \<Rightarrow> blk_mq_hw_ctx) \<Rightarrow> nat \<Rightarrow> mq_queue \<Rightarrow> mq_queue option" where
  "on_hw f i q = do { _ \<leftarrow> hw_get i q; Some (on_blk (upd_hctx i f) q) }"

text \<open>The pointer \<open>set->tags[i]\<close>, as the address of the tags of queue \<open>i\<close>.\<close>

definition tags_addr :: "blk_mq_tag_set \<Rightarrow> nat \<Rightarrow> nat option option" where
  "tags_addr ts i = do { p \<leftarrow> arr_get (set_tags ts) (int i); Some (if p = No_tags then None else Some i) }"

section \<open>Hardware contexts\<close>

text \<open>\<open>n\<close> allocations in a row, undone in the reverse order when one of them fails.\<close>

fun alloc_objs :: "kenv \<Rightarrow> nat \<Rightarrow> kstate \<Rightarrow> bool \<times> kstate" where
  "alloc_objs e 0 k = (True, k)"
| "alloc_objs e (Suc n) k =
     (case k_new e k of (p, k1) \<Rightarrow>
        if p = Null then (False, k1)
        else (case alloc_objs e n k1 of (ok, k2) \<Rightarrow> (ok, if ok then k2 else kmem_add (-1) k2)))"

definition zero_hctx :: blk_mq_hw_ctx where
  "zero_hctx = \<lparr>hctx_dispatch = [], hctx_state = {}, hctx_cpumask = [], next_cpu = 0, next_cpu_batch = 0, hctx_flags = {}, hctx_driver_data = Other_driver,
     ctx_map = {}, dispatch_from = None, dispatch_busy = 0, blk_switch = False, hctx_type_of = HCTX_TYPE_DEFAULT, nr_ctx = 0, hctx_ctxs = [],
     dispatch_wait = False, hctx_tags = None, sched_tags = None, hctx_queued = 0, hctx_run = 0, dispatched = (\<lambda>_. 0), numa_node = 0, queue_num = 0,
     nr_active = 0, poll_considered = 0, poll_invoked = 0, poll_success = 0\<rparr>"

text \<open>The context, its CPU mask, its array of software contexts, its bitmap and its flush queue.\<close>

definition hctx_objs :: nat where "hctx_objs = 5"

definition blk_mq_alloc_hctx :: "menv \<Rightarrow> blk_mq_tag_set \<Rightarrow> int \<Rightarrow> kstate \<Rightarrow> blk_mq_hw_ctx option \<times> kstate" where
  "blk_mq_alloc_hctx v ts node k =
     (case alloc_objs (mk v) hctx_objs k of (ok, k1) \<Rightarrow>
        (if ok then Some (zero_hctx\<lparr>numa_node := (if node = NUMA_NO_NODE then set_node ts else node),
           hctx_flags := set_flags ts - {BLK_MQ_F_TAG_SHARED}\<rparr>) else None, k1))"

text \<open>The last reference to a context frees what \<open>blk_mq_alloc_hctx\<close> has allocated.\<close>

definition hctx_put :: "kstate \<Rightarrow> kstate" where
  "hctx_put k = kmem_add (- int hctx_objs) k"

definition call_exit_hctx :: "menv \<Rightarrow> kstate \<Rightarrow> kstate" where
  "call_exit_hctx v k = (if op_exit_hctx v then kmem_add (-1) k else k)"

definition call_init_hctx :: "menv \<Rightarrow> nat \<Rightarrow> blk_mq_hw_ctx \<Rightarrow> kstate \<Rightarrow> bool \<times> blk_mq_hw_ctx \<times> kstate" where
  "call_init_hctx v i h k =
     (case op_init_hctx v of
        None \<Rightarrow> (True, h, k)
      | Some f \<Rightarrow>
          (case k_do (mk v) k of (r, k1) \<Rightarrow>
             if r = Ret 0 then (True, f i h, if op_exit_hctx v then kmem_add 1 k1 else k1) else (False, h, k1)))"

definition blk_mq_init_hctx :: "menv \<Rightarrow> blk_mq_tag_set \<Rightarrow> blk_mq_hw_ctx \<Rightarrow> nat \<Rightarrow> kstate \<Rightarrow> (bool \<times> blk_mq_hw_ctx \<times> kstate) option" where
  "blk_mq_init_hctx v ts h i k = do {
     t \<leftarrow> tags_addr ts i;
     let h1 = h\<lparr>queue_num := i, hctx_tags := t, blk_switch := False\<rparr>;
     case call_init_hctx v i h1 k of (ok, h2, k1) \<Rightarrow>
       if \<not> ok then Some (False, h2, k1)
       else (case blk_mq_init_request v k1 of (r, k2) \<Rightarrow>
         if r = Ret 0 then Some (True, h2, k2) else Some (False, h2, call_exit_hctx v k2)) }"

text \<open>A context that is taken down stays on the list of unused ones.\<close>

definition blk_mq_exit_hctx :: "menv \<Rightarrow> blk_mq_hw_ctx \<Rightarrow> mq_queue \<Rightarrow> kstate \<Rightarrow> mq_queue \<times> kstate" where
  "blk_mq_exit_hctx v h q k =
     (let h1 = (if blk_mq_hw_queue_mapped h then tag_idle v h else h);
          k1 = (if op_exit_request v then kmem_add (-1) k else k) in
      (q\<lparr>unused_hctxs := h1 # unused_hctxs q\<rparr>, call_exit_hctx v k1))"

definition exit_hw :: "menv \<Rightarrow> nat \<Rightarrow> mq_queue \<times> kstate \<Rightarrow> (mq_queue \<times> kstate) option" where
  "exit_hw v i y = (case y of (q, k) \<Rightarrow> do { h \<leftarrow> hw_get i q; Some (blk_mq_exit_hctx v h q k) })"

definition blk_mq_exit_hw_queues :: "menv \<Rightarrow> nat \<Rightarrow> mq_queue \<Rightarrow> kstate \<Rightarrow> (mq_queue \<times> kstate) option" where
  "blk_mq_exit_hw_queues v nr_queue q k = for_each (exit_hw v) [0..<min (q_nr_hw q) nr_queue] (q, k)"

fun take_unused :: "int \<Rightarrow> blk_mq_hw_ctx list \<Rightarrow> blk_mq_hw_ctx option \<times> blk_mq_hw_ctx list" where
  "take_unused node [] = (None, [])"
| "take_unused node (h # hs) =
     (if numa_node h = node then (Some h, hs) else (case take_unused node hs of (r, hs') \<Rightarrow> (r, h # hs')))"

definition blk_mq_alloc_and_init_hctx ::
  "menv \<Rightarrow> blk_mq_tag_set \<Rightarrow> nat \<Rightarrow> int \<Rightarrow> mq_queue \<Rightarrow> kstate \<Rightarrow> (blk_mq_hw_ctx option \<times> mq_queue \<times> kstate) option" where
  "blk_mq_alloc_and_init_hctx v ts i node q k =
     (case take_unused node (unused_hctxs q) of (found, rest) \<Rightarrow>
        let q1 = q\<lparr>unused_hctxs := rest\<rparr> in
        case (case found of Some h \<Rightarrow> (Some h, k) | None \<Rightarrow> blk_mq_alloc_hctx v ts node k) of
          (None, k1) \<Rightarrow> Some (None, q1, k1)
        | (Some h, k1) \<Rightarrow> do {
            (ok, h1, k2) \<leftarrow> blk_mq_init_hctx v ts h i k1;
            Some (if ok then (Some h1, q1, k2) else (None, q1, hctx_put k2)) })"

definition put_hw :: "nat \<Rightarrow> blk_mq_hw_ctx \<Rightarrow> mq_queue \<Rightarrow> mq_queue" where
  "put_hw i h q = on_blk (upd_hctx i (\<lambda>_. h)) (q\<lparr>hw_slots := (hw_slots q)[i := True]\<rparr>)"

text \<open>The loop of \<open>blk_mq_realloc_hw_ctxs\<close>; the number is the value of \<open>i\<close> after it.\<close>

fun realloc_loop :: "menv \<Rightarrow> blk_mq_tag_set \<Rightarrow> nat \<Rightarrow> nat \<Rightarrow> mq_queue \<Rightarrow> kstate \<Rightarrow> (nat \<times> mq_queue \<times> kstate) option" where
  "realloc_loop v ts i 0 q k = Some (i, q, k)"
| "realloc_loop v ts i (Suc n) q k = do {
     p \<leftarrow> arr_get (hw_slots q) (int i);
     let node = hw_queue_to_node v (set_map ts HCTX_TYPE_DEFAULT) i;
     if p \<and> numa_node (hctx_at (q_blk q) i) = node then realloc_loop v ts (Suc i) n q k
     else do {
       (r, q1, k1) \<leftarrow> blk_mq_alloc_and_init_hctx v ts i node q k;
       case r of
         Some h \<Rightarrow>
           (case (if p then blk_mq_exit_hctx v (hctx_at (q_blk q1) i) q1 k1 else (q1, k1)) of
              (q2, k2) \<Rightarrow> realloc_loop v ts (Suc i) n (put_hw i h q2) k2)
       | None \<Rightarrow> if p then realloc_loop v ts (Suc i) n q1 k1 else Some (i, q1, k1) } }"

definition drop_hw :: "menv \<Rightarrow> nat \<Rightarrow> blk_mq_tag_set \<times> mq_queue \<times> kstate \<Rightarrow> (blk_mq_tag_set \<times> mq_queue \<times> kstate) option" where
  "drop_hw v j y = (case y of (ts, q, k) \<Rightarrow> do {
     p \<leftarrow> arr_get (hw_slots q) (int j);
     if \<not> p then Some (ts, q, k)
     else do {
       (ts1, k1) \<leftarrow> (if hctx_tags (hctx_at (q_blk q) j) \<noteq> None then blk_mq_free_map_and_requests v j ts k else Some (ts, k));
       case blk_mq_exit_hctx v (hctx_at (q_blk q) j) q k1 of (q1, k2) \<Rightarrow>
         Some (ts1, q1\<lparr>hw_slots := (hw_slots q1)[j := False]\<rparr>, k2) } })"

definition set_q_nr_hw :: "nat \<Rightarrow> mq_queue \<Rightarrow> mq_queue" where
  "set_q_nr_hw n q = on_blk (upd_q (\<lambda>r. r\<lparr>nr_hw_queues := n\<rparr>)) q"

definition blk_mq_realloc_hw_ctxs :: "menv \<Rightarrow> blk_mq_tag_set \<Rightarrow> mq_queue \<Rightarrow> kstate \<Rightarrow> (blk_mq_tag_set \<times> mq_queue \<times> kstate) option" where
  "blk_mq_realloc_hw_ctxs v ts q k = do {
     (i, q1, k1) \<leftarrow> realloc_loop v ts 0 (set_nr_hw ts) q k;
     if i \<noteq> set_nr_hw ts then for_each (drop_hw v) [q_nr_hw q1..<i] (ts, q1, k1)
     else for_each (drop_hw v) [i..<q_nr_hw q1] (ts, set_q_nr_hw (set_nr_hw ts) q1, k1) }"

section \<open>Software contexts\<close>

definition blk_mq_map_queue_type :: "blk_mq_tag_set \<Rightarrow> mq_queue \<Rightarrow> hctx_type \<Rightarrow> nat \<Rightarrow> nat option" where
  "blk_mq_map_queue_type ts q j c = do {
     h \<leftarrow> arr_get (mq_map (set_map ts j)) (int c);
     _ \<leftarrow> arr_get (hw_slots q) (int h);
     Some h }"

definition init_cpu_node :: "menv \<Rightarrow> blk_mq_tag_set \<Rightarrow> nat \<Rightarrow> nat \<Rightarrow> hctx_type \<Rightarrow> mq_queue \<Rightarrow> mq_queue option" where
  "init_cpu_node v ts nr_hw c j q = do {
     h \<leftarrow> blk_mq_map_queue_type ts q j c;
     if nr_hw \<le> 1 then Some q
     else on_hw (\<lambda>x. if numa_node x = NUMA_NO_NODE then x\<lparr>numa_node := local_memory_node v c\<rparr> else x) h q }"

definition init_cpu_queue :: "menv \<Rightarrow> blk_mq_tag_set \<Rightarrow> nat \<Rightarrow> nat \<Rightarrow> mq_queue \<Rightarrow> mq_queue option" where
  "init_cpu_queue v ts nr_hw c q =
     for_each (init_cpu_node v ts nr_hw c) (hctx_types (nr_maps ts))
       (on_blk (upd_ctx c (\<lambda>x. x\<lparr>ctx_cpu := c, rq_lists := (\<lambda>_. [])\<rparr>)) q)"

definition blk_mq_init_cpu_queues :: "menv \<Rightarrow> blk_mq_tag_set \<Rightarrow> nat \<Rightarrow> mq_queue \<Rightarrow> mq_queue option" where
  "blk_mq_init_cpu_queues v ts nr_hw q = for_each (init_cpu_queue v ts nr_hw) (possible_cpus v) q"

text \<open>
  \<open>blk_mq_map_swqueue\<close>, in the steps of the code. The entries of \<open>hctx->ctxs\<close> below \<open>nr_ctx\<close> are the list \<open>hctx_ctxs\<close>; the
  array has \<open>nr_cpu_ids\<close> entries, and \<open>nr_ctx\<close> is an unsigned short.
\<close>

definition clear_hw :: "nat \<Rightarrow> mq_queue \<Rightarrow> mq_queue option" where
  "clear_hw i q = on_hw (\<lambda>h. h\<lparr>hctx_cpumask := [], nr_ctx := 0, hctx_ctxs := [], dispatch_from := None\<rparr>) i q"

definition set_ctx_hctx :: "nat \<Rightarrow> hctx_type \<Rightarrow> nat \<Rightarrow> mq_queue \<Rightarrow> mq_queue" where
  "set_ctx_hctx c j h q = on_blk (upd_ctx c (\<lambda>x. x\<lparr>ctx_hctxs := (ctx_hctxs x)(j := h)\<rparr>)) q"

definition link_ctx :: "nat \<Rightarrow> hctx_type \<Rightarrow> nat \<Rightarrow> mq_queue \<Rightarrow> mq_queue" where
  "link_ctx c j h q =
     (let n = nr_ctx (hctx_at (q_blk q) h) in
      on_blk (upd_hctx h (\<lambda>x. x\<lparr>hctx_cpumask := hctx_cpumask x @ [c], hctx_type_of := j, hctx_ctxs := hctx_ctxs x @ [c], nr_ctx := Suc n\<rparr>))
        (on_blk (upd_ctx c (\<lambda>x. x\<lparr>index_hw := (index_hw x)(j := n)\<rparr>)) q))"

definition map_ctx_type :: "menv \<Rightarrow> blk_mq_tag_set \<Rightarrow> nat \<Rightarrow> hctx_type \<Rightarrow> mq_queue \<Rightarrow> mq_queue option" where
  "map_ctx_type v ts c j q =
     (if map_nr_queues (set_map ts j) = 0
      then do { h \<leftarrow> blk_mq_map_queue_type ts q HCTX_TYPE_DEFAULT c; Some (set_ctx_hctx c j h q) }
      else do {
        h \<leftarrow> blk_mq_map_queue_type ts q j c;
        let q1 = set_ctx_hctx c j h q;
        x \<leftarrow> hw_get h q1;
        if c \<in> set (hctx_cpumask x) then Some q1
        else if nr_cpu_ids (mkern v) \<le> nr_ctx x \<or> Suc (nr_ctx x) mod 65536 = 0 then None
        else Some (link_ctx c j h q1) })"

definition map_ctx_rest :: "blk_mq_tag_set \<Rightarrow> nat \<Rightarrow> hctx_type \<Rightarrow> mq_queue \<Rightarrow> mq_queue option" where
  "map_ctx_rest ts c j q = do { h \<leftarrow> blk_mq_map_queue_type ts q HCTX_TYPE_DEFAULT c; Some (set_ctx_hctx c j h q) }"

definition need_tags :: "menv \<Rightarrow> nat \<Rightarrow> blk_mq_tag_set \<Rightarrow> kstate \<Rightarrow> (blk_mq_tag_set \<times> kstate) option" where
  "need_tags v c ts k = do {
     h \<leftarrow> arr_get (mq_map (set_map ts HCTX_TYPE_DEFAULT)) (int c);
     p \<leftarrow> arr_get (set_tags ts) (int h);
     if p \<noteq> No_tags then Some (ts, k)
     else do {
       (ok, ts1, k1) \<leftarrow> alloc_rq_map' v h ts k;
       Some (if ok then ts1 else upd_map HCTX_TYPE_DEFAULT (\<lambda>m. m\<lparr>mq_map := (mq_map m)[c := 0]\<rparr>) ts1, k1) } }"

definition map_cpu :: "menv \<Rightarrow> nat \<Rightarrow> blk_mq_tag_set \<times> mq_queue \<times> kstate \<Rightarrow> (blk_mq_tag_set \<times> mq_queue \<times> kstate) option" where
  "map_cpu v c y = (case y of (ts, q, k) \<Rightarrow> do {
     (ts1, k1) \<leftarrow> need_tags v c ts k;
     q1 \<leftarrow> for_each (map_ctx_type v ts1 c) (hctx_types (nr_maps ts1)) q;
     q2 \<leftarrow> for_each (map_ctx_rest ts1 c) (drop (nr_maps ts1) (hctx_types HCTX_MAX_TYPES)) q1;
     Some (ts1, q2, k1) })"

definition finish_hw :: "menv \<Rightarrow> nat \<Rightarrow> blk_mq_tag_set \<times> mq_queue \<times> kstate \<Rightarrow> (blk_mq_tag_set \<times> mq_queue \<times> kstate) option" where
  "finish_hw v i y = (case y of (ts, q, k) \<Rightarrow> do {
     h \<leftarrow> hw_get i q;
     t \<leftarrow> tags_addr ts i;
     if nr_ctx h = 0 then do {
       (ts1, k1) \<leftarrow> (if i \<noteq> 0 \<and> t \<noteq> None then blk_mq_free_map_and_requests v i ts k else Some (ts, k));
       q1 \<leftarrow> on_hw (\<lambda>x. x\<lparr>hctx_tags := None\<rparr>) i q;
       Some (ts1, q1, k1) }
     else do {
       q1 \<leftarrow> on_hw (\<lambda>x. x\<lparr>hctx_tags := t, next_cpu := int (blk_mq_first_mapped_cpu (mkern v) x), next_cpu_batch := BLK_MQ_CPU_WORK_BATCH\<rparr>) i q;
       Some (ts, q1, k) } })"

definition blk_mq_map_swqueue :: "menv \<Rightarrow> blk_mq_tag_set \<Rightarrow> mq_queue \<Rightarrow> kstate \<Rightarrow> (blk_mq_tag_set \<times> mq_queue \<times> kstate) option" where
  "blk_mq_map_swqueue v ts q k = do {
     q1 \<leftarrow> for_each clear_hw [0..<q_nr_hw q] q;
     (ts2, q2, k2) \<leftarrow> for_each (map_cpu v) (possible_cpus v) (ts, q1, k);
     for_each (finish_hw v) [0..<q_nr_hw q2] (ts2, q2, k2) }"

section \<open>Queues that share a tag set\<close>

definition queue_set_hctx_shared :: "bool \<Rightarrow> mq_queue \<Rightarrow> mq_queue option" where
  "queue_set_hctx_shared shared q =
     for_each (on_hw (\<lambda>h. h\<lparr>hctx_flags := (if shared then insert BLK_MQ_F_TAG_SHARED (hctx_flags h) else hctx_flags h - {BLK_MQ_F_TAG_SHARED})\<rparr>))
       [0..<q_nr_hw q] q"

definition share_queue :: "menv \<Rightarrow> bool \<Rightarrow> mq_queue \<Rightarrow> mq_queue option" where
  "share_queue v shared q = do {
     q1 \<leftarrow> queue_set_hctx_shared shared (on_blk (blk_mq_freeze_queue (mkern v)) q);
     Some (on_blk blk_mq_unfreeze_queue q1) }"

fun each_q :: "(mq_queue \<Rightarrow> mq_queue option) \<Rightarrow> mq_queue list \<Rightarrow> mq_queue list option" where
  "each_q f [] = Some []"
| "each_q f (q # qs) = do { q1 \<leftarrow> f q; qs1 \<leftarrow> each_q f qs; Some (q1 # qs1) }"

definition blk_mq_update_tag_set_depth :: "menv \<Rightarrow> bool \<Rightarrow> mq_queue list \<Rightarrow> mq_queue list option" where
  "blk_mq_update_tag_set_depth v shared qs = each_q (share_queue v shared) qs"

text \<open>The list of queues of a set is given without the queue that is removed.\<close>

definition blk_mq_del_queue_tag_set :: "menv \<Rightarrow> blk_mq_tag_set \<Rightarrow> mq_queue list \<Rightarrow> (blk_mq_tag_set \<times> mq_queue list) option" where
  "blk_mq_del_queue_tag_set v ts qs =
     (if length qs = 1 then do {
        qs1 \<leftarrow> blk_mq_update_tag_set_depth v False qs;
        Some (ts\<lparr>set_flags := set_flags ts - {BLK_MQ_F_TAG_SHARED}\<rparr>, qs1) }
      else Some (ts, qs))"

definition blk_mq_add_queue_tag_set :: "menv \<Rightarrow> blk_mq_tag_set \<Rightarrow> mq_queue \<Rightarrow> mq_queue list \<Rightarrow> (blk_mq_tag_set \<times> mq_queue \<times> mq_queue list) option" where
  "blk_mq_add_queue_tag_set v ts q qs = do {
     (ts1, qs1) \<leftarrow>
       (if qs \<noteq> [] \<and> BLK_MQ_F_TAG_SHARED \<notin> set_flags ts then do {
          qs1 \<leftarrow> blk_mq_update_tag_set_depth v True qs;
          Some (ts\<lparr>set_flags := insert BLK_MQ_F_TAG_SHARED (set_flags ts)\<rparr>, qs1) }
        else Some (ts, qs));
     q1 \<leftarrow> (if BLK_MQ_F_TAG_SHARED \<in> set_flags ts1 then queue_set_hctx_shared True q else Some q);
     Some (ts1, q1, qs1) }"

section \<open>Setting up a queue\<close>

definition blk_mq_alloc_ctxs :: "menv \<Rightarrow> mq_queue \<Rightarrow> kstate \<Rightarrow> rc \<times> mq_queue \<times> kstate" where
  "blk_mq_alloc_ctxs v q k =
     (case alloc_objs (mk v) 2 k of (ok, k1) \<Rightarrow> if ok then (Ret 0, q\<lparr>mq_kobj := Live\<rparr>, k1) else (Err ENOMEM, q, k1))"

text \<open>\<open>blk_mq_sysfs_deinit\<close> drops the last reference to the software contexts, which frees them.\<close>

definition blk_mq_sysfs_deinit :: "mq_queue \<Rightarrow> kstate \<Rightarrow> mq_queue \<times> kstate" where
  "blk_mq_sysfs_deinit q k = (q\<lparr>mq_kobj := Freed\<rparr>, kmem_add (-2) k)"

definition blk_mq_release :: "mq_queue \<Rightarrow> kstate \<Rightarrow> mq_queue \<times> kstate" where
  "blk_mq_release q k =
     blk_mq_sysfs_deinit (q\<lparr>unused_hctxs := [], hw_slots := []\<rparr>) (kmem_add (-1) ((hctx_put ^^ length (unused_hctxs q)) k))"

definition err_poll :: "mq_queue \<Rightarrow> kstate \<Rightarrow> mq_queue \<times> kstate" where
  "err_poll q k = (q\<lparr>poll_cb := Null, has_mq_ops := False\<rparr>, kmem_add (-1) k)"

text \<open>The part of \<open>blk_mq_init_allocated_queue\<close> after the hardware contexts.\<close>

definition init_queue_fields :: "blk_mq_tag_set \<Rightarrow> mq_queue \<Rightarrow> mq_queue" where
  "init_queue_fields ts q =
     on_blk (upd_q (\<lambda>r. r\<lparr>queue_flags := queue_flags r \<union> {QUEUE_FLAG_IO_STAT, QUEUE_FLAG_SAME_COMP} \<union>
         (if 2 < nr_maps ts \<and> map_nr_queues (set_map ts HCTX_TYPE_POLL) \<noteq> 0 then {QUEUE_FLAG_POLL} else {}),
         q_requeue_list := [], nr_requests := queue_depth ts\<rparr>))
       (q\<lparr>has_tag_set := True, poll_nsec := BLK_MQ_POLL_CLASSIC\<rparr>)"

definition init_elevator :: "menv \<Rightarrow> bool \<Rightarrow> mq_queue \<Rightarrow> mq_queue" where
  "init_elevator v elevator_init q =
     (if elevator_init then on_blk (upd_q (\<lambda>r. r\<lparr>q_elevator := default_elevator v\<rparr>)) q else q)"

definition blk_mq_init_allocated_queue ::
  "menv \<Rightarrow> bool \<Rightarrow> blk_mq_tag_set \<Rightarrow> mq_queue \<Rightarrow> mq_queue list \<Rightarrow> kstate \<Rightarrow> (rc \<times> blk_mq_tag_set \<times> mq_queue \<times> mq_queue list \<times> kstate) option" where
  "blk_mq_init_allocated_queue v elevator_init ts q qs k =
     (let q0 = q\<lparr>has_mq_ops := True\<rparr> in
      case k_new (mk v) k of (p, k1) \<Rightarrow>
        if p = Null then Some (Err ENOMEM, ts, q0\<lparr>has_mq_ops := False\<rparr>, qs, k1)
        else
          (case blk_mq_alloc_ctxs v (q0\<lparr>poll_cb := Live\<rparr>) k1 of (r, q1, k2) \<Rightarrow>
             if r \<noteq> Ret 0 then (case err_poll q1 k2 of (q2, k3) \<Rightarrow> Some (Err ENOMEM, ts, q2, qs, k3))
             else
               (case k_new (mk v) k2 of (a, k3) \<Rightarrow>
                  if a = Null then
                    (case blk_mq_sysfs_deinit q1 k3 of (q2, k4) \<Rightarrow> case err_poll q2 k4 of (q3, k5) \<Rightarrow> Some (Err ENOMEM, ts, q3, qs, k5))
                  else do {
                    (ts1, q2, k4) \<leftarrow> blk_mq_realloc_hw_ctxs v ts (q1\<lparr>hw_slots := replicate (set_nr_queues v ts) False, unused_hctxs := []\<rparr>) k3;
                    if q_nr_hw q2 = 0 then
                      (case blk_mq_sysfs_deinit (set_q_nr_hw 0 q2\<lparr>hw_slots := []\<rparr>) (kmem_add (-1) k4) of (q3, k5) \<Rightarrow>
                         case err_poll q3 k5 of (q4, k6) \<Rightarrow> Some (Err ENOMEM, ts1, q4, qs, k6))
                    else do {
                      q3 \<leftarrow> blk_mq_init_cpu_queues v ts1 (set_nr_hw ts1) (init_queue_fields ts1 q2);
                      (ts2, q4, qs1) \<leftarrow> blk_mq_add_queue_tag_set v ts1 q3 qs;
                      (ts3, q5, k5) \<leftarrow> blk_mq_map_swqueue v ts2 q4 k4;
                      Some (Ret 0, ts3, init_elevator v elevator_init q5, qs1, k5) } })))"

text \<open>
  \<open>blk_alloc_queue_node\<close> gives a queue without hardware queues, here \<open>q\<close>. \<open>blk_cleanup_queue\<close> on a queue that has lost its
  operations only drops the queue itself.
\<close>

definition blk_mq_init_queue ::
  "menv \<Rightarrow> blk_mq_tag_set \<Rightarrow> mq_queue \<Rightarrow> mq_queue list \<Rightarrow> kstate \<Rightarrow> (rc \<times> blk_mq_tag_set \<times> mq_queue \<times> mq_queue list \<times> kstate) option" where
  "blk_mq_init_queue v ts q qs k =
     (case k_new (mk v) k of (p, k1) \<Rightarrow>
        if p = Null then Some (Err ENOMEM, ts, q, qs, k1)
        else do {
          (r, ts1, q1, qs1, k2) \<leftarrow> blk_mq_init_allocated_queue v False ts q qs k1;
          Some (r, ts1, q1, qs1, if r = Ret 0 then k2 else kmem_add (-1) k2) })"

definition sq_tag_set :: "nat \<Rightarrow> hctx_flag set \<Rightarrow> blk_mq_tag_set" where
  "sq_tag_set depth flags =
     \<lparr>set_map = (\<lambda>_. \<lparr>mq_map = [], map_nr_queues = 0, map_offset = 0\<rparr>), set_map_mem = (\<lambda>_. Null), nr_maps = 1, set_nr_hw = 1, queue_depth = depth,
      reserved_tags = 0, cmd_size = 0, set_node = NUMA_NO_NODE, set_flags = flags, set_tags = [], tags_mem = Null\<rparr>"

definition blk_mq_init_sq_queue ::
  "menv \<Rightarrow> nat \<Rightarrow> hctx_flag set \<Rightarrow> mq_queue \<Rightarrow> kstate \<Rightarrow> (rc \<times> blk_mq_tag_set \<times> mq_queue \<times> kstate) option" where
  "blk_mq_init_sq_queue v depth flags q k = do {
     (r, ts1, k1) \<leftarrow> blk_mq_alloc_tag_set v (sq_tag_set depth flags) k;
     if r \<noteq> Ret 0 then Some (r, ts1, q, k1)
     else do {
       (r2, ts2, q2, qs, k2) \<leftarrow> blk_mq_init_queue v ts1 q [] k1;
       if r2 = Ret 0 then Some (Ret 0, ts2, q2, k2)
       else do { (ts3, k3) \<leftarrow> blk_mq_free_tag_set v ts2 k2; Some (r2, ts3, q2, k3) } } }"

definition blk_mq_exit_queue ::
  "menv \<Rightarrow> blk_mq_tag_set \<Rightarrow> mq_queue \<Rightarrow> mq_queue list \<Rightarrow> kstate \<Rightarrow> (blk_mq_tag_set \<times> mq_queue \<times> mq_queue list \<times> kstate) option" where
  "blk_mq_exit_queue v ts q qs k = do {
     (ts1, qs1) \<leftarrow> blk_mq_del_queue_tag_set v ts qs;
     (q1, k1) \<leftarrow> blk_mq_exit_hw_queues v (set_nr_hw ts1) q k;
     Some (ts1, q1, qs1, k1) }"

section \<open>Changing a live queue\<close>

text \<open>The requests of a CPU that goes away move to the dispatch list of the hardware queue.\<close>

definition blk_mq_hctx_notify_dead :: "kernel \<Rightarrow> nat \<Rightarrow> nat \<Rightarrow> blk \<Rightarrow> blk" where
  "blk_mq_hctx_notify_dead k cpu h s =
     (let t = hctx_type_of (hctx_at s h); tmp = rq_lists (ctx_at s cpu) t in
      if tmp = [] then s
      else
        (let s1 = blk_mq_hctx_clear_pending h cpu (upd_ctx cpu (\<lambda>x. x\<lparr>rq_lists := (rq_lists x)(t := [])\<rparr>) s);
             s2 = upd_hctx h (\<lambda>x. x\<lparr>hctx_dispatch := hctx_dispatch x @ tmp\<rparr>) s1 in
         snd (blk_mq_run_hw_queue k h True s2)))"

text \<open>\<open>blk_mq_tag_update_depth\<close> is outside the code; its result is an answer of the environment.\<close>

definition update_depth_hw :: "menv \<Rightarrow> nat \<Rightarrow> nat \<Rightarrow> rc \<times> mq_queue \<times> kstate \<Rightarrow> (rc \<times> mq_queue \<times> kstate) option" where
  "update_depth_hw v nr i y = (case y of (ret, q, k) \<Rightarrow>
     if ret \<noteq> Ret 0 then Some y
     else do {
       h \<leftarrow> hw_get i q;
       if hctx_tags h = None then Some y
       else (case k_do (mk v) k of (r, k1) \<Rightarrow>
         Some (r, on_blk (log_ev (Call ''blk_mq_tag_update_depth'' [int i, int nr, if sched_tags h = None then 0 else 1])) q, k1)) })"

definition blk_mq_update_nr_requests :: "menv \<Rightarrow> nat \<Rightarrow> mq_queue \<Rightarrow> kstate \<Rightarrow> (rc \<times> mq_queue \<times> kstate) option" where
  "blk_mq_update_nr_requests v nr q k =
     (if \<not> has_tag_set q then Some (Err EINVAL, q, k)
      else if nr_requests (the_q (q_blk q)) = nr then Some (Ret 0, q, k)
      else do {
        let q1 = on_blk blk_mq_quiesce_queue (on_blk (blk_mq_freeze_queue (mkern v)) q);
        (ret, q2, k1) \<leftarrow> for_each (update_depth_hw v nr) [0..<q_nr_hw q1] (Ret 0, q1, k);
        let q3 = (if ret = Ret 0 then on_blk (upd_q (\<lambda>r. r\<lparr>nr_requests := nr\<rparr>)) q2 else q2);
        Some (ret, on_blk blk_mq_unfreeze_queue (on_blk (blk_mq_unquiesce_queue (mkern v)) q3), k1) })"

text \<open>The schedulers of the queues, remembered by the position of the queue in the list of the set.\<close>

definition blk_mq_elv_switch_none :: "menv \<Rightarrow> nat \<Rightarrow> mq_queue \<Rightarrow> (nat \<times> elevator) list \<Rightarrow> kstate \<Rightarrow> bool \<times> mq_queue \<times> (nat \<times> elevator) list \<times> kstate" where
  "blk_mq_elv_switch_none v i q head k =
     (case q_elevator (the_q (q_blk q)) of
        None \<Rightarrow> (True, q, head, k)
      | Some e \<Rightarrow>
          (case k_new (mk v) k of (p, k1) \<Rightarrow>
             if p = Null then (False, q, head, k1)
             else (True, on_blk (upd_q (\<lambda>r. r\<lparr>q_elevator := None\<rparr>)) q, (i, e) # head, k1)))"

fun switch_none_all :: "menv \<Rightarrow> nat \<Rightarrow> mq_queue list \<Rightarrow> (nat \<times> elevator) list \<Rightarrow> kstate \<Rightarrow> bool \<times> mq_queue list \<times> (nat \<times> elevator) list \<times> kstate" where
  "switch_none_all v i [] head k = (True, [], head, k)"
| "switch_none_all v i (q # qs) head k =
     (case blk_mq_elv_switch_none v i q head k of (ok, q1, head1, k1) \<Rightarrow>
        if \<not> ok then (False, q1 # qs, head1, k1)
        else (case switch_none_all v (Suc i) qs head1 k1 of (ok2, qs2, head2, k2) \<Rightarrow> (ok2, q1 # qs2, head2, k2)))"

text \<open>\<open>elevator_switch_mq\<close> leaves the queue without a scheduler when the scheduler cannot be set up.\<close>

definition blk_mq_elv_switch_back :: "menv \<Rightarrow> (nat \<times> elevator) list \<Rightarrow> nat \<Rightarrow> mq_queue \<Rightarrow> kstate \<Rightarrow> mq_queue \<times> kstate" where
  "blk_mq_elv_switch_back v head i q k =
     (case map_of head i of
        None \<Rightarrow> (q, k)
      | Some e \<Rightarrow>
          (case k_do (mk v) (kmem_add (-1) k) of (r, k1) \<Rightarrow>
             (on_blk (upd_q (\<lambda>x. x\<lparr>q_elevator := (if r = Ret 0 then Some e else None)\<rparr>)) q, k1)))"

fun switch_back_all :: "menv \<Rightarrow> (nat \<times> elevator) list \<Rightarrow> nat \<Rightarrow> mq_queue list \<Rightarrow> kstate \<Rightarrow> mq_queue list \<times> kstate" where
  "switch_back_all v head i [] k = ([], k)"
| "switch_back_all v head i (q # qs) k =
     (case blk_mq_elv_switch_back v head i q k of (q1, k1) \<Rightarrow>
        case switch_back_all v head (Suc i) qs k1 of (qs1, k2) \<Rightarrow> (q1 # qs1, k2))"

text \<open>
  The part of \<open>__blk_mq_update_nr_hw_queues\<close> from the label \<open>fallback\<close> on: queues that are done and queues to do. When a queue
  cannot get its hardware contexts, the old number is taken again and all queues start anew.
\<close>

definition fall_back :: "menv \<Rightarrow> nat \<Rightarrow> blk_mq_tag_set \<Rightarrow> blk_mq_tag_set" where
  "fall_back v prev ts = map_default v (ts\<lparr>set_nr_hw := prev\<rparr>)"

partial_function (option) update_queues ::
  "menv \<Rightarrow> nat \<Rightarrow> blk_mq_tag_set \<Rightarrow> mq_queue list \<Rightarrow> mq_queue list \<Rightarrow> kstate \<Rightarrow> (blk_mq_tag_set \<times> mq_queue list \<times> kstate) option" where
  "update_queues v prev ts dn todo k =
     (case todo of
        [] \<Rightarrow> Some (ts, dn, k)
      | q # qs \<Rightarrow> do {
          (ts1, q1, k1) \<leftarrow> blk_mq_realloc_hw_ctxs v ts q k;
          if q_nr_hw q1 \<noteq> set_nr_hw ts1 then update_queues v prev (fall_back v prev ts1) [] (dn @ q1 # qs) k1
          else do {
            (ts2, q2, k2) \<leftarrow> blk_mq_map_swqueue v ts1 q1 k1;
            update_queues v prev ts2 (dn @ [q2]) qs k2 } })"

definition blk_mq_update_nr_hw_queues :: "menv \<Rightarrow> nat \<Rightarrow> blk_mq_tag_set \<Rightarrow> mq_queue list \<Rightarrow> kstate \<Rightarrow> (blk_mq_tag_set \<times> mq_queue list \<times> kstate) option" where
  "blk_mq_update_nr_hw_queues v nr0 ts qs k =
     (let nr = (if nr_maps ts = 1 \<and> nr_cpu_ids (mkern v) < nr0 then nr_cpu_ids (mkern v) else nr0) in
      if nr < 1 \<or> nr = set_nr_hw ts then Some (ts, qs, k)
      else
        (case switch_none_all v 0 (map (on_blk (blk_mq_freeze_queue (mkern v))) qs) [] k of (ok, qs1, head, k1) \<Rightarrow> do {
           (ts2, qs2, k2) \<leftarrow>
             (if \<not> ok then Some (ts, qs1, k1)
              else do {
                (r, ts1) \<leftarrow> blk_mq_update_queue_map v (ts\<lparr>set_nr_hw := nr\<rparr>);
                update_queues v (set_nr_hw ts) ts1 [] qs1 k1 });
           case switch_back_all v head 0 qs2 k2 of (qs3, k3) \<Rightarrow>
             Some (ts2, map (on_blk blk_mq_unfreeze_queue) qs3, k3) }))"

end
