(* ===== verification/Blk_Mq_Tags_Correct.thy ===== *)
theory Blk_Mq_Tags_Correct
  imports Blk_Mq_Tags Blk_Mq_Run_Correct
begin

text \<open>
  Requests are laid out in their pages without overlap, the loops that allocate them end, a tag set gives back
  everything it allocated, and what the unwinding of a failed allocation forgets.
\<close>

section \<open>The layout of requests in pages\<close>

definition slots :: "nat \<Rightarrow> nat \<Rightarrow> nat \<Rightarrow> nat \<Rightarrow> (nat \<times> nat) option list" where
  "slots sz page off n = map (\<lambda>m. Some (page, off + m * sz)) [0..<n]"

lemma slots_0 [simp]: "slots sz page off 0 = []"
  by (simp add: slots_def)

lemma slots_Suc: "slots sz page off (Suc n) = Some (page, off) # slots sz page (off + sz) n"
proof -
  have "[0..<Suc n] = 0 # map Suc [0..<n]" by (simp only: upt_conv_Cons map_Suc_upt zero_less_Suc)
  then show ?thesis by (simp add: slots_def comp_def algebra_simps del: upt_Suc)
qed

lemma length_slots [simp]: "length (slots sz page off n) = n"
  by (simp add: slots_def)

text \<open>What the driver's initialisation of \<open>n\<close> requests costs.\<close>

definition init_cost :: "menv \<Rightarrow> nat \<Rightarrow> int" where
  "init_cost v n = (if op_init_request v then int n else 0)"

lemma init_cost_simps [simp]:
  "init_cost v 0 = 0" "init_cost v (Suc n) = init_cost v n + (if op_init_request v then 1 else 0)"
  "init_cost v (m + n) = init_cost v m + init_cost v n"
  by (simp_all add: init_cost_def)

lemma init_request_mem:
  "blk_mq_init_request v k = (ret, k1) \<Longrightarrow> kmem k1 = kmem k + (if ret = Ret 0 \<and> op_init_request v then 1 else 0)"
  by (auto simp: blk_mq_init_request_def dest: k_make_mem split: if_splits)

lemma init_slots_result:
  assumes "rt_static t = xs @ replicate r None" "length xs = i" "n \<le> r"
  shows "\<exists>ok t' k' m. init_slots v sz page off i n t k = Some (ok, t', k') \<and> m \<le> n \<and> (ok \<longrightarrow> m = n) \<and>
     t' = t\<lparr>rt_static := xs @ slots sz page off m @ replicate (r - m) None\<rparr> \<and> kmem k' = kmem k + init_cost v m"
  using assms
proof (induction n arbitrary: off i t k xs r)
  case 0
  then show ?case by (intro exI [of _ True] exI [of _ t] exI [of _ k] exI [of _ 0]) simp
next
  case (Suc n)
  obtain r' where r: "r = Suc r'" using Suc.prems(3) by (cases r) auto
  define a where "a = xs @ Some (page, off) # replicate r' None"
  have set: "arr_set (rt_static t) (int i) (Some (page, off)) = Some a"
    using Suc.prems r by (simp add: a_def list_update_append)
  obtain ret k1 where ret: "blk_mq_init_request v k = (ret, k1)" by force
  show ?case
  proof (cases "ret = Ret 0")
    case False
    then have "init_slots v sz page off i (Suc n) t k = Some (False, t\<lparr>rt_static := a[i := None]\<rparr>, k1)"
      using set ret by simp
    moreover have "a[i := None] = xs @ replicate r None" using Suc.prems(2) by (simp add: a_def r list_update_append)
    ultimately show ?thesis
      by (intro exI [of _ False] exI [of _ "t\<lparr>rt_static := a[i := None]\<rparr>"] exI [of _ k1] exI [of _ 0])
        (use init_request_mem [OF ret] False in simp)
  next
    case True
    have IH: "rt_static (t\<lparr>rt_static := a\<rparr>) = (xs @ [Some (page, off)]) @ replicate r' None"
        "length (xs @ [Some (page, off)]) = Suc i" "n \<le> r'"
      using Suc.prems r by (simp_all add: a_def)
    obtain ok t' k' m where m: "init_slots v sz page (off + sz) (Suc i) n (t\<lparr>rt_static := a\<rparr>) k1 = Some (ok, t', k')"
        "m \<le> n" "ok \<longrightarrow> m = n" "t' = t\<lparr>rt_static := (xs @ [Some (page, off)]) @ slots sz page (off + sz) m @ replicate (r' - m) None\<rparr>"
        "kmem k' = kmem k1 + init_cost v m"
      using Suc.IH [OF IH, where k = k1 and off = "off + sz"] by auto
    show ?thesis
      by (intro exI [of _ ok] exI [of _ t'] exI [of _ k'] exI [of _ "Suc m"])
        (use m True set ret init_request_mem [OF ret] in \<open>simp add: slots_Suc r\<close>)
  qed
qed

text \<open>The requests of a list of pages, given how many lie in each.\<close>

definition laid :: "nat \<Rightarrow> nat list \<Rightarrow> (nat \<times> nat) option list" where
  "laid sz ns = concat (map (\<lambda>p. slots sz p 0 (ns ! p)) [0..<length ns])"

definition layout :: "menv \<Rightarrow> nat \<Rightarrow> nat list \<Rightarrow> (nat \<times> nat) option list \<Rightarrow> bool" where
  "layout v sz ords xs \<longleftrightarrow>
     (\<exists>ns. length ns = length ords \<and> xs = laid sz ns \<and> (\<forall>p < length ords. ns ! p * sz \<le> order_to_size v (ords ! p)))"

lemma laid_append: "laid sz (ns @ [n]) = laid sz ns @ slots sz (length ns) 0 n"
proof -
  have eq: "map (\<lambda>p. slots sz p 0 ((ns @ [n]) ! p)) [0..<length ns] = map (\<lambda>p. slots sz p 0 (ns ! p)) [0..<length ns]"
    by (rule map_cong) (simp_all add: nth_append)
  show ?thesis unfolding laid_def length_append by (simp add: eq del: map_eq_conv)
qed

lemma layout_Nil [simp]: "layout v sz [] []"
  by (auto simp: layout_def laid_def)

lemma layout_append:
  assumes "layout v sz ords xs" "n * sz \<le> order_to_size v ord"
  shows "layout v sz (ords @ [ord]) (xs @ slots sz (length ords) 0 n)"
proof -
  obtain ns where ns: "length ns = length ords" "xs = laid sz ns" "\<forall>p < length ords. ns ! p * sz \<le> order_to_size v (ords ! p)"
    using assms(1) by (auto simp: layout_def)
  have "\<forall>p < length (ords @ [ord]). (ns @ [n]) ! p * sz \<le> order_to_size v ((ords @ [ord]) ! p)"
    using ns assms(2) by (auto simp: nth_append less_Suc_eq)
  then show ?thesis unfolding layout_def
    by (intro exI [of _ "ns @ [n]"]) (use ns laid_append [of sz ns n] in simp)
qed

lemma layout_inside:
  assumes "layout v sz ords xs" "x \<in> set xs"
  shows "\<exists>p off. x = Some (p, off) \<and> p < length ords \<and> off + sz \<le> order_to_size v (ords ! p)"
proof -
  obtain ns where ns: "length ns = length ords" "xs = laid sz ns" "\<forall>p < length ords. ns ! p * sz \<le> order_to_size v (ords ! p)"
    using assms(1) by (auto simp: layout_def)
  obtain p m where p: "p < length ords" "m < ns ! p" "x = Some (p, m * sz)"
    using assms(2) ns by (auto simp: laid_def slots_def)
  have "Suc m * sz \<le> ns ! p * sz" using p(2) by (intro mult_le_mono1) simp
  then show ?thesis using p ns(3) by (intro exI [of _ p] exI [of _ "m * sz"]) (auto simp: add.commute intro: order_trans)
qed

lemma sorted_laid: "sorted_wrt (\<lambda>x y. \<exists>p off p' off'. x = Some (p, off) \<and> y = Some (p', off') \<and> (p < p' \<or> p = p' \<and> off + sz \<le> off')) (laid sz ns)"
proof (induction ns rule: rev_induct)
  case Nil
  then show ?case by (simp add: laid_def)
next
  case (snoc n ns)
  have s: "sorted_wrt (\<lambda>x y. \<exists>p off p' off'. x = Some (p, off) \<and> y = Some (p', off') \<and> (p < p' \<or> p = p' \<and> off + sz \<le> off')) (slots sz (length ns) 0 n)"
  proof (induction n)
    case (Suc n)
    have "m * sz + sz \<le> n * sz" if "m < n" for m using that mult_le_mono1 [of "Suc m" n sz] by simp
    then show ?case using Suc by (auto simp: slots_def sorted_wrt_append)
  qed simp
  have "\<exists>p off p' off'. x = Some (p, off) \<and> y = Some (p', off') \<and> (p < p' \<or> p = p' \<and> off + sz \<le> off')"
    if "x \<in> set (laid sz ns)" "y \<in> set (slots sz (length ns) 0 n)" for x y
    using that by (auto simp: laid_def slots_def)
  then show ?case using snoc s by (simp add: sorted_wrt_append laid_append)
qed

lemma layout_apart:
  assumes "layout v sz ords xs" "i < j" "j < length xs" "xs ! i = Some (p, off)" "xs ! j = Some (p, off')"
  shows "off + sz \<le> off'"
proof -
  obtain ns where "xs = laid sz ns" using assms(1) by (auto simp: layout_def)
  then have "\<exists>p1 o1 p2 o2. xs ! i = Some (p1, o1) \<and> xs ! j = Some (p2, o2) \<and> (p1 < p2 \<or> p1 = p2 \<and> o1 + sz \<le> o2)"
    using sorted_wrt_nth_less [OF sorted_laid [of sz ns] assms(2)] assms(3) by simp
  then show ?thesis using assms(4,5) by auto
qed

section \<open>The loop over the pages ends\<close>

lemma shrink_order_fits:
  "sz \<le> left \<Longrightarrow> sz \<le> order_to_size v ord \<or> left < order_to_size v ord \<Longrightarrow> sz \<le> order_to_size v (shrink_order v left ord)"
  by (induction ord) auto

lemma get_pages_result:
  assumes "sz \<le> order_to_size v ord"
  shows "(case get_pages v sz ord k of
     (None, k1) \<Rightarrow> kmem k1 = kmem k
   | (Some ord', k1) \<Rightarrow> sz \<le> order_to_size v ord' \<and> kmem k1 = kmem k + 1)"
  using assms
proof (induction ord arbitrary: k)
  case 0
  then show ?case by (cases rule: k_new_cases [of "mk v" k]) auto
next
  case (Suc ord)
  show ?case
  proof (cases rule: k_new_cases [of "mk v" k])
    case (ok k1)
    then show ?thesis using Suc.prems by simp
  next
    case (fail k1)
    then show ?thesis using Suc.IH [of k1] by (auto split: prod.splits option.splits)
  qed
qed

text \<open>The state of the loop when \<open>i\<close> requests of \<open>depth\<close> are set up.\<close>

definition partly :: "menv \<Rightarrow> nat \<Rightarrow> nat \<Rightarrow> nat \<Rightarrow> rq_tags \<Rightarrow> bool" where
  "partly v sz depth i t \<longleftrightarrow>
     (\<exists>xs. rt_static t = xs @ replicate (depth - i) None \<and> length xs = i \<and> layout v sz (rt_pages t) xs)"

definition rqs_cost :: "menv \<Rightarrow> rq_tags \<Rightarrow> int" where
  "rqs_cost v t = int (length (rt_pages t)) + init_cost v (length (filter (\<lambda>x. x \<noteq> None) (rt_static t)))"

lemma layout_all_Some: "layout v sz ords xs \<Longrightarrow> filter (\<lambda>x. x \<noteq> None) xs = xs"
  by (intro filter_True) (auto dest: layout_inside)

lemma partly_cost:
  "partly v sz depth i t \<Longrightarrow> rqs_cost v t = int (length (rt_pages t)) + init_cost v i"
proof -
  assume "partly v sz depth i t"
  then obtain xs where xs: "rt_static t = xs @ replicate (depth - i) None" "length xs = i" "layout v sz (rt_pages t) xs"
    by (auto simp: partly_def)
  have "filter (\<lambda>x. x \<noteq> None) xs = xs" by (rule layout_all_Some [OF xs(3)])
  then show ?thesis using xs by (simp add: rqs_cost_def)
qed

lemma partly_slots:
  assumes p: "partly v sz depth i t" and n: "n \<le> depth - i" "n * sz \<le> order_to_size v ord"
  obtains ok t' k' m where "init_slots v sz (length (rt_pages t)) 0 i n (t\<lparr>rt_pages := rt_pages t @ [ord]\<rparr>) k = Some (ok, t', k')"
    "ok \<longrightarrow> m = n" "partly v sz depth (i + m) t'" "rt_nr_tags t' = rt_nr_tags t" "rt_pages t' = rt_pages t @ [ord]"
    "kmem k' = kmem k + init_cost v m"
proof -
  obtain xs where xs: "rt_static t = xs @ replicate (depth - i) None" "length xs = i" "layout v sz (rt_pages t) xs"
    using p by (auto simp: partly_def)
  define t0 where "t0 = t\<lparr>rt_pages := rt_pages t @ [ord]\<rparr>"
  have t0: "rt_static t0 = xs @ replicate (depth - i) None" by (simp add: t0_def xs)
  obtain ok t' k' m where m: "init_slots v sz (length (rt_pages t)) 0 i n t0 k = Some (ok, t', k')" "m \<le> n" "ok \<longrightarrow> m = n"
      "t' = t0\<lparr>rt_static := xs @ slots sz (length (rt_pages t)) 0 m @ replicate (depth - i - m) None\<rparr>" "kmem k' = kmem k + init_cost v m"
    using init_slots_result [OF t0 xs(2) n(1), where v = v and sz = sz and page = "length (rt_pages t)" and off = 0 and k = k] by blast
  have "m * sz \<le> order_to_size v ord" by (rule le_trans [OF mult_le_mono1 [OF m(2)] n(2)])
  then have "layout v sz (rt_pages t @ [ord]) (xs @ slots sz (length (rt_pages t)) 0 m)" by (rule layout_append [OF xs(3)])
  then have "partly v sz depth (i + m) t'"
    unfolding partly_def by (intro exI [of _ "xs @ slots sz (length (rt_pages t)) 0 m"]) (use m xs in \<open>simp add: t0_def\<close>)
  then show thesis using that [OF m(1) [unfolded t0_def] m(3) _ _ _ m(5)] m(4) by (simp add: t0_def)
qed

text \<open>
  The loop returns; when it succeeds all requests are set up. What it has taken is what the tags hold.
\<close>

lemma alloc_rqs_loop_result:
  assumes "0 < sz" "sz \<le> order_to_size v max_order" "partly v sz depth i t" "left = sz * (depth - i)" "i \<le> depth"
  shows "\<exists>ok t' k' i'. alloc_rqs_loop v sz depth i left t k = Some (ok, t', k') \<and> partly v sz depth i' t' \<and> (ok \<longrightarrow> i' = depth) \<and>
     rt_nr_tags t' = rt_nr_tags t \<and> kmem k' - rqs_cost v t' = kmem k - rqs_cost v t"
  using assms
proof (induction "depth - i" arbitrary: i left t k rule: less_induct)
  case less
  show ?case
  proof (cases "depth \<le> i")
    case True
    then show ?thesis using less.prems
      by (intro exI [of _ True] exI [of _ t] exI [of _ k] exI [of _ i]) (subst alloc_rqs_loop.simps, simp)
  next
    case False
    have left: "sz \<le> left" using less.prems(4) False by (cases "depth - i") simp_all
    define ord where "ord = shrink_order v left max_order"
    have "sz \<le> order_to_size v ord" unfolding ord_def by (rule shrink_order_fits [OF left]) (use less.prems(2) in simp)
    note gp = get_pages_result [OF this, of k]
    obtain g k1 where g: "get_pages v sz ord k = (g, k1)" by force
    show ?thesis
    proof (cases g)
      case None
      then have "alloc_rqs_loop v sz depth i left t k = Some (False, t, k1)"
        using False g by (subst alloc_rqs_loop.simps) (simp flip: ord_def)
      then show ?thesis using gp g None less.prems(3)
        by (intro exI [of _ False] exI [of _ t] exI [of _ k1] exI [of _ i]) simp
    next
      case (Some o1)
      have o1: "sz \<le> order_to_size v o1" "kmem k1 = kmem k + 1" using gp g Some by simp_all
      define n where "n = min (order_to_size v o1 div sz) (depth - i)"
      have "1 \<le> order_to_size v o1 div sz" using o1(1) less.prems(1) by (simp add: Suc_le_eq div_greater_zero_iff)
      then have n: "0 < n" "n \<le> depth - i" using False by (simp_all add: n_def)
      have "n * sz \<le> order_to_size v o1 div sz * sz" by (rule mult_le_mono1) (simp add: n_def)
      then have fit: "n * sz \<le> order_to_size v o1" using div_times_less_eq_dividend le_trans by blast
      obtain ok t' k' m where m: "init_slots v sz (length (rt_pages t)) 0 i n (t\<lparr>rt_pages := rt_pages t @ [o1]\<rparr>) k1 = Some (ok, t', k')"
          "ok \<longrightarrow> m = n" "partly v sz depth (i + m) t'" "rt_nr_tags t' = rt_nr_tags t" "rt_pages t' = rt_pages t @ [o1]" "kmem k' = kmem k1 + init_cost v m"
        by (rule partly_slots [OF less.prems(3) n(2) fit, of k1]) blast
      have step: "alloc_rqs_loop v sz depth i left t k =
          (if \<not> ok then Some (False, t', k') else alloc_rqs_loop v sz depth (i + n) (left - n * sz) t' k')"
        using False g Some m(1) by (subst alloc_rqs_loop.simps) (simp flip: ord_def n_def)
      have bal: "kmem k' - rqs_cost v t' = kmem k - rqs_cost v t"
        using partly_cost [OF m(3)] partly_cost [OF less.prems(3)] m(5,6) o1(2) by simp
      show ?thesis
      proof (cases ok)
        case False
        then show ?thesis unfolding step using m bal
          by (intro exI [of _ False] exI [of _ t'] exI [of _ k'] exI [of _ "i + m"]) simp
      next
        case True
        have lt: "depth - (i + n) < depth - i" using n False by simp
        have p: "partly v sz depth (i + n) t'" using m True by simp
        have l: "left - n * sz = sz * (depth - (i + n))" using less.prems(4) by (simp add: algebra_simps diff_mult_distrib2)
        have le: "i + n \<le> depth" using n(2) False by simp
        show ?thesis
          using less.hyps [OF lt less.prems(1,2) p l le, of k'] True m(4) bal unfolding step by auto
      qed
    qed
  qed
qed

lemma layout_full: "partly v sz depth depth t \<Longrightarrow> layout v sz (rt_pages t) (rt_static t) \<and> length (rt_static t) = depth"
  by (auto simp: partly_def)

lemma free_rqs_mem:
  assumes "op_exit_request v = op_init_request v" "blk_mq_free_rqs v t k = (t', k')"
  shows "kmem k' = kmem k - rqs_cost v t" "rt_pages t' = []"
  using assms by (auto simp: blk_mq_free_rqs_def rqs_cost_def init_cost_def Let_def split: if_splits)

lemma alloc_rqs_result:
  assumes sz: "0 < rq_size v ts" "rq_size v ts \<le> order_to_size v max_order" and ops: "op_exit_request v = op_init_request v"
    and t: "rt_static t = replicate depth None"
  shows "\<exists>ret t' k'. blk_mq_alloc_rqs v ts depth t k = Some (ret, t', k') \<and> rt_nr_tags t' = rt_nr_tags t \<and>
     (ret = Ret 0 \<longrightarrow> layout v (rq_size v ts) (rt_pages t') (rt_static t') \<and> length (rt_static t') = depth \<and> kmem k' = kmem k + rqs_cost v t') \<and>
     (ret \<noteq> Ret 0 \<longrightarrow> ret = Err ENOMEM \<and> kmem k' = kmem k)"
proof -
  define t0 where "t0 = t\<lparr>rt_pages := []\<rparr>"
  have p: "partly v (rq_size v ts) depth 0 t0" by (simp add: partly_def t0_def t)
  have c: "rqs_cost v t0 = 0" using partly_cost [OF p] by (simp add: t0_def)
  have n0: "rt_nr_tags t0 = rt_nr_tags t" by (simp add: t0_def)
  obtain ok t1 k1 i where l: "alloc_rqs_loop v (rq_size v ts) depth 0 (rq_size v ts * depth) t0 k = Some (ok, t1, k1)"
      "partly v (rq_size v ts) depth i t1" "ok \<longrightarrow> i = depth" "rt_nr_tags t1 = rt_nr_tags t" "kmem k1 - rqs_cost v t1 = kmem k"
    using alloc_rqs_loop_result [OF sz p refl le0, of k, unfolded c n0 diff_zero minus_nat.diff_0] by blast
  show ?thesis
  proof (cases ok)
    case True
    then have "blk_mq_alloc_rqs v ts depth t k = Some (Ret 0, t1, k1)" using l(1) by (simp add: blk_mq_alloc_rqs_def flip: t0_def)
    then show ?thesis using l layout_full [of v "rq_size v ts" depth t1] True by simp
  next
    case False
    obtain t2 k2 where f: "blk_mq_free_rqs v t1 k1 = (t2, k2)" by force
    have "blk_mq_alloc_rqs v ts depth t k = Some (Err ENOMEM, t2, k2)" using l(1) f False by (simp add: blk_mq_alloc_rqs_def flip: t0_def)
    moreover have "rt_nr_tags t2 = rt_nr_tags t1" using f by (auto simp: blk_mq_free_rqs_def Let_def split: if_splits)
    ultimately show ?thesis using l free_rqs_mem(1) [OF ops f] by simp
  qed
qed

section \<open>Maps of requests\<close>

text \<open>The objects that tags hold: themselves with two arrays, the pages and what the driver set up.\<close>

definition tags_cost :: "menv \<Rightarrow> tags_ptr \<Rightarrow> int" where
  "tags_cost v p = (case p of Tags t \<Rightarrow> 3 + rqs_cost v t | _ \<Rightarrow> 0)"

definition set_cost :: "menv \<Rightarrow> blk_mq_tag_set \<Rightarrow> int" where
  "set_cost v ts = sum_list (map (tags_cost v) (set_tags ts))"

lemma tags_cost_simps [simp]: "tags_cost v No_tags = 0" "tags_cost v Dead_tags = 0" "tags_cost v (Tags t) = 3 + rqs_cost v t"
  by (simp_all add: tags_cost_def)

lemma sum_list_upd: "i < length xs \<Longrightarrow> sum_list (map f (xs[i := x])) = sum_list (map f xs) - f (xs ! i) + (f x :: int)"
proof (induction xs arbitrary: i)
  case (Cons y ys)
  then show ?case by (cases i) auto
qed simp

text \<open>Tags as they are after a successful allocation.\<close>

definition tags_full :: "menv \<Rightarrow> nat \<Rightarrow> nat \<Rightarrow> tags_ptr \<Rightarrow> bool" where
  "tags_full v sz depth p \<longleftrightarrow> (\<exists>t. p = Tags t \<and> rt_nr_tags t = depth \<and> layout v sz (rt_pages t) (rt_static t) \<and> length (rt_static t) = depth)"

lemma alloc_rq_map_result:
  "(case blk_mq_alloc_rq_map v n r k of
      (None, k1) \<Rightarrow> kmem k1 = kmem k
    | (Some t, k1) \<Rightarrow> kmem k1 = kmem k + 3 \<and> rt_static t = replicate n None \<and> rt_nr_tags t = n)"
proof (cases rule: k_new_cases [of "mk v" k])
  case (ok k1)
  note a = this
  show ?thesis
  proof (cases rule: k_new_cases [of "mk v" k1])
    case (ok k2)
    show ?thesis
      by (cases rule: k_new_cases [of "mk v" k2]) (use a ok in \<open>simp_all add: blk_mq_alloc_rq_map_def\<close>)
  qed (use a in \<open>simp add: blk_mq_alloc_rq_map_def\<close>)
qed (simp add: blk_mq_alloc_rq_map_def)

lemma alloc_rq_map'_result:
  assumes sz: "0 < rq_size v ts" "rq_size v ts \<le> order_to_size v max_order" and ops: "op_exit_request v = op_init_request v"
    and i: "i < length (set_tags ts)"
  shows "\<exists>ok p k'. alloc_rq_map' v i ts k = Some (ok, ts\<lparr>set_tags := (set_tags ts)[i := p]\<rparr>, k') \<and> kmem k' = kmem k + tags_cost v p \<and>
     (if ok then tags_full v (rq_size v ts) (queue_depth ts) p else p = No_tags)"
proof -
  obtain g k1 where g: "blk_mq_alloc_rq_map v (queue_depth ts) (reserved_tags ts) k = (g, k1)" by force
  note r = alloc_rq_map_result [where v = v and n = "queue_depth ts" and r = "reserved_tags ts" and k = k, unfolded g prod.case]
  show ?thesis
  proof (cases g)
    case None
    then show ?thesis using r g i
      by (intro exI [of _ False] exI [of _ No_tags] exI [of _ k1]) (simp add: alloc_rq_map'_def put_tags_def)
  next
    case (Some t)
    have t: "kmem k1 = kmem k + 3" "rt_static t = replicate (queue_depth ts) None" "rt_nr_tags t = queue_depth ts"
      using r Some by simp_all
    obtain ret t1 k2 where a: "blk_mq_alloc_rqs v ts (queue_depth ts) t k1 = Some (ret, t1, k2)" "rt_nr_tags t1 = rt_nr_tags t"
        "ret = Ret 0 \<longrightarrow> layout v (rq_size v ts) (rt_pages t1) (rt_static t1) \<and> length (rt_static t1) = queue_depth ts \<and> kmem k2 = kmem k1 + rqs_cost v t1"
        "ret \<noteq> Ret 0 \<longrightarrow> ret = Err ENOMEM \<and> kmem k2 = kmem k1"
      using alloc_rqs_result [OF sz ops t(2), of k1] by blast
    show ?thesis
    proof (cases "ret = Ret 0")
      case True
      then show ?thesis using a t g Some i
        by (intro exI [of _ True] exI [of _ "Tags t1"] exI [of _ k2]) (simp add: alloc_rq_map'_def put_tags_def tags_full_def)
    next
      case False
      then show ?thesis using a t g Some i
        by (intro exI [of _ False] exI [of _ No_tags] exI [of _ "blk_mq_free_rq_map k2"])
          (simp add: alloc_rq_map'_def put_tags_def blk_mq_free_rq_map_def)
    qed
  qed
qed

text \<open>Unwinding: the pointers of the first queues go dead, three objects of each are freed.\<close>

lemma unwind_result:
  "i \<le> length (set_tags ts) \<Longrightarrow>
   for_each unwind_map (rev [0..<i]) (ts, k) =
     Some (ts\<lparr>set_tags := replicate i Dead_tags @ drop i (set_tags ts)\<rparr>, kmem_add (- 3 * int i) k)"
proof (induction i arbitrary: ts k)
  case 0
  then show ?case by (simp add: kmem_add_def)
next
  case (Suc i)
  define ts1 where "ts1 = ts\<lparr>set_tags := (set_tags ts)[i := Dead_tags]\<rparr>"
  have "unwind_map i (ts, k) = Some (ts1, kmem_add (-3) k)"
    using Suc.prems by (simp add: unwind_map_def put_tags_def blk_mq_free_rq_map_def ts1_def)
  moreover have "for_each unwind_map (rev [0..<i]) (ts1, kmem_add (-3) k) =
      Some (ts1\<lparr>set_tags := replicate i Dead_tags @ drop i (set_tags ts1)\<rparr>, kmem_add (- 3 * int i) (kmem_add (-3) k))"
    by (rule Suc.IH) (use Suc.prems in \<open>simp add: ts1_def\<close>)
  moreover have "replicate i Dead_tags @ drop i (set_tags ts1) = replicate (Suc i) Dead_tags @ drop (Suc i) (set_tags ts)"
    using Suc.prems by (simp add: ts1_def drop_update_swap Cons_nth_drop_Suc [symmetric] replicate_append_same [symmetric])
  moreover have "kmem_add (- 3 * int i) (kmem_add (-3) k) = kmem_add (- 3 * int (Suc i)) k" by (simp add: kmem_add_def)
  ultimately show ?case by (simp add: ts1_def)
qed

text \<open>
  The loop over the queues, from the tags \<open>ds\<close> of the queues before. A failure leaves everything but the maps of the
  queues that were set up.
\<close>

definition full_tags :: "menv \<Rightarrow> blk_mq_tag_set \<Rightarrow> rq_tags \<Rightarrow> bool" where
  "full_tags v ts t \<longleftrightarrow> tags_full v (rq_size v ts) (queue_depth ts) (Tags t)"

lemma alloc_maps_loop_result:
  assumes sz: "0 < rq_size v ts" "rq_size v ts \<le> order_to_size v max_order" and ops: "op_exit_request v = op_init_request v"
    and tags: "set_tags ts = map Tags ds @ rest" "length ds = i" "n \<le> length rest"
  shows "\<exists>ret tags' k' es. alloc_maps_loop v i n ts k = Some (ret, ts\<lparr>set_tags := tags'\<rparr>, k') \<and> (\<forall>t\<in>set es. full_tags v ts t) \<and>
    (if ret = Ret 0 then length es = n \<and> tags' = map Tags (ds @ es) @ drop n rest \<and> kmem k' = kmem k + sum_list (map (\<lambda>t. 3 + rqs_cost v t) es)
     else ret = Err ENOMEM \<and> length es < n \<and> tags' = replicate (i + length es) Dead_tags @ No_tags # drop (Suc (length es)) rest \<and>
       kmem k' = kmem k + sum_list (map (\<lambda>t. 3 + rqs_cost v t) es) - 3 * int (i + length es))"
  using assms
proof (induction n arbitrary: i ts ds rest k)
  case 0
  then have "ts\<lparr>set_tags := map Tags ds @ rest\<rparr> = ts" by (metis blk_mq_tag_set.surjective blk_mq_tag_set.update_convs(10))
  then show ?case
    by (intro exI [of _ "Ret 0"] exI [of _ "map Tags ds @ rest"] exI [of _ k] exI [of _ "[]"]) simp
next
  case (Suc n)
  obtain p0 rest' where rest: "rest = p0 # rest'" using Suc.prems(6) by (cases rest) auto
  have len: "i < length (set_tags ts)" using Suc.prems(4,5) rest by simp
  obtain ok p k1 where a: "alloc_rq_map' v i ts k = Some (ok, ts\<lparr>set_tags := (set_tags ts)[i := p]\<rparr>, k1)" "kmem k1 = kmem k + tags_cost v p"
      "if ok then tags_full v (rq_size v ts) (queue_depth ts) p else p = No_tags"
    using alloc_rq_map'_result [OF Suc.prems(1-3) len, of k] by blast
  have upd: "(set_tags ts)[i := p] = map Tags ds @ p # rest'" using Suc.prems(4,5) rest by (simp add: list_update_append)
  show ?case
  proof (cases ok)
    case False
    then have p: "p = No_tags" using a(3) by simp
    define ts1 where "ts1 = ts\<lparr>set_tags := map Tags ds @ No_tags # rest'\<rparr>"
    have "for_each unwind_map (rev [0..<i]) (ts1, k1) =
        Some (ts1\<lparr>set_tags := replicate i Dead_tags @ drop i (set_tags ts1)\<rparr>, kmem_add (- 3 * int i) k1)"
      by (rule unwind_result) (use Suc.prems(5) in \<open>simp add: ts1_def\<close>)
    then have "alloc_maps_loop v i (Suc n) ts k =
        Some (Err ENOMEM, ts\<lparr>set_tags := replicate i Dead_tags @ No_tags # rest'\<rparr>, kmem_add (- 3 * int i) k1)"
      using a(1) False upd p Suc.prems(5) by (simp add: ts1_def)
    then show ?thesis
      by (intro exI [of _ "Err ENOMEM"] exI [of _ "replicate i Dead_tags @ No_tags # rest'"] exI [of _ "kmem_add (- 3 * int i) k1"] exI [of _ "[]"])
        (use a(2) p rest in simp)
  next
    case True
    then obtain t where t: "p = Tags t" "full_tags v ts t" using a(3) by (auto simp: tags_full_def full_tags_def)
    define ts1 where "ts1 = ts\<lparr>set_tags := map Tags (ds @ [t]) @ rest'\<rparr>"
    have st: "alloc_maps_loop v i (Suc n) ts k = alloc_maps_loop v (Suc i) n ts1 k1"
      using a(1) True upd t(1) by (simp add: ts1_def)
    have same: "rq_size v ts1 = rq_size v ts" "full_tags v ts1 = full_tags v ts" by (simp_all add: ts1_def rq_size_def full_tags_def fun_eq_iff)
    have pre: "0 < rq_size v ts1" "rq_size v ts1 \<le> order_to_size v max_order" "set_tags ts1 = map Tags (ds @ [t]) @ rest'"
        "length (ds @ [t]) = Suc i" "n \<le> length rest'"
      using Suc.prems rest by (simp_all add: same) (simp add: ts1_def)
    obtain ret tags' k' es where r: "alloc_maps_loop v (Suc i) n ts1 k1 = Some (ret, ts1\<lparr>set_tags := tags'\<rparr>, k')" "\<forall>t\<in>set es. full_tags v ts t"
        "if ret = Ret 0 then length es = n \<and> tags' = map Tags ((ds @ [t]) @ es) @ drop n rest' \<and> kmem k' = kmem k1 + sum_list (map (\<lambda>t. 3 + rqs_cost v t) es)
         else ret = Err ENOMEM \<and> length es < n \<and> tags' = replicate (Suc i + length es) Dead_tags @ No_tags # drop (Suc (length es)) rest' \<and>
           kmem k' = kmem k1 + sum_list (map (\<lambda>t. 3 + rqs_cost v t) es) - 3 * int (Suc i + length es)"
      using Suc.IH [OF pre(1,2) Suc.prems(3) pre(3-5), of k1] unfolding same by blast
    have upd2: "ts1\<lparr>set_tags := tags'\<rparr> = ts\<lparr>set_tags := tags'\<rparr>" by (simp add: ts1_def)
    show ?thesis
      by (intro exI [of _ ret] exI [of _ tags'] exI [of _ k'] exI [of _ "t # es"])
        (use r st upd2 t a(2) rest in \<open>auto split: if_splits\<close>)
  qed
qed

section \<open>The depth of a tag set\<close>

lemma rq_size_upd [simp]: "rq_size v (ts\<lparr>set_tags := x\<rparr>) = rq_size v ts" "rq_size v (ts\<lparr>queue_depth := d\<rparr>) = rq_size v ts"
  by (simp_all add: rq_size_def)

text \<open>No queue has live tags: null pointers, and for queues of the set perhaps dead ones.\<close>

definition no_tags :: "blk_mq_tag_set \<Rightarrow> bool" where
  "no_tags ts \<longleftrightarrow> set_nr_hw ts \<le> length (set_tags ts) \<and> (\<forall>p\<in>set (set_tags ts). p = No_tags \<or> p = Dead_tags) \<and>
     (\<forall>p\<in>set (drop (set_nr_hw ts) (set_tags ts)). p = No_tags)"

text \<open>All queues of the set have tags of its depth; the others have none.\<close>

definition tags_ready :: "menv \<Rightarrow> blk_mq_tag_set \<Rightarrow> bool" where
  "tags_ready v ts \<longleftrightarrow>
     (\<exists>es n. set_tags ts = map Tags es @ replicate n No_tags \<and> length es = set_nr_hw ts \<and> (\<forall>t\<in>set es. full_tags v ts t))"

lemma set_cost_ready: "set_tags ts = map Tags es @ replicate n No_tags \<Longrightarrow> set_cost v ts = sum_list (map (\<lambda>t. 3 + rqs_cost v t) es)"
  by (simp add: set_cost_def comp_def sum_list_replicate)

lemma rq_maps_result:
  assumes sz: "0 < rq_size v ts" "rq_size v ts \<le> order_to_size v max_order" and ops: "op_exit_request v = op_init_request v"
    and tags: "no_tags ts"
  shows "\<exists>ret tags' k'. alloc_rq_maps' v ts k = Some (ret, ts\<lparr>set_tags := tags'\<rparr>, k') \<and> length tags' = length (set_tags ts) \<and>
    (ret = Ret 0 \<longrightarrow> tags_ready v (ts\<lparr>set_tags := tags'\<rparr>) \<and> kmem k' = kmem k + set_cost v (ts\<lparr>set_tags := tags'\<rparr>)) \<and>
    (ret \<noteq> Ret 0 \<longrightarrow> ret = Err ENOMEM \<and> no_tags (ts\<lparr>set_tags := tags'\<rparr>))"
proof -
  let ?rest = "drop (set_nr_hw ts) (set_tags ts)"
  have len: "set_nr_hw ts \<le> length (set_tags ts)" using tags by (simp add: no_tags_def)
  obtain ret tags' k' es where r: "alloc_maps_loop v 0 (set_nr_hw ts) ts k = Some (ret, ts\<lparr>set_tags := tags'\<rparr>, k')" "\<forall>t\<in>set es. full_tags v ts t"
      "if ret = Ret 0 then length es = set_nr_hw ts \<and> tags' = map Tags ([] @ es) @ ?rest \<and> kmem k' = kmem k + sum_list (map (\<lambda>t. 3 + rqs_cost v t) es)
       else ret = Err ENOMEM \<and> length es < set_nr_hw ts \<and> tags' = replicate (0 + length es) Dead_tags @ No_tags # drop (Suc (length es)) (set_tags ts) \<and>
           kmem k' = kmem k + sum_list (map (\<lambda>t. 3 + rqs_cost v t) es) - 3 * int (0 + length es)"
    using alloc_maps_loop_result [OF sz ops, of "[]" "set_tags ts" 0 "set_nr_hw ts" k] len by auto
  have eq: "alloc_rq_maps' v ts k = Some (ret, ts\<lparr>set_tags := tags'\<rparr>, k')" using r(1) by (simp add: alloc_rq_maps'_def)
  show ?thesis
  proof (cases "ret = Ret 0")
    case True
    have "?rest = replicate (length ?rest) No_tags" by (rule replicate_length_same [symmetric]) (use tags in \<open>simp add: no_tags_def\<close>)
    then have t: "tags' = map Tags es @ replicate (length ?rest) No_tags" "length es = set_nr_hw ts" using r(3) True by simp_all
    have "tags_ready v (ts\<lparr>set_tags := tags'\<rparr>)"
      unfolding tags_ready_def by (intro exI [of _ es] exI [of _ "length ?rest"]) (use t r(2) in \<open>simp add: full_tags_def\<close>)
    moreover have "set_cost v (ts\<lparr>set_tags := tags'\<rparr>) = sum_list (map (\<lambda>t. 3 + rqs_cost v t) es)"
      by (rule set_cost_ready) (use t in simp)
    ultimately show ?thesis using r(3) True t len
      by (intro exI [of _ ret] exI [of _ tags'] exI [of _ k'] conjI eq) simp_all
  next
    case False
    then have f: "length es < set_nr_hw ts" "tags' = replicate (length es) Dead_tags @ No_tags # drop (Suc (length es)) (set_tags ts)" "ret = Err ENOMEM"
      using r(3) by simp_all
    have "drop (set_nr_hw ts) tags' = ?rest" using f(1) by (simp add: f(2) drop_Cons' add.commute)
    then have "no_tags (ts\<lparr>set_tags := tags'\<rparr>)" using tags f len by (auto simp: no_tags_def dest: in_set_dropD)
    then show ?thesis using False f len
      by (intro exI [of _ ret] exI [of _ tags'] exI [of _ k'] conjI eq) simp_all
  qed
qed

text \<open>
  The loop that reduces the depth ends. It returns tags of a depth within the limits, or an error; nothing but the
  tags and the depth has changed, and when the first attempt succeeds all memory taken is that of the tags.
\<close>

lemma depth_loop_result:
  assumes "0 < rq_size v ts" "rq_size v ts \<le> order_to_size v max_order" "op_exit_request v = op_init_request v" "no_tags ts"
    "queue_depth ts < n" "0 < queue_depth ts"
  shows "\<exists>ret tags' d k'. depth_loop v n ts k = Some (ret, ts\<lparr>set_tags := tags', queue_depth := d\<rparr>, k') \<and> length tags' = length (set_tags ts) \<and>
    d \<le> queue_depth ts \<and> (ret \<noteq> Ret 0 \<longrightarrow> ret = Err ENOMEM \<and> d < queue_depth ts) \<and>
    (ret = Ret 0 \<longrightarrow> 0 < d \<and> tags_ready v (ts\<lparr>set_tags := tags', queue_depth := d\<rparr>) \<and>
       (d = queue_depth ts \<longrightarrow> kmem k' = kmem k + set_cost v (ts\<lparr>set_tags := tags', queue_depth := d\<rparr>)) \<and>
       (d < queue_depth ts \<longrightarrow> reserved_tags ts + TAG_MIN v \<le> d))"
  using assms
proof (induction n arbitrary: ts k)
  case (Suc n)
  obtain ret tags1 k1 where r: "alloc_rq_maps' v ts k = Some (ret, ts\<lparr>set_tags := tags1\<rparr>, k1)" "length tags1 = length (set_tags ts)"
      "ret = Ret 0 \<longrightarrow> tags_ready v (ts\<lparr>set_tags := tags1\<rparr>) \<and> kmem k1 = kmem k + set_cost v (ts\<lparr>set_tags := tags1\<rparr>)"
      "ret \<noteq> Ret 0 \<longrightarrow> ret = Err ENOMEM \<and> no_tags (ts\<lparr>set_tags := tags1\<rparr>)"
    using rq_maps_result [OF Suc.prems(1-4), of k] by blast
  show ?case
  proof (cases "ret = Ret 0")
    case True
    then have eq: "depth_loop v (Suc n) ts k = Some (Ret 0, ts\<lparr>set_tags := tags1, queue_depth := queue_depth ts\<rparr>, k1)"
      using r(1) by simp
    show ?thesis
      by (intro exI [of _ "Ret 0"] exI [of _ tags1] exI [of _ "queue_depth ts"] exI [of _ k1] conjI eq) (use r True Suc.prems in simp_all)
  next
    case False
    define d where "d = queue_depth ts div 2"
    define ts2 where "ts2 = ts\<lparr>set_tags := tags1, queue_depth := d\<rparr>"
    have step: "depth_loop v (Suc n) ts k = (if d < reserved_tags ts + TAG_MIN v then Some (Err ENOMEM, ts2, k1)
        else if d = 0 then Some (ret, ts2, k1) else depth_loop v n ts2 k1)"
      using r(1) False by (simp add: Let_def ts2_def d_def)
    have dlt: "d < queue_depth ts" using Suc.prems(6) by (simp add: d_def)
    show ?thesis
    proof (cases "d < reserved_tags ts + TAG_MIN v \<or> d = 0")
      case True
      then have eq: "depth_loop v (Suc n) ts k = Some (Err ENOMEM, ts\<lparr>set_tags := tags1, queue_depth := d\<rparr>, k1)"
        using step r(4) False by (auto simp: ts2_def)
      show ?thesis
        by (intro exI [of _ "Err ENOMEM"] exI [of _ tags1] exI [of _ d] exI [of _ k1] conjI eq) (use r dlt in simp_all)
    next
      case go: False
      have pre: "0 < rq_size v ts2" "rq_size v ts2 \<le> order_to_size v max_order" "no_tags ts2" "queue_depth ts2 < n" "0 < queue_depth ts2"
        using Suc.prems(1,2,5) r(4) False go dlt by (simp_all add: ts2_def no_tags_def)
      obtain ret2 tags2 d2 k2 where i: "depth_loop v n ts2 k1 = Some (ret2, ts2\<lparr>set_tags := tags2, queue_depth := d2\<rparr>, k2)"
          "length tags2 = length (set_tags ts2)" "d2 \<le> queue_depth ts2" "ret2 \<noteq> Ret 0 \<longrightarrow> ret2 = Err ENOMEM"
          "ret2 = Ret 0 \<longrightarrow> 0 < d2 \<and> tags_ready v (ts2\<lparr>set_tags := tags2, queue_depth := d2\<rparr>) \<and>
            (d2 < queue_depth ts2 \<longrightarrow> reserved_tags ts2 + TAG_MIN v \<le> d2)"
        using Suc.IH [OF pre(1,2) Suc.prems(3) pre(3-5), of k1] by blast
      have ts2: "ts2\<lparr>set_tags := tags2, queue_depth := d2\<rparr> = ts\<lparr>set_tags := tags2, queue_depth := d2\<rparr>" "length (set_tags ts2) = length (set_tags ts)"
          "queue_depth ts2 = d" "reserved_tags ts2 = reserved_tags ts"
        using r(2) by (simp_all add: ts2_def)
      have eq: "depth_loop v (Suc n) ts k = Some (ret2, ts\<lparr>set_tags := tags2, queue_depth := d2\<rparr>, k2)"
        using step go i(1) ts2(1) by simp
      show ?thesis
        by (intro exI [of _ ret2] exI [of _ tags2] exI [of _ d2] exI [of _ k2] conjI eq) (use i ts2 dlt go in auto)
    qed
  qed
qed simp

section \<open>Tag sets give back what they take\<close>

lemma types_distinct [simp]: "distinct (hctx_types n)"
  unfolding hctx_types_def by (rule distinct_take) simp

definition maps_live :: "(hctx_type \<Rightarrow> ptr) \<Rightarrow> hctx_type list \<Rightarrow> int" where
  "maps_live mm js = int (length (filter (\<lambda>j. mm j = Live) js))"

lemma alloc_mq_maps_result:
  assumes "distinct js" "\<forall>j\<in>set js. set_map_mem s j = Null"
  shows "\<exists>ok m mm k'. alloc_mq_maps v js s k = (ok, s\<lparr>set_map := m, set_map_mem := mm\<rparr>, k') \<and> kmem k' = kmem k + maps_live mm js \<and>
    (\<forall>j\<in>set js. mm j = Null \<or> mm j = Live) \<and> (\<forall>j. j \<notin> set js \<longrightarrow> mm j = set_map_mem s j)"
  using assms
proof (induction js arbitrary: s k)
  case Nil
  then show ?case
    by (intro exI [of _ True] exI [of _ "set_map s"] exI [of _ "set_map_mem s"] exI [of _ k]) (simp add: maps_live_def)
next
  case (Cons j js)
  show ?case
  proof (cases rule: k_new_cases [of "mk v" k])
    case (fail k1)
    then show ?thesis using Cons.prems
      by (intro exI [of _ False] exI [of _ "set_map s"] exI [of _ "(set_map_mem s)(j := Null)"] exI [of _ k1])
        (auto simp: maps_live_def filter_empty_conv fun_upd_def)
  next
    case (ok k1)
    define s1 where "s1 = upd_map j (\<lambda>m. m\<lparr>mq_map := replicate (nr_cpu_ids (mkern v)) 0, map_nr_queues := (if is_kdump v then 1 else set_nr_hw s)\<rparr>)
        (s\<lparr>set_map_mem := (set_map_mem s)(j := Live)\<rparr>)"
    have mem: "set_map_mem s1 = (set_map_mem s)(j := Live)" by (simp add: s1_def upd_map_def)
    have "\<forall>i\<in>set js. set_map_mem s1 i = Null" using Cons.prems by (auto simp: mem)
    then obtain ok2 m mm k2 where r: "alloc_mq_maps v js s1 k1 = (ok2, s1\<lparr>set_map := m, set_map_mem := mm\<rparr>, k2)" "kmem k2 = kmem k1 + maps_live mm js"
        "\<forall>j\<in>set js. mm j = Null \<or> mm j = Live" "\<forall>i. i \<notin> set js \<longrightarrow> mm i = set_map_mem s1 i"
      using Cons.IH [of s1 k1] Cons.prems(1) by auto
    have "alloc_mq_maps v (j # js) s k = (ok2, s\<lparr>set_map := m, set_map_mem := mm\<rparr>, k2)"
      using ok r(1) by (simp add: s1_def upd_map_def Let_def split del: if_split cong: if_cong)
    moreover have "mm j = Live" using r(4) Cons.prems(1) by (simp add: mem)
    ultimately show ?thesis
      by (intro exI [of _ ok2] exI [of _ m] exI [of _ mm] exI [of _ k2]) (use ok r Cons.prems(1) mem in \<open>auto simp: maps_live_def\<close>)
  qed
qed

lemma free_mq_map_loop:
  assumes "distinct js" "\<forall>j\<in>set js. set_map_mem s j = Null \<or> set_map_mem s j = Live"
  shows "\<exists>k'. for_each free_mq_map js (s, k) = Some (s\<lparr>set_map_mem := (\<lambda>j. if j \<in> set js then Null else set_map_mem s j)\<rparr>, k') \<and>
    kmem k' = kmem k - maps_live (set_map_mem s) js"
  using assms
proof (induction js arbitrary: s k)
  case Nil
  have "s\<lparr>set_map_mem := (\<lambda>j. set_map_mem s j)\<rparr> = s" by (cases s) simp
  then show ?case by (simp add: maps_live_def)
next
  case (Cons j js)
  define s1 where "s1 = s\<lparr>set_map_mem := (set_map_mem s)(j := Null)\<rparr>"
  obtain p k1 where f: "k_free (set_map_mem s j) k = Some (p, k1)" using Cons.prems(2) by (cases "set_map_mem s j") auto
  have k1: "kmem k1 = kmem k - (if set_map_mem s j = Live then 1 else 0)" using k_free_Some [OF f] by simp
  have st: "free_mq_map j (s, k) = Some (s1, k1)" using f by (simp add: free_mq_map_def s1_def)
  have pre: "\<forall>j\<in>set js. set_map_mem s1 j = Null \<or> set_map_mem s1 j = Live" using Cons.prems by (simp add: s1_def)
  obtain k2 where k2: "for_each free_mq_map js (s1, k1) = Some (s1\<lparr>set_map_mem := (\<lambda>j. if j \<in> set js then Null else set_map_mem s1 j)\<rparr>, k2)"
      "kmem k2 = kmem k1 - maps_live (set_map_mem s1) js"
    using Cons.IH [OF _ pre, of k1] Cons.prems(1) by auto
  have "filter (\<lambda>i. set_map_mem s1 i = Live) js = filter (\<lambda>i. set_map_mem s i = Live) js"
    by (rule filter_cong) (use Cons.prems(1) in \<open>auto simp: s1_def\<close>)
  then have ml: "maps_live (set_map_mem s1) js = maps_live (set_map_mem s) js" by (simp add: maps_live_def)
  have "s1\<lparr>set_map_mem := (\<lambda>j. if j \<in> set js then Null else set_map_mem s1 j)\<rparr> =
      s\<lparr>set_map_mem := (\<lambda>i. if i \<in> set (j # js) then Null else set_map_mem s i)\<rparr>"
    by (auto simp: s1_def fun_eq_iff intro!: arg_cong [where f = "\<lambda>m. s\<lparr>set_map_mem := m\<rparr>"])
  then show ?case using st k2 k1 ml by (simp add: maps_live_def)
qed

lemma free_mq_maps_result:
  assumes "\<forall>j\<in>set (hctx_types (nr_maps s)). set_map_mem s j = Null \<or> set_map_mem s j = Live" "tags_mem s = Live"
  shows "\<exists>s' k'. free_mq_maps s k = Some (s', k') \<and> kmem k' = kmem k - maps_live (set_map_mem s) (hctx_types (nr_maps s)) - 1"
  using free_mq_map_loop [OF types_distinct assms(1), of k] assms(2) by (auto simp: free_mq_maps_def)

text \<open>Freeing the tags of all queues, from queue \<open>i\<close> on.\<close>

lemma free_tags_loop:
  assumes ops: "op_exit_request v = op_init_request v" and "tags_mem s = Live" "set_tags s = replicate i No_tags @ map Tags es @ replicate n No_tags"
  shows "\<exists>k'. for_each (free_tags_at v) [i..<i + length es + n] (s, k) = Some (s\<lparr>set_tags := replicate (i + length es + n) No_tags\<rparr>, k') \<and>
    kmem k' = kmem k - sum_list (map (\<lambda>t. 3 + rqs_cost v t) es)"
  using assms(2,3)
proof (induction es arbitrary: i s k)
  case Nil
  have none: "for_each (free_tags_at v) js (s, k) = Some (s, k)" if "\<forall>j\<in>set js. j < i + n" for js
    using that Nil by (induction js) (simp_all add: free_tags_at_def blk_mq_free_map_and_requests_def flip: replicate_add)
  have "s\<lparr>set_tags := replicate (i + n) No_tags\<rparr> = s" using Nil by (cases s) (simp add: replicate_add)
  then show ?case using none [of "[i..<i + n]"] by simp
next
  case (Cons t es)
  define s1 where "s1 = s\<lparr>set_tags := replicate (Suc i) No_tags @ map Tags es @ replicate n No_tags\<rparr>"
  obtain t1 k1 where f: "blk_mq_free_rqs v t k = (t1, k1)" by force
  have upd: "(set_tags s)[i := No_tags] = set_tags s1"
    using Cons.prems(2) by (simp add: s1_def list_update_append replicate_append_same [symmetric])
  have "set_tags s ! i = Tags t" "i < length (set_tags s)" using Cons.prems(2) by (simp_all add: nth_append)
  then have st: "free_tags_at v i (s, k) = Some (s1, blk_mq_free_rq_map k1)"
    using Cons.prems(1) f upd by (simp add: free_tags_at_def blk_mq_free_map_and_requests_def put_tags_def) (simp add: s1_def)
  obtain k2 where k2: "for_each (free_tags_at v) [Suc i..<Suc i + length es + n] (s1, blk_mq_free_rq_map k1) =
        Some (s1\<lparr>set_tags := replicate (Suc i + length es + n) No_tags\<rparr>, k2)"
      "kmem k2 = kmem (blk_mq_free_rq_map k1) - sum_list (map (\<lambda>t. 3 + rqs_cost v t) es)"
    using Cons.IH [of s1 "Suc i" "blk_mq_free_rq_map k1"] Cons.prems(1) by (auto simp: s1_def)
  have upt: "[i..<i + length (t # es) + n] = i # [Suc i..<Suc i + length es + n]" using upt_rec [of i "i + length (t # es) + n"] by simp
  have "for_each (free_tags_at v) [i..<i + length (t # es) + n] (s, k) = Some (s\<lparr>set_tags := replicate (i + length (t # es) + n) No_tags\<rparr>, k2)"
    unfolding upt using st k2(1) by (simp add: s1_def)
  moreover have "kmem k2 = kmem k - sum_list (map (\<lambda>t. 3 + rqs_cost v t) (t # es))"
    using k2(2) free_rqs_mem(1) [OF ops f] by (simp add: blk_mq_free_rq_map_def)
  ultimately show ?case by blast
qed

lemma free_tag_set_result:
  assumes ops: "op_exit_request v = op_init_request v" and r: "tags_ready v s" "tags_mem s = Live" "length (set_tags s) = set_nr_queues v s"
    and m: "\<forall>j\<in>set (hctx_types (nr_maps s)). set_map_mem s j = Null \<or> set_map_mem s j = Live"
  shows "\<exists>s' k'. blk_mq_free_tag_set v s k = Some (s', k') \<and>
    kmem k' = kmem k - set_cost v s - maps_live (set_map_mem s) (hctx_types (nr_maps s)) - 1"
proof -
  obtain es n where es: "set_tags s = map Tags es @ replicate n No_tags" using r(1) by (auto simp: tags_ready_def)
  then have len: "set_nr_queues v s = 0 + length es + n" using r(3) by simp
  obtain k1 where k1: "for_each (free_tags_at v) [0..<set_nr_queues v s] (s, k) = Some (s\<lparr>set_tags := replicate (0 + length es + n) No_tags\<rparr>, k1)"
      "kmem k1 = kmem k - set_cost v s"
    using free_tags_loop [OF ops r(2), of 0 es n k] es len set_cost_ready [OF es, of v] by auto
  define s1 where "s1 = s\<lparr>set_tags := replicate (0 + length es + n) No_tags\<rparr>"
  have "\<forall>j\<in>set (hctx_types (nr_maps s1)). set_map_mem s1 j = Null \<or> set_map_mem s1 j = Live" "tags_mem s1 = Live" using m r(2) by (simp_all add: s1_def)
  from free_mq_maps_result [OF this, of k1] show ?thesis using k1 by (auto simp: blk_mq_free_tag_set_def s1_def)
qed

section \<open>Memory that is not refused\<close>

text \<open>Every allocation and every call outside succeeds; then requests, maps and tag sets are set up at the full depth.\<close>

definition plenty :: "menv \<Rightarrow> bool" where
  "plenty v \<longleftrightarrow> (\<forall>i. k_alloc (mk v) i) \<and> (\<forall>i. k_call (mk v) i = Ret 0)"

lemma plenty_new: "plenty v \<Longrightarrow> k_new (mk v) k = (Live, kmem_add 1 (k_next k))"
  by (simp add: plenty_def k_new_def)

lemma plenty_init: "plenty v \<Longrightarrow> blk_mq_init_request v k = (ret, k') \<Longrightarrow> ret = Ret 0"
  by (auto simp: plenty_def blk_mq_init_request_def k_make_def k_do_def split: if_split_asm)

lemma plenty_pages: "plenty v \<Longrightarrow> fst (get_pages v sz ord k) = Some ord"
  by (cases ord) (simp_all add: plenty_new)

lemma plenty_slots: "plenty v \<Longrightarrow> init_slots v sz page off i n t k = Some (ok, t', k') \<Longrightarrow> ok"
proof (induction n arbitrary: off i t k)
  case (Suc n)
  obtain ret k1 where r: "blk_mq_init_request v k = (ret, k1)" by force
  then have "ret = Ret 0" by (rule plenty_init [OF Suc.prems(1)])
  then show ?case using Suc.prems(2) r Suc.IH [OF Suc.prems(1)] by (auto split: bind_splits)
qed simp

lemma plenty_loop:
  assumes "plenty v" "alloc_rqs_loop v sz depth i left t k = Some r"
  shows "fst r"
proof (rule alloc_rqs_loop.raw_induct [where P = "\<lambda>v sz depth i left t k r. plenty v \<longrightarrow> fst r", OF _ assms(2), THEN mp, OF _ assms(1)])
  fix f :: "menv \<Rightarrow> nat \<Rightarrow> nat \<Rightarrow> nat \<Rightarrow> nat \<Rightarrow> rq_tags \<Rightarrow> kstate \<Rightarrow> (bool \<times> rq_tags \<times> kstate) option" and v sz depth i left t k r
  assume IH: "\<And>v sz depth i left t k r. f v sz depth i left t k = Some r \<Longrightarrow> plenty v \<longrightarrow> fst r"
  assume b: "(if depth \<le> i then Some (True, t, k)
      else (case get_pages v sz (shrink_order v left max_order) k of
           (None, k1) \<Rightarrow> Some (False, t, k1)
         | (Some ord, k1) \<Rightarrow> do {
             let to_do = min (order_to_size v ord div sz) (depth - i);
             (ok, t1, k2) \<leftarrow> init_slots v sz (length (rt_pages t)) 0 i to_do (t\<lparr>rt_pages := rt_pages t @ [ord]\<rparr>) k1;
             if \<not> ok then Some (False, t1, k2) else f v sz depth (i + to_do) (left - to_do * sz) t1 k2 })) = Some r"
  show "plenty v \<longrightarrow> fst r"
  proof (intro impI, cases "depth \<le> i")
    case False
    assume p: "plenty v"
    obtain ord k1 where g: "get_pages v sz (shrink_order v left max_order) k = (Some ord, k1)"
      using plenty_pages [OF p, of sz "shrink_order v left max_order" k] by (cases "get_pages v sz (shrink_order v left max_order) k") simp
    define n where "n = min (order_to_size v ord div sz) (depth - i)"
    obtain ok t1 k2 where s: "init_slots v sz (length (rt_pages t)) 0 i n (t\<lparr>rt_pages := rt_pages t @ [ord]\<rparr>) k1 = Some (ok, t1, k2)"
      using b False g by (auto simp: Let_def n_def split: bind_splits)
    have "ok" by (rule plenty_slots [OF p s])
    then have "f v sz depth (i + n) (left - n * sz) t1 k2 = Some r" using b False g s by (simp flip: n_def)
    then show "fst r" using IH p by blast
  qed (use b in auto)
qed

lemma plenty_rqs: "plenty v \<Longrightarrow> blk_mq_alloc_rqs v ts depth t k = Some (ret, t', k') \<Longrightarrow> ret = Ret 0"
  by (auto simp: blk_mq_alloc_rqs_def dest: plenty_loop split: bind_splits if_split_asm)

lemma plenty_rq_map: "plenty v \<Longrightarrow> alloc_rq_map' v i ts k = Some (ok, ts', k') \<Longrightarrow> ok"
  by (auto simp: alloc_rq_map'_def blk_mq_alloc_rq_map_def plenty_new dest: plenty_rqs split: bind_splits if_split_asm)

lemma plenty_maps: "plenty v \<Longrightarrow> alloc_maps_loop v i n ts k = Some (ret, ts', k') \<Longrightarrow> ret = Ret 0"
  by (induction n arbitrary: i ts k) (auto dest: plenty_rq_map split: bind_splits if_split_asm)

lemma maps_loop_depth: "alloc_maps_loop v i n ts k = Some (Ret 0, ts', k') \<Longrightarrow> queue_depth ts' = queue_depth ts"
proof (induction n arbitrary: i ts k)
  case (Suc n)
  obtain ts1 k1 where s: "alloc_rq_map' v i ts k = Some (True, ts1, k1)" "alloc_maps_loop v (Suc i) n ts1 k1 = Some (Ret 0, ts', k')"
    using Suc.prems by (auto split: bind_splits if_split_asm)
  have "queue_depth ts1 = queue_depth ts" using s(1) by (auto simp: alloc_rq_map'_def put_tags_def split: bind_splits if_split_asm prod.splits option.splits)
  then show ?case using Suc.IH [OF s(2)] by simp
qed simp

lemma plenty_rq_maps:
  assumes "plenty v" "blk_mq_alloc_rq_maps v ts k = Some (ret, ts', k')" "0 < queue_depth ts"
  shows "ret = Ret 0 \<and> queue_depth ts' = queue_depth ts"
proof -
  obtain err ts1 k1 where a: "alloc_maps_loop v 0 (set_nr_hw ts) ts k = Some (err, ts1, k1)"
    using assms(2) by (auto simp: blk_mq_alloc_rq_maps_def alloc_rq_maps'_def split: bind_splits)
  have "err = Ret 0" by (rule plenty_maps [OF assms(1) a])
  then show ?thesis using assms(2,3) a maps_loop_depth [of v 0 "set_nr_hw ts" ts k ts1 k1]
    by (auto simp: blk_mq_alloc_rq_maps_def alloc_rq_maps'_def)
qed

lemma plenty_mq_maps: "plenty v \<Longrightarrow> alloc_mq_maps v js s k = (ok, s', k') \<Longrightarrow> ok \<and> queue_depth s' = queue_depth s \<and> nr_maps s' = nr_maps s"
  by (induction js arbitrary: s k) (auto simp: plenty_new Let_def upd_map_def)

text \<open>The driver's own mapping of the queues does not fail.\<close>

definition maps_succeed :: "menv \<Rightarrow> bool" where
  "maps_succeed v \<longleftrightarrow> (case op_map_queues v of None \<Rightarrow> True | Some f \<Rightarrow> (\<forall>s. fst (f s) = Ret 0))"

lemma maps_succeed_Ret: "maps_succeed v \<Longrightarrow> blk_mq_update_queue_map v s = Some (ret, s') \<Longrightarrow> ret = Ret 0"
  by (auto simp: maps_succeed_def blk_mq_update_queue_map_def Let_def split: option.splits if_split_asm prod.splits)
    (metis fst_conv)+

section \<open>Properties\<close>

text \<open>
  C15: The requests of a hardware queue (\<open>blk_mq_alloc_rqs\<close>). Assume that a request has a positive size that fits into the
  largest block of pages, sixteen of them, that the driver has \<open>exit_request\<close> when it has \<open>init_request\<close>, and that the array of
  requests is empty. Then the loop over the pages ends. On success every one of the requests lies inside a page
  that was allocated, two requests of one page do not overlap, as many requests are there as the queue is
  deep, and the memory taken is that of the pages and of what the driver set up. On failure all pages and all
  requests that were set up have been given back. It only fails when an allocation or the driver fails.
\<close>
theorem rqs_layout:
  assumes "0 < rq_size v ts" "rq_size v ts \<le> order_to_size v max_order" "op_exit_request v = op_init_request v"
    "rt_static t = replicate depth None"
  shows "\<exists>ret t' k'. blk_mq_alloc_rqs v ts depth t k = Some (ret, t', k') \<and>
     (ret = Ret 0 \<longrightarrow> length (rt_static t') = depth \<and> kmem k' = kmem k + rqs_cost v t' \<and>
        (\<forall>x\<in>set (rt_static t'). \<exists>p off. x = Some (p, off) \<and> p < length (rt_pages t') \<and> off + rq_size v ts \<le> order_to_size v (rt_pages t' ! p)) \<and>
        (\<forall>i j p off off'. i < j \<longrightarrow> j < depth \<longrightarrow> rt_static t' ! i = Some (p, off) \<longrightarrow> rt_static t' ! j = Some (p, off') \<longrightarrow> off + rq_size v ts \<le> off')) \<and>
     (ret \<noteq> Ret 0 \<longrightarrow> ret = Err ENOMEM \<and> kmem k' = kmem k) \<and>
     (plenty v \<longrightarrow> ret = Ret 0)"
proof -
  obtain ret t' k' where r: "blk_mq_alloc_rqs v ts depth t k = Some (ret, t', k')"
      "ret = Ret 0 \<longrightarrow> layout v (rq_size v ts) (rt_pages t') (rt_static t') \<and> length (rt_static t') = depth \<and> kmem k' = kmem k + rqs_cost v t'"
      "ret \<noteq> Ret 0 \<longrightarrow> ret = Err ENOMEM \<and> kmem k' = kmem k"
    using alloc_rqs_result [OF assms] by blast
  have "plenty v \<longrightarrow> ret = Ret 0" using plenty_rqs r(1) by blast
  then show ?thesis
    by (intro exI [of _ ret] exI [of _ t'] exI [of _ k'] conjI r(1,3) impI)
      (use r(2) layout_inside layout_apart in \<open>blast+\<close>)
qed

text \<open>Memory that is never refused, four CPUs, and a set of two queues of eight requests.\<close>

definition ex_menv :: menv where
  "ex_menv = \<lparr>mk = \<lparr>k_alloc = (\<lambda>_. True), k_call = (\<lambda>_. Ret 0)\<rparr>, mkern = ex_kernel,
     possible_cpus = [0, 1, 2, 3], m_page_size = 4096, m_sizeof_request = 300, m_cache_line = 64, TAG_MIN = 1, is_kdump = False, op_queue_rq = True,
     op_get_budget = False, op_put_budget = False, op_init_request = True, op_exit_request = True, op_map_queues = None,
     map_cpus = (\<lambda>n off. map (\<lambda>c. c mod n + off) [0..<4]), op_init_hctx = None, op_exit_hctx = False, tag_idle = (\<lambda>h. h),
     hw_queue_to_node = (\<lambda>_ _. 0), local_memory_node = (\<lambda>_. 0), default_elevator = None\<rparr>"

definition ex_tag_set :: blk_mq_tag_set where
  "ex_tag_set = \<lparr>set_map = (\<lambda>_. \<lparr>mq_map = [], map_nr_queues = 0, map_offset = 0\<rparr>), set_map_mem = (\<lambda>_. Null), nr_maps = 1, set_nr_hw = 2,
     queue_depth = 8, reserved_tags = 1, cmd_size = 500, set_node = 0, set_flags = {}, set_tags = [], tags_mem = Null\<rparr>"

lemma ex_rq_size [simp]: "rq_size ex_menv ex_tag_set = 832"
  by (simp add: rq_size_def round_up_def ex_menv_def ex_tag_set_def)

lemma ex_ops: "op_exit_request ex_menv = op_init_request ex_menv"
  by (simp add: ex_menv_def)

lemma ex_max_size [simp]: "order_to_size ex_menv max_order = 65536"
  by (simp add: order_to_size_def max_order_def ex_menv_def)

lemma ex_plenty: "plenty ex_menv" "maps_succeed ex_menv"
  by (simp_all add: plenty_def maps_succeed_def ex_menv_def)

theorem rqs_layout_witness:
  "\<exists>t' k'. blk_mq_alloc_rqs ex_menv ex_tag_set 8 \<lparr>rt_nr_tags = 8, rt_reserved = 1, rt_static = replicate 8 None, rt_pages = []\<rparr>
     \<lparr>kmem = 0, kpos = 0\<rparr> = Some (Ret 0, t', k') \<and> length (rt_static t') = 8 \<and> kmem k' = rqs_cost ex_menv t'"
proof -
  have "0 < rq_size ex_menv ex_tag_set" "rq_size ex_menv ex_tag_set \<le> order_to_size ex_menv max_order"
      "rt_static \<lparr>rt_nr_tags = 8, rt_reserved = 1, rt_static = replicate 8 None, rt_pages = []\<rparr> = replicate 8 None"
    by simp_all
  from rqs_layout [OF this(1,2) ex_ops this(3), of "\<lparr>kmem = 0, kpos = 0\<rparr>"] show ?thesis using ex_plenty(1) by auto
qed

text \<open>The depth that a tag set is set up with when memory allows it.\<close>

definition wanted_depth :: "menv \<Rightarrow> blk_mq_tag_set \<Rightarrow> nat" where
  "wanted_depth v s = (if is_kdump v then min 64 (min (queue_depth s) BLK_MQ_MAX_DEPTH) else min (queue_depth s) BLK_MQ_MAX_DEPTH)"

lemma tag_set_args_result:
  assumes "tag_set_args v s = (Ret 0, s1)"
  shows "\<exists>n h. s1 = s\<lparr>queue_depth := wanted_depth v s, nr_maps := n, set_nr_hw := h\<rparr> \<and> 0 < wanted_depth v s \<and> h \<le> set_nr_queues v s1 \<and>
    (n = 1 \<or> n = nr_maps s \<and> 1 < n \<and> \<not> is_kdump v)"
proof -
  define n where "n = (if is_kdump v \<or> nr_maps s = 0 then 1 else nr_maps s)"
  define h0 where "h0 = (if is_kdump v then 1 else set_nr_hw s)"
  define h where "h = (if n = 1 then min h0 (nr_cpu_ids (mkern v)) else h0)"
  have d: "queue_depth s \<noteq> 0" using assms by (simp add: tag_set_args_def split: if_splits)
  have s1: "s1 = s\<lparr>queue_depth := wanted_depth v s, nr_maps := n, set_nr_hw := h\<rparr>"
    using assms unfolding tag_set_args_def Let_def n_def h_def h0_def wanted_depth_def
    by (cases s; cases "is_kdump v"; cases "nr_maps s = 0"; cases "nr_maps s = 1") (auto split: if_splits)
  show ?thesis
    by (intro exI [of _ n] exI [of _ h] conjI s1)
      (use d s1 in \<open>auto simp: n_def h_def wanted_depth_def BLK_MQ_MAX_DEPTH_def set_nr_queues_def\<close>)
qed

lemma tag_set_args_refused: "tag_set_args v s = (r, s1) \<Longrightarrow> r \<noteq> Ret 0 \<Longrightarrow> wanted_depth v s \<le> queue_depth s1"
  by (auto simp: tag_set_args_def wanted_depth_def Let_def split: if_splits)

lemma update_queue_map_result:
  assumes "nr_maps s = 1 \<or> \<not> is_kdump v \<and> op_map_queues v \<noteq> None"
  shows "\<exists>ret m. blk_mq_update_queue_map v s = Some (ret, s\<lparr>set_map := m\<rparr>)"
proof -
  have fold: "\<exists>m. fold (\<lambda>j. upd_map j f) js s = s\<lparr>set_map := m\<rparr>" for f js and s :: blk_mq_tag_set
  proof (induction js arbitrary: s)
    case Nil
    then show ?case by (intro exI [of _ "set_map s"]) simp
  next
    case (Cons j js)
    obtain m where "fold (\<lambda>j. upd_map j f) js (upd_map j f s) = (upd_map j f s)\<lparr>set_map := m\<rparr>" using Cons.IH by blast
    moreover have "(upd_map j f s)\<lparr>set_map := m\<rparr> = s\<lparr>set_map := m\<rparr>" by (simp add: upd_map_def)
    ultimately show ?case by auto
  qed
  show ?thesis
  proof (cases "op_map_queues v")
    case None
    then show ?thesis using assms by (auto simp: blk_mq_update_queue_map_def map_default_def upd_map_def)
  next
    case (Some f)
    define s1 where "s1 = (if nr_maps s = 1 then upd_map HCTX_TYPE_DEFAULT (\<lambda>m. m\<lparr>map_nr_queues := set_nr_hw s\<rparr>) s else s)"
    have "s1 = s\<lparr>set_map := set_map s1\<rparr>" by (cases "nr_maps s = 1") (simp_all add: s1_def upd_map_def)
    then obtain m1 where s1: "s1 = s\<lparr>set_map := m1\<rparr>" by blast
    obtain m2 where m2: "fold (\<lambda>j. upd_map j (blk_mq_clear_mq_map v)) (hctx_types (nr_maps s1)) s1 = s1\<lparr>set_map := m2\<rparr>" using fold by blast
    show ?thesis
    proof (cases "is_kdump v")
      case True
      then show ?thesis using assms Some by (auto simp: blk_mq_update_queue_map_def map_default_def upd_map_def)
    next
      case False
      obtain ret m3 where f: "f (s1\<lparr>set_map := m2\<rparr>) = (ret, m3)" by force
      have "blk_mq_update_queue_map v s = (let s2 = fold (\<lambda>j. upd_map j (blk_mq_clear_mq_map v)) (hctx_types (nr_maps s1)) s1;
          (ret, m) = f s2 in Some (ret, s2\<lparr>set_map := m\<rparr>))"
        using Some False unfolding blk_mq_update_queue_map_def s1_def [symmetric] by simp
      then have "blk_mq_update_queue_map v s = Some (ret, s\<lparr>set_map := m3\<rparr>)" unfolding m2 by (simp add: f) (simp add: s1)
      then show ?thesis by blast
    qed
  qed
qed

lemma alloc_rq_maps_result:
  assumes "0 < rq_size v ts" "rq_size v ts \<le> order_to_size v max_order" "op_exit_request v = op_init_request v" "no_tags ts" "0 < queue_depth ts"
  shows "\<exists>ret tags' d k'. blk_mq_alloc_rq_maps v ts k = Some (ret, ts\<lparr>set_tags := tags', queue_depth := d\<rparr>, k') \<and> length tags' = length (set_tags ts) \<and>
    d \<le> queue_depth ts \<and> (ret \<noteq> Ret 0 \<longrightarrow> ret = Err ENOMEM \<and> d < queue_depth ts) \<and>
    (ret = Ret 0 \<longrightarrow> 0 < d \<and> tags_ready v (ts\<lparr>set_tags := tags', queue_depth := d\<rparr>) \<and>
       (d = queue_depth ts \<longrightarrow> kmem k' = kmem k + set_cost v (ts\<lparr>set_tags := tags', queue_depth := d\<rparr>)) \<and>
       (d < queue_depth ts \<longrightarrow> reserved_tags ts + TAG_MIN v \<le> d))"
proof -
  obtain ret tags' d k' where r: "depth_loop v (Suc (queue_depth ts)) ts k = Some (ret, ts\<lparr>set_tags := tags', queue_depth := d\<rparr>, k')"
      "length tags' = length (set_tags ts)" "d \<le> queue_depth ts" "ret \<noteq> Ret 0 \<longrightarrow> ret = Err ENOMEM \<and> d < queue_depth ts"
      "ret = Ret 0 \<longrightarrow> 0 < d \<and> tags_ready v (ts\<lparr>set_tags := tags', queue_depth := d\<rparr>) \<and>
       (d = queue_depth ts \<longrightarrow> kmem k' = kmem k + set_cost v (ts\<lparr>set_tags := tags', queue_depth := d\<rparr>)) \<and>
       (d < queue_depth ts \<longrightarrow> reserved_tags ts + TAG_MIN v \<le> d)"
    using depth_loop_result [OF assms(1-4) lessI assms(5), of k] by blast
  have eq: "blk_mq_alloc_rq_maps v ts k = Some (ret, ts\<lparr>set_tags := tags', queue_depth := d\<rparr>, k')"
    using r(1,4,5) by (auto simp: blk_mq_alloc_rq_maps_def)
  show ?thesis by (intro exI [of _ ret] exI [of _ tags'] exI [of _ d] exI [of _ k'] conjI eq r)
qed

text \<open>A tag set after \<open>blk_mq_alloc_tag_set\<close> has succeeded, and the memory it holds.\<close>

definition set_ready :: "menv \<Rightarrow> blk_mq_tag_set \<Rightarrow> bool" where
  "set_ready v s \<longleftrightarrow> tags_ready v s \<and> tags_mem s = Live \<and> length (set_tags s) = set_nr_queues v s \<and>
     (\<forall>j\<in>set (hctx_types (nr_maps s)). set_map_mem s j = Null \<or> set_map_mem s j = Live)"

definition set_mem :: "menv \<Rightarrow> blk_mq_tag_set \<Rightarrow> int" where
  "set_mem v s = set_cost v s + maps_live (set_map_mem s) (hctx_types (nr_maps s)) + 1"

lemma tag_set_fail_result:
  assumes "tags_mem s = Live" "\<forall>j\<in>set (hctx_types (nr_maps s)). set_map_mem s j = Null \<or> set_map_mem s j = Live"
  shows "\<exists>s' k'. tag_set_fail ret s k = Some (ret, s', k') \<and> queue_depth s' = queue_depth s \<and>
    kmem k' = kmem k - maps_live (set_map_mem s) (hctx_types (nr_maps s)) - 1"
  using free_mq_map_loop [OF types_distinct assms(2), of k] assms(1) by (auto simp: tag_set_fail_def free_mq_maps_def)

lemma alloc_tag_set_mem_result:
  assumes sz: "0 < rq_size v s" "rq_size v s \<le> order_to_size v max_order" and ops: "op_exit_request v = op_init_request v"
    and s: "\<forall>j. set_map_mem s j = Null" "nr_maps s = 1 \<or> \<not> is_kdump v \<and> op_map_queues v \<noteq> None"
      "0 < queue_depth s" "set_nr_hw s \<le> set_nr_queues v s"
  shows "\<exists>ret s' k'. alloc_tag_set_mem v s k = Some (ret, s', k') \<and> queue_depth s' \<le> queue_depth s \<and>
    (ret = Ret 0 \<longrightarrow> set_ready v s' \<and> 0 < queue_depth s' \<and> (queue_depth s' < queue_depth s \<longrightarrow> reserved_tags s + TAG_MIN v \<le> queue_depth s')) \<and>
    (queue_depth s' = queue_depth s \<longrightarrow> kmem k' = kmem k + (if ret = Ret 0 then set_mem v s' else 0))"
proof (cases rule: k_new_cases [of "mk v" k])
  case (fail k1)
  then show ?thesis
    by (intro exI [of _ "Err ENOMEM"] exI [of _ "s\<lparr>tags_mem := Null\<rparr>"] exI [of _ k1]) (simp add: alloc_tag_set_mem_def)
next
  case (ok k1)
  let ?js = "hctx_types (nr_maps s)"
  define s0 where "s0 = s\<lparr>tags_mem := Live, set_tags := replicate (set_nr_queues v s) No_tags\<rparr>"
  have "\<forall>j\<in>set ?js. set_map_mem s0 j = Null" using s(1) by (simp add: s0_def)
  then obtain got m mm k2 where m: "alloc_mq_maps v ?js s0 k1 = (got, s0\<lparr>set_map := m, set_map_mem := mm\<rparr>, k2)"
      "kmem k2 = kmem k1 + maps_live mm ?js" "\<forall>j\<in>set ?js. mm j = Null \<or> mm j = Live"
    using alloc_mq_maps_result [OF types_distinct, of "nr_maps s" s0 v k1] by blast
  define s1 where "s1 = s0\<lparr>set_map := m, set_map_mem := mm\<rparr>"
  have start: "alloc_tag_set_mem v s k = (if \<not> got then tag_set_fail (Err ENOMEM) s1 k2
      else do { (ret, s2) \<leftarrow> blk_mq_update_queue_map v s1;
        if ret \<noteq> Ret 0 then tag_set_fail ret s2 k2
        else do { (ret2, s3, k3) \<leftarrow> blk_mq_alloc_rq_maps v s2 k2; if ret2 \<noteq> Ret 0 then tag_set_fail ret2 s3 k3 else Some (Ret 0, s3, k3) } })"
    using ok m(1) by (simp add: alloc_tag_set_mem_def s0_def s1_def)
  have failed: "\<exists>ret' s' k'. tag_set_fail ret x y = Some (ret', s', k') \<and> queue_depth s' \<le> queue_depth s \<and>
      (ret' = Ret 0 \<longrightarrow> set_ready v s' \<and> 0 < queue_depth s' \<and> (queue_depth s' < queue_depth s \<longrightarrow> reserved_tags s + TAG_MIN v \<le> queue_depth s')) \<and>
      (queue_depth s' = queue_depth s \<longrightarrow> kmem k' = kmem k + (if ret' = Ret 0 then set_mem v s' else 0))"
    if x: "tags_mem x = Live" "nr_maps x = nr_maps s" "set_map_mem x = mm" "queue_depth x \<le> queue_depth s"
        "queue_depth x = queue_depth s \<longrightarrow> kmem y = kmem k2" and ret: "ret \<noteq> Ret 0" for ret x y
  proof -
    have "\<forall>j\<in>set (hctx_types (nr_maps x)). set_map_mem x j = Null \<or> set_map_mem x j = Live" using m(3) x by simp
    from tag_set_fail_result [OF x(1) this, of ret y] show ?thesis using x ret m(2) ok(2) by auto
  qed
  show ?thesis
  proof (cases got)
    case False
    then show ?thesis using failed [of s1 k2 "Err ENOMEM"] start by (simp add: s1_def s0_def)
  next
    case True
    have "nr_maps s1 = 1 \<or> \<not> is_kdump v \<and> op_map_queues v \<noteq> None" using s(2) by (simp add: s1_def s0_def)
    then obtain ret m2 where m2: "blk_mq_update_queue_map v s1 = Some (ret, s1\<lparr>set_map := m2\<rparr>)" using update_queue_map_result by blast
    define s2 where "s2 = s1\<lparr>set_map := m2\<rparr>"
    have s2: "tags_mem s2 = Live" "nr_maps s2 = nr_maps s" "set_map_mem s2 = mm" "queue_depth s2 = queue_depth s" "reserved_tags s2 = reserved_tags s"
        "rq_size v s2 = rq_size v s" "no_tags s2" "set_tags s2 = replicate (set_nr_queues v s) No_tags" "set_nr_hw s2 = set_nr_hw s"
      using s(4) by (simp_all add: s2_def s1_def s0_def rq_size_def no_tags_def)
    show ?thesis
    proof (cases "ret = Ret 0")
      case False
      then show ?thesis using failed [of s2 k2 ret] start True m2 s2 by (simp flip: s2_def)
    next
      case ret: True
      obtain ret2 tags' d k3 where r: "blk_mq_alloc_rq_maps v s2 k2 = Some (ret2, s2\<lparr>set_tags := tags', queue_depth := d\<rparr>, k3)"
          "length tags' = length (set_tags s2)" "d \<le> queue_depth s2" "ret2 \<noteq> Ret 0 \<longrightarrow> ret2 = Err ENOMEM \<and> d < queue_depth s2"
          "ret2 = Ret 0 \<longrightarrow> 0 < d \<and> tags_ready v (s2\<lparr>set_tags := tags', queue_depth := d\<rparr>) \<and>
             (d = queue_depth s2 \<longrightarrow> kmem k3 = kmem k2 + set_cost v (s2\<lparr>set_tags := tags', queue_depth := d\<rparr>)) \<and>
             (d < queue_depth s2 \<longrightarrow> reserved_tags s2 + TAG_MIN v \<le> d)"
        using alloc_rq_maps_result [of v s2 k2] sz ops s(3) s2 by auto
      define s3 where "s3 = s2\<lparr>set_tags := tags', queue_depth := d\<rparr>"
      have s3: "tags_mem s3 = Live" "nr_maps s3 = nr_maps s" "set_map_mem s3 = mm" "queue_depth s3 = d" "length (set_tags s3) = set_nr_queues v s3"
        using s2 r(2) by (simp_all add: s3_def set_nr_queues_def)
      have run: "alloc_tag_set_mem v s k = (if ret2 \<noteq> Ret 0 then tag_set_fail ret2 s3 k3 else Some (Ret 0, s3, k3))"
        using start True m2 ret r(1) by (simp flip: s2_def s3_def)
      show ?thesis
      proof (cases "ret2 = Ret 0")
        case False
        then show ?thesis using failed [of s3 k3 ret2] run r(3,4) s2 s3 by simp
      next
        case True
        note r5 = r(5) [folded s3_def]
        have "set_ready v s3" using r5 True s3 m(3) by (simp add: set_ready_def)
        then show ?thesis
          by (intro exI [of _ "Ret 0"] exI [of _ s3] exI [of _ k3]) (use run True r(3) r5 s2(4,5) s3 m(2) ok(2) in \<open>simp add: set_mem_def\<close>)
      qed
    qed
  qed
qed

lemma plenty_tag_set:
  assumes p: "plenty v" "maps_succeed v" and q: "0 < queue_depth s" "nr_maps s = 1 \<or> \<not> is_kdump v \<and> op_map_queues v \<noteq> None"
    and a: "alloc_tag_set_mem v s k = Some (ret, s', k')"
  shows "ret = Ret 0 \<and> queue_depth s' = queue_depth s"
proof -
  define s0 where "s0 = s\<lparr>tags_mem := Live, set_tags := replicate (set_nr_queues v s) No_tags\<rparr>"
  obtain got s1 k2 where m: "alloc_mq_maps v (hctx_types (nr_maps s)) s0 (kmem_add 1 (k_next k)) = (got, s1, k2)" by (cases "alloc_mq_maps v (hctx_types (nr_maps s)) s0 (kmem_add 1 (k_next k))")
  have s1: "got" "queue_depth s1 = queue_depth s" "nr_maps s1 = nr_maps s" using plenty_mq_maps [OF p(1) m] by (simp_all add: s0_def)
  have e: "do { (ret, s2) \<leftarrow> blk_mq_update_queue_map v s1;
        if ret \<noteq> Ret 0 then tag_set_fail ret s2 k2
        else do { (ret2, s3, k3) \<leftarrow> blk_mq_alloc_rq_maps v s2 k2; if ret2 \<noteq> Ret 0 then tag_set_fail ret2 s3 k3 else Some (Ret 0, s3, k3) } } = Some (ret, s', k')"
    using a m s1(1) by (simp add: alloc_tag_set_mem_def plenty_new [OF p(1)] s0_def)
  obtain r2 s2 where u: "blk_mq_update_queue_map v s1 = Some (r2, s2)" using e by (auto split: bind_splits)
  have r2: "r2 = Ret 0" by (rule maps_succeed_Ret [OF p(2) u])
  obtain ret' mm where "blk_mq_update_queue_map v s1 = Some (ret', s1\<lparr>set_map := mm\<rparr>)"
    using update_queue_map_result [of s1 v] q(2) s1(3) by auto
  then have d2: "queue_depth s2 = queue_depth s" using u s1(2) by simp
  obtain r3 s3 k3 where r: "blk_mq_alloc_rq_maps v s2 k2 = Some (r3, s3, k3)" using e u r2 by (auto split: bind_splits)
  show ?thesis using plenty_rq_maps [OF p(1) r] q(1) d2 e u r2 r by auto
qed

text \<open>
  C14: Tag sets are set up and taken down in balance (\<open>blk_mq_alloc_tag_set\<close>, \<open>blk_mq_free_tag_set\<close>). Assume a set whose maps are
  null, whose requests have a positive size that fits into the largest block of pages, whose driver has \<open>exit_request\<close> when it
  has \<open>init_request\<close>, and maps the queues itself when there are several maps. Then the allocation returns. When it
  succeeds, every hardware queue has tags of the depth of the set, which is positive, not above what was asked
  for, and not below the reserved tags plus the minimum when memory made it shrink; and freeing the set is
  defined and gives back the memory of the set: the array, the maps, the tags, pages and requests. As long as
  the depth was not reduced, that is all that was taken, and a set-up that failed has taken nothing. When the
  arguments are in order and neither memory nor the driver fails, the set-up succeeds with the full depth.
\<close>
theorem tag_set_round_trip:
  assumes "0 < rq_size v s" "rq_size v s \<le> order_to_size v max_order" "op_exit_request v = op_init_request v"
    "\<forall>j. set_map_mem s j = Null" "nr_maps s \<le> 1 \<or> op_map_queues v \<noteq> None"
  shows "\<exists>ret s' k'. blk_mq_alloc_tag_set v s k = Some (ret, s', k') \<and>
    (ret = Ret 0 \<longrightarrow> tags_ready v s' \<and> 0 < queue_depth s' \<and> queue_depth s' \<le> wanted_depth v s \<and>
       (queue_depth s' < wanted_depth v s \<longrightarrow> reserved_tags s + TAG_MIN v \<le> queue_depth s') \<and>
       (\<exists>s2 k2. blk_mq_free_tag_set v s' k' = Some (s2, k2) \<and> kmem k2 = kmem k' - set_mem v s' \<and>
          (queue_depth s' = wanted_depth v s \<longrightarrow> kmem k2 = kmem k))) \<and>
    (ret \<noteq> Ret 0 \<longrightarrow> wanted_depth v s \<le> queue_depth s' \<longrightarrow> kmem k' = kmem k) \<and>
    (plenty v \<and> maps_succeed v \<and> fst (tag_set_args v s) = Ret 0 \<longrightarrow> ret = Ret 0 \<and> queue_depth s' = wanted_depth v s)"
proof -
  obtain r0 s1 where args: "tag_set_args v s = (r0, s1)" by force
  show ?thesis
  proof (cases "r0 = Ret 0")
    case False
    then show ?thesis using args tag_set_args_refused [OF args]
      by (intro exI [of _ r0] exI [of _ s1] exI [of _ k]) (simp add: blk_mq_alloc_tag_set_def)
  next
    case True
    obtain n h where s1: "s1 = s\<lparr>queue_depth := wanted_depth v s, nr_maps := n, set_nr_hw := h\<rparr>" "0 < wanted_depth v s" "h \<le> set_nr_queues v s1"
        "n = 1 \<or> n = nr_maps s \<and> 1 < n \<and> \<not> is_kdump v"
      using tag_set_args_result args True by blast
    have pre: "0 < rq_size v s1" "rq_size v s1 \<le> order_to_size v max_order" "\<forall>j. set_map_mem s1 j = Null"
        "nr_maps s1 = 1 \<or> \<not> is_kdump v \<and> op_map_queues v \<noteq> None" "0 < queue_depth s1" "set_nr_hw s1 \<le> set_nr_queues v s1"
        "queue_depth s1 = wanted_depth v s" "reserved_tags s1 = reserved_tags s"
      using assms s1(2-4) unfolding s1(1) by (auto simp: rq_size_def)
    obtain ret s' k' where r: "alloc_tag_set_mem v s1 k = Some (ret, s', k')" "queue_depth s' \<le> queue_depth s1"
        "ret = Ret 0 \<longrightarrow> set_ready v s' \<and> 0 < queue_depth s' \<and> (queue_depth s' < queue_depth s1 \<longrightarrow> reserved_tags s1 + TAG_MIN v \<le> queue_depth s')"
        "queue_depth s' = queue_depth s1 \<longrightarrow> kmem k' = kmem k + (if ret = Ret 0 then set_mem v s' else 0)"
      using alloc_tag_set_mem_result [OF pre(1,2) assms(3) pre(3-6), of k] by blast
    have eq: "blk_mq_alloc_tag_set v s k = Some (ret, s', k')" using args True r(1) by (simp add: blk_mq_alloc_tag_set_def)
    have free: "\<exists>s2 k2. blk_mq_free_tag_set v s' k' = Some (s2, k2) \<and> kmem k2 = kmem k' - set_mem v s'" if "ret = Ret 0"
      using free_tag_set_result [OF assms(3), of s' k'] r(3) that by (auto simp: set_ready_def set_mem_def)
    have full: "plenty v \<and> maps_succeed v \<longrightarrow> ret = Ret 0 \<and> queue_depth s' = wanted_depth v s"
      using plenty_tag_set [OF _ _ pre(5,4) r(1)] pre(7) by simp
    show ?thesis
      by (intro exI [of _ ret] exI [of _ s'] exI [of _ k'] conjI eq) (use r pre(7,8) free full in \<open>auto simp: set_ready_def\<close>)
  qed
qed

theorem tag_set_round_trip_witness:
  "\<exists>s' k' s2 k2. blk_mq_alloc_tag_set ex_menv ex_tag_set \<lparr>kmem = 0, kpos = 0\<rparr> = Some (Ret 0, s', k') \<and> tags_ready ex_menv s' \<and> queue_depth s' = 8 \<and>
     blk_mq_free_tag_set ex_menv s' k' = Some (s2, k2) \<and> kmem k2 = 0"
proof -
  have pre: "0 < rq_size ex_menv ex_tag_set" "rq_size ex_menv ex_tag_set \<le> order_to_size ex_menv max_order"
      "\<forall>j. set_map_mem ex_tag_set j = Null" "nr_maps ex_tag_set \<le> 1 \<or> op_map_queues ex_menv \<noteq> None"
    by simp_all (simp_all add: ex_tag_set_def)
  have d: "wanted_depth ex_menv ex_tag_set = 8" "fst (tag_set_args ex_menv ex_tag_set) = Ret 0"
    by (simp_all add: wanted_depth_def tag_set_args_def ex_menv_def ex_tag_set_def BLK_MQ_MAX_DEPTH_def HCTX_MAX_TYPES_def Let_def)
  show ?thesis
    using tag_set_round_trip [OF pre(1,2) ex_ops pre(3,4), of "\<lparr>kmem = 0, kpos = 0\<rparr>"] ex_plenty d by auto
qed

text \<open>The memory behind tags other than their map of requests: the pages and what the driver set up.\<close>

definition held_rqs :: "menv \<Rightarrow> tags_ptr \<Rightarrow> int" where
  "held_rqs v p = (case p of Tags t \<Rightarrow> rqs_cost v t | _ \<Rightarrow> 0)"

lemma alloc_maps_loop_add:
  "alloc_maps_loop v i j ts k = Some (Ret 0, ts1, k1) \<Longrightarrow> alloc_maps_loop v i (j + m) ts k = alloc_maps_loop v (i + j) m ts1 k1"
proof (induction j arbitrary: i ts k)
  case (Suc j)
  obtain ok ts2 k2 where s: "alloc_rq_map' v i ts k = Some (ok, ts2, k2)" "ok" "alloc_maps_loop v (Suc i) j ts2 k2 = Some (Ret 0, ts1, k1)"
    using Suc.prems by (auto split: bind_splits if_split_asm)
  then show ?case using Suc.IH [OF s(3)] by simp
qed simp

lemma full_tags_cost:
  assumes "full_tags v ts t" "0 < queue_depth ts"
  shows "1 \<le> rqs_cost v t"
proof -
  have "rt_pages t \<noteq> []" using assms by (auto simp: full_tags_def tags_full_def layout_def laid_def)
  then have "1 \<le> int (length (rt_pages t))" using length_greater_0_conv [of "rt_pages t"] by linarith
  moreover have "0 \<le> init_cost v n" for n by (simp add: init_cost_def)
  ultimately show ?thesis unfolding rqs_cost_def by (rule add_increasing2 [rotated])
qed

text \<open>
  C40: A failing \<open>__blk_mq_alloc_rq_maps\<close> leaks. Assume requests of a positive size that fits into the largest block of pages, a
  driver with \<open>exit_request\<close> when it has \<open>init_request\<close>, and a set without tags of a positive depth. When the tags of the
  first \<open>j\<close> queues have been allocated and those of the next queue cannot be, the function returns out of memory, the \<open>j\<close>
  queues lose their maps of requests, and exactly the pages of these queues and what the driver set up for
  their requests, at least one object for each queue, stays allocated. Nothing refers to it any more but dangling
  pointers.
\<close>
theorem rq_map_unwind_leaks:
  assumes "0 < rq_size v ts" "rq_size v ts \<le> order_to_size v max_order" "op_exit_request v = op_init_request v"
    "no_tags ts" "0 < queue_depth ts" "j < set_nr_hw ts"
    "alloc_maps_loop v 0 j ts k = Some (Ret 0, tsj, kj)" "alloc_rq_map' v j tsj kj = Some (False, tsf, kf)"
  shows "\<exists>ts' k'. alloc_rq_maps' v ts k = Some (Err ENOMEM, ts', k') \<and>
    (\<forall>i < j. set_tags ts' ! i = Dead_tags \<and> 1 \<le> held_rqs v (set_tags tsj ! i)) \<and>
    kmem k' = kmem k + (\<Sum>i<j. held_rqs v (set_tags tsj ! i))"
proof -
  have len: "j < length (set_tags ts)" using assms(4,6) by (simp add: no_tags_def)
  obtain ret tags k2 es where "alloc_maps_loop v 0 j ts k = Some (ret, ts\<lparr>set_tags := tags\<rparr>, k2)" "\<forall>t\<in>set es. full_tags v ts t"
      "if ret = Ret 0 then length es = j \<and> tags = map Tags ([] @ es) @ drop j (set_tags ts) \<and> kmem k2 = kmem k + sum_list (map (\<lambda>t. 3 + rqs_cost v t) es)
       else ret = Err ENOMEM \<and> length es < j \<and> tags = replicate (0 + length es) Dead_tags @ No_tags # drop (Suc (length es)) (set_tags ts) \<and>
         kmem k2 = kmem k + sum_list (map (\<lambda>t. 3 + rqs_cost v t) es) - 3 * int (0 + length es)"
    using alloc_maps_loop_result [OF assms(1-3), of "[]" "set_tags ts" 0 j k] len by auto
  then have r: "tsj = ts\<lparr>set_tags := map Tags es @ drop j (set_tags ts)\<rparr>" "length es = j" "\<forall>t\<in>set es. full_tags v ts t"
      "kmem kj = kmem k + sum_list (map (\<lambda>t. 3 + rqs_cost v t) es)"
    using assms(7) by auto
  have sum: "sum_list (map (\<lambda>t. 3 + rqs_cost v t) es) = 3 * int (length es) + sum_list (map (rqs_cost v) es)" by (induction es) simp_all
  have at: "set_tags tsj ! i = Tags (es ! i)" if "i < j" for i using that r(1,2) by (simp add: nth_append)
  have "(\<Sum>i<j. held_rqs v (set_tags tsj ! i)) = (\<Sum>i<j. rqs_cost v (es ! i))" by (rule sum.cong) (simp_all add: at held_rqs_def)
  then have held: "(\<Sum>i<j. held_rqs v (set_tags tsj ! i)) = sum_list (map (rqs_cost v) es)" using r(2) by (simp add: sum_list_sum_nth atLeast0LessThan)
  have pre: "0 < rq_size v tsj" "rq_size v tsj \<le> order_to_size v max_order" "j < length (set_tags tsj)" using assms(1,2) len r(2) unfolding r(1) by simp_all
  obtain p where p: "tsf = tsj\<lparr>set_tags := (set_tags tsj)[j := p]\<rparr>" "kmem kf = kmem kj"
    using alloc_rq_map'_result [OF pre(1,2) assms(3) pre(3), of kj] assms(8) by auto
  obtain m where m: "set_nr_hw ts = j + Suc m" using assms(6) less_imp_Suc_add by fastforce
  have "for_each unwind_map (rev [0..<j]) (tsf, kf) = Some (tsf\<lparr>set_tags := replicate j Dead_tags @ drop j (set_tags tsf)\<rparr>, kmem_add (- 3 * int j) kf)"
    by (rule unwind_result) (use pre(3) p(1) in simp)
  then have run: "alloc_rq_maps' v ts k = Some (Err ENOMEM, tsf\<lparr>set_tags := replicate j Dead_tags @ drop j (set_tags tsf)\<rparr>, kmem_add (- 3 * int j) kf)"
    unfolding alloc_rq_maps'_def m alloc_maps_loop_add [OF assms(7)] using assms(8) by simp
  have "1 \<le> held_rqs v (set_tags tsj ! i)" if "i < j" for i
    using at [OF that] full_tags_cost [OF _ assms(5)] r(2,3) that by (simp add: held_rqs_def)
  then show ?thesis
    using held sum r(2,4) p(2) by (intro exI [of _ "tsf\<lparr>set_tags := replicate j Dead_tags @ drop j (set_tags tsf)\<rparr>"] exI [of _ "kmem_add (- 3 * int j) kf"] conjI run)
      (simp_all add: nth_append)
qed

text \<open>Memory that runs out at the second of two queues of one request each.\<close>

definition ex_menv_short :: menv where
  "ex_menv_short = ex_menv\<lparr>mk := \<lparr>k_alloc = (\<lambda>i. i < 5), k_call = (\<lambda>_. Ret 0)\<rparr>\<rparr>"

definition ex_set_tags :: blk_mq_tag_set where
  "ex_set_tags = ex_tag_set\<lparr>queue_depth := 1, set_tags := [No_tags, No_tags], tags_mem := Live\<rparr>"

lemma ex_short_simps:
  "mk ex_menv_short = \<lparr>k_alloc = (\<lambda>i. i < 5), k_call = (\<lambda>_. Ret 0)\<rparr>" "op_init_request ex_menv_short = True" "op_exit_request ex_menv_short = True"
  "order_to_size ex_menv_short ord = 4096 * 2 ^ ord" "rq_size ex_menv_short ex_set_tags = 832" "queue_depth ex_set_tags = 1"
  "set_nr_hw ex_set_tags = 2" "set_tags ex_set_tags = [No_tags, No_tags]" "reserved_tags ex_set_tags = 1"
  using ex_rq_size
  by (simp_all add: ex_menv_short_def ex_set_tags_def order_to_size_def rq_size_def) (simp_all add: ex_menv_def ex_tag_set_def)

lemma ex_short_shrink: "shrink_order ex_menv_short 832 4 = 0"
proof -
  have "shrink_order ex_menv_short 832 (Suc (Suc (Suc (Suc 0)))) = 0" by (simp add: ex_short_simps)
  then show ?thesis by (simp add: eval_nat_numeral)
qed

lemma ex_short_rqs:
  "blk_mq_alloc_rqs ex_menv_short ex_set_tags 1 \<lparr>rt_nr_tags = 1, rt_reserved = 1, rt_static = [None], rt_pages = []\<rparr> \<lparr>kmem = 3, kpos = 3\<rparr> =
     Some (Ret 0, \<lparr>rt_nr_tags = 1, rt_reserved = 1, rt_static = [Some (0, 0)], rt_pages = [0]\<rparr>, \<lparr>kmem = 5, kpos = 5\<rparr>)"
proof -
  have stop: "alloc_rqs_loop ex_menv_short 832 1 1 left t k = Some (True, t, k)" for left t k
    by (subst alloc_rqs_loop.simps) simp
  have pages: "get_pages ex_menv_short 832 0 \<lparr>kmem = 3, kpos = 3\<rparr> = (Some 0, \<lparr>kmem = 4, kpos = 4\<rparr>)"
    by (simp add: k_new_def ex_short_simps k_next_def kmem_add_def)
  have slot: "init_slots ex_menv_short 832 0 0 0 1 \<lparr>rt_nr_tags = 1, rt_reserved = 1, rt_static = [None], rt_pages = [0]\<rparr> \<lparr>kmem = 4, kpos = 4\<rparr> =
      Some (True, \<lparr>rt_nr_tags = 1, rt_reserved = 1, rt_static = [Some (0, 0)], rt_pages = [0]\<rparr>, \<lparr>kmem = 5, kpos = 5\<rparr>)"
    by (simp add: blk_mq_init_request_def k_make_def k_do_def ex_short_simps k_next_def kmem_add_def)
  show ?thesis unfolding blk_mq_alloc_rqs_def
    by (subst alloc_rqs_loop.simps) (simp add: ex_short_simps max_order_def ex_short_shrink pages slot stop del: get_pages.simps init_slots.simps One_nat_def)
qed

theorem rq_map_unwind_leaks_witness:
  "\<exists>ts' k'. alloc_rq_maps' ex_menv_short ex_set_tags \<lparr>kmem = 0, kpos = 0\<rparr> = Some (Err ENOMEM, ts', k') \<and> set_tags ts' ! 0 = Dead_tags \<and> kmem k' = 2"
proof -
  have m: "blk_mq_alloc_rq_map ex_menv_short 1 1 \<lparr>kmem = 0, kpos = 0\<rparr> =
      (Some \<lparr>rt_nr_tags = 1, rt_reserved = 1, rt_static = [None], rt_pages = []\<rparr>, \<lparr>kmem = 3, kpos = 3\<rparr>)"
    "blk_mq_alloc_rq_map ex_menv_short 1 1 \<lparr>kmem = 5, kpos = 5\<rparr> = (None, \<lparr>kmem = 5, kpos = 6\<rparr>)"
    by (simp_all add: blk_mq_alloc_rq_map_def k_new_def ex_short_simps k_next_def kmem_add_def)
  define t where "t = \<lparr>rt_nr_tags = 1, rt_reserved = 1, rt_static = [Some (0, 0)], rt_pages = [0]\<rparr>"
  define ts1 where "ts1 = ex_set_tags\<lparr>set_tags := [Tags t, No_tags]\<rparr>"
  have one: "alloc_maps_loop ex_menv_short 0 1 ex_set_tags \<lparr>kmem = 0, kpos = 0\<rparr> = Some (Ret 0, ts1, \<lparr>kmem = 5, kpos = 5\<rparr>)"
    using m(1) ex_short_rqs by (simp add: alloc_rq_map'_def put_tags_def ex_short_simps ts1_def t_def)
  have two: "alloc_rq_map' ex_menv_short 1 ts1 \<lparr>kmem = 5, kpos = 5\<rparr> = Some (False, ts1, \<lparr>kmem = 5, kpos = 6\<rparr>)"
    using m(2) by (simp add: alloc_rq_map'_def put_tags_def ts1_def ex_short_simps)
  have pre: "0 < rq_size ex_menv_short ex_set_tags" "rq_size ex_menv_short ex_set_tags \<le> order_to_size ex_menv_short max_order"
      "op_exit_request ex_menv_short = op_init_request ex_menv_short" "no_tags ex_set_tags" "0 < queue_depth ex_set_tags" "1 < set_nr_hw ex_set_tags"
    by (simp_all add: ex_short_simps max_order_def no_tags_def)
  have "held_rqs ex_menv_short (set_tags ts1 ! 0) = 2" by (simp add: held_rqs_def ts1_def t_def rqs_cost_def init_cost_def ex_short_simps)
  then show ?thesis using rq_map_unwind_leaks [OF pre one two] by auto
qed

end
