(* ===== verification/Blk_Mq_Setup_Correct.thy ===== *)
theory Blk_Mq_Setup_Correct
  imports Blk_Mq_Setup Blk_Mq_Tags_Correct
begin

text \<open>
  Correctness of the set-up of queues: the maps from software to hardware queues, what becomes of requests when a CPU goes
  away, the memory of hardware contexts, and the ways in which a change of the number of hardware queues can fail.
\<close>

section \<open>Updates of a queue\<close>

lemma q_blk_on_blk [simp]: "q_blk (on_blk f q) = f (q_blk q)" "hw_slots (on_blk f q) = hw_slots q" "unused_hctxs (on_blk f q) = unused_hctxs q"
  by (simp_all add: on_blk_def)

lemma nr_hw_upd [simp]: "nr_hw_queues (the_q (upd_hctx h f s)) = nr_hw_queues (the_q s)" "nr_hw_queues (the_q (upd_ctx c g s)) = nr_hw_queues (the_q s)"
  by (simp_all add: upd_hctx_def upd_ctx_def)

lemma hw_get_on_blk [simp]: "hw_get i (on_blk f q) = (if i < length (hw_slots q) \<and> hw_slots q ! i then Some (hctx_at (f (q_blk q)) i) else None)"
  by (simp add: hw_get_def)

lemma hw_get_present: "i < length (hw_slots q) \<Longrightarrow> hw_slots q ! i \<Longrightarrow> hw_get i q = Some (hctx_at (q_blk q) i)"
  by (simp add: hw_get_def)

lemma on_hw_present: "i < length (hw_slots q) \<Longrightarrow> hw_slots q ! i \<Longrightarrow> on_hw f i q = Some (on_blk (upd_hctx i f) q)"
  by (simp add: on_hw_def hw_get_def)

text \<open>The entries of the array below a bound are all there.\<close>

definition present :: "nat \<Rightarrow> mq_queue \<Rightarrow> bool" where
  "present n q \<longleftrightarrow> n \<le> length (hw_slots q) \<and> (\<forall>i < n. hw_slots q ! i)"

lemma present_on_blk [simp]: "present n (on_blk f q) = present n q"
  by (simp add: present_def)

lemma on_hw_Some: "present n q \<Longrightarrow> i < n \<Longrightarrow> on_hw f i q = Some (on_blk (upd_hctx i f) q)"
  by (rule on_hw_present) (auto simp: present_def)

lemma hw_get_Some: "present n q \<Longrightarrow> i < n \<Longrightarrow> hw_get i q = Some (hctx_at (q_blk q) i)"
  by (rule hw_get_present) (auto simp: present_def)

text \<open>A change of every hardware context below a bound.\<close>

lemma on_hw_all:
  assumes "present n q"
  shows "\<exists>q'. for_each (on_hw f) [0..<n] q = Some q' \<and> hw_slots q' = hw_slots q \<and> unused_hctxs q' = unused_hctxs q \<and>
    (\<forall>i. hctx_at (q_blk q') i = (if i < n then f (hctx_at (q_blk q) i) else hctx_at (q_blk q) i)) \<and>
    (\<forall>c. ctx_at (q_blk q') c = ctx_at (q_blk q) c) \<and> q_nr_hw q' = q_nr_hw q"
  using assms
proof (induction n)
  case (Suc n)
  then have "present n q" by (simp add: present_def)
  then obtain q1 where q1: "for_each (on_hw f) [0..<n] q = Some q1" "hw_slots q1 = hw_slots q" "unused_hctxs q1 = unused_hctxs q"
      "\<forall>i. hctx_at (q_blk q1) i = (if i < n then f (hctx_at (q_blk q) i) else hctx_at (q_blk q) i)"
      "\<forall>c. ctx_at (q_blk q1) c = ctx_at (q_blk q) c" "q_nr_hw q1 = q_nr_hw q"
    using Suc.IH by blast
  have "present (Suc n) q1" using Suc.prems q1(2) by (simp add: present_def)
  then have st: "on_hw f n q1 = Some (on_blk (upd_hctx n f) q1)" by (rule on_hw_Some) simp
  show ?case
    by (rule exI [of _ "on_blk (upd_hctx n f) q1"]) (use q1 st in \<open>auto simp: for_each_append less_Suc_eq\<close>)
qed simp

section \<open>The maps from software to hardware queues\<close>

abbreviation mapped_to :: "blk_mq_tag_set \<Rightarrow> hctx_type \<Rightarrow> nat \<Rightarrow> nat" where
  "mapped_to ts j c \<equiv> mq_map (set_map ts j) ! c"

definition used_types :: "blk_mq_tag_set \<Rightarrow> hctx_type list" where
  "used_types ts = filter (\<lambda>j. map_nr_queues (set_map ts j) \<noteq> 0) (hctx_types (nr_maps ts))"

text \<open>
  The maps of a set are fit for \<open>n\<close> hardware queues: every CPU has an entry that names one of them, and every hardware queue
  \<open>h\<close> has a type \<open>ty h\<close> such that a map of another type sends a CPU to it only if the map of its own type, which is an earlier
  one, does the same. Both separate queues for each type and queues that several types share are of this form.
\<close>

definition map_plan :: "menv \<Rightarrow> blk_mq_tag_set \<Rightarrow> (nat \<Rightarrow> hctx_type) \<Rightarrow> nat \<Rightarrow> bool" where
  "map_plan v ts ty n \<longleftrightarrow> distinct (possible_cpus v) \<and> nr_cpu_ids (mkern v) < 65535 \<and> nr_maps ts \<le> HCTX_MAX_TYPES \<and>
     (\<forall>c\<in>set (possible_cpus v). c < nr_cpu_ids (mkern v) \<and>
        (\<forall>j\<in>set (HCTX_TYPE_DEFAULT # used_types ts). c < length (mq_map (set_map ts j)) \<and> mapped_to ts j c < n) \<and>
        (\<forall>j\<in>set (used_types ts). ty (mapped_to ts j c) \<in> set (used_types ts) \<and> mapped_to ts (ty (mapped_to ts j c)) c = mapped_to ts j c \<and>
           hctx_type_index (ty (mapped_to ts j c)) \<le> hctx_type_index j))"

definition serves :: "blk_mq_tag_set \<Rightarrow> (nat \<Rightarrow> hctx_type) \<Rightarrow> nat \<Rightarrow> nat \<Rightarrow> bool" where
  "serves ts ty h c \<longleftrightarrow> ty h \<in> set (used_types ts) \<and> mapped_to ts (ty h) c = h"

text \<open>What is true of a hardware queue when the CPUs of \<open>cs\<close> are linked to it.\<close>

definition linked :: "blk \<Rightarrow> (nat \<Rightarrow> hctx_type) \<Rightarrow> nat \<Rightarrow> nat list \<Rightarrow> bool" where
  "linked s ty h cs \<longleftrightarrow> hctx_ctxs (hctx_at s h) = cs \<and> hctx_cpumask (hctx_at s h) = cs \<and> nr_ctx (hctx_at s h) = length cs \<and>
     (cs \<noteq> [] \<longrightarrow> hctx_type_of (hctx_at s h) = ty h) \<and> (\<forall>b < length cs. index_hw (ctx_at s (cs ! b)) (ty h) = b)"

lemma linked_maps_ok: "linked s ty h cs \<Longrightarrow> distinct cs \<Longrightarrow> maps_ok h s"
  by (cases cs) (auto simp: linked_def maps_ok_def ctx_bit_def)

lemma types_before:
  assumes "hctx_types n = js @ j # ks" "i \<in> set (hctx_types n)" "hctx_type_index i < hctx_type_index j"
  shows "i \<in> set js"
proof -
  have "sorted_wrt (\<lambda>a b. hctx_type_index a < hctx_type_index b) (hctx_types n)"
    unfolding hctx_types_def by (rule sorted_wrt_take) (simp add: hctx_type_index_def)
  then have "\<forall>b\<in>set ks. hctx_type_index j < hctx_type_index b" using assms(1) by (simp add: sorted_wrt_append)
  then show ?thesis using assms by auto
qed

lemma type_index_eq: "hctx_type_index i = hctx_type_index j \<longleftrightarrow> i = j"
  by (cases i; cases j) (simp_all add: hctx_type_index_def)

lemma blk_link [simp]:
  "hctx_at (q_blk (link_ctx c j h q)) i = (if i = h then (hctx_at (q_blk q) h)\<lparr>hctx_cpumask := hctx_cpumask (hctx_at (q_blk q) h) @ [c],
     hctx_type_of := j, hctx_ctxs := hctx_ctxs (hctx_at (q_blk q) h) @ [c], nr_ctx := Suc (nr_ctx (hctx_at (q_blk q) h))\<rparr> else hctx_at (q_blk q) i)"
  "ctx_at (q_blk (link_ctx c j h q)) d = (if d = c then (ctx_at (q_blk q) c)\<lparr>index_hw := (index_hw (ctx_at (q_blk q) c))(j := nr_ctx (hctx_at (q_blk q) h))\<rparr> else ctx_at (q_blk q) d)"
  "hw_slots (link_ctx c j h q) = hw_slots q" "unused_hctxs (link_ctx c j h q) = unused_hctxs q" "q_nr_hw (link_ctx c j h q) = q_nr_hw q"
  by (simp_all add: link_ctx_def Let_def)

lemma blk_set_ctx [simp]:
  "hctx_at (q_blk (set_ctx_hctx c j h q)) i = hctx_at (q_blk q) i"
  "ctx_at (q_blk (set_ctx_hctx c j h q)) d = (if d = c then (ctx_at (q_blk q) c)\<lparr>ctx_hctxs := (ctx_hctxs (ctx_at (q_blk q) c))(j := h)\<rparr> else ctx_at (q_blk q) d)"
  "hw_slots (set_ctx_hctx c j h q) = hw_slots q" "unused_hctxs (set_ctx_hctx c j h q) = unused_hctxs q" "q_nr_hw (set_ctx_hctx c j h q) = q_nr_hw q"
  by (simp_all add: set_ctx_hctx_def)


lemma linked_set_ctx [simp]: "linked (q_blk (set_ctx_hctx c j h q)) ty i cs = linked (q_blk q) ty i cs"
proof -
  have "index_hw (ctx_at (q_blk (set_ctx_hctx c j h q)) d) = index_hw (ctx_at (q_blk q) d)" for d by simp
  then show ?thesis unfolding linked_def by simp
qed

lemma linked_link:
  assumes "linked (q_blk q) ty h cs" "ty h = j" "c \<notin> set cs"
  shows "linked (q_blk (link_ctx c j h q)) ty h (cs @ [c])"
proof -
  have "index_hw (ctx_at (q_blk (link_ctx c j h q)) ((cs @ [c]) ! b)) (ty h) = b" if "b < length (cs @ [c])" for b
  proof (cases "b < length cs")
    case True
    then have "cs ! b \<noteq> c" using assms(3) by auto
    then show ?thesis using True assms(1) by (simp add: nth_append linked_def)
  next
    case False
    then have "b = length cs" using that by simp
    then show ?thesis using assms(1,2) by (simp add: linked_def)
  qed
  then show ?thesis using assms(1,2) by (simp add: linked_def)
qed

lemma linked_other:
  assumes "linked (q_blk q) ty i cs" "i \<noteq> h" "ty i = j \<longrightarrow> c \<notin> set cs"
  shows "linked (q_blk (link_ctx c j h q)) ty i cs"
proof -
  have "index_hw (ctx_at (q_blk (link_ctx c j h q)) (cs ! b)) (ty i) = index_hw (ctx_at (q_blk q) (cs ! b)) (ty i)" if "b < length cs" for b
    using that assms(3) nth_mem [OF that] by auto
  then show ?thesis using assms(1,2) unfolding linked_def by simp
qed

text \<open>What the mapping leaves alone: the entries of the array, and the requests that wait.\<close>

definition same_hw :: "mq_queue \<Rightarrow> mq_queue \<Rightarrow> bool" where
  "same_hw q q' \<longleftrightarrow> hw_slots q' = hw_slots q \<and> unused_hctxs q' = unused_hctxs q \<and> q_nr_hw q' = q_nr_hw q \<and>
     (\<forall>h. ctx_map (hctx_at (q_blk q') h) = ctx_map (hctx_at (q_blk q) h)) \<and> (\<forall>c. rq_lists (ctx_at (q_blk q') c) = rq_lists (ctx_at (q_blk q) c))"

lemma same_hw_refl [simp]: "same_hw q q"
  by (simp add: same_hw_def)

lemma same_hw_trans: "same_hw q q1 \<Longrightarrow> same_hw q1 q2 \<Longrightarrow> same_hw q q2"
  by (simp add: same_hw_def)

lemma same_hw_present: "same_hw q q' \<Longrightarrow> present n q' = present n q"
  by (simp add: same_hw_def present_def)

lemma same_set_ctx [simp]: "same_hw q (set_ctx_hctx c j h q)"
  by (simp add: same_hw_def)

lemma same_link [simp]: "same_hw q (link_ctx c j h q)"
  by (simp add: same_hw_def)

definition map_target :: "blk_mq_tag_set \<Rightarrow> hctx_type \<Rightarrow> nat \<Rightarrow> nat" where
  "map_target ts j c = mapped_to ts (if j \<in> set (used_types ts) then j else HCTX_TYPE_DEFAULT) c"

lemma link_hctxs [simp]: "ctx_hctxs (ctx_at (q_blk (link_ctx c j h q)) d) = ctx_hctxs (ctx_at (q_blk q) d)"
  by simp

lemma map_queue_type_Some:
  assumes "map_plan v ts ty n" "present n q" "c \<in> set (possible_cpus v)" "j \<in> set (HCTX_TYPE_DEFAULT # used_types ts)"
  shows "blk_mq_map_queue_type ts q j c = Some (mapped_to ts j c)" "mapped_to ts j c < n"
proof -
  have "c < length (mq_map (set_map ts j)) \<and> mapped_to ts j c < n" using assms(1,3,4) by (simp add: map_plan_def) blast
  then show "blk_mq_map_queue_type ts q j c = Some (mapped_to ts j c)" "mapped_to ts j c < n"
    using assms(2) by (simp_all add: blk_mq_map_queue_type_def present_def)
qed

text \<open>The CPU \<open>c\<close>, when the types of \<open>js\<close> have been gone through.\<close>

definition linked_now :: "blk_mq_tag_set \<Rightarrow> (nat \<Rightarrow> hctx_type) \<Rightarrow> hctx_type list \<Rightarrow> nat \<Rightarrow> nat \<Rightarrow> nat list" where
  "linked_now ts ty js c h = (if ty h \<in> set js \<and> serves ts ty h c then [c] else [])"

lemma linked_now_same: "\<not> (ty h = j \<and> serves ts ty h c) \<Longrightarrow> linked_now ts ty (js @ [j]) c h = linked_now ts ty js c h"
  by (auto simp: linked_now_def)

lemma map_ctx_type_step:
  assumes plan: "map_plan v ts ty n" and q: "present n q" and c: "c \<in> set (possible_cpus v)" and types: "hctx_types (nr_maps ts) = js @ j # ks"
    and inv: "\<forall>h < n. linked (q_blk q) ty h (L h @ linked_now ts ty js c h)"
    and L: "\<forall>h < n. c \<notin> set (L h) \<and> length (L h) < nr_cpu_ids (mkern v)"
  shows "\<exists>q'. map_ctx_type v ts c j q = Some q' \<and> same_hw q q' \<and>
    (\<forall>h < n. linked (q_blk q') ty h (L h @ linked_now ts ty (js @ [j]) c h)) \<and>
    (\<forall>d. ctx_hctxs (ctx_at (q_blk q') d) = (if d = c then (ctx_hctxs (ctx_at (q_blk q) c))(j := map_target ts j c) else ctx_hctxs (ctx_at (q_blk q) d)))"
proof (cases "map_nr_queues (set_map ts j) = 0")
  case True
  have "j \<notin> set (used_types ts)" using True by (simp add: used_types_def)
  then have *: "\<not> (ty h = j \<and> serves ts ty h c)" for h by (auto simp: serves_def)
  have list: "linked_now ts ty (js @ [j]) c h = linked_now ts ty js c h" for h
    using * [of h] by (rule linked_now_same)
  show ?thesis
    by (rule exI [of _ "set_ctx_hctx c j (mapped_to ts HCTX_TYPE_DEFAULT c) q"])
      (use True inv map_queue_type_Some(1) [OF plan q c, of HCTX_TYPE_DEFAULT] \<open>j \<notin> set (used_types ts)\<close> in \<open>simp add: map_ctx_type_def list map_target_def\<close>)
next
  case False
  define h0 where "h0 = mapped_to ts j c"
  define q1 where "q1 = set_ctx_hctx c j h0 q"
  have "j \<in> set (hctx_types (nr_maps ts))" by (simp add: types)
  then have used: "j \<in> set (used_types ts)" using False by (simp add: used_types_def)
  have m: "blk_mq_map_queue_type ts q j c = Some h0" "h0 < n" using map_queue_type_Some [OF plan q c, of j] used by (simp_all add: h0_def)
  have own: "ty h0 \<in> set (used_types ts)" "mapped_to ts (ty h0) c = h0" "hctx_type_index (ty h0) \<le> hctx_type_index j"
    using plan c used by (auto simp: map_plan_def h0_def)
  have cpus: "nr_cpu_ids (mkern v) < 65535" using plan by (simp add: map_plan_def)
  have get: "hw_get h0 q1 = Some (hctx_at (q_blk q) h0)" using hw_get_Some [of n q1 h0] q m(2) by (simp add: q1_def present_def)
  have l0: "linked (q_blk q) ty h0 (L h0 @ linked_now ts ty js c h0)" using inv m(2) by blast
  have tgt: "map_target ts j c = h0" using used by (simp add: map_target_def h0_def)
  have dist: "j \<notin> set js" using types_distinct [of "nr_maps ts"] unfolding types by simp
  have only: "ty h = j \<and> serves ts ty h c \<Longrightarrow> h = h0" for h by (auto simp: serves_def h0_def)
  show ?thesis
  proof (cases "ty h0 = j")
    case True
    have lq: "linked (q_blk q1) ty h0 (L h0)" using l0 dist True by (simp add: q1_def linked_now_def)
    have nr: "nr_ctx (hctx_at (q_blk q) h0) = length (L h0)" "hctx_cpumask (hctx_at (q_blk q) h0) = L h0"
      using l0 dist True by (simp_all add: linked_def linked_now_def)
    have L0: "c \<notin> set (L h0)" "length (L h0) < nr_cpu_ids (mkern v)" using L m(2) by auto
    have run: "map_ctx_type v ts c j q = Some (link_ctx c j h0 q1)"
      using False m(1) get nr L0 cpus by (simp add: map_ctx_type_def flip: q1_def)
    have "linked (q_blk (link_ctx c j h0 q1)) ty h (L h @ linked_now ts ty (js @ [j]) c h)" if "h < n" for h
    proof (cases "h = h0")
      case True
      then show ?thesis using linked_link [OF lq \<open>ty h0 = j\<close> L0(1)] own \<open>ty h0 = j\<close> by (simp add: serves_def linked_now_def)
    next
      case other: False
      have "linked (q_blk q1) ty h (L h @ linked_now ts ty js c h)" using inv that by (simp add: q1_def)
      moreover have "linked_now ts ty (js @ [j]) c h = linked_now ts ty js c h"
        by (rule linked_now_same) (use only [of h] other in blast)
      moreover have "ty h = j \<longrightarrow> c \<notin> set (L h @ linked_now ts ty js c h)" using L that dist by (simp add: linked_now_def)
      ultimately show ?thesis using linked_other [of q1 ty h _ h0 j c] other by simp
    qed
    moreover have "same_hw q (link_ctx c j h0 q1)" using same_hw_trans [OF same_set_ctx same_link] by (simp add: q1_def)
    ultimately show ?thesis using run tgt by (intro exI [of _ "link_ctx c j h0 q1"]) (simp add: q1_def del: blk_link)
  next
    case other: False
    have "ty h0 \<in> set js"
      by (rule types_before [OF types]) (use own other type_index_eq [of "ty h0" j] in \<open>auto simp: used_types_def\<close>)
    then have "c \<in> set (hctx_cpumask (hctx_at (q_blk q) h0))" using l0 own by (simp add: linked_def serves_def linked_now_def)
    then have run: "map_ctx_type v ts c j q = Some q1" using False m(1) get by (simp add: map_ctx_type_def flip: q1_def)
    have "linked_now ts ty (js @ [j]) c h = linked_now ts ty js c h" for h
      by (rule linked_now_same) (use only [of h] other in blast)
    then show ?thesis using run inv tgt by (intro exI [of _ q1]) (simp add: q1_def)
  qed
qed


lemma map_types_loop:
  assumes plan: "map_plan v ts ty n" and c: "c \<in> set (possible_cpus v)"
    and L: "\<forall>h < n. c \<notin> set (L h) \<and> length (L h) < nr_cpu_ids (mkern v)"
  shows "hctx_types (nr_maps ts) = js @ ks \<Longrightarrow> present n q \<Longrightarrow> \<forall>h < n. linked (q_blk q) ty h (L h @ linked_now ts ty js c h) \<Longrightarrow>
    \<exists>q'. for_each (map_ctx_type v ts c) ks q = Some q' \<and> same_hw q q' \<and>
      (\<forall>h < n. linked (q_blk q') ty h (L h @ linked_now ts ty (js @ ks) c h)) \<and>
      (\<forall>d j. ctx_hctxs (ctx_at (q_blk q') d) j = (if d = c \<and> j \<in> set ks then map_target ts j c else ctx_hctxs (ctx_at (q_blk q) d) j))"
proof (induction ks arbitrary: js q)
  case (Cons j ks)
  obtain q1 where q1: "map_ctx_type v ts c j q = Some q1" "same_hw q q1" "\<forall>h < n. linked (q_blk q1) ty h (L h @ linked_now ts ty (js @ [j]) c h)"
      "\<forall>d. ctx_hctxs (ctx_at (q_blk q1) d) = (if d = c then (ctx_hctxs (ctx_at (q_blk q) c))(j := map_target ts j c) else ctx_hctxs (ctx_at (q_blk q) d))"
    using map_ctx_type_step [OF plan Cons.prems(2) c Cons.prems(1,3) L] by blast
  have pre: "hctx_types (nr_maps ts) = (js @ [j]) @ ks" "present n q1" using Cons.prems(1,2) same_hw_present [OF q1(2)] by simp_all
  obtain q2 where q2: "for_each (map_ctx_type v ts c) ks q1 = Some q2" "same_hw q1 q2"
      "\<forall>h < n. linked (q_blk q2) ty h (L h @ linked_now ts ty ((js @ [j]) @ ks) c h)"
      "\<forall>d i. ctx_hctxs (ctx_at (q_blk q2) d) i = (if d = c \<and> i \<in> set ks then map_target ts i c else ctx_hctxs (ctx_at (q_blk q1) d) i)"
    using Cons.IH [OF pre q1(3)] by blast
  show ?case
    by (intro exI [of _ q2] conjI same_hw_trans [OF q1(2) q2(2)]) (use q1 q2 in simp_all)
qed simp

lemma map_rest_loop:
  assumes plan: "map_plan v ts ty n" and c: "c \<in> set (possible_cpus v)"
  shows "present n q \<Longrightarrow> \<exists>q'. for_each (map_ctx_rest ts c) ks q = Some q' \<and> same_hw q q' \<and>
      (\<forall>h cs. linked (q_blk q') ty h cs = linked (q_blk q) ty h cs) \<and>
      (\<forall>d j. ctx_hctxs (ctx_at (q_blk q') d) j = (if d = c \<and> j \<in> set ks then mapped_to ts HCTX_TYPE_DEFAULT c else ctx_hctxs (ctx_at (q_blk q) d) j))"
proof (induction ks arbitrary: q)
  case (Cons j ks)
  define q1 where "q1 = set_ctx_hctx c j (mapped_to ts HCTX_TYPE_DEFAULT c) q"
  have run: "map_ctx_rest ts c j q = Some q1"
    using map_queue_type_Some(1) [OF plan Cons.prems c, of HCTX_TYPE_DEFAULT] by (simp add: map_ctx_rest_def q1_def)
  have "present n q1" using Cons.prems by (simp add: q1_def present_def)
  then obtain q2 where q2: "for_each (map_ctx_rest ts c) ks q1 = Some q2" "same_hw q1 q2" "\<forall>h cs. linked (q_blk q2) ty h cs = linked (q_blk q1) ty h cs"
      "\<forall>d i. ctx_hctxs (ctx_at (q_blk q2) d) i = (if d = c \<and> i \<in> set ks then mapped_to ts HCTX_TYPE_DEFAULT c else ctx_hctxs (ctx_at (q_blk q1) d) i)"
    using Cons.IH by blast
  have "same_hw q q1" by (simp add: q1_def)
  then show ?case
    by (intro exI [of _ q2] conjI same_hw_trans [OF _ q2(2)]) (use run q2 in \<open>auto simp: q1_def\<close>)
qed simp

lemma map_cpu_step:
  assumes plan: "map_plan v ts ty n" and q: "present n q" and c: "c \<in> set (possible_cpus v)" and tags: "n \<le> length (set_tags ts)" "\<forall>h < n. set_tags ts ! h \<noteq> No_tags"
    and inv: "\<forall>h < n. linked (q_blk q) ty h (L h)" and L: "\<forall>h < n. c \<notin> set (L h) \<and> length (L h) < nr_cpu_ids (mkern v)"
  shows "\<exists>q'. map_cpu v c (ts, q, k) = Some (ts, q', k) \<and> same_hw q q' \<and>
    (\<forall>h < n. linked (q_blk q') ty h (L h @ (if serves ts ty h c then [c] else []))) \<and>
    (\<forall>d j. ctx_hctxs (ctx_at (q_blk q') d) j = (if d = c then map_target ts j c else ctx_hctxs (ctx_at (q_blk q) d) j))"
proof -
  let ?js = "hctx_types (nr_maps ts)" and ?ks = "drop (nr_maps ts) (hctx_types HCTX_MAX_TYPES)"
  have "c < length (mq_map (set_map ts HCTX_TYPE_DEFAULT))" "mapped_to ts HCTX_TYPE_DEFAULT c < n" using plan c by (auto simp: map_plan_def)
  then have need: "need_tags v c ts k = Some (ts, k)" using tags by (simp add: need_tags_def)
  have "\<forall>h < n. linked (q_blk q) ty h (L h @ linked_now ts ty [] c h)" using inv by (simp add: linked_now_def)
  then obtain q1 where q1: "for_each (map_ctx_type v ts c) ?js q = Some q1" "same_hw q q1"
      "\<forall>h < n. linked (q_blk q1) ty h (L h @ linked_now ts ty ([] @ ?js) c h)"
      "\<forall>d j. ctx_hctxs (ctx_at (q_blk q1) d) j = (if d = c \<and> j \<in> set ?js then map_target ts j c else ctx_hctxs (ctx_at (q_blk q) d) j)"
    using map_types_loop [OF plan c L, of "[]" ?js q] q by auto
  have "present n q1" using q same_hw_present [OF q1(2)] by simp
  then obtain q2 where q2: "for_each (map_ctx_rest ts c) ?ks q1 = Some q2" "same_hw q1 q2" "\<forall>h cs. linked (q_blk q2) ty h cs = linked (q_blk q1) ty h cs"
      "\<forall>d j. ctx_hctxs (ctx_at (q_blk q2) d) j = (if d = c \<and> j \<in> set ?ks then mapped_to ts HCTX_TYPE_DEFAULT c else ctx_hctxs (ctx_at (q_blk q1) d) j)"
    using map_rest_loop [OF plan c, of q1 ?ks] by blast
  have all: "set ?js \<union> set ?ks = UNIV" "set ?js \<inter> set ?ks = {}"
  proof -
    have take: "?js = take (nr_maps ts) (hctx_types HCTX_MAX_TYPES)" by (simp add: hctx_types_def HCTX_MAX_TYPES_def)
    have UN: "set (hctx_types HCTX_MAX_TYPES) = UNIV"
      using hctx_type.nchotomy by (auto simp: hctx_types_def HCTX_MAX_TYPES_def)
    show "set ?js \<union> set ?ks = UNIV" unfolding take set_append [symmetric] append_take_drop_id by (rule UN)
    show "set ?js \<inter> set ?ks = {}" unfolding take by (rule set_take_disj_set_drop_if_distinct) simp_all
  qed
  have rest: "map_target ts j c = mapped_to ts HCTX_TYPE_DEFAULT c" if "j \<in> set ?ks" for j
    using that all(2) by (auto simp: map_target_def used_types_def)
  have ctx: "ctx_hctxs (ctx_at (q_blk q2) d) j = (if d = c then map_target ts j c else ctx_hctxs (ctx_at (q_blk q) d) j)" for d j
    using q1(4) q2(4) rest [of j] all(1) by auto
  have now: "linked_now ts ty ([] @ ?js) c h = (if serves ts ty h c then [c] else [])" for h
    by (auto simp: linked_now_def serves_def used_types_def)
  have "map_cpu v c (ts, q, k) = Some (ts, q2, k)" using need q1(1) q2(1) by (simp add: map_cpu_def)
  then show ?thesis using q2(3) q1(3) ctx same_hw_trans [OF q1(2) q2(2)] unfolding now by (intro exI [of _ q2]) blast
qed

lemma map_cpus_loop:
  assumes plan: "map_plan v ts ty n" and tags: "n \<le> length (set_tags ts)" "\<forall>h < n. set_tags ts ! h \<noteq> No_tags"
  shows "possible_cpus v = ds @ cs \<Longrightarrow> present n q \<Longrightarrow> \<forall>h < n. linked (q_blk q) ty h (filter (serves ts ty h) ds) \<Longrightarrow>
    \<exists>q'. for_each (map_cpu v) cs (ts, q, k) = Some (ts, q', k) \<and> same_hw q q' \<and>
      (\<forall>h < n. linked (q_blk q') ty h (filter (serves ts ty h) (ds @ cs))) \<and>
      (\<forall>d\<in>set cs. \<forall>j. ctx_hctxs (ctx_at (q_blk q') d) j = map_target ts j d) \<and>
      (\<forall>d. d \<notin> set cs \<longrightarrow> ctx_hctxs (ctx_at (q_blk q') d) = ctx_hctxs (ctx_at (q_blk q) d))"
proof (induction cs arbitrary: ds q)
  case (Cons c cs)
  have c: "c \<in> set (possible_cpus v)" using Cons.prems(1) by simp
  have dist: "distinct (possible_cpus v)" and ids: "set (possible_cpus v) \<subseteq> {..<nr_cpu_ids (mkern v)}" using plan by (auto simp: map_plan_def)
  have "length (possible_cpus v) \<le> nr_cpu_ids (mkern v)" using card_mono [OF _ ids] distinct_card [OF dist] by simp
  then have "length ds < nr_cpu_ids (mkern v)" using Cons.prems(1) by simp
  then have L: "\<forall>h < n. c \<notin> set (filter (serves ts ty h) ds) \<and> length (filter (serves ts ty h) ds) < nr_cpu_ids (mkern v)"
    using dist Cons.prems(1) by (auto intro: le_less_trans [OF length_filter_le])
  obtain q1 where q1: "map_cpu v c (ts, q, k) = Some (ts, q1, k)" "same_hw q q1"
      "\<forall>h < n. linked (q_blk q1) ty h (filter (serves ts ty h) ds @ (if serves ts ty h c then [c] else []))"
      "\<forall>d j. ctx_hctxs (ctx_at (q_blk q1) d) j = (if d = c then map_target ts j c else ctx_hctxs (ctx_at (q_blk q) d) j)"
    using map_cpu_step [OF plan Cons.prems(2) c tags Cons.prems(3) L, of k] by blast
  have pre: "possible_cpus v = (ds @ [c]) @ cs" "present n q1" using Cons.prems(1,2) same_hw_present [OF q1(2)] by simp_all
  have now: "\<forall>h < n. linked (q_blk q1) ty h (filter (serves ts ty h) (ds @ [c]))" using q1(3) by (simp split del: if_split cong: if_cong)
  obtain q2 where q2: "for_each (map_cpu v) cs (ts, q1, k) = Some (ts, q2, k)" "same_hw q1 q2"
      "\<forall>h < n. linked (q_blk q2) ty h (filter (serves ts ty h) ((ds @ [c]) @ cs))"
      "\<forall>d\<in>set cs. \<forall>j. ctx_hctxs (ctx_at (q_blk q2) d) j = map_target ts j d"
      "\<forall>d. d \<notin> set cs \<longrightarrow> ctx_hctxs (ctx_at (q_blk q2) d) = ctx_hctxs (ctx_at (q_blk q1) d)"
    using Cons.IH [OF pre now] by blast
  have c': "c \<notin> set cs" using dist Cons.prems(1) by simp
  have keep: "ctx_hctxs (ctx_at (q_blk q1) d) = ctx_hctxs (ctx_at (q_blk q) d)" if "d \<noteq> c" for d by (rule ext) (simp add: q1(4) that)
  have new: "ctx_hctxs (ctx_at (q_blk q2) c) j = map_target ts j c" for j using q2(5) q1(4) c' by simp
  have "for_each (map_cpu v) (c # cs) (ts, q, k) = Some (ts, q2, k)" using q1(1) q2(1) by simp
  moreover have "\<forall>h < n. linked (q_blk q2) ty h (filter (serves ts ty h) (ds @ c # cs))" using q2(3) by simp
  moreover have "\<forall>d\<in>set (c # cs). \<forall>j. ctx_hctxs (ctx_at (q_blk q2) d) j = map_target ts j d" using new q2(4) by simp
  moreover have "\<forall>d. d \<notin> set (c # cs) \<longrightarrow> ctx_hctxs (ctx_at (q_blk q2) d) = ctx_hctxs (ctx_at (q_blk q) d)" using q2(5) keep by simp
  ultimately show ?case using same_hw_trans [OF q1(2) q2(2)] by blast
qed simp


section \<open>The last loop\<close>

definition tags_of :: "blk_mq_tag_set \<Rightarrow> nat \<Rightarrow> bool" where
  "tags_of ts n \<longleftrightarrow> n \<le> length (set_tags ts) \<and> (\<forall>h < n. \<exists>t. set_tags ts ! h = Tags t) \<and> tags_mem ts \<noteq> Null"

lemma free_map_mem:
  assumes ops: "op_exit_request v = op_init_request v" and "blk_mq_free_map_and_requests v i ts k = Some (ts', k')"
  shows "kmem k' - set_cost v ts' = kmem k - set_cost v ts"
proof -
  show ?thesis
  proof (cases "tags_mem ts = Null")
    case True
    then show ?thesis using assms(2) by (simp add: blk_mq_free_map_and_requests_def)
  next
    case live: False
    then have i: "i < length (set_tags ts)" using assms(2) by (simp add: blk_mq_free_map_and_requests_def split: if_splits)
    show ?thesis
    proof (cases "set_tags ts ! i")
      case (Tags t)
      obtain t1 k1 where f: "blk_mq_free_rqs v t k = (t1, k1)" by force
      have "ts' = ts\<lparr>set_tags := (set_tags ts)[i := No_tags]\<rparr>" "k' = blk_mq_free_rq_map k1"
        using assms(2) live i Tags f by (simp_all add: blk_mq_free_map_and_requests_def put_tags_def)
      then show ?thesis using Tags free_rqs_mem(1) [OF ops f] sum_list_upd [OF i, of "tags_cost v" No_tags]
        by (simp add: set_cost_def blk_mq_free_rq_map_def)
    qed (use assms(2) live i in \<open>simp_all add: blk_mq_free_map_and_requests_def\<close>)
  qed
qed

text \<open>The tags of queues that serve no CPU are freed, those of the others stay.\<close>

lemma finish_loop:
  assumes ops: "op_exit_request v = op_init_request v"
  shows "present n q \<Longrightarrow> tags_of ts n \<Longrightarrow> m \<le> n \<Longrightarrow> \<exists>ts' q' k'. for_each (finish_hw v) [0..<m] (ts, q, k) = Some (ts', q', k') \<and>
    hw_slots q' = hw_slots q \<and> unused_hctxs q' = unused_hctxs q \<and> q_nr_hw q' = q_nr_hw q \<and>
    (\<forall>c. ctx_at (q_blk q') c = ctx_at (q_blk q) c) \<and>
    (\<forall>h. hctx_ctxs (hctx_at (q_blk q') h) = hctx_ctxs (hctx_at (q_blk q) h) \<and> hctx_cpumask (hctx_at (q_blk q') h) = hctx_cpumask (hctx_at (q_blk q) h) \<and>
       nr_ctx (hctx_at (q_blk q') h) = nr_ctx (hctx_at (q_blk q) h) \<and> hctx_type_of (hctx_at (q_blk q') h) = hctx_type_of (hctx_at (q_blk q) h) \<and>
       ctx_map (hctx_at (q_blk q') h) = ctx_map (hctx_at (q_blk q) h)) \<and>
    (\<forall>h < m. hctx_tags (hctx_at (q_blk q') h) = (if nr_ctx (hctx_at (q_blk q) h) = 0 then None else Some h) \<and>
       (0 < nr_ctx (hctx_at (q_blk q) h) \<longrightarrow> next_cpu (hctx_at (q_blk q') h) = int (blk_mq_first_mapped_cpu (mkern v) (hctx_at (q_blk q) h)))) \<and>
    length (set_tags ts') = length (set_tags ts) \<and> (\<forall>h < length (set_tags ts). set_tags ts' ! h = (if h < m \<and> h \<noteq> 0 \<and> nr_ctx (hctx_at (q_blk q) h) = 0 then No_tags else set_tags ts ! h)) \<and>
    tags_mem ts' = tags_mem ts \<and> kmem k' - set_cost v ts' = kmem k - set_cost v ts"
proof (induction m)
  case (Suc m)
  have sl: "m < length (hw_slots q)" "hw_slots q ! m" using Suc.prems by (auto simp: present_def)
  obtain ts1 q1 k1 where r: "for_each (finish_hw v) [0..<m] (ts, q, k) = Some (ts1, q1, k1)"
    "hw_slots q1 = hw_slots q" "unused_hctxs q1 = unused_hctxs q" "q_nr_hw q1 = q_nr_hw q" "\<forall>c. ctx_at (q_blk q1) c = ctx_at (q_blk q) c"
    "\<forall>h. hctx_ctxs (hctx_at (q_blk q1) h) = hctx_ctxs (hctx_at (q_blk q) h) \<and> hctx_cpumask (hctx_at (q_blk q1) h) = hctx_cpumask (hctx_at (q_blk q) h) \<and>
       nr_ctx (hctx_at (q_blk q1) h) = nr_ctx (hctx_at (q_blk q) h) \<and> hctx_type_of (hctx_at (q_blk q1) h) = hctx_type_of (hctx_at (q_blk q) h) \<and>
       ctx_map (hctx_at (q_blk q1) h) = ctx_map (hctx_at (q_blk q) h)"
    "\<forall>h < m. hctx_tags (hctx_at (q_blk q1) h) = (if nr_ctx (hctx_at (q_blk q) h) = 0 then None else Some h) \<and>
       (0 < nr_ctx (hctx_at (q_blk q) h) \<longrightarrow> next_cpu (hctx_at (q_blk q1) h) = int (blk_mq_first_mapped_cpu (mkern v) (hctx_at (q_blk q) h)))"
    "length (set_tags ts1) = length (set_tags ts)"
    "\<forall>h < length (set_tags ts). set_tags ts1 ! h = (if h < m \<and> h \<noteq> 0 \<and> nr_ctx (hctx_at (q_blk q) h) = 0 then No_tags else set_tags ts ! h)"
    "tags_mem ts1 = tags_mem ts" "kmem k1 - set_cost v ts1 = kmem k - set_cost v ts"
    using Suc.IH [OF Suc.prems(1,2) Suc_leD [OF Suc.prems(3)]] by (elim exE conjE) (rule that; assumption)
  have get: "hw_get m q1 = Some (hctx_at (q_blk q1) m)" "\<And>f. on_hw f m q1 = Some (on_blk (upd_hctx m f) q1)"
    using hw_get_present [of m q1] on_hw_present [of m q1] sl r(2) by simp_all
  have ml: "m < length (set_tags ts)" using Suc.prems(2,3) by (simp add: tags_of_def)
  have "m < n" using Suc.prems(3) by simp
  then obtain t where "set_tags ts ! m = Tags t" using Suc.prems(2) unfolding tags_of_def by blast
  then have t: "set_tags ts1 ! m = Tags t" using r(9) ml by simp
  have addr: "tags_addr ts1 m = Some (Some m)" using t ml r(8) by (simp add: tags_addr_def)
  have loop: "for_each (finish_hw v) [0..<Suc m] (ts, q, k) = finish_hw v m (ts1, q1, k1)"
    using r(1) by (cases "finish_hw v m (ts1, q1, k1)") (simp_all add: for_each_append)
  show ?case
  proof (cases "nr_ctx (hctx_at (q_blk q) m) = 0")
    case False
    define q2 where "q2 = on_blk (upd_hctx m (\<lambda>x. x\<lparr>hctx_tags := Some m, next_cpu := int (blk_mq_first_mapped_cpu (mkern v) x), next_cpu_batch := BLK_MQ_CPU_WORK_BATCH\<rparr>)) q1"
    have eq: "for_each (finish_hw v) [0..<Suc m] (ts, q, k) = Some (ts1, q2, k1)"
      using loop get addr False r(6) by (simp add: finish_hw_def q2_def)
    have fm: "blk_mq_first_mapped_cpu (mkern v) (hctx_at (q_blk q1) m) = blk_mq_first_mapped_cpu (mkern v) (hctx_at (q_blk q) m)"
      using r(6) by (simp add: blk_mq_first_mapped_cpu_def Let_def)
    show ?thesis
      by (intro exI [of _ ts1] exI [of _ q2] exI [of _ k1] conjI eq) (use r False fm in \<open>auto simp: q2_def less_Suc_eq\<close>)
  next
    case True
    define q2 where "q2 = on_blk (upd_hctx m (\<lambda>x. x\<lparr>hctx_tags := None\<rparr>)) q1"
    obtain t1 k2 where fr: "blk_mq_free_rqs v t k1 = (t1, k2)" by force
    define y where "y = (if m = 0 then (ts1, k1) else (ts1\<lparr>set_tags := (set_tags ts1)[m := No_tags]\<rparr>, blk_mq_free_rq_map k2))"
    have free: "(if m \<noteq> 0 \<and> Some m \<noteq> None then blk_mq_free_map_and_requests v m ts1 k1 else Some (ts1, k1)) = Some y"
      using t ml r(8,10) Suc.prems(2) fr by (auto simp: blk_mq_free_map_and_requests_def put_tags_def y_def tags_of_def)
    obtain ts2 k3 where y: "y = (ts2, k3)" by force
    have eq: "for_each (finish_hw v) [0..<Suc m] (ts, q, k) = Some (ts2, q2, k3)"
      using loop get addr True r(6) free y by (simp add: finish_hw_def q2_def)
    have mem: "kmem k3 - set_cost v ts2 = kmem k1 - set_cost v ts1"
      using free_map_mem [OF ops, of m ts1 k1 ts2 k3] free y by (auto simp: y_def split: if_splits)
    have ts2: "set_tags ts2 = (if m = 0 then set_tags ts1 else (set_tags ts1)[m := No_tags])" "tags_mem ts2 = tags_mem ts1"
      using y by (auto simp: y_def split: if_splits)
    have tags: "\<forall>h < length (set_tags ts). set_tags ts2 ! h = (if h < Suc m \<and> h \<noteq> 0 \<and> nr_ctx (hctx_at (q_blk q) h) = 0 then No_tags else set_tags ts ! h)"
    proof (intro allI impI)
      fix h
      assume "h < length (set_tags ts)"
      then show "set_tags ts2 ! h = (if h < Suc m \<and> h \<noteq> 0 \<and> nr_ctx (hctx_at (q_blk q) h) = 0 then No_tags else set_tags ts ! h)"
        using r(8,9) True ts2(1) ml by (cases "h = m") (auto simp: less_Suc_eq)
    qed
    show ?thesis
      by (intro exI [of _ ts2] exI [of _ q2] exI [of _ k3] conjI eq tags) (use r True mem ts2 in \<open>auto simp: q2_def less_Suc_eq\<close>)
  qed
qed simp


section \<open>Properties of the maps\<close>

lemma map_swqueue_run:
  assumes "map_plan v ts ty (q_nr_hw q)" "present (q_nr_hw q) q" "tags_of ts (q_nr_hw q)" "op_exit_request v = op_init_request v"
  shows "\<exists>ts' q' k'. blk_mq_map_swqueue v ts q k = Some (ts', q', k') \<and> same_hw q q' \<and>
    (\<forall>c\<in>set (possible_cpus v). \<forall>j. ctx_hctxs (ctx_at (q_blk q') c) j = map_target ts j c) \<and>
    (\<forall>h < q_nr_hw q. linked (q_blk q') ty h (filter (serves ts ty h) (possible_cpus v)) \<and>
       (hctx_tags (hctx_at (q_blk q') h) = (if hctx_ctxs (hctx_at (q_blk q') h) = [] then None else Some h)) \<and>
       (set_tags ts' ! h = No_tags \<longleftrightarrow> h \<noteq> 0 \<and> hctx_ctxs (hctx_at (q_blk q') h) = [])) \<and>
    kmem k' - set_cost v ts' = kmem k - set_cost v ts"
proof -
  let ?n = "q_nr_hw q"
  obtain q1 where q1: "for_each clear_hw [0..<?n] q = Some q1" "hw_slots q1 = hw_slots q" "unused_hctxs q1 = unused_hctxs q"
      "\<forall>i. hctx_at (q_blk q1) i = (if i < ?n then (hctx_at (q_blk q) i)\<lparr>hctx_cpumask := [], nr_ctx := 0, hctx_ctxs := [], dispatch_from := None\<rparr>
        else hctx_at (q_blk q) i)"
      "\<forall>c. ctx_at (q_blk q1) c = ctx_at (q_blk q) c" "q_nr_hw q1 = ?n"
    using on_hw_all [OF assms(2), of "\<lambda>h. h\<lparr>hctx_cpumask := [], nr_ctx := 0, hctx_ctxs := [], dispatch_from := None\<rparr>"] unfolding clear_hw_def by blast
  have tags: "?n \<le> length (set_tags ts)" "\<forall>h < ?n. set_tags ts ! h \<noteq> No_tags" using assms(3) by (auto simp: tags_of_def)
  have p1: "present ?n q1" using assms(2) q1(2) by (simp add: present_def)
  have l1: "\<forall>h < ?n. linked (q_blk q1) ty h (filter (serves ts ty h) [])" using q1(4) by (simp add: linked_def)
  obtain q2 where q2: "for_each (map_cpu v) (possible_cpus v) (ts, q1, k) = Some (ts, q2, k)" "same_hw q1 q2"
      "\<forall>h < ?n. linked (q_blk q2) ty h (filter (serves ts ty h) (possible_cpus v))"
      "\<forall>d\<in>set (possible_cpus v). \<forall>j. ctx_hctxs (ctx_at (q_blk q2) d) j = map_target ts j d"
    using map_cpus_loop [OF assms(1) tags, of "[]" "possible_cpus v" q1 k] p1 l1 by auto
  have p2: "present ?n q2" "q_nr_hw q2 = ?n" using p1 q1(6) q2(2) same_hw_present [OF q2(2)] by (simp_all add: same_hw_def)
  obtain ts3 q3 k3 where r: "for_each (finish_hw v) [0..<?n] (ts, q2, k) = Some (ts3, q3, k3)" "hw_slots q3 = hw_slots q2 \<and> unused_hctxs q3 = unused_hctxs q2 \<and> q_nr_hw q3 = q_nr_hw q2"
      "\<forall>c. ctx_at (q_blk q3) c = ctx_at (q_blk q2) c"
      "\<forall>h. hctx_ctxs (hctx_at (q_blk q3) h) = hctx_ctxs (hctx_at (q_blk q2) h) \<and> hctx_cpumask (hctx_at (q_blk q3) h) = hctx_cpumask (hctx_at (q_blk q2) h) \<and>
        nr_ctx (hctx_at (q_blk q3) h) = nr_ctx (hctx_at (q_blk q2) h) \<and> hctx_type_of (hctx_at (q_blk q3) h) = hctx_type_of (hctx_at (q_blk q2) h) \<and>
        ctx_map (hctx_at (q_blk q3) h) = ctx_map (hctx_at (q_blk q2) h)"
      "\<forall>h < ?n. hctx_tags (hctx_at (q_blk q3) h) = (if nr_ctx (hctx_at (q_blk q2) h) = 0 then None else Some h)"
      "\<forall>h < length (set_tags ts). set_tags ts3 ! h = (if h < ?n \<and> h \<noteq> 0 \<and> nr_ctx (hctx_at (q_blk q2) h) = 0 then No_tags else set_tags ts ! h)"
      "kmem k3 - set_cost v ts3 = kmem k - set_cost v ts"
    using finish_loop [OF assms(4) p2(1) assms(3) order_refl, of k] by blast
  have eq: "blk_mq_map_swqueue v ts q k = Some (ts3, q3, k3)" using q1(1) q2(1) r(1) p2(2) by (simp add: blk_mq_map_swqueue_def)
  have lk: "linked (q_blk q3) ty h (filter (serves ts ty h) (possible_cpus v))" if "h < ?n" for h
    using q2(3) that r(3,4) by (simp add: linked_def)
  have nr: "nr_ctx (hctx_at (q_blk q2) h) = 0 \<longleftrightarrow> hctx_ctxs (hctx_at (q_blk q3) h) = []" if "h < ?n" for h
    using q2(3) that r(4) by (simp add: linked_def)
  have same: "same_hw q q3"
    using r(2-4) q2(2) q1(2-6) by (simp add: same_hw_def)
  show ?thesis
    by (intro exI [of _ ts3] exI [of _ q3] exI [of _ k3] conjI eq same r(7) ballI allI impI)
      (use r(3) q2(4) lk nr r(5,6) tags in \<open>simp_all add: linked_def\<close>)
qed

text \<open>
  C13: The mapping of software to hardware queues (\<open>blk_mq_map_swqueue\<close>). For a queue whose hardware contexts are all there, with
  tags for each of them, and maps that are fit for it, the mapping is carried out. Afterwards every CPU finds, for each
  type of request, the hardware queue of the map of that type, or of the default map when the type has no queues. The
  software contexts of a hardware queue are exactly the CPUs that its own map sends to it, in their order and each once;
  their bits in the bitmap are their positions, so that the invariant of pending requests holds when no request waited.
  A hardware queue has tags if and only if it serves a CPU; the tags of the others, queue 0 apart, are freed, and no other
  memory changes hands.
\<close>
theorem map_swqueue_correct:
  assumes "map_plan v ts ty (q_nr_hw q)" "present (q_nr_hw q) q" "tags_of ts (q_nr_hw q)" "op_exit_request v = op_init_request v"
    "\<forall>h. ctx_map (hctx_at (q_blk q) h) = {}" "\<forall>c t. rq_lists (ctx_at (q_blk q) c) t = []"
  shows "\<exists>ts' q' k'. blk_mq_map_swqueue v ts q k = Some (ts', q', k') \<and>
    (\<forall>c\<in>set (possible_cpus v). \<forall>j. ctx_hctxs (ctx_at (q_blk q') c) j = map_target ts j c) \<and>
    (\<forall>h < q_nr_hw q. hctx_ctxs (hctx_at (q_blk q') h) = filter (serves ts ty h) (possible_cpus v) \<and>
       hctx_cpumask (hctx_at (q_blk q') h) = filter (serves ts ty h) (possible_cpus v) \<and>
       (hctx_ctxs (hctx_at (q_blk q') h) \<noteq> [] \<longrightarrow> hctx_type_of (hctx_at (q_blk q') h) = ty h) \<and> pend_inv h (q_blk q') \<and>
       (hctx_tags (hctx_at (q_blk q') h) = (if hctx_ctxs (hctx_at (q_blk q') h) = [] then None else Some h)) \<and>
       (set_tags ts' ! h = No_tags \<longleftrightarrow> h \<noteq> 0 \<and> hctx_ctxs (hctx_at (q_blk q') h) = [])) \<and>
    kmem k' - set_cost v ts' = kmem k - set_cost v ts"
proof -
  have dist: "distinct (possible_cpus v)" using assms(1) by (simp add: map_plan_def)
  obtain ts' q' k' where r: "blk_mq_map_swqueue v ts q k = Some (ts', q', k')" "same_hw q q'"
      "\<forall>c\<in>set (possible_cpus v). \<forall>j. ctx_hctxs (ctx_at (q_blk q') c) j = map_target ts j c"
      "\<forall>h < q_nr_hw q. linked (q_blk q') ty h (filter (serves ts ty h) (possible_cpus v)) \<and>
        (hctx_tags (hctx_at (q_blk q') h) = (if hctx_ctxs (hctx_at (q_blk q') h) = [] then None else Some h)) \<and>
        (set_tags ts' ! h = No_tags \<longleftrightarrow> h \<noteq> 0 \<and> hctx_ctxs (hctx_at (q_blk q') h) = [])"
      "kmem k' - set_cost v ts' = kmem k - set_cost v ts"
    using map_swqueue_run [OF assms(1-4), of k] by blast
  have pend: "pend_inv h (q_blk q')" if "h < q_nr_hw q" for h
  proof -
    have "maps_ok h (q_blk q')" using linked_maps_ok [of "q_blk q'" ty h] r(4) that dist distinct_filter by blast
    then show ?thesis using r(2) assms(5,6) by (simp add: pend_inv_def qlist_def same_hw_def)
  qed
  show ?thesis
    by (intro exI [of _ ts'] exI [of _ q'] exI [of _ k'] conjI r(1,3,5) allI impI) (use r(4) pend in \<open>simp_all add: linked_def\<close>)
qed

text \<open>Eight queues for four CPUs: the default map uses the first four, the map of reads the others.\<close>

definition ex_maps :: blk_mq_tag_set where
  "ex_maps = ex_tag_set\<lparr>set_map := (\<lambda>j. if j = HCTX_TYPE_READ then \<lparr>mq_map = [4, 5, 6, 7], map_nr_queues = 4, map_offset = 4\<rparr>
       else \<lparr>mq_map = [0, 1, 2, 3], map_nr_queues = 4, map_offset = 0\<rparr>), nr_maps := 2, set_nr_hw := 8, tags_mem := Live,
     set_tags := replicate 8 (Tags \<lparr>rt_nr_tags = 8, rt_reserved = 1, rt_static = [], rt_pages = []\<rparr>)\<rparr>"

definition ex_mq :: mq_queue where
  "ex_mq = \<lparr>q_blk = ex_blk, hw_slots = replicate 8 True, unused_hctxs = [], poll_cb = Live, mq_kobj = Live, has_mq_ops = True, has_tag_set = True, poll_nsec = -1\<rparr>"

definition ex_ty :: "nat \<Rightarrow> hctx_type" where
  "ex_ty h = (if h < 4 then HCTX_TYPE_DEFAULT else HCTX_TYPE_READ)"

lemma ex_maps_plan: "map_plan ex_menv ex_maps ex_ty 8"
proof -
  have used: "used_types ex_maps = [HCTX_TYPE_DEFAULT, HCTX_TYPE_READ]"
    by (simp add: used_types_def ex_maps_def ex_tag_set_def hctx_types_def numeral_2_eq_2)
  have cpus: "possible_cpus ex_menv = [0, 1, 2, 3]" "nr_cpu_ids (mkern ex_menv) = 4" by (simp_all add: ex_menv_def ex_kernel_def)
  have maps: "nr_maps ex_maps = 2" "mq_map (set_map ex_maps HCTX_TYPE_DEFAULT) = [0, 1, 2, 3]" "mq_map (set_map ex_maps HCTX_TYPE_READ) = [4, 5, 6, 7]"
    by (simp_all add: ex_maps_def)
  show ?thesis unfolding map_plan_def used cpus by (simp add: maps ex_ty_def HCTX_MAX_TYPES_def hctx_type_index_def)
qed

theorem map_swqueue_correct_witness:
  "\<exists>ts' q' k'. blk_mq_map_swqueue ex_menv ex_maps ex_mq \<lparr>kmem = 0, kpos = 0\<rparr> = Some (ts', q', k') \<and>
     ctx_hctxs (ctx_at (q_blk q') 2) HCTX_TYPE_READ = 6 \<and> pend_inv 3 (q_blk q')"
proof -
  have nr: "q_nr_hw ex_mq = 8" by (simp add: ex_mq_def ex_blk_def)
  have pre: "present 8 ex_mq" "tags_of ex_maps 8" "\<forall>h. ctx_map (hctx_at (q_blk ex_mq) h) = {}" "\<forall>c t. rq_lists (ctx_at (q_blk ex_mq) c) t = []"
    by (simp_all add: present_def tags_of_def ex_mq_def ex_maps_def ex_blk_def hctx_at_def ctx_at_def ex_hctx_def ex_ctx_def)
  have tgt: "map_target ex_maps HCTX_TYPE_READ 2 = 6" "2 \<in> set (possible_cpus ex_menv)"
    by (simp_all add: map_target_def used_types_def ex_maps_def ex_tag_set_def hctx_types_def numeral_2_eq_2 ex_menv_def)
  show ?thesis
    using map_swqueue_correct [of ex_menv ex_maps ex_ty ex_mq "\<lparr>kmem = 0, kpos = 0\<rparr>", unfolded nr, OF ex_maps_plan pre(1,2) ex_ops pre(3,4)] tgt
    by (elim exE conjE) (intro exI conjI, assumption, simp, simp)
qed

section \<open>A CPU that goes away\<close>

lemma run_hw_queue_same:
  "hctx_ctxs (hctx_at (snd (blk_mq_run_hw_queue k h async s)) i) = hctx_ctxs (hctx_at s i)"
  "hctx_type_of (hctx_at (snd (blk_mq_run_hw_queue k h async s)) i) = hctx_type_of (hctx_at s i)"
  "ctx_map (hctx_at (snd (blk_mq_run_hw_queue k h async s)) i) = ctx_map (hctx_at s i)"
  "hctx_dispatch (hctx_at (snd (blk_mq_run_hw_queue k h async s)) i) = hctx_dispatch (hctx_at s i)"
  "ctx_at (snd (blk_mq_run_hw_queue k h async s)) c = ctx_at s c"
  by (simp_all add: blk_mq_run_hw_queue_def blk_mq_delay_run_hw_queue_async_def blk_mq_run_hw_queue_now_def blk_mq_hctx_next_cpu_def Let_def split: prod.splits)

lemma notify_dead_state:
  fixes k :: kernel
  assumes "rq_lists (ctx_at s cpu) (hctx_type_of (hctx_at s h)) \<noteq> []"
  defines "s' \<equiv> blk_mq_hctx_notify_dead k cpu h s"
  shows "hctx_ctxs (hctx_at s' h) = hctx_ctxs (hctx_at s h)" "hctx_type_of (hctx_at s' h) = hctx_type_of (hctx_at s h)"
    "ctx_map (hctx_at s' h) = ctx_map (hctx_at s h) - {ctx_bit s h cpu}"
    "hctx_dispatch (hctx_at s' h) = hctx_dispatch (hctx_at s h) @ rq_lists (ctx_at s cpu) (hctx_type_of (hctx_at s h))"
    "ctx_at s' c = (if c = cpu then (ctx_at s cpu)\<lparr>rq_lists := (rq_lists (ctx_at s cpu))(hctx_type_of (hctx_at s h) := [])\<rparr> else ctx_at s c)"
  using assms(1) unfolding s'_def
  by (simp_all add: blk_mq_hctx_notify_dead_def Let_def run_hw_queue_same blk_mq_hctx_clear_pending_def ctx_bit_def)

text \<open>
  C31: When a CPU goes away (\<open>blk_mq_hctx_notify_dead\<close>), the requests that wait in its software queue for a hardware queue that
  serves it move, in their order, to the end of the dispatch list of that hardware queue; the other software queues keep
  theirs and the invariant of pending requests still holds, so that none is lost.
\<close>
theorem notify_dead_moves:
  assumes "pend_inv h s" "b < length (hctx_ctxs (hctx_at s h))" and s'_def: "s' = blk_mq_hctx_notify_dead k (hctx_ctxs (hctx_at s h) ! b) h s"
  shows "hctx_dispatch (hctx_at s' h) = hctx_dispatch (hctx_at s h) @ queues h s ! b \<and> queues h s' = (queues h s)[b := []] \<and> pend_inv h s'"
proof -
  let ?c = "hctx_ctxs (hctx_at s h) ! b" and ?t = "hctx_type_of (hctx_at s h)"
  have m: "maps_ok h s" using assms(1) by (simp add: pend_inv_def)
  have qb: "queues h s ! b = rq_lists (ctx_at s ?c) ?t" using assms(2) by (simp add: queues_def qlist_def)
  show ?thesis
  proof (cases "rq_lists (ctx_at s ?c) ?t = []")
    case True
    then have "s' = s" by (simp add: s'_def blk_mq_hctx_notify_dead_def Let_def)
    moreover have "(queues h s)[b := []] = queues h s" using qb True by (metis list_update_id)
    ultimately show ?thesis using assms(1) True qb by simp
  next
    case False
    note st = notify_dead_state [OF False, of k, folded s'_def]
    have bit: "ctx_bit s h ?c = b" using m assms(2) by (simp add: maps_ok_def)
    have ql: "qlist h s' i = (if i = b then [] else qlist h s i)" if "i < length (hctx_ctxs (hctx_at s h))" for i
    proof -
      have "hctx_ctxs (hctx_at s h) ! i = ?c \<longleftrightarrow> i = b" using m that assms(2) by (simp add: maps_ok_def nth_eq_iff_index_eq)
      then show ?thesis using st by (simp add: qlist_def)
    qed
    have "queues h s' = (queues h s)[b := []]"
      unfolding queues_def st(1) by (rule map_upt_upd) (use assms(2) ql in auto)
    moreover have "index_hw (ctx_at s' c) = index_hw (ctx_at s c)" for c using st(5) [of c] by simp
    then have "maps_ok h s'" using m st(1,2) unfolding maps_ok_def ctx_bit_def by simp
    ultimately show ?thesis using assms(1) st(1,3,4) bit ql qb by (auto simp: pend_inv_def)
  qed
qed

theorem notify_dead_moves_witness:
  "hctx_dispatch (hctx_at (blk_mq_hctx_notify_dead ex_kernel (hctx_ctxs (hctx_at ex_swq 0) ! 0) 0 ex_swq) 0) =
     hctx_dispatch (hctx_at ex_swq 0) @ queues 0 ex_swq ! 0"
proof -
  have "0 < length (hctx_ctxs (hctx_at ex_swq 0))" by (simp add: ex_swq_at ex_hctx_def)
  from notify_dead_moves [OF ex_swq_inv(1) this refl] show ?thesis by blast
qed

text \<open>
  C39: The notifier does not ask whether the hardware queue serves the CPU. When it is called for one that does not, but whose type
  is the same, it moves the requests of the CPU to the wrong dispatch list and clears the bit of another software queue:
  requests that wait there are no longer marked, so that the invariant of pending requests is lost.
\<close>
theorem notify_dead_strands:
  assumes "pend_inv h s" "cpu \<notin> set (hctx_ctxs (hctx_at s h))" "rq_lists (ctx_at s cpu) (hctx_type_of (hctx_at s h)) \<noteq> []"
    "ctx_bit s h cpu < length (hctx_ctxs (hctx_at s h))" "qlist h s (ctx_bit s h cpu) \<noteq> []"
    and s'_def: "s' = blk_mq_hctx_notify_dead k cpu h s"
  shows "qlist h s' (ctx_bit s h cpu) = qlist h s (ctx_bit s h cpu) \<and> ctx_bit s h cpu \<notin> ctx_map (hctx_at s' h) \<and> \<not> pend_inv h s'"
proof -
  note st = notify_dead_state [OF assms(3), of k, folded s'_def]
  have "hctx_ctxs (hctx_at s h) ! ctx_bit s h cpu \<noteq> cpu" using assms(2,4) by (metis nth_mem)
  then have *: "qlist h s' (ctx_bit s h cpu) = qlist h s (ctx_bit s h cpu)" using st by (simp add: qlist_def)
  moreover have **: "ctx_bit s h cpu \<notin> ctx_map (hctx_at s' h)" using st(3) by simp
  moreover have "\<not> pend_inv h s'" using * ** assms(4,5) st(1) by (auto simp: pend_inv_def)
  ultimately show ?thesis by blast
qed

text \<open>CPU 2 is not served by queue 0, but has the number that CPU 1 has there.\<close>

definition ex_strand :: blk where
  "ex_strand = upd_ctx 2 (\<lambda>x. x\<lparr>index_hw := (\<lambda>_. 1), rq_lists := (\<lambda>_. [9])\<rparr>) ex_swq"

lemma ex_strand_at: "hctx_at ex_strand 0 = hctx_at ex_swq 0"
  "ctx_at ex_strand c = (if c = 2 then (ex_ctx 2)\<lparr>index_hw := (\<lambda>_. 1), rq_lists := (\<lambda>_. [9])\<rparr> else ctx_at ex_swq c)"
  by (simp_all add: ex_strand_def ex_swq_at)

theorem notify_dead_strands_witness: "\<not> pend_inv 0 (blk_mq_hctx_notify_dead ex_kernel 2 0 ex_strand)"
proof -
  have inv: "pend_inv 0 ex_strand"
    by (auto simp: pend_inv_def maps_ok_def ctx_bit_def qlist_def queues_def ex_strand_at ex_swq_at ex_hctx_def ex_ctx_def less_2_cases_iff nth_Cons' split: if_splits)
  have bit: "ctx_bit ex_strand 0 2 = 1" by (simp add: ctx_bit_def ex_strand_at)
  have pre: "2 \<notin> set (hctx_ctxs (hctx_at ex_strand 0))" "rq_lists (ctx_at ex_strand 2) (hctx_type_of (hctx_at ex_strand 0)) \<noteq> []"
      "ctx_bit ex_strand 0 2 < length (hctx_ctxs (hctx_at ex_strand 0))" "qlist 0 ex_strand (ctx_bit ex_strand 0 2) \<noteq> []"
    unfolding bit by (simp_all add: ex_strand_at ex_swq_at qlist_def)
  from notify_dead_strands [OF inv pre refl, of ex_kernel] show ?thesis by blast
qed

end
