(* ===== verification/Blk_Mq_Setup_Mem.thy ===== *)
theory Blk_Mq_Setup_Mem
  imports Blk_Mq_Setup_Correct
begin

text \<open>
  The memory of hardware contexts: what a queue holds for those in its array and for those it keeps for reuse, and
  that all operations keep the account, but for a set-up that fails half-way.
\<close>

section \<open>The account of a queue\<close>

definition driver_objs :: "menv \<Rightarrow> int" where
  "driver_objs v = (if op_init_request v then 1 else 0) + (if op_exit_hctx v then 1 else 0)"

definition hw_count :: "mq_queue \<Rightarrow> int" where
  "hw_count q = sum_list (map (\<lambda>p. if p then 1 else 0) (hw_slots q))"

definition q_held :: "menv \<Rightarrow> mq_queue \<Rightarrow> int" where
  "q_held v q = (int hctx_objs + driver_objs v) * hw_count q + int hctx_objs * int (length (unused_hctxs q))"

definition hooks_paired :: "menv \<Rightarrow> bool" where
  "hooks_paired v \<longleftrightarrow> op_exit_request v = op_init_request v \<and> (op_exit_hctx v \<longrightarrow> op_init_hctx v \<noteq> None)"

lemma alloc_objs_mem: "alloc_objs e n k = (ok, k') \<Longrightarrow> kmem k' = kmem k + (if ok then int n else 0)"
proof (induction n arbitrary: k ok k')
  case (Suc n)
  show ?case
  proof (cases rule: k_new_cases [of e k])
    case (ok k1)
    obtain ok2 k2 where r: "alloc_objs e n k1 = (ok2, k2)" by force
    then show ?thesis using ok Suc.prems Suc.IH [OF r] by (auto split: if_splits)
  next
    case (fail k1)
    then show ?thesis using Suc.prems by simp
  qed
qed simp

lemma alloc_hctx_mem: "blk_mq_alloc_hctx v ts node k = (r, k') \<Longrightarrow> kmem k' = kmem k + (if r = None then 0 else int hctx_objs)"
  by (auto simp: blk_mq_alloc_hctx_def split: prod.splits if_splits dest: alloc_objs_mem)

lemma init_hctx_mem:
  assumes "hooks_paired v" "blk_mq_init_hctx v ts h i k = Some (ok, h', k')"
  shows "kmem k' = kmem k + (if ok then driver_objs v else 0)"
proof -
  obtain t where t: "tags_addr ts i = Some t" using assms(2) by (cases "tags_addr ts i") (simp_all add: blk_mq_init_hctx_def)
  obtain ok1 h2 k1 where c: "call_init_hctx v i (h\<lparr>queue_num := i, hctx_tags := t, blk_switch := False\<rparr>) k = (ok1, h2, k1)" by (metis prod_cases3)
  have k1: "kmem k1 = kmem k + (if ok1 \<and> op_exit_hctx v then 1 else 0)"
    using c assms(1) by (auto simp: call_init_hctx_def hooks_paired_def split: option.splits prod.splits if_splits dest: k_do_mem)
  obtain r k2 where r: "blk_mq_init_request v k1 = (r, k2)" by force
  have k2: "kmem k2 = kmem k1 + (if op_init_request v \<and> r = Ret 0 then 1 else 0)" "\<not> op_init_request v \<longrightarrow> r = Ret 0"
    using r by (auto simp: blk_mq_init_request_def dest: k_make_mem split: if_splits)
  have "(ok, h', k') = (if \<not> ok1 then (False, h2, k1) else if r = Ret 0 then (True, h2, k2) else (False, h2, call_exit_hctx v k2))"
    using assms(2) t c r by (auto simp: blk_mq_init_hctx_def Let_def split: if_splits)
  then show ?thesis using k1 k2 by (auto simp: driver_objs_def call_exit_hctx_def split: if_splits)
qed

lemma take_unused_length:
  "take_unused node hs = (r, hs') \<Longrightarrow> length hs = length hs' + (if r = None then 0 else 1)"
  by (induction hs arbitrary: r hs') (auto split: if_splits prod.splits)

lemma alloc_and_init_mem:
  assumes "hooks_paired v" "blk_mq_alloc_and_init_hctx v ts i node q k = Some (r, q', k')"
  shows "kmem k' - int hctx_objs * int (length (unused_hctxs q')) =
      kmem k - int hctx_objs * int (length (unused_hctxs q)) + (if r = None then 0 else int hctx_objs + driver_objs v)"
    "q_blk q' = q_blk q" "hw_slots q' = hw_slots q"
proof -
  obtain found rest where u: "take_unused node (unused_hctxs q) = (found, rest)" by force
  obtain a k1 where a: "(case found of Some h \<Rightarrow> (Some h, k) | None \<Rightarrow> blk_mq_alloc_hctx v ts node k) = (a, k1)" by force
  have k1: "kmem k1 - int hctx_objs * int (length rest) = kmem k - int hctx_objs * int (length (unused_hctxs q)) + (if a = None then 0 else int hctx_objs)"
    using a take_unused_length [OF u] alloc_hctx_mem [of v ts node k a k1] by (auto simp: algebra_simps split: option.splits)
  have "kmem k' - int hctx_objs * int (length (unused_hctxs q')) =
      kmem k - int hctx_objs * int (length (unused_hctxs q)) + (if r = None then 0 else int hctx_objs + driver_objs v) \<and> q_blk q' = q_blk q \<and> hw_slots q' = hw_slots q"
  proof (cases a)
    case None
    then show ?thesis using assms(2) u a k1 by (auto simp: blk_mq_alloc_and_init_hctx_def Let_def)
  next
    case (Some h)
    obtain y where y: "blk_mq_init_hctx v ts h i k1 = Some y"
      using assms(2) u a Some by (cases "blk_mq_init_hctx v ts h i k1") (simp_all add: blk_mq_alloc_and_init_hctx_def Let_def)
    obtain ok h1 k2 where y2: "y = (ok, h1, k2)" by (metis prod_cases3)
    have "(r, q', k') = (if ok then (Some h1, q\<lparr>unused_hctxs := rest\<rparr>, k2) else (None, q\<lparr>unused_hctxs := rest\<rparr>, hctx_put k2))"
      using assms(2) u a Some y y2 by (simp add: blk_mq_alloc_and_init_hctx_def Let_def)
    then have "r = (if ok then Some h1 else None)" "q' = q\<lparr>unused_hctxs := rest\<rparr>" "k' = (if ok then k2 else hctx_put k2)" by (simp_all split: if_splits)
    moreover have "kmem k2 = kmem k1 + (if ok then driver_objs v else 0)" using init_hctx_mem [OF assms(1)] y y2 by blast
    ultimately show ?thesis using k1 Some by (simp add: hctx_put_def split: if_splits)
  qed
  then show "kmem k' - int hctx_objs * int (length (unused_hctxs q')) =
      kmem k - int hctx_objs * int (length (unused_hctxs q)) + (if r = None then 0 else int hctx_objs + driver_objs v)"
    "q_blk q' = q_blk q" "hw_slots q' = hw_slots q" by blast+
qed

lemma exit_hctx_mem:
  assumes "hooks_paired v" "blk_mq_exit_hctx v h q k = (q', k')"
  shows "kmem k' = kmem k - driver_objs v" "length (unused_hctxs q') = Suc (length (unused_hctxs q))" "q_blk q' = q_blk q" "hw_slots q' = hw_slots q"
  using assms by (auto simp: blk_mq_exit_hctx_def call_exit_hctx_def driver_objs_def hooks_paired_def Let_def)

lemma hw_count_upd:
  "i < length (hw_slots q) \<Longrightarrow> hw_count (q\<lparr>hw_slots := (hw_slots q)[i := p]\<rparr>) = hw_count q - (if hw_slots q ! i then 1 else 0) + (if p then 1 else 0)"
  unfolding hw_count_def using sum_list_upd [of i "hw_slots q" "\<lambda>p. if p then 1 else 0" p] by simp

lemma hw_count_put: "i < length (hw_slots q) \<Longrightarrow> hw_count (put_hw i h q) = hw_count q - (if hw_slots q ! i then 1 else 0) + 1"
  using hw_count_upd [of i q True] by (simp add: put_hw_def hw_count_def)

lemma put_hw_simps [simp]: "hw_slots (put_hw i h q) = (hw_slots q)[i := True]" "unused_hctxs (put_hw i h q) = unused_hctxs q"
  "q_nr_hw (put_hw i h q) = q_nr_hw q"
  by (simp_all add: put_hw_def on_blk_def)

section \<open>The loops\<close>

text \<open>The entries from \<open>i\<close> to before \<open>j\<close> are set, the others as before.\<close>

definition grown :: "nat \<Rightarrow> nat \<Rightarrow> bool list \<Rightarrow> bool list \<Rightarrow> bool" where
  "grown i j xs ys \<longleftrightarrow> i \<le> j \<and> length ys = length xs \<and> (\<forall>m < length xs. ys ! m \<longleftrightarrow> i \<le> m \<and> m < j \<or> xs ! m)"

lemma grown_refl [simp]: "grown i i xs xs"
  by (auto simp: grown_def)

lemma grown_set: "grown (Suc i) j (xs[i := True]) ys \<Longrightarrow> grown i j xs ys"
proof -
  assume g: "grown (Suc i) j (xs[i := True]) ys"
  have "ys ! m \<longleftrightarrow> i \<le> m \<and> m < j \<or> xs ! m" if "m < length xs" for m
    using g that by (cases "m = i") (auto simp: grown_def)
  then show ?thesis using g by (simp add: grown_def)
qed

lemma grown_next: "xs ! i \<Longrightarrow> grown (Suc i) j xs ys \<Longrightarrow> grown i j xs ys"
  using grown_set [of i j xs ys] list_update_id [of xs i] by simp

text \<open>The loop that allocates: it sets entries, keeps the account, and stops early only at an entry that was null.\<close>

lemma realloc_loop_mem:
  assumes hooks: "hooks_paired v"
  shows "i + n \<le> length (hw_slots q) \<Longrightarrow> i + n \<le> length (set_tags ts) \<Longrightarrow> \<exists>j q' k'. realloc_loop v ts i n q k = Some (j, q', k') \<and> j \<le> i + n \<and>
    kmem k' - q_held v q' = kmem k - q_held v q \<and> q_nr_hw q' = q_nr_hw q \<and> grown i j (hw_slots q) (hw_slots q') \<and> (j < i + n \<longrightarrow> \<not> hw_slots q ! j)"
proof (induction n arbitrary: i q k)
  case 0
  then show ?case by simp
next
  case (Suc n)
  let ?node = "hw_queue_to_node v (set_map ts HCTX_TYPE_DEFAULT) i"
  have il: "i < length (hw_slots q)" using Suc.prems(1) by simp
  have rest: "\<exists>j q' k'. realloc_loop v ts (Suc i) n q1 k1 = Some (j, q', k') \<and> j \<le> i + Suc n \<and> kmem k' - q_held v q' = kmem k1 - q_held v q1 \<and>
      q_nr_hw q' = q_nr_hw q1 \<and> grown (Suc i) j (hw_slots q1) (hw_slots q') \<and> (j < i + Suc n \<longrightarrow> \<not> hw_slots q1 ! j)"
    if "length (hw_slots q1) = length (hw_slots q)" for q1 k1
    using Suc.IH [of "Suc i" q1 k1] Suc.prems that by simp
  show ?case
  proof (cases "hw_slots q ! i \<and> numa_node (hctx_at (q_blk q) i) = ?node")
    case True
    then have step: "realloc_loop v ts i (Suc n) q k = realloc_loop v ts (Suc i) n q k" using il by (simp add: Let_def)
    show ?thesis unfolding step using rest [OF refl, of k] grown_next True by blast
  next
    case False
    obtain t where t: "tags_addr ts i = Some t" using Suc.prems(2) by (simp add: tags_addr_def)
    have def: "\<exists>y. blk_mq_alloc_and_init_hctx v ts i ?node q k = Some y"
      using t by (auto simp: blk_mq_alloc_and_init_hctx_def blk_mq_init_hctx_def Let_def split: prod.splits option.splits)
    then obtain r q1 k1 where a: "blk_mq_alloc_and_init_hctx v ts i ?node q k = Some (r, q1, k1)" by (metis prod_cases3)
    note am = alloc_and_init_mem [OF hooks a]
    have step: "realloc_loop v ts i (Suc n) q k = (case r of
         Some h \<Rightarrow> (case (if hw_slots q ! i then blk_mq_exit_hctx v (hctx_at (q_blk q1) i) q1 k1 else (q1, k1)) of
              (q2, k2) \<Rightarrow> realloc_loop v ts (Suc i) n (put_hw i h q2) k2)
       | None \<Rightarrow> if hw_slots q ! i then realloc_loop v ts (Suc i) n q1 k1 else Some (i, q1, k1))"
      using il False a by (simp add: Let_def)
    have cnt: "hw_count q1 = hw_count q" using am(3) by (simp add: hw_count_def)
    have len: "length (hw_slots q1) = length (hw_slots q)" using am(3) by simp
    show ?thesis
    proof (cases r)
      case None
      have mem: "kmem k1 - q_held v q1 = kmem k - q_held v q" using am(1) None cnt by (simp add: q_held_def)
      show ?thesis
      proof (cases "hw_slots q ! i")
        case True
        then have st: "realloc_loop v ts i (Suc n) q k = realloc_loop v ts (Suc i) n q1 k1" using step None by simp
        show ?thesis unfolding st using rest [OF len, of k1] mem am(2,3) grown_next [of "hw_slots q" i] True by auto
      next
        case no: False
        then show ?thesis using step None mem am(2,3) by (intro exI [of _ i] exI [of _ q1] exI [of _ k1]) simp
      qed
    next
      case (Some h)
      obtain q2 k2 where e: "(if hw_slots q ! i then blk_mq_exit_hctx v (hctx_at (q_blk q1) i) q1 k1 else (q1, k1)) = (q2, k2)" by force
      have q2: "kmem k2 = kmem k1 - (if hw_slots q ! i then driver_objs v else 0)" "hw_slots q2 = hw_slots q" "q_blk q2 = q_blk q"
          "length (unused_hctxs q2) = length (unused_hctxs q1) + (if hw_slots q ! i then 1 else 0)"
        using e exit_hctx_mem [OF hooks, of "hctx_at (q_blk q1) i" q1 k1 q2 k2] am(2,3) by (auto split: if_splits)
      have cnt2: "hw_count (put_hw i h q2) = hw_count q - (if hw_slots q ! i then 1 else 0) + 1"
        using hw_count_put [of i q2 h] q2(2) il by (simp add: hw_count_def)
      have mem: "kmem k2 - q_held v (put_hw i h q2) = kmem k - q_held v q"
        using am(1) Some q2(1,4) cnt2 by (simp add: q_held_def algebra_simps split: if_splits)
      have st: "realloc_loop v ts i (Suc n) q k = realloc_loop v ts (Suc i) n (put_hw i h q2) k2" using step Some e by simp
      have len2: "length (hw_slots (put_hw i h q2)) = length (hw_slots q)" using q2(2) by simp
      obtain j q' k' where f: "realloc_loop v ts (Suc i) n (put_hw i h q2) k2 = Some (j, q', k')" "j \<le> i + Suc n"
          "kmem k' - q_held v q' = kmem k2 - q_held v (put_hw i h q2)" "q_nr_hw q' = q_nr_hw (put_hw i h q2)"
          "grown (Suc i) j (hw_slots (put_hw i h q2)) (hw_slots q')" "j < i + Suc n \<longrightarrow> \<not> hw_slots (put_hw i h q2) ! j"
        using rest [OF len2, of k2] by blast
      have "i < j" using f(5) by (simp add: grown_def)
      then show ?thesis
        by (intro exI [of _ j] exI [of _ q'] exI [of _ k'] conjI) (use st f mem q2(2,3) grown_set in auto)
    qed
  qed
qed


text \<open>The entries from \<open>a\<close> to before \<open>b\<close> are cleared.\<close>

definition shrunk :: "nat \<Rightarrow> nat \<Rightarrow> bool list \<Rightarrow> bool list \<Rightarrow> bool" where
  "shrunk a b xs ys \<longleftrightarrow> length ys = length xs \<and> (\<forall>m < length xs. ys ! m \<longleftrightarrow> xs ! m \<and> \<not> (a \<le> m \<and> m < b))"

lemma shrunk_set: "shrunk a b xs ys \<Longrightarrow> a \<le> b \<Longrightarrow> shrunk a (Suc b) xs (ys[b := False])"
proof -
  assume s: "shrunk a b xs ys" "a \<le> b"
  have "ys[b := False] ! m \<longleftrightarrow> xs ! m \<and> \<not> (a \<le> m \<and> m < Suc b)" if "m < length xs" for m
    using s that by (cases "m = b") (auto simp: shrunk_def)
  then show ?thesis using s(1) by (simp add: shrunk_def)
qed

definition tags_sound :: "blk_mq_tag_set \<Rightarrow> bool" where
  "tags_sound ts \<longleftrightarrow> (\<forall>p\<in>set (set_tags ts). p \<noteq> Dead_tags)"

lemma tags_sound_upd: "tags_sound ts \<Longrightarrow> tags_sound (ts\<lparr>set_tags := (set_tags ts)[i := No_tags]\<rparr>)"
  by (auto simp: tags_sound_def dest: set_update_subset_insert [THEN subsetD])

lemma free_map_defined:
  assumes "tags_sound ts" "i < length (set_tags ts)"
  shows "\<exists>xs k'. blk_mq_free_map_and_requests v i ts k = Some (ts\<lparr>set_tags := xs\<rparr>, k') \<and> length xs = length (set_tags ts) \<and> tags_sound (ts\<lparr>set_tags := xs\<rparr>)"
proof -
  have id: "ts\<lparr>set_tags := set_tags ts\<rparr> = ts" by simp
  have nd: "set_tags ts ! i \<noteq> Dead_tags" using assms nth_mem [OF assms(2)] by (auto simp: tags_sound_def)
  show ?thesis
  proof (cases "tags_mem ts = Null \<or> set_tags ts ! i = No_tags")
    case True
    then have "blk_mq_free_map_and_requests v i ts k = Some (ts, k)" using assms(2) by (auto simp: blk_mq_free_map_and_requests_def)
    then show ?thesis using assms(1) id by metis
  next
    case False
    then obtain t where "set_tags ts ! i = Tags t" using nd by (cases "set_tags ts ! i") auto
    then have "blk_mq_free_map_and_requests v i ts k = Some (ts\<lparr>set_tags := (set_tags ts)[i := No_tags]\<rparr>, blk_mq_free_rq_map (snd (blk_mq_free_rqs v t k)))"
      using False assms(2) by (simp add: blk_mq_free_map_and_requests_def put_tags_def)
    then show ?thesis using tags_sound_upd [OF assms(1)] by (metis length_list_update)
  qed
qed

lemma drop_loop_mem:
  assumes hooks: "hooks_paired v"
  shows "b \<le> length (hw_slots q) \<Longrightarrow> b \<le> length (set_tags ts) \<Longrightarrow> tags_sound ts \<Longrightarrow>
    \<exists>xs q' k'. for_each (drop_hw v) [a..<b] (ts, q, k) = Some (ts\<lparr>set_tags := xs\<rparr>, q', k') \<and> length xs = length (set_tags ts) \<and> tags_sound (ts\<lparr>set_tags := xs\<rparr>) \<and>
      kmem k' - q_held v q' - set_cost v (ts\<lparr>set_tags := xs\<rparr>) = kmem k - q_held v q - set_cost v ts \<and> q_blk q' = q_blk q \<and> shrunk a b (hw_slots q) (hw_slots q') \<and>
      (b \<le> a \<longrightarrow> xs = set_tags ts)"
proof (induction b)
  case 0
  have "ts\<lparr>set_tags := set_tags ts\<rparr> = ts" by simp
  then show ?case using 0 by (intro exI [of _ "set_tags ts"] exI [of _ q] exI [of _ k]) (simp add: shrunk_def)
next
  case (Suc b)
  show ?case
  proof (cases "a \<le> b")
    case False
    have "ts\<lparr>set_tags := set_tags ts\<rparr> = ts" by simp
    then show ?thesis using False Suc.prems by (intro exI [of _ "set_tags ts"] exI [of _ q] exI [of _ k]) (auto simp: shrunk_def)
  next
    case True
    obtain xs q1 k1 where r: "for_each (drop_hw v) [a..<b] (ts, q, k) = Some (ts\<lparr>set_tags := xs\<rparr>, q1, k1)" "length xs = length (set_tags ts)"
        "tags_sound (ts\<lparr>set_tags := xs\<rparr>)" "kmem k1 - q_held v q1 - set_cost v (ts\<lparr>set_tags := xs\<rparr>) = kmem k - q_held v q - set_cost v ts"
        "q_blk q1 = q_blk q" "shrunk a b (hw_slots q) (hw_slots q1)"
      using Suc.IH Suc.prems by (meson Suc_leD)
    define ts1 where "ts1 = ts\<lparr>set_tags := xs\<rparr>"
    have bl: "b < length (hw_slots q1)" "b < length (set_tags ts1)" using Suc.prems(1,2) r(2,6) by (simp_all add: shrunk_def ts1_def)
    have loop: "for_each (drop_hw v) [a..<Suc b] (ts, q, k) = drop_hw v b (ts1, q1, k1)"
      using r(1) True by (cases "drop_hw v b (ts1, q1, k1)") (simp_all add: for_each_append ts1_def)
    have sl: "hw_slots q1 ! b = hw_slots q ! b" "length (hw_slots q1) = length (hw_slots q)"
      using r(6) bl(1) by (auto simp: shrunk_def)
    show ?thesis
    proof (cases "hw_slots q ! b")
      case False
      then have eq: "for_each (drop_hw v) [a..<Suc b] (ts, q, k) = Some (ts\<lparr>set_tags := xs\<rparr>, q1, k1)"
        using loop bl sl by (simp add: drop_hw_def ts1_def)
      have "shrunk a (Suc b) (hw_slots q) (hw_slots q1)" using r(6) False by (auto simp: shrunk_def less_Suc_eq)
      then show ?thesis using eq r True by (intro exI [of _ xs] exI [of _ q1] exI [of _ k1]) simp
    next
      case p: True
      obtain ys k2 where f: "(if hctx_tags (hctx_at (q_blk q1) b) \<noteq> None then blk_mq_free_map_and_requests v b ts1 k1 else Some (ts1, k1)) = Some (ts1\<lparr>set_tags := ys\<rparr>, k2)"
          "length ys = length (set_tags ts1)" "tags_sound (ts1\<lparr>set_tags := ys\<rparr>)" "kmem k2 - set_cost v (ts1\<lparr>set_tags := ys\<rparr>) = kmem k1 - set_cost v ts1"
      proof (cases "hctx_tags (hctx_at (q_blk q1) b) = None")
        case True
        then show ?thesis using that [of "set_tags ts1" k1] r(3) by (simp add: ts1_def)
      next
        case False
        obtain ys k2 where y: "blk_mq_free_map_and_requests v b ts1 k1 = Some (ts1\<lparr>set_tags := ys\<rparr>, k2)" "length ys = length (set_tags ts1)" "tags_sound (ts1\<lparr>set_tags := ys\<rparr>)"
          using free_map_defined [of ts1 b v k1] r(3) bl(2) by (auto simp: ts1_def)
        moreover have "kmem k2 - set_cost v (ts1\<lparr>set_tags := ys\<rparr>) = kmem k1 - set_cost v ts1"
          using free_map_mem [OF _ y(1)] hooks by (simp add: hooks_paired_def)
        ultimately show ?thesis using that False by simp
      qed
      obtain q2 k3 where e: "blk_mq_exit_hctx v (hctx_at (q_blk q1) b) q1 k2 = (q2, k3)" by force
      note em = exit_hctx_mem [OF hooks e]
      define q3 where "q3 = q2\<lparr>hw_slots := (hw_slots q2)[b := False]\<rparr>"
      have upd: "ts1\<lparr>set_tags := ys\<rparr> = ts\<lparr>set_tags := ys\<rparr>" by (simp add: ts1_def)
      have "drop_hw v b (ts1, q1, k1) = Some (ts1\<lparr>set_tags := ys\<rparr>, q3, k3)"
        using bl(1) sl p f(1) e by (simp add: drop_hw_def q3_def)
      then have eq: "for_each (drop_hw v) [a..<Suc b] (ts, q, k) = Some (ts\<lparr>set_tags := ys\<rparr>, q3, k3)" using loop upd by simp
      have cnt: "hw_count q3 = hw_count q1 - 1"
        using hw_count_upd [of b q2 False] em(4) bl(1) sl p by (simp add: q3_def hw_count_def)
      have mem: "kmem k3 - q_held v q3 - set_cost v (ts\<lparr>set_tags := ys\<rparr>) = kmem k - q_held v q - set_cost v ts"
      proof -
        have "length (unused_hctxs q3) = Suc (length (unused_hctxs q1))" using em(2) by (simp add: q3_def)
        then have "q_held v q3 = q_held v q1 - driver_objs v" unfolding q_held_def cnt by (simp add: algebra_simps)
        then show ?thesis using em(1) f(4) r(4) upd by (simp add: ts1_def)
      qed
      have "shrunk a (Suc b) (hw_slots q) (hw_slots q3)"
        using shrunk_set [OF r(6) True] em(4) by (simp add: q3_def)
      then show ?thesis
        using eq mem f(2,3) r(2,5) em(3) True upd by (intro exI [of _ ys] exI [of _ q3] exI [of _ k3]) (simp add: q3_def ts1_def)
    qed
  qed
qed


text \<open>A queue whose array has exactly the entries of its hardware queues.\<close>

definition slots_ok :: "mq_queue \<Rightarrow> bool" where
  "slots_ok q \<longleftrightarrow> q_nr_hw q \<le> length (hw_slots q) \<and> (\<forall>m < length (hw_slots q). hw_slots q ! m \<longleftrightarrow> m < q_nr_hw q)"

lemma slots_present: "slots_ok q \<Longrightarrow> present (q_nr_hw q) q"
  by (simp add: slots_ok_def present_def)

lemma held_on_blk [simp]: "q_held v (on_blk f q) = q_held v q" "q_held v (set_q_nr_hw n q) = q_held v q" "hw_slots (set_q_nr_hw n q) = hw_slots q"
  "q_nr_hw (set_q_nr_hw n q) = n"
  by (simp_all add: q_held_def hw_count_def set_q_nr_hw_def upd_q_def)

lemma realloc_mem:
  assumes hooks: "hooks_paired v" and q: "slots_ok q" "q_nr_hw q \<le> length (set_tags ts)" and n: "set_nr_hw ts \<le> length (hw_slots q)" "set_nr_hw ts \<le> length (set_tags ts)"
    and tags: "tags_sound ts"
  shows "\<exists>xs q' k'. blk_mq_realloc_hw_ctxs v ts q k = Some (ts\<lparr>set_tags := xs\<rparr>, q', k') \<and> length xs = length (set_tags ts) \<and>
    tags_sound (ts\<lparr>set_tags := xs\<rparr>) \<and> kmem k' - q_held v q' - set_cost v (ts\<lparr>set_tags := xs\<rparr>) = kmem k - q_held v q - set_cost v ts \<and>
    slots_ok q' \<and> length (hw_slots q') = length (hw_slots q) \<and> (q_nr_hw q' = q_nr_hw q \<or> q_nr_hw q' = set_nr_hw ts) \<and>
    (set_nr_hw ts \<le> q_nr_hw q \<longrightarrow> q_nr_hw q' = set_nr_hw ts) \<and> (q_nr_hw q' = set_nr_hw ts \<longrightarrow> q_nr_hw q \<le> set_nr_hw ts \<longrightarrow> set_nr_hw ts \<noteq> q_nr_hw q \<longrightarrow> xs = set_tags ts)"
proof -
  obtain j q1 k1 where r: "realloc_loop v ts 0 (set_nr_hw ts) q k = Some (j, q1, k1)" "j \<le> set_nr_hw ts" "kmem k1 - q_held v q1 = kmem k - q_held v q"
      "q_nr_hw q1 = q_nr_hw q" "grown 0 j (hw_slots q) (hw_slots q1)" "j < set_nr_hw ts \<longrightarrow> \<not> hw_slots q ! j"
    using realloc_loop_mem [OF hooks, of 0 "set_nr_hw ts" q ts k] n by auto
  have len: "length (hw_slots q1) = length (hw_slots q)" using r(5) by (simp add: grown_def)
  show ?thesis
  proof (cases "j = set_nr_hw ts")
    case False
    then have big: "q_nr_hw q \<le> j" using r(2,6) q(1) n(1) by (meson le_neq_implies_less linorder_not_less order_less_le_trans slots_ok_def)
    obtain xs q2 k2 where d: "for_each (drop_hw v) [q_nr_hw q1..<j] (ts, q1, k1) = Some (ts\<lparr>set_tags := xs\<rparr>, q2, k2)" "length xs = length (set_tags ts)"
        "tags_sound (ts\<lparr>set_tags := xs\<rparr>)" "kmem k2 - q_held v q2 - set_cost v (ts\<lparr>set_tags := xs\<rparr>) = kmem k1 - q_held v q1 - set_cost v ts" "q_blk q2 = q_blk q1"
        "shrunk (q_nr_hw q1) j (hw_slots q1) (hw_slots q2)"
      using drop_loop_mem [OF hooks, of j q1 ts "q_nr_hw q1" k1] r(2) n len tags by auto
    have eq: "blk_mq_realloc_hw_ctxs v ts q k = Some (ts\<lparr>set_tags := xs\<rparr>, q2, k2)" using r(1) False d(1) by (simp add: blk_mq_realloc_hw_ctxs_def)
    have "slots_ok q2" using q(1) r(4,5) d(5,6) big by (auto simp: slots_ok_def grown_def shrunk_def)
    then show ?thesis
      by (intro exI [of _ xs] exI [of _ q2] exI [of _ k2] conjI eq) (use d r(2-4) len big False in \<open>auto simp: shrunk_def\<close>)
  next
    case True
    define q0 where "q0 = set_q_nr_hw (set_nr_hw ts) q1"
    obtain xs q2 k2 where d: "for_each (drop_hw v) [j..<q_nr_hw q1] (ts, q0, k1) = Some (ts\<lparr>set_tags := xs\<rparr>, q2, k2)" "length xs = length (set_tags ts)"
        "tags_sound (ts\<lparr>set_tags := xs\<rparr>)" "kmem k2 - q_held v q2 - set_cost v (ts\<lparr>set_tags := xs\<rparr>) = kmem k1 - q_held v q0 - set_cost v ts" "q_blk q2 = q_blk q0"
        "shrunk j (q_nr_hw q1) (hw_slots q0) (hw_slots q2)" "q_nr_hw q1 \<le> j \<longrightarrow> xs = set_tags ts"
      using drop_loop_mem [OF hooks, of "q_nr_hw q1" q0 ts j k1] r(4) q len tags by (auto simp: q0_def slots_ok_def)
    have eq: "blk_mq_realloc_hw_ctxs v ts q k = Some (ts\<lparr>set_tags := xs\<rparr>, q2, k2)" using r(1) True d(1) by (simp add: blk_mq_realloc_hw_ctxs_def q0_def)
    have nr: "q_nr_hw q2 = set_nr_hw ts" using d(5) by (simp add: q0_def)
    have "slots_ok q2" using q(1) r(2,4,5) d(6) n(1) nr True by (auto simp: slots_ok_def grown_def shrunk_def q0_def)
    then show ?thesis
      by (intro exI [of _ xs] exI [of _ q2] exI [of _ k2] conjI eq) (use d r(2-4) len nr True in \<open>auto simp: shrunk_def q0_def\<close>)
  qed
qed


section \<open>Setting up a queue\<close>

text \<open>Every map of the set names a hardware queue for every CPU, also a map without queues of its own.\<close>

definition maps_full :: "menv \<Rightarrow> blk_mq_tag_set \<Rightarrow> nat \<Rightarrow> bool" where
  "maps_full v ts n \<longleftrightarrow> (\<forall>c\<in>set (possible_cpus v). \<forall>j\<in>set (hctx_types (nr_maps ts)). c < length (mq_map (set_map ts j)) \<and> mapped_to ts j c < n)"

lemma keep_on_hw: "present n q \<Longrightarrow> i < n \<Longrightarrow> \<exists>q'. on_hw f i q = Some q' \<and> hw_slots q' = hw_slots q \<and> unused_hctxs q' = unused_hctxs q \<and> q_nr_hw q' = q_nr_hw q"
  using on_hw_Some by fastforce

lemma init_cpu_nodes:
  "present n q \<Longrightarrow> \<forall>j\<in>set js. c < length (mq_map (set_map ts j)) \<and> mapped_to ts j c < n \<Longrightarrow>
    \<exists>q'. for_each (init_cpu_node v ts nr c) js q = Some q' \<and> hw_slots q' = hw_slots q \<and> unused_hctxs q' = unused_hctxs q \<and> q_nr_hw q' = q_nr_hw q"
proof (induction js arbitrary: q)
  case (Cons j js)
  have m: "blk_mq_map_queue_type ts q j c = Some (mapped_to ts j c)" "mapped_to ts j c < n"
    using Cons.prems by (simp_all add: blk_mq_map_queue_type_def present_def)
  obtain q1 where q1: "init_cpu_node v ts nr c j q = Some q1" "hw_slots q1 = hw_slots q" "unused_hctxs q1 = unused_hctxs q" "q_nr_hw q1 = q_nr_hw q"
    using m keep_on_hw [OF Cons.prems(1) m(2)] by (cases "nr \<le> 1") (auto simp: init_cpu_node_def)
  have "present n q1" using Cons.prems(1) q1(2) by (simp add: present_def)
  then show ?case using Cons.IH [of q1] Cons.prems(2) q1 by auto
qed simp

lemma init_cpus:
  "present n q \<Longrightarrow> \<forall>c\<in>set cs. \<forall>j\<in>set (hctx_types (nr_maps ts)). c < length (mq_map (set_map ts j)) \<and> mapped_to ts j c < n \<Longrightarrow>
    \<exists>q'. for_each (init_cpu_queue v ts nr) cs q = Some q' \<and> hw_slots q' = hw_slots q \<and> unused_hctxs q' = unused_hctxs q \<and> q_nr_hw q' = q_nr_hw q"
proof (induction cs arbitrary: q)
  case (Cons c cs)
  define q0 where "q0 = on_blk (upd_ctx c (\<lambda>x. x\<lparr>ctx_cpu := c, rq_lists := (\<lambda>_. [])\<rparr>)) q"
  have p0: "present n q0" using Cons.prems(1) by (simp add: q0_def)
  have "\<forall>j\<in>set (hctx_types (nr_maps ts)). c < length (mq_map (set_map ts j)) \<and> mapped_to ts j c < n" using Cons.prems(2) by simp
  then obtain q1 where q1: "init_cpu_queue v ts nr c q = Some q1" "hw_slots q1 = hw_slots q0" "unused_hctxs q1 = unused_hctxs q0" "q_nr_hw q1 = q_nr_hw q0"
    using init_cpu_nodes [OF p0] unfolding init_cpu_queue_def q0_def by blast
  have "present n q1" using p0 q1(2) by (simp add: present_def)
  moreover have "\<forall>c\<in>set cs. \<forall>j\<in>set (hctx_types (nr_maps ts)). c < length (mq_map (set_map ts j)) \<and> mapped_to ts j c < n" using Cons.prems(2) by simp
  ultimately obtain q2 where "for_each (init_cpu_queue v ts nr) cs q1 = Some q2" "hw_slots q2 = hw_slots q1" "unused_hctxs q2 = unused_hctxs q1" "q_nr_hw q2 = q_nr_hw q1"
    using Cons.IH by blast
  then show ?case using q1 by (auto simp: q0_def)
qed simp

lemma set_shared_keeps:
  assumes "present (q_nr_hw q) q"
  shows "\<exists>q'. queue_set_hctx_shared b q = Some q' \<and> hw_slots q' = hw_slots q \<and> unused_hctxs q' = unused_hctxs q \<and> q_nr_hw q' = q_nr_hw q"
  using on_hw_all [OF assms] unfolding queue_set_hctx_shared_def by blast

lemma held_cong: "hw_slots q' = hw_slots q \<Longrightarrow> unused_hctxs q' = unused_hctxs q \<Longrightarrow> q_held v q' = q_held v q"
  by (simp add: q_held_def hw_count_def)

text \<open>After the hardware contexts, nothing can fail.\<close>

lemma init_queue_tail:
  assumes "hooks_paired v" "present n q" "q_nr_hw q = n" "maps_full v ts n" "map_plan v ts ty n" "tags_of ts n"
  shows "\<exists>q3 q4 ts' q' k'. blk_mq_init_cpu_queues v ts nr (init_queue_fields ts q) = Some q3 \<and> blk_mq_add_queue_tag_set v ts q3 [] = Some (ts, q4, []) \<and>
    blk_mq_map_swqueue v ts q4 k = Some (ts', q', k') \<and> hw_slots q' = hw_slots q \<and> unused_hctxs q' = unused_hctxs q \<and> q_nr_hw q' = n \<and>
    (\<forall>h < n. linked (q_blk q') ty h (filter (serves ts ty h) (possible_cpus v))) \<and> kmem k' - set_cost v ts' = kmem k - set_cost v ts"
proof -
  define q2 where "q2 = init_queue_fields ts q"
  have q2: "hw_slots q2 = hw_slots q" "unused_hctxs q2 = unused_hctxs q" "q_nr_hw q2 = n" using assms(3) by (simp_all add: q2_def init_queue_fields_def upd_q_def on_blk_def)
  have "present n q2" using assms(2) q2(1) by (simp add: present_def)
  then obtain q3 where q3: "blk_mq_init_cpu_queues v ts nr q2 = Some q3" "hw_slots q3 = hw_slots q2" "unused_hctxs q3 = unused_hctxs q2" "q_nr_hw q3 = q_nr_hw q2"
    using init_cpus assms(4) unfolding maps_full_def blk_mq_init_cpu_queues_def by blast
  have p3: "present (q_nr_hw q3) q3" using assms(2) q2 q3 by (simp add: present_def)
  obtain q4 where q4: "blk_mq_add_queue_tag_set v ts q3 [] = Some (ts, q4, [])" "hw_slots q4 = hw_slots q3" "unused_hctxs q4 = unused_hctxs q3" "q_nr_hw q4 = q_nr_hw q3"
    using set_shared_keeps [OF p3, of True] by (cases "BLK_MQ_F_TAG_SHARED \<in> set_flags ts") (auto simp: blk_mq_add_queue_tag_set_def)
  have nr: "q_nr_hw q4 = n" using q2 q3 q4 by simp
  have p4: "present n q4" using assms(2) q2 q3 q4 by (simp add: present_def)
  have "\<exists>ts' q' k'. blk_mq_map_swqueue v ts q4 k = Some (ts', q', k') \<and> same_hw q4 q' \<and>
      (\<forall>h < n. linked (q_blk q') ty h (filter (serves ts ty h) (possible_cpus v))) \<and> kmem k' - set_cost v ts' = kmem k - set_cost v ts"
    using map_swqueue_run [of v ts ty q4 k, unfolded nr, OF assms(5) p4 assms(6)] assms(1) unfolding hooks_paired_def by blast
  then show ?thesis using q2 q3 q4 nr unfolding q2_def [symmetric] same_hw_def by metis
qed

text \<open>
  C21: The memory of a queue (\<open>blk_mq_init_allocated_queue\<close>). For a tag set with tags and fitting maps, setting up its first queue
  ends, with success or \<open>ENOMEM\<close>. On success the queue has all the hardware queues of the set, the software contexts are mapped to
  them, and the memory taken is that of the callback, the contexts, the array and the hardware contexts. On failure everything
  is given back except the hardware contexts that had been set up before memory ran out: five objects for each of them stay on
  the list of unused ones of a queue that has lost its operations, so that \<open>blk_mq_release\<close> never sees them.
\<close>
theorem init_queue_memory:
  assumes "hooks_paired v" "0 < set_nr_hw ts" "set_nr_hw ts \<le> set_nr_queues v ts" "tags_of ts (set_nr_hw ts)" "tags_sound ts"
    "map_plan v ts ty (set_nr_hw ts)" "maps_full v ts (set_nr_hw ts)" "q_nr_hw q = 0" "unused_hctxs q = []"
  shows "\<exists>ret ts' q' k'. blk_mq_init_allocated_queue v elevator_init ts q [] k = Some (ret, ts', q', [], k') \<and>
    (ret = Ret 0 \<longrightarrow> q_nr_hw q' = set_nr_hw ts \<and> slots_ok q' \<and> (\<forall>h < set_nr_hw ts. linked (q_blk q') ty h (filter (serves ts ty h) (possible_cpus v))) \<and>
       kmem k' - set_cost v ts' = kmem k - set_cost v ts + 4 + q_held v q') \<and>
    (ret \<noteq> Ret 0 \<longrightarrow> ret = Err ENOMEM \<and> \<not> has_mq_ops q' \<and> kmem k' - set_cost v ts' = kmem k - set_cost v ts + 5 * int (length (unused_hctxs q')))"
proof (cases rule: k_new_cases [of "mk v" k])
  case (fail k1)
  then show ?thesis using assms(9) by (simp add: blk_mq_init_allocated_queue_def Let_def)
next
  case (ok k1)
  note a1 = this
  define q0 where "q0 = q\<lparr>has_mq_ops := True, poll_cb := Live\<rparr>"
  obtain got k2 where o: "alloc_objs (mk v) 2 k1 = (got, k2)" by force
  have k2: "kmem k2 = kmem k1 + (if got then 2 else 0)" using alloc_objs_mem [OF o] by simp
  show ?thesis
  proof (cases got)
    case False
    then show ?thesis using a1 o k2 assms(9) by (simp add: blk_mq_init_allocated_queue_def Let_def blk_mq_alloc_ctxs_def err_poll_def)
  next
    case True
    show ?thesis
    proof (cases rule: k_new_cases [of "mk v" k2])
      case (fail k3)
      then show ?thesis using a1 o k2 True assms(9)
        by (simp add: blk_mq_init_allocated_queue_def Let_def blk_mq_alloc_ctxs_def err_poll_def blk_mq_sysfs_deinit_def)
    next
      case (ok k3)
      define q1 where "q1 = q0\<lparr>mq_kobj := Live, hw_slots := replicate (set_nr_queues v ts) False, unused_hctxs := []\<rparr>"
      have q1: "slots_ok q1" "q_nr_hw q1 = 0" "q_held v q1 = 0" "length (hw_slots q1) = set_nr_queues v ts"
        using assms(8) by (simp_all add: q1_def q0_def slots_ok_def q_held_def hw_count_def sum_list_replicate)
      have tl: "set_nr_hw ts \<le> length (set_tags ts)" using assms(4) by (simp add: tags_of_def)
      have nle: "set_nr_hw ts \<le> length (hw_slots q1)" "q_nr_hw q1 \<le> length (set_tags ts)" using assms(3) q1 by simp_all
      obtain xs q2 k4 where r: "blk_mq_realloc_hw_ctxs v ts q1 k3 = Some (ts\<lparr>set_tags := xs\<rparr>, q2, k4)"
          "kmem k4 - q_held v q2 - set_cost v (ts\<lparr>set_tags := xs\<rparr>) = kmem k3 - q_held v q1 - set_cost v ts" "slots_ok q2"
          "q_nr_hw q2 = q_nr_hw q1 \<or> q_nr_hw q2 = set_nr_hw ts"
          "q_nr_hw q2 = set_nr_hw ts \<longrightarrow> q_nr_hw q1 \<le> set_nr_hw ts \<longrightarrow> set_nr_hw ts \<noteq> q_nr_hw q1 \<longrightarrow> xs = set_tags ts"
        using realloc_mem [OF assms(1) q1(1) nle(2,1) tl assms(5), of k3] by blast
      have run: "blk_mq_init_allocated_queue v elevator_init ts q [] k =
          (if q_nr_hw q2 = 0 then
             (case blk_mq_sysfs_deinit (set_q_nr_hw 0 q2\<lparr>hw_slots := []\<rparr>) (kmem_add (-1) k4) of (q3, k5) \<Rightarrow>
                case err_poll q3 k5 of (q4, k6) \<Rightarrow> Some (Err ENOMEM, ts\<lparr>set_tags := xs\<rparr>, q4, [], k6))
           else do {
             q3 \<leftarrow> blk_mq_init_cpu_queues v (ts\<lparr>set_tags := xs\<rparr>) (set_nr_hw ts) (init_queue_fields (ts\<lparr>set_tags := xs\<rparr>) q2);
             (ts2, q4, qs1) \<leftarrow> blk_mq_add_queue_tag_set v (ts\<lparr>set_tags := xs\<rparr>) q3 [];
             (ts3, q5, k5) \<leftarrow> blk_mq_map_swqueue v ts2 q4 k4;
             Some (Ret 0, ts3, init_elevator v elevator_init q5, qs1, k5) })"
        using a1 o True ok r(1) by (simp add: blk_mq_init_allocated_queue_def Let_def blk_mq_alloc_ctxs_def q1_def q0_def)
      show ?thesis
      proof (cases "q_nr_hw q2 = 0")
        case True
        have "hw_slots q2 = replicate (length (hw_slots q2)) False" by (rule nth_equalityI) (use r(3) True in \<open>simp_all add: slots_ok_def\<close>)
        then have "hw_count q2 = 0" unfolding hw_count_def by (metis (mono_tags, lifting) map_replicate sum_list_replicate mult_zero_right)
        then have held: "q_held v q2 = 5 * int (length (unused_hctxs q2))" by (simp add: q_held_def hctx_objs_def)
        show ?thesis using run True held r(2) q1(3) ok(2) k2 a1(2) \<open>got\<close>
          by (simp add: blk_mq_sysfs_deinit_def err_poll_def set_q_nr_hw_def on_blk_def)
      next
        case False
        then have n: "q_nr_hw q2 = set_nr_hw ts" "xs = set_tags ts" using r(4,5) q1(2) assms(2) by auto
        then have ts: "ts\<lparr>set_tags := xs\<rparr> = ts" by simp
        have p2: "present (set_nr_hw ts) q2" using slots_present [OF r(3)] n(1) by simp
        obtain q3 q4 ts' q' k' where t: "blk_mq_init_cpu_queues v ts (set_nr_hw ts) (init_queue_fields ts q2) = Some q3"
            "blk_mq_add_queue_tag_set v ts q3 [] = Some (ts, q4, [])" "blk_mq_map_swqueue v ts q4 k4 = Some (ts', q', k')"
            "hw_slots q' = hw_slots q2" "unused_hctxs q' = unused_hctxs q2" "q_nr_hw q' = set_nr_hw ts"
            "\<forall>h < set_nr_hw ts. linked (q_blk q') ty h (filter (serves ts ty h) (possible_cpus v))" "kmem k' - set_cost v ts' = kmem k4 - set_cost v ts"
          using init_queue_tail [OF assms(1) p2 n(1) assms(7,6,4)] by blast
        define qe where "qe = init_elevator v elevator_init q'"
        have qe: "hw_slots qe = hw_slots q2" "unused_hctxs qe = unused_hctxs q2" "q_nr_hw qe = set_nr_hw ts" "hctx_at (q_blk qe) = hctx_at (q_blk q')" "ctx_at (q_blk qe) = ctx_at (q_blk q')"
          using t(4-6) by (simp_all add: qe_def init_elevator_def upd_q_def hctx_at_def ctx_at_def fun_eq_iff)
        have eq: "blk_mq_init_allocated_queue v elevator_init ts q [] k = Some (Ret 0, ts', qe, [], k')" using run False t(1-3) ts by (simp add: qe_def)
        have held: "q_held v qe = q_held v q2" using held_cong [OF qe(1,2)] .
        have so: "slots_ok qe" using r(3) qe(1,3) n(1) by (simp add: slots_ok_def)
        have lk: "\<forall>h < set_nr_hw ts. linked (q_blk qe) ty h (filter (serves ts ty h) (possible_cpus v))" using t(7) qe(4,5) by (simp add: linked_def)
        show ?thesis
          by (intro exI [of _ "Ret 0"] exI [of _ ts'] exI [of _ qe] exI [of _ k'] conjI eq impI)
            (use qe(3) so lk held t(8) r(2) q1(3) ok(2) k2 a1(2) \<open>got\<close> ts in simp_all)
      qed
    qed
  qed
qed


text \<open>Memory for the first of eight hardware contexts, but not for the second.\<close>

definition ex_menv_two :: menv where
  "ex_menv_two = ex_menv\<lparr>mk := \<lparr>k_alloc = (\<lambda>i. i < 10), k_call = (\<lambda>_. Ret 0)\<rparr>\<rparr>"

definition ex_fresh :: mq_queue where
  "ex_fresh = set_q_nr_hw 0 ex_mq\<lparr>hw_slots := []\<rparr>"

lemma ex_two_simps: "mk ex_menv_two = \<lparr>k_alloc = (\<lambda>i. i < 10), k_call = (\<lambda>_. Ret 0)\<rparr>" "op_init_request ex_menv_two = True" "op_exit_request ex_menv_two = True"
  "op_init_hctx ex_menv_two = None" "op_exit_hctx ex_menv_two = False" "tag_idle ex_menv_two h = h" "hw_queue_to_node ex_menv_two m i = 0"
  by (simp_all add: ex_menv_two_def ex_menv_def)

lemma ex_two_objs: "alloc_objs (mk ex_menv_two) 5 \<lparr>kmem = 4, kpos = 4\<rparr> = (True, \<lparr>kmem = 9, kpos = 9\<rparr>)"
  "alloc_objs (mk ex_menv_two) 5 \<lparr>kmem = 10, kpos = 10\<rparr> = (False, \<lparr>kmem = 10, kpos = 11\<rparr>)"
proof -
  have five: "(5::nat) = Suc (Suc (Suc (Suc (Suc 0))))" by simp
  show "alloc_objs (mk ex_menv_two) 5 \<lparr>kmem = 4, kpos = 4\<rparr> = (True, \<lparr>kmem = 9, kpos = 9\<rparr>)"
    unfolding five by (simp add: ex_two_simps k_new_def k_next_def kmem_add_def)
  show "alloc_objs (mk ex_menv_two) 5 \<lparr>kmem = 10, kpos = 10\<rparr> = (False, \<lparr>kmem = 10, kpos = 11\<rparr>)"
    unfolding five by (simp add: ex_two_simps k_new_def k_next_def kmem_add_def)
qed

lemma ex_two_loop:
  assumes "hw_slots q = replicate 8 False" "unused_hctxs q = []"
  shows "\<exists>h. realloc_loop ex_menv_two ex_maps 0 8 q \<lparr>kmem = 4, kpos = 4\<rparr> = Some (1, put_hw 0 h q, \<lparr>kmem = 10, kpos = 11\<rparr>) \<and> hctx_tags h = Some 0"
proof -
  have tags: "tags_addr ex_maps i = Some (Some i)" if "i < 8" for i using that by (simp add: tags_addr_def ex_maps_def)
  define h where "h = zero_hctx\<lparr>numa_node := 0, hctx_flags := set_flags ex_maps - {BLK_MQ_F_TAG_SHARED}, queue_num := 0, hctx_tags := Some 0, blk_switch := False\<rparr>"
  have q: "q\<lparr>unused_hctxs := []\<rparr> = q" using assms(2) by simp
  have a: "blk_mq_alloc_and_init_hctx ex_menv_two ex_maps 0 0 q \<lparr>kmem = 4, kpos = 4\<rparr> = Some (Some h, q, \<lparr>kmem = 10, kpos = 10\<rparr>)"
    using assms(2) ex_two_objs(1) tags [of 0] q
    by (simp add: blk_mq_alloc_and_init_hctx_def blk_mq_alloc_hctx_def hctx_objs_def blk_mq_init_hctx_def Let_def call_init_hctx_def ex_two_simps
        blk_mq_init_request_def k_make_def k_do_def k_next_def kmem_add_def h_def NUMA_NO_NODE_def)
  have b: "blk_mq_alloc_and_init_hctx ex_menv_two ex_maps 1 0 (put_hw 0 h q) \<lparr>kmem = 10, kpos = 10\<rparr> = Some (None, put_hw 0 h q, \<lparr>kmem = 10, kpos = 11\<rparr>)"
    using assms(2) ex_two_objs(2) by (simp add: blk_mq_alloc_and_init_hctx_def blk_mq_alloc_hctx_def hctx_objs_def Let_def)
  have eight: "(8::nat) = Suc (Suc 6)" and tags_h: "hctx_tags h = Some 0" by (simp_all add: h_def)
  have "realloc_loop ex_menv_two ex_maps 0 (Suc (Suc m)) q \<lparr>kmem = 4, kpos = 4\<rparr> = Some (1, put_hw 0 h q, \<lparr>kmem = 10, kpos = 11\<rparr>)" for m
    using a b assms(1) by (simp add: Let_def ex_two_simps)
  then show ?thesis by (subst eight) (blast intro: tags_h)
qed


lemma ex_two_realloc:
  assumes "hw_slots q = replicate 8 False" "unused_hctxs q = []" "q_nr_hw q = 0"
  shows "\<exists>ts' q' k'. blk_mq_realloc_hw_ctxs ex_menv_two ex_maps q \<lparr>kmem = 4, kpos = 4\<rparr> = Some (ts', q', k') \<and> q_nr_hw q' = 0 \<and> length (unused_hctxs q') = 1"
proof -
  obtain h where h: "realloc_loop ex_menv_two ex_maps 0 8 q \<lparr>kmem = 4, kpos = 4\<rparr> = Some (1, put_hw 0 h q, \<lparr>kmem = 10, kpos = 11\<rparr>)" "hctx_tags h = Some 0"
    using ex_two_loop [OF assms(1,2)] by blast
  define q1 where "q1 = put_hw 0 h q"
  have q1: "hw_slots q1 ! 0" "0 < length (hw_slots q1)" "hctx_at (q_blk q1) 0 = h" "unused_hctxs q1 = []" "q_nr_hw q1 = 0"
    using assms by (simp_all add: q1_def put_hw_def)
  have "tags_sound ex_maps" "0 < length (set_tags ex_maps)" by (simp_all add: tags_sound_def ex_maps_def)
  then obtain xs k1 where f: "blk_mq_free_map_and_requests ex_menv_two 0 ex_maps \<lparr>kmem = 10, kpos = 11\<rparr> = Some (ex_maps\<lparr>set_tags := xs\<rparr>, k1)"
    using free_map_defined by blast
  obtain q2 k2 where e: "blk_mq_exit_hctx ex_menv_two h q1 k1 = (q2, k2)" by force
  have "hooks_paired ex_menv_two" by (simp add: hooks_paired_def ex_two_simps)
  note em = exit_hctx_mem [OF this e]
  have d: "drop_hw ex_menv_two 0 (ex_maps, q1, \<lparr>kmem = 10, kpos = 11\<rparr>) = Some (ex_maps\<lparr>set_tags := xs\<rparr>, q2\<lparr>hw_slots := (hw_slots q2)[0 := False]\<rparr>, k2)"
    using q1(1-3) h(2) f e by (simp add: drop_hw_def)
  have "set_nr_hw ex_maps = 8" by (simp add: ex_maps_def)
  then have "blk_mq_realloc_hw_ctxs ex_menv_two ex_maps q \<lparr>kmem = 4, kpos = 4\<rparr> = Some (ex_maps\<lparr>set_tags := xs\<rparr>, q2\<lparr>hw_slots := (hw_slots q2)[0 := False]\<rparr>, k2)"
    using h(1) d q1(5) by (simp add: blk_mq_realloc_hw_ctxs_def flip: q1_def)
  then show ?thesis using em(2,3) q1(4,5) by simp
qed

theorem init_queue_memory_witness:
  "\<exists>ts' q' k'. blk_mq_init_allocated_queue ex_menv_two False ex_maps ex_fresh [] \<lparr>kmem = 0, kpos = 0\<rparr> = Some (Err ENOMEM, ts', q', [], k') \<and>
     kmem k' - set_cost ex_menv_two ts' = 5 - set_cost ex_menv_two ex_maps"
proof -
  have nr: "set_nr_hw ex_maps = 8" by (simp add: ex_maps_def)
  have plan: "map_plan ex_menv_two ex_maps ex_ty 8" using ex_maps_plan by (simp add: map_plan_def ex_menv_two_def)
  have cpus: "possible_cpus ex_menv_two = [0, 1, 2, 3]" by (simp add: ex_menv_two_def ex_menv_def)
  have pre: "hooks_paired ex_menv_two" "0 < set_nr_hw ex_maps" "set_nr_hw ex_maps \<le> set_nr_queues ex_menv_two ex_maps" "tags_of ex_maps (set_nr_hw ex_maps)"
      "tags_sound ex_maps" "map_plan ex_menv_two ex_maps ex_ty (set_nr_hw ex_maps)" "maps_full ex_menv_two ex_maps (set_nr_hw ex_maps)"
      "q_nr_hw ex_fresh = 0" "unused_hctxs ex_fresh = []"
    using plan unfolding nr
    by (simp_all add: hooks_paired_def ex_two_simps set_nr_queues_def tags_of_def tags_sound_def maps_full_def cpus)
      (simp_all add: ex_maps_def ex_tag_set_def hctx_types_def numeral_2_eq_2 ex_fresh_def ex_mq_def set_q_nr_hw_def on_blk_def upd_q_def)
  obtain ret ts' q' k' where r: "blk_mq_init_allocated_queue ex_menv_two False ex_maps ex_fresh [] \<lparr>kmem = 0, kpos = 0\<rparr> = Some (ret, ts', q', [], k')"
      "ret \<noteq> Ret 0 \<longrightarrow> ret = Err ENOMEM \<and> \<not> has_mq_ops q' \<and>
        kmem k' - set_cost ex_menv_two ts' = kmem \<lparr>kmem = 0, kpos = 0\<rparr> - set_cost ex_menv_two ex_maps + 5 * int (length (unused_hctxs q'))"
    using init_queue_memory [OF pre, of False "\<lparr>kmem = 0, kpos = 0\<rparr>"] by blast
  define q1 where "q1 = ex_fresh\<lparr>has_mq_ops := True, poll_cb := Live, mq_kobj := Live, hw_slots := replicate (set_nr_queues ex_menv_two ex_maps) False, unused_hctxs := []\<rparr>"
  have "set_nr_queues ex_menv_two ex_maps = 8"
    by (simp add: set_nr_queues_def ex_maps_def ex_menv_two_def ex_menv_def ex_kernel_def)
  then have "hw_slots q1 = replicate 8 False" "unused_hctxs q1 = []" "q_nr_hw q1 = 0" using pre(8) by (simp_all add: q1_def)
  then obtain ts2 q2 k2 where re: "blk_mq_realloc_hw_ctxs ex_menv_two ex_maps q1 \<lparr>kmem = 4, kpos = 4\<rparr> = Some (ts2, q2, k2)" "q_nr_hw q2 = 0" "length (unused_hctxs q2) = 1"
    using ex_two_realloc by blast
  have four: "(4::nat) = Suc (Suc (Suc (Suc 0)))" by simp
  define q4 where "q4 = fst (err_poll (fst (blk_mq_sysfs_deinit (set_q_nr_hw 0 q2\<lparr>hw_slots := []\<rparr>) (kmem_add (-1) k2))) (snd (blk_mq_sysfs_deinit (set_q_nr_hw 0 q2\<lparr>hw_slots := []\<rparr>) (kmem_add (-1) k2))))"
  have "\<exists>k6. blk_mq_init_allocated_queue ex_menv_two False ex_maps ex_fresh [] \<lparr>kmem = 0, kpos = 0\<rparr> = Some (Err ENOMEM, ts2, q4, [], k6)"
    using re(1) [unfolded four] re(2)
    by (simp add: blk_mq_init_allocated_queue_def Let_def blk_mq_alloc_ctxs_def numeral_2_eq_2 k_new_def ex_two_simps k_next_def kmem_add_def flip: q1_def)
      (simp add: q4_def blk_mq_sysfs_deinit_def err_poll_def)
  then obtain k6 where "blk_mq_init_allocated_queue ex_menv_two False ex_maps ex_fresh [] \<lparr>kmem = 0, kpos = 0\<rparr> = Some (Err ENOMEM, ts2, q4, [], k6)" by blast
  from trans [OF r(1) [symmetric] this] have "ret = Err ENOMEM" "q' = q4" by simp_all
  moreover have "unused_hctxs q4 = unused_hctxs q2" by (simp add: q4_def blk_mq_sysfs_deinit_def err_poll_def set_q_nr_hw_def on_blk_def)
  ultimately have eq: "ret = Err ENOMEM" "length (unused_hctxs q') = 1" using re(3) by simp_all
  have "kmem k' - set_cost ex_menv_two ts' = 5 - set_cost ex_menv_two ex_maps" using r(2) eq by simp
  then show ?thesis using r(1) eq(1) by blast
qed

end
