(* ===== verification/Blk_Mq_Poll.thy ===== *)
theory Blk_Mq_Poll
  imports Blk_Mq_Dispatch Blk_Mq_Run_Correct Blk_Mq_Setup
begin

text \<open>
  Polling for completions, \<open>block/blk-mq.c\<close> from \<open>blk_poll_stats_enable\<close> on: the statistics of completion times, the sleep before a
  hybrid poll, and the loop of \<open>blk_poll\<close>. What the driver, the timer and the scheduler answer is a parameter, by the number of
  the round.
\<close>

section \<open>State\<close>

record poll_stat =
  nr_samples :: nat
  stat_mean :: u64

text \<open>The task state is only compared with \<open>TASK_RUNNING\<close>. \<open>p_cb\<close> tells whether the callback of the statistics is armed.\<close>

record poll_state =
  p_blk :: blk
  p_nsec :: int
  p_stats :: "nat \<Rightarrow> poll_stat"
  p_cb :: bool
  p_running :: bool

record poll_params =
  poll_answer :: "nat \<Rightarrow> int"
  poll_signal :: "nat \<Rightarrow> bool"
  poll_woken :: "nat \<Rightarrow> bool"
  poll_resched :: "nat \<Rightarrow> bool"
  sleep_complete :: "nat \<Rightarrow> bool"
  sleep_fired :: "nat \<Rightarrow> bool"
  sleep_signal :: "nat \<Rightarrow> bool"

definition p_upd :: "(blk \<Rightarrow> blk) \<Rightarrow> poll_state \<Rightarrow> poll_state" where
  "p_upd f p = p\<lparr>p_blk := f (p_blk p)\<rparr>"

section \<open>Statistics\<close>

definition blk_poll_stats_enable :: "poll_state \<Rightarrow> bool \<times> poll_state" where
  "blk_poll_stats_enable p =
     (if QUEUE_FLAG_POLL_STATS \<in> queue_flags (the_q (p_blk p)) then (True, p)
      else (False, p_upd (log_ev (Call ''blk_stat_add_callback'' []) \<circ> upd_q (\<lambda>q. q\<lparr>queue_flags := insert QUEUE_FLAG_POLL_STATS (queue_flags q)\<rparr>)) p))"

definition blk_mq_poll_stats_start :: "poll_state \<Rightarrow> poll_state" where
  "blk_mq_poll_stats_start p =
     (if QUEUE_FLAG_POLL_STATS \<notin> queue_flags (the_q (p_blk p)) \<or> p_cb p then p
      else p_upd (log_ev (Call ''blk_stat_activate_msecs'' [100])) (p\<lparr>p_cb := True\<rparr>))"

definition blk_mq_poll_stats_fn :: "(nat \<Rightarrow> poll_stat) \<Rightarrow> poll_state \<Rightarrow> poll_state" where
  "blk_mq_poll_stats_fn cb p =
     p\<lparr>p_stats := (\<lambda>b. if b < nat BLK_MQ_POLL_STATS_BKTS \<and> nr_samples (cb b) \<noteq> 0 then cb b else p_stats p b)\<rparr>"

definition blk_mq_poll_nsecs :: "kernel \<Rightarrow> request \<Rightarrow> poll_state \<Rightarrow> u64 \<times> poll_state" where
  "blk_mq_poll_nsecs k rq p =
     (case blk_poll_stats_enable p of (on, p1) \<Rightarrow>
        if \<not> on then (0, p1)
        else
          (let bucket = blk_mq_poll_stats_bkt k rq in
           if bucket < 0 then (0, p1)
           else (let st = p_stats p1 (nat bucket) in (if nr_samples st \<noteq> 0 then (stat_mean st + 1) div 2 else 0, p1))))"

section \<open>The hybrid sleep\<close>

text \<open>
  The loop ends when the request is complete, the timer has fired or a signal is pending; no result stands for a loop that goes
  on for ever.
\<close>

partial_function (option) sleep_loop :: "poll_params \<Rightarrow> nat \<Rightarrow> nat option" where
  "sleep_loop e i =
     (if sleep_complete e i then Some i
      else if sleep_fired e i \<or> sleep_signal e i then Some (Suc i)
      else sleep_loop e (Suc i))"

definition blk_mq_poll_hybrid_sleep :: "kernel \<Rightarrow> poll_params \<Rightarrow> nat \<Rightarrow> poll_state \<Rightarrow> (bool \<times> poll_state) option" where
  "blk_mq_poll_hybrid_sleep k e r p =
     (if rq_flags (rqs (p_blk p) r) AND RQF_MQ_POLL_SLEPT \<noteq> 0 then Some (False, p)
      else
        (case (if 0 < p_nsec p then (word_of_int (p_nsec p), p)
               else (case blk_mq_poll_nsecs k (rqs (p_blk p) r) p of (n, p1) \<Rightarrow> (ucast n :: u32, p1))) of
           (nsecs, p1) \<Rightarrow>
             if nsecs = 0 then Some (False, p1)
             else do {
               _ \<leftarrow> sleep_loop e 0;
               Some (True, (p_upd (upd_rq r (\<lambda>q. q\<lparr>rq_flags := rq_flags q OR RQF_MQ_POLL_SLEPT\<rparr>)) p1)\<lparr>p_running := True\<rparr>) }))"

text \<open>The request of a cookie: without a scheduler the tags of the queue are asked; a null pointer there must not be used.\<close>

definition blk_mq_poll_hybrid :: "kernel \<Rightarrow> poll_params \<Rightarrow> nat \<Rightarrow> int \<Rightarrow> bool \<Rightarrow> poll_state \<Rightarrow> (bool \<times> poll_state) option" where
  "blk_mq_poll_hybrid k e h tag internal p =
     (if p_nsec p = BLK_MQ_POLL_CLASSIC then Some (False, p)
      else
        (let hctx = hctx_at (p_blk p) h in
         if \<not> internal then do {
           t \<leftarrow> hctx_tags hctx;
           r \<leftarrow> blk_mq_tag_to_rq (tagsp (p_blk p) t) (nat tag);
           blk_mq_poll_hybrid_sleep k e r p }
         else do {
           t \<leftarrow> sched_tags hctx;
           case blk_mq_tag_to_rq (tagsp (p_blk p) t) (nat tag) of
             None \<Rightarrow> Some (False, p)
           | Some r \<Rightarrow> blk_mq_poll_hybrid_sleep k e r p }))"

section \<open>The loop\<close>

definition inc_invoked :: "nat \<Rightarrow> poll_state \<Rightarrow> poll_state" where
  "inc_invoked h p = p_upd (upd_hctx h (\<lambda>x. x\<lparr>poll_invoked := poll_invoked x + 1\<rparr>)) p"

partial_function (option) poll_loop :: "poll_params \<Rightarrow> nat \<Rightarrow> bool \<Rightarrow> nat \<Rightarrow> poll_state \<Rightarrow> (int \<times> poll_state) option" where
  "poll_loop e h spin i p =
     (let p1 = inc_invoked h p; ret = poll_answer e i in
      if 0 < ret then Some (ret, (p_upd (upd_hctx h (\<lambda>x. x\<lparr>poll_success := poll_success x + 1\<rparr>)) p1)\<lparr>p_running := True\<rparr>)
      else
        (let p2 = (if poll_signal e i \<or> poll_woken e i then p1\<lparr>p_running := True\<rparr> else p1) in
         if p_running p2 then Some (1, p2)
         else if ret < 0 \<or> \<not> spin then Some (0, p2\<lparr>p_running := True\<rparr>)
         else if poll_resched e i then Some (0, p2\<lparr>p_running := True\<rparr>)
         else poll_loop e h spin (Suc i) p2))"

definition blk_poll :: "kernel \<Rightarrow> poll_params \<Rightarrow> (poll_state \<Rightarrow> poll_state) \<Rightarrow> blk_qc \<Rightarrow> bool \<Rightarrow> poll_state \<Rightarrow> (int \<times> poll_state) option" where
  "blk_poll k e flush_plug cookie spin p =
     (case cookie of
        BLK_QC_T_NONE \<Rightarrow> Some (0, p)
      | Qc tag h internal \<Rightarrow>
          if QUEUE_FLAG_POLL \<notin> queue_flags (the_q (p_blk p)) then Some (0, p)
          else
            (let p0 = flush_plug p in
             do {
               (slept, p1) \<leftarrow> blk_mq_poll_hybrid k e h tag internal p0;
               if slept then Some (1, p1)
               else poll_loop e h spin 0 (p_upd (upd_hctx h (\<lambda>x. x\<lparr>poll_considered := poll_considered x + 1\<rparr>)) p1) }))"

definition blk_mq_rq_cpu :: "blk \<Rightarrow> nat \<Rightarrow> nat" where
  "blk_mq_rq_cpu s r = ctx_cpu (ctx_at s (mq_ctx (rqs s r)))"

section \<open>Properties\<close>

text \<open>The round in which polling stops: the driver answers, or there is a reason to give up.\<close>

definition poll_ends :: "poll_params \<Rightarrow> bool \<Rightarrow> nat \<Rightarrow> bool" where
  "poll_ends e spin i \<longleftrightarrow> poll_answer e i \<noteq> 0 \<or> poll_signal e i \<or> poll_woken e i \<or> \<not> spin \<or> poll_resched e i"

definition poll_result :: "poll_params \<Rightarrow> nat \<Rightarrow> int" where
  "poll_result e n = (if 0 < poll_answer e n then poll_answer e n else if poll_signal e n \<or> poll_woken e n then 1 else 0)"

lemma poll_loop_runs:
  assumes "\<not> p_running p" "\<forall>j. i \<le> j \<and> j < i + n \<longrightarrow> \<not> poll_ends e spin j" "poll_ends e spin (i + n)"
  shows "\<exists>p'. poll_loop e h spin i p = Some (poll_result e (i + n), p') \<and> p_running p' \<and>
    poll_invoked (hctx_at (p_blk p') h) = poll_invoked (hctx_at (p_blk p) h) + of_nat (Suc n) \<and>
    poll_success (hctx_at (p_blk p') h) = poll_success (hctx_at (p_blk p) h) + (if 0 < poll_answer e (i + n) then 1 else 0)"
  using assms
proof (induction n arbitrary: i p)
  case 0
  then show ?case
    by (subst poll_loop.simps) (auto simp: poll_ends_def poll_result_def Let_def inc_invoked_def p_upd_def)
next
  case (Suc n)
  define p1 where "p1 = inc_invoked h p"
  have "\<not> poll_ends e spin i" using Suc.prems(2) by simp
  then have step: "poll_loop e h spin i p = poll_loop e h spin (Suc i) p1"
    using Suc.prems(1) by (subst poll_loop.simps) (simp add: poll_ends_def Let_def p1_def inc_invoked_def p_upd_def)
  have "\<not> p_running p1" using Suc.prems(1) by (simp add: p1_def inc_invoked_def p_upd_def)
  moreover have "\<forall>j. Suc i \<le> j \<and> j < Suc i + n \<longrightarrow> \<not> poll_ends e spin j" "poll_ends e spin (Suc i + n)" using Suc.prems(2,3) by simp_all
  ultimately obtain p' where p': "poll_loop e h spin (Suc i) p1 = Some (poll_result e (Suc i + n), p')" "p_running p'"
      "poll_invoked (hctx_at (p_blk p') h) = poll_invoked (hctx_at (p_blk p1) h) + of_nat (Suc n)"
      "poll_success (hctx_at (p_blk p') h) = poll_success (hctx_at (p_blk p1) h) + (if 0 < poll_answer e (Suc i + n) then 1 else 0)"
    using Suc.IH by blast
  then show ?case using step by (auto simp: p1_def inc_invoked_def p_upd_def algebra_simps)
qed

text \<open>
  C32: Polling without a hybrid sleep (\<open>blk_poll\<close>). If the driver is polled by a task that is not running yet and the first round in which there is a
  reason to stop is \<open>n\<close>, then \<open>blk_poll\<close> returns: with what the driver found, or 1 when a signal or a wake-up ended it, or 0 otherwise. The
  task is running again, the driver was asked \<open>n + 1\<close> times, and a success is counted exactly when something was found.
\<close>
theorem blk_poll_returns:
  assumes "QUEUE_FLAG_POLL \<in> queue_flags (the_q (p_blk p))" "p_nsec p = BLK_MQ_POLL_CLASSIC" "\<not> p_running p"
    "\<forall>j < n. \<not> poll_ends e spin j" "poll_ends e spin n"
  shows "\<exists>p'. blk_poll k e id (Qc tag h internal) spin p = Some (poll_result e n, p') \<and> p_running p' \<and>
    poll_invoked (hctx_at (p_blk p') h) = poll_invoked (hctx_at (p_blk p) h) + of_nat (Suc n) \<and>
    poll_success (hctx_at (p_blk p') h) = poll_success (hctx_at (p_blk p) h) + (if 0 < poll_answer e n then 1 else 0)"
proof -
  define p0 where "p0 = p_upd (upd_hctx h (\<lambda>x. x\<lparr>poll_considered := poll_considered x + 1\<rparr>)) p"
  have "\<not> p_running p0" using assms(3) by (simp add: p0_def p_upd_def)
  moreover have "poll_invoked (hctx_at (p_blk p0) h) = poll_invoked (hctx_at (p_blk p) h)" "poll_success (hctx_at (p_blk p0) h) = poll_success (hctx_at (p_blk p) h)"
    by (simp_all add: p0_def p_upd_def)
  moreover have "blk_poll k e id (Qc tag h internal) spin p = poll_loop e h spin 0 p0"
    using assms(1,2) by (simp add: blk_poll_def blk_mq_poll_hybrid_def p0_def)
  ultimately show ?thesis using poll_loop_runs [of p0 0 n e spin h] assms(4,5) by simp
qed

definition ex_poll :: poll_state where
  "ex_poll = \<lparr>p_blk = upd_q (\<lambda>q. q\<lparr>queue_flags := {QUEUE_FLAG_POLL}\<rparr>) ex_blk, p_nsec = -1, p_stats = (\<lambda>_. \<lparr>nr_samples = 0, stat_mean = 0\<rparr>), p_cb = False, p_running = False\<rparr>"

definition ex_poll_params :: poll_params where
  "ex_poll_params = \<lparr>poll_answer = (\<lambda>i. if i = 2 then 3 else 0), poll_signal = (\<lambda>_. False), poll_woken = (\<lambda>_. False), poll_resched = (\<lambda>_. False),
     sleep_complete = (\<lambda>_. False), sleep_fired = (\<lambda>_. True), sleep_signal = (\<lambda>_. False)\<rparr>"

theorem blk_poll_returns_witness: "\<exists>p'. blk_poll ex_kernel ex_poll_params id (Qc 4 1 False) True ex_poll = Some (3, p') \<and> p_running p'"
proof -
  have "QUEUE_FLAG_POLL \<in> queue_flags (the_q (p_blk ex_poll))" "p_nsec ex_poll = BLK_MQ_POLL_CLASSIC" "\<not> p_running ex_poll"
      "\<forall>j < 2. \<not> poll_ends ex_poll_params True j" "poll_ends ex_poll_params True 2"
    by (simp_all add: ex_poll_def upd_q_def BLK_MQ_POLL_CLASSIC_def poll_ends_def ex_poll_params_def)
  from blk_poll_returns [OF this, of ex_kernel 4 1 False] show ?thesis by (auto simp: poll_result_def ex_poll_params_def)
qed

text \<open>A request is slept for at most once, and a timer that fires ends the sleep.\<close>

lemma hybrid_sleeps_once:
  assumes "blk_mq_poll_hybrid_sleep k e r p = Some (True, p')"
  shows "blk_mq_poll_hybrid_sleep k e' r p' = Some (False, p')"
proof -
  have "rq_flags (rqs (p_blk p') r) AND RQF_MQ_POLL_SLEPT = RQF_MQ_POLL_SLEPT"
    using assms by (auto simp: blk_mq_poll_hybrid_sleep_def p_upd_def upd_rq_def bit_eq_iff bit_and_iff bit_or_iff split: if_splits prod.splits bind_splits)
  then show ?thesis by (simp add: blk_mq_poll_hybrid_sleep_def RQF_MQ_POLL_SLEPT_def)
qed

lemma sleep_ends:
  assumes "sleep_fired e (i + n)"
  shows "\<exists>j. sleep_loop e i = Some j"
  using assms by (induction n arbitrary: i) (subst sleep_loop.simps, auto)+

end
