(* ===== verification/Tcp_Wire.thy ===== *)
theory Tcp_Wire
  imports Prelude
begin

text \<open>
  What the host and the target driver share: memory handed to a socket, named by the object it lies in
  with offset and length, and how much of it a call of the socket accepts.
\<close>

section \<open>Pieces of memory\<close>

record 'm seg =
  seg_mem :: 'm
  seg_off :: nat
  seg_len :: nat

definition seg_prefix :: "nat \<Rightarrow> 'm seg \<Rightarrow> 'm seg" where
  "seg_prefix n g = g\<lparr>seg_len := n\<rparr>"

definition segs_len :: "'m seg list \<Rightarrow> nat" where
  "segs_len gs = sum_list (map seg_len gs)"

text \<open>\<open>kernel_sendmsg\<close> with a vector: the first \<open>n\<close> bytes of the pieces go out.\<close>

fun segs_take :: "nat \<Rightarrow> 'm seg list \<Rightarrow> 'm seg list" where
  "segs_take n [] = []"
| "segs_take n (g # gs) =
     (if seg_len g \<le> n then g # segs_take (n - seg_len g) gs
      else if n = 0 then [] else [seg_prefix n g])"

lemma segs_len_append [simp]: "segs_len (xs @ ys) = segs_len xs + segs_len ys"
  by (simp add: segs_len_def)

lemma segs_len_Nil [simp]: "segs_len [] = 0"
  by (simp add: segs_len_def)

lemma segs_take_all: "segs_len gs \<le> n \<Longrightarrow> segs_take n gs = gs"
  by (induction gs arbitrary: n) (auto simp: segs_len_def)

lemma segs_take_len: "segs_len (segs_take n gs) = min n (segs_len gs)"
  by (induction gs arbitrary: n) (auto simp: segs_len_def seg_prefix_def min_def)

section \<open>Answers of a socket\<close>

text \<open>The socket never accepts more than it is given.\<close>

fun rc_cap :: "nat \<Rightarrow> rc \<Rightarrow> rc" where
  "rc_cap n (Ret m) = Ret (min m n)"
| "rc_cap n (Err x) = Err x"

lemma rc_cap_le: "rc_cap n r = Ret m \<Longrightarrow> m \<le> n"
  by (cases r) auto

end
