(* ===== verification/Tcp_Host_Send.thy ===== *)
theory Tcp_Host_Send
  imports Tcp_Wire
begin

text \<open>
  The send side of the NVMe/TCP host driver, \<open>drivers/nvme/host/tcp.c\<close>: queueing of requests with
  the delayed doorbell, the i10 caravans that aggregate PDUs and data of throughput-bound queues, and
  the state machine that sends a request. Memory handed to the socket is named by where it lives (a
  PDU, a page or a digest) with offset and length; \<open>wire\<close> is what the socket has accepted, in order.
  The socket's answers are parameters indexed by the number of calls made so far.
\<close>

section \<open>Data\<close>

definition I10_CARAVAN_CAPACITY :: nat where "I10_CARAVAN_CAPACITY = 65536"
definition I10_AGGREGATION_SIZE :: int where "I10_AGGREGATION_SIZE = 16"
definition I10_MAX_AGGREGATION_SIZE :: nat where "I10_MAX_AGGREGATION_SIZE = 32"
definition I10_MIN_DOORBELL_TIMEOUT :: int where "I10_MIN_DOORBELL_TIMEOUT = 25"

lemmas i10_consts [nvme_defs] = I10_CARAVAN_CAPACITY_def I10_AGGREGATION_SIZE_def
  I10_MAX_AGGREGATION_SIZE_def I10_MIN_DOORBELL_TIMEOUT_def

datatype nvme_tcp_send_state =
  NVME_TCP_SEND_CMD_PDU | NVME_TCP_SEND_H2C_PDU | NVME_TCP_SEND_DATA | NVME_TCP_SEND_DDGST

text \<open>The objects that pieces of memory lie in.\<close>

datatype mem = Pdu nat | Page nat | Ddgst nat

type_synonym hseg = "mem seg"

record bio_vec =
  bv_page :: nat
  bv_offset :: nat
  bv_len :: nat

record tbio =
  tb_vecs :: "bio_vec list"
  tb_done :: nat
  tb_size :: nat
  tb_opf :: u32

text \<open>A bvec iterator: the vectors from the current one on, the offset in it, the bytes left.\<close>

record iov_iter =
  it_vecs :: "bio_vec list"
  iov_offset :: nat
  it_count :: nat

text \<open>The fields of a data PDU header that the driver fills in.\<close>

record h2c_hdr =
  h2c_hdgst :: bool
  h2c_ddgst :: bool
  h2c_last :: bool
  h2c_hlen :: nat
  h2c_pdo :: nat
  h2c_plen :: nat
  h2c_ttag :: u16
  h2c_command_id :: nat
  h2c_data_offset :: nat
  h2c_data_length :: nat

record nvme_tcp_request =
  req_write :: bool
  req_async :: bool
  special :: "(bio_vec \<times> nat) option"
  data_len :: nat
  pdu_len :: nat
  pdu_sent :: nat
  req_ttag :: u16
  req_ddgst :: "hseg list"
  bios :: "tbio list"
  iter :: iov_iter
  req_offset :: nat
  data_sent :: nat
  send_state :: nvme_tcp_send_state
  rx_data :: "u8 list"
  req_h2c :: "h2c_hdr option"

record nvme_tcp_queue =
  queue_id :: nat
  io_cpu :: int
  prio_class :: int
  send_list :: "nat list"
  cur_request :: "nat option"
  cmnd_capsule_len :: nat
  hdr_digest :: bool
  data_digest :: bool
  snd_hash :: "hseg list"
  caravan_iovs :: "hseg list"
  caravan_len :: nat
  nr_iovs :: nat
  send_now :: bool
  nr_caravan_req :: int
  caravan_mapped :: "nat list"
  nr_mapped :: nat
  nr_req :: int
  timer_active :: bool
  timer_set :: int
  io_work :: bool
  io_work_lat :: bool
  sock_nospace :: bool

text \<open>
  The receive state of a queue: the bytes of the PDU header received so far and how many are
  missing, the bytes of data still expected (\<^const>\<open>None\<close> for the value -1 between PDUs), the running
  hash and the two digests.
\<close>

record recv_ctx =
  rx_pdu :: "u8 list"
  pdu_remaining :: nat
  data_remaining :: "nat option"
  ddgst_remaining :: nat
  nr_cqe :: nat
  rd_enabled :: bool
  rcv_hash :: "u8 list"
  exp_ddgst :: "u8 list"
  recv_ddgst :: "u8 list"

record host =
  hq :: nvme_tcp_queue
  rx :: recv_ctx
  reqs :: "nat \<Rightarrow> nvme_tcp_request"
  wire :: "hseg list"
  sock_pos :: nat
  completed :: "(nat \<times> u16) list"
  async_events :: "nat list"
  err_work :: nat
  kthread_nice :: int

text \<open>
  Parameters: sizes of \<open>nvme-tcp.h\<close>, flag bits of the block layer, module parameters and the
  socket.
\<close>

record henv =
  sizeof_command :: nat
  sizeof_cmd_pdu :: nat
  sizeof_data_pdu :: nat
  DIGEST_LENGTH :: nat
  i10_allowed_flags :: u32
  i10_delayed_doorbell_us :: int
  i10_thru_nice :: int
  online_cpus :: nat
  sendpage :: "nat \<Rightarrow> nat \<Rightarrow> rc"
  sendmsg :: "nat \<Rightarrow> nat \<Rightarrow> rc"
  wspace :: "nat \<Rightarrow> int"

definition upd_hq :: "(nvme_tcp_queue \<Rightarrow> nvme_tcp_queue) \<Rightarrow> host \<Rightarrow> host" where
  "upd_hq f s = s\<lparr>hq := f (hq s)\<rparr>"

definition upd_req :: "nat \<Rightarrow> (nvme_tcp_request \<Rightarrow> nvme_tcp_request) \<Rightarrow> host \<Rightarrow> host" where
  "upd_req r f s = s\<lparr>reqs := (reqs s)(r := f (reqs s r))\<rparr>"

section \<open>Accessors\<close>

definition nvme_tcp_hdgst_len :: "henv \<Rightarrow> nvme_tcp_queue \<Rightarrow> nat" where
  "nvme_tcp_hdgst_len e q = (if hdr_digest q then DIGEST_LENGTH e else 0)"

definition nvme_tcp_ddgst_len :: "henv \<Rightarrow> nvme_tcp_queue \<Rightarrow> nat" where
  "nvme_tcp_ddgst_len e q = (if data_digest q then DIGEST_LENGTH e else 0)"

text \<open>A difference of two numbers of 64 bits: it wraps when the capsule is shorter than a command.\<close>

definition nvme_tcp_inline_data_size :: "henv \<Rightarrow> nvme_tcp_queue \<Rightarrow> nat" where
  "nvme_tcp_inline_data_size e q =
     (if sizeof_command e \<le> cmnd_capsule_len q then cmnd_capsule_len q - sizeof_command e
      else 2 ^ 64 + cmnd_capsule_len q - sizeof_command e)"

definition nvme_tcp_has_inline_data :: "henv \<Rightarrow> nvme_tcp_queue \<Rightarrow> nvme_tcp_request \<Rightarrow> bool" where
  "nvme_tcp_has_inline_data e q req \<longleftrightarrow>
     \<not> req_async req \<and> req_write req \<and> data_len req \<noteq> 0 \<and> data_len req \<le> nvme_tcp_inline_data_size e q"

text \<open>The current page, offset and length; undefined when the iterator has run out of vectors.\<close>

definition nvme_tcp_req_cur :: "nvme_tcp_request \<Rightarrow> hseg option" where
  "nvme_tcp_req_cur req =
     (case it_vecs (iter req) of
        [] \<Rightarrow> None
      | v # _ \<Rightarrow> Some \<lparr>seg_mem = Page (bv_page v), seg_off = bv_offset v + iov_offset (iter req),
                       seg_len = min (bv_len v - iov_offset (iter req)) (pdu_len req - pdu_sent req)\<rparr>)"

definition nvme_tcp_pdu_data_left :: "nvme_tcp_request \<Rightarrow> nat" where
  "nvme_tcp_pdu_data_left req = (if req_write req then pdu_len req - pdu_sent req else 0)"

definition nvme_tcp_pdu_last_send :: "nvme_tcp_request \<Rightarrow> nat \<Rightarrow> bool" where
  "nvme_tcp_pdu_last_send req len \<longleftrightarrow> nvme_tcp_pdu_data_left req \<le> len"

text \<open>\<open>iov_iter_advance\<close> on vectors: step over the ones that are used up.\<close>

fun skip_vecs :: "bio_vec list \<Rightarrow> nat \<Rightarrow> bio_vec list \<times> nat" where
  "skip_vecs [] off = ([], off)"
| "skip_vecs (v # vs) off = (if off < bv_len v then (v # vs, off) else skip_vecs vs (off - bv_len v))"

definition iov_iter_advance :: "nat \<Rightarrow> iov_iter \<Rightarrow> iov_iter" where
  "iov_iter_advance n i =
     (let (vs, off) = skip_vecs (it_vecs i) (iov_offset i + n) in
      i\<lparr>it_vecs := vs, iov_offset := off, it_count := it_count i - n\<rparr>)"

definition nvme_tcp_init_iter :: "nvme_tcp_request \<Rightarrow> nvme_tcp_request option" where
  "nvme_tcp_init_iter req =
     (case special req of
        Some (v, bytes) \<Rightarrow> Some (req\<lparr>iter := \<lparr>it_vecs = [v], iov_offset = 0, it_count = bytes\<rparr>\<rparr>)
      | None \<Rightarrow>
          (case bios req of
             [] \<Rightarrow> None
           | b # _ \<Rightarrow> Some (req\<lparr>iter := \<lparr>it_vecs = tb_vecs b, iov_offset = tb_done b, it_count = tb_size b\<rparr>\<rparr>)))"

definition nvme_tcp_advance_req :: "nat \<Rightarrow> nvme_tcp_request \<Rightarrow> nvme_tcp_request option" where
  "nvme_tcp_advance_req len req =
     (let req1 = req\<lparr>data_sent := data_sent req + len, pdu_sent := pdu_sent req + len,
                     iter := iov_iter_advance len (iter req)\<rparr> in
      if it_count (iter req1) = 0 \<and> data_sent req1 < data_len req1
      then (case bios req1 of [] \<Rightarrow> None | _ # bs \<Rightarrow> nvme_tcp_init_iter (req1\<lparr>bios := bs\<rparr>))
      else Some req1)"

section \<open>Queueing a request\<close>

definition i10_host_is_latency :: "nvme_tcp_queue \<Rightarrow> bool" where
  "i10_host_is_latency q \<longleftrightarrow> prio_class q = 1"

definition i10_host_legacy_path :: "henv \<Rightarrow> nvme_tcp_queue \<Rightarrow> bool" where
  "i10_host_legacy_path e q \<longleftrightarrow>
     queue_id q = 0 \<or> i10_host_is_latency q \<or> i10_delayed_doorbell_us e < I10_MIN_DOORBELL_TIMEOUT"

definition i10_host_is_nodelay_path :: "henv \<Rightarrow> nvme_tcp_request \<Rightarrow> bool" where
  "i10_host_is_nodelay_path e req \<longleftrightarrow>
     (case bios req of [] \<Rightarrow> True | b # _ \<Rightarrow> tb_opf b AND NOT (i10_allowed_flags e) \<noteq> 0)"

abbreviation delayed :: "henv \<Rightarrow> nvme_tcp_queue \<Rightarrow> nvme_tcp_request \<Rightarrow> bool" where
  "delayed e q req \<equiv> \<not> i10_host_legacy_path e q \<and> \<not> i10_host_is_nodelay_path e req"

definition queue_io_work :: "nvme_tcp_queue \<Rightarrow> nvme_tcp_queue" where
  "queue_io_work q = (if i10_host_is_latency q then q\<lparr>io_work_lat := True\<rparr> else q\<lparr>io_work := True\<rparr>)"

text \<open>Ringing the doorbell: the timer is cancelled and the sender is scheduled.\<close>

definition ring_doorbell :: "nvme_tcp_queue \<Rightarrow> nvme_tcp_queue" where
  "ring_doorbell q = queue_io_work (q\<lparr>timer_active := False, timer_set := 0\<rparr>)"

definition nvme_tcp_queue_request :: "henv \<Rightarrow> nat \<Rightarrow> host \<Rightarrow> host" where
  "nvme_tcp_queue_request e r s =
     (let q0 = (hq s)\<lparr>prio_class := (if queue_id (hq s) \<le> online_cpus e then 0 else 1)\<rparr>;
          q1 = q0\<lparr>send_list := send_list q0 @ [r]\<rparr> in
      if delayed e q1 (reqs s r) then
        (let q2 = q1\<lparr>nr_req := nr_req q1 + 1\<rparr>;
             q3 = (if nr_req q2 = 1 \<and> \<not> timer_active q2
                   then q2\<lparr>timer_active := True, timer_set := timer_set q2 + 1\<rparr> else q2)
         in s\<lparr>hq := (if I10_AGGREGATION_SIZE \<le> nr_req q3 then ring_doorbell q3 else q3)\<rparr>)
      else s\<lparr>hq := ring_doorbell q1\<rparr>)"

definition nvme_tcp_fetch_request :: "henv \<Rightarrow> host \<Rightarrow> nat option \<times> host" where
  "nvme_tcp_fetch_request e s =
     (case send_list (hq s) of
        [] \<Rightarrow> (None, s)
      | r # l \<Rightarrow>
          (Some r, upd_hq (\<lambda>q. q\<lparr>send_list := l,
             nr_caravan_req := nr_caravan_req q + (if delayed e q (reqs s r) then 1 else 0)\<rparr>) s))"

definition i10_host_doorbell_timeout :: "host \<Rightarrow> host" where
  "i10_host_doorbell_timeout s = upd_hq (\<lambda>q. queue_io_work (q\<lparr>timer_active := False, timer_set := 0\<rparr>)) s"

section \<open>The socket\<close>

definition do_sendpage :: "henv \<Rightarrow> hseg \<Rightarrow> host \<Rightarrow> rc \<times> host" where
  "do_sendpage e g s =
     (let r = rc_cap (seg_len g) (sendpage e (sock_pos s) (seg_len g));
          s1 = s\<lparr>sock_pos := Suc (sock_pos s)\<rparr> in
      (r, case r of Ret n \<Rightarrow> (if n = 0 then s1 else s1\<lparr>wire := wire s1 @ [seg_prefix n g]\<rparr>) | Err _ \<Rightarrow> s1))"

definition do_sendmsg :: "henv \<Rightarrow> hseg list \<Rightarrow> nat \<Rightarrow> host \<Rightarrow> rc \<times> host" where
  "do_sendmsg e gs len s =
     (let r = rc_cap len (sendmsg e (sock_pos s) len);
          s1 = s\<lparr>sock_pos := Suc (sock_pos s)\<rparr> in
      (r, case r of Ret n \<Rightarrow> (if n = 0 then s1 else s1\<lparr>wire := wire s1 @ segs_take n gs\<rparr>) | Err _ \<Rightarrow> s1))"

section \<open>Caravans\<close>

definition i10_host_is_caravan_full :: "nvme_tcp_queue \<Rightarrow> bool" where
  "i10_host_is_caravan_full q \<longleftrightarrow>
     I10_CARAVAN_CAPACITY \<le> caravan_len q \<or> I10_MAX_AGGREGATION_SIZE * 2 \<le> nr_iovs q \<or>
     I10_MAX_AGGREGATION_SIZE \<le> nr_mapped q"

definition caravan_add :: "hseg \<Rightarrow> nvme_tcp_queue \<Rightarrow> nvme_tcp_queue option" where
  "caravan_add g q = do {
     iovs \<leftarrow> arr_set (caravan_iovs q) (int (nr_iovs q)) g;
     Some (q\<lparr>caravan_iovs := iovs, nr_iovs := nr_iovs q + 1, caravan_len := caravan_len q + seg_len g\<rparr>) }"

definition caravan_map :: "nat \<Rightarrow> nvme_tcp_queue \<Rightarrow> nvme_tcp_queue option" where
  "caravan_map page q = do {
     m \<leftarrow> arr_set (caravan_mapped q) (int (nr_mapped q)) page;
     Some (q\<lparr>caravan_mapped := m, nr_mapped := nr_mapped q + 1\<rparr>) }"

definition caravan_segs :: "nvme_tcp_queue \<Rightarrow> hseg list" where
  "caravan_segs q = take (nr_iovs q) (caravan_iovs q)"

definition nvme_tcp_done_send_req :: "host \<Rightarrow> host" where
  "nvme_tcp_done_send_req s = upd_hq (\<lambda>q. q\<lparr>cur_request := None\<rparr>) s"

section \<open>Sending a request\<close>

text \<open>The piece of data to send next: directly on the legacy path, else into the caravan.\<close>

definition send_piece :: "henv \<Rightarrow> hseg \<Rightarrow> nat option \<Rightarrow> host \<Rightarrow> ((bool \<times> rc) \<times> host) option" where
  "send_piece e g page s =
     (if i10_host_legacy_path e (hq s) then (let (r, s1) = do_sendpage e g s in Some ((False, r), s1))
      else if i10_host_is_caravan_full (hq s) then Some ((True, Ret 1), upd_hq (\<lambda>q. q\<lparr>send_now := True\<rparr>) s)
      else do {
        q1 \<leftarrow> caravan_add g (hq s);
        q2 \<leftarrow> (case page of None \<Rightarrow> Some q1 | Some p \<Rightarrow> caravan_map p q1);
        Some ((False, Ret (seg_len g)), s\<lparr>hq := q2\<rparr>) })"

fun seg_page :: "hseg \<Rightarrow> nat option" where
  "seg_page g = (case seg_mem g of Page p \<Rightarrow> Some p | _ \<Rightarrow> None)"

lemma cur_len_le: "nvme_tcp_req_cur req = Some g \<Longrightarrow> seg_len g \<le> pdu_len req - pdu_sent req"
  by (auto simp: nvme_tcp_req_cur_def split: list.splits)

lemma init_iter_pdu:
  "nvme_tcp_init_iter req = Some req' \<Longrightarrow> pdu_len req' = pdu_len req \<and> pdu_sent req' = pdu_sent req"
  by (auto simp: nvme_tcp_init_iter_def split: option.splits list.splits)

lemma advance_req_pdu:
  "nvme_tcp_advance_req n req = Some req' \<Longrightarrow> pdu_len req' = pdu_len req \<and> pdu_sent req' = pdu_sent req + n"
  by (auto simp: nvme_tcp_advance_req_def Let_def dest: init_iter_pdu split: if_splits list.splits)

lemma do_sendpage_reqs [simp]: "do_sendpage e g s = (r, s1) \<Longrightarrow> reqs s1 = reqs s"
  by (auto simp: do_sendpage_def Let_def split: rc.splits)

lemma do_sendpage_le: "do_sendpage e g s = (Ret n, s1) \<Longrightarrow> n \<le> seg_len g"
  by (auto simp: do_sendpage_def Let_def intro: rc_cap_le)

lemma send_piece_reqs: "send_piece e g p s = Some (x, s1) \<Longrightarrow> reqs s1 = reqs s"
  by (auto simp: send_piece_def upd_hq_def Let_def split: if_splits prod.splits bind_splits)

lemma send_piece_le: "send_piece e g p s = Some ((False, Ret n), s1) \<Longrightarrow> n \<le> seg_len g"
  by (auto simp: send_piece_def Let_def dest: do_sendpage_le split: if_splits prod.splits bind_splits)

text \<open>
  The loop of \<open>nvme_tcp_try_send_data\<close>. Each round sends at least one byte of the PDU, which bounds
  the number of rounds.
\<close>

function (sequential) nvme_tcp_try_send_data :: "henv \<Rightarrow> nat \<Rightarrow> host \<Rightarrow> (rc \<times> host) option" where
  "nvme_tcp_try_send_data e r s =
     (case nvme_tcp_req_cur (reqs s r) of
        None \<Rightarrow> None
      | Some g \<Rightarrow>
          (case send_piece e g (seg_page g) s of
             None \<Rightarrow> None
           | Some ((True, ret), s1) \<Rightarrow> Some (ret, s1)
           | Some ((False, Err x), s1) \<Rightarrow> Some (Err x, s1)
           | Some ((False, Ret 0), s1) \<Rightarrow> Some (Ret 0, s1)
           | Some ((False, Ret (Suc n)), s1) \<Rightarrow>
               (case nvme_tcp_advance_req (Suc n) (reqs s1 r) of
                  None \<Rightarrow> None
                | Some req \<Rightarrow>
                    (let s2 = upd_req r (\<lambda>_. req) s1;
                         s3 = (if data_digest (hq s2)
                               then upd_hq (\<lambda>q. q\<lparr>snd_hash := snd_hash q @ [seg_prefix (Suc n) g]\<rparr>) s2 else s2) in
                     if nvme_tcp_pdu_last_send (reqs s r) (seg_len g) \<and> Suc n = seg_len g then
                       (if data_digest (hq s3)
                        then Some (Ret 1, upd_req r (\<lambda>q. q\<lparr>req_ddgst := snd_hash (hq s3),
                                    send_state := NVME_TCP_SEND_DDGST, req_offset := 0\<rparr>) s3)
                        else Some (Ret 1, nvme_tcp_done_send_req s3))
                     else nvme_tcp_try_send_data e r s3))))"
  by pat_completeness auto
termination
proof (relation "measure (\<lambda>(e, r, s). pdu_len (reqs s r) - pdu_sent (reqs s r))", goal_cases)
  case 1
  then show ?case by simp
next
  case (2 e r s g x ab s1 b ret nn n req s2 s3)
  have l: "Suc n \<le> seg_len g" "seg_len g \<le> pdu_len (reqs s r) - pdu_sent (reqs s r)"
    using 2 by (auto intro: send_piece_le cur_len_le)
  have "reqs s1 = reqs s" using 2 by (auto dest: send_piece_reqs)
  then have "reqs s3 r = req" "pdu_len req = pdu_len (reqs s r)" "pdu_sent req = pdu_sent (reqs s r) + Suc n"
    using 2 advance_req_pdu by (auto simp: upd_hq_def upd_req_def)
  then show ?case using l by simp
qed

declare nvme_tcp_try_send_data.simps [simp del]

text \<open>The PDU sizes as \<open>int len\<close>: what is left of the header and its digest.\<close>

definition nvme_tcp_try_send_cmd_pdu :: "henv \<Rightarrow> nat \<Rightarrow> host \<Rightarrow> (rc \<times> host) option" where
  "nvme_tcp_try_send_cmd_pdu e r s =
     (let req = reqs s r;
          inline_data = nvme_tcp_has_inline_data e (hq s) req;
          len = sizeof_cmd_pdu e + nvme_tcp_hdgst_len e (hq s) - req_offset req;
          g = \<lparr>seg_mem = Pdu r, seg_off = req_offset req, seg_len = len\<rparr> in
      case send_piece e g None s of
        None \<Rightarrow> None
      | Some ((True, ret), s1) \<Rightarrow> Some (ret, s1)
      | Some ((False, Err x), s1) \<Rightarrow> Some (Err x, s1)
      | Some ((False, Ret n), s0) \<Rightarrow>
          (let s1 = (if \<not> i10_host_legacy_path e (hq s) \<and> i10_host_is_nodelay_path e req
                     then upd_hq (\<lambda>q. q\<lparr>send_now := True\<rparr>) s0 else s0) in
           if n = 0 then Some (Ret 0, s1)
           else if len - n = 0 then
             (if inline_data then do {
                req' \<leftarrow> nvme_tcp_init_iter ((reqs s1 r)\<lparr>send_state := NVME_TCP_SEND_DATA\<rparr>);
                let s2 = (if data_digest (hq s1) then upd_hq (\<lambda>q. q\<lparr>snd_hash := []\<rparr>) s1 else s1);
                Some (Ret 1, upd_req r (\<lambda>_. req') s2) }
              else Some (Ret 1, nvme_tcp_done_send_req s1))
           else Some (Err EAGAIN, upd_req r (\<lambda>q. q\<lparr>req_offset := req_offset q + n\<rparr>) s1)))"

definition nvme_tcp_try_send_data_pdu :: "henv \<Rightarrow> nat \<Rightarrow> host \<Rightarrow> (rc \<times> host) option" where
  "nvme_tcp_try_send_data_pdu e r s =
     (let req = reqs s r;
          len = sizeof_data_pdu e - req_offset req + nvme_tcp_hdgst_len e (hq s);
          g = \<lparr>seg_mem = Pdu r, seg_off = req_offset req, seg_len = len\<rparr> in
      case send_piece e g None s of
        None \<Rightarrow> None
      | Some ((True, ret), s1) \<Rightarrow> Some (ret, s1)
      | Some ((False, Err x), s1) \<Rightarrow> Some (Err x, s1)
      | Some ((False, Ret n), s1) \<Rightarrow>
          (if n = 0 then Some (Ret 0, s1)
           else if len - n = 0 then do {
             let req1 = (reqs s1 r)\<lparr>send_state := NVME_TCP_SEND_DATA\<rparr>;
             req' \<leftarrow> (if data_sent req1 = 0 then nvme_tcp_init_iter req1 else Some req1);
             let s2 = (if data_digest (hq s1) then upd_hq (\<lambda>q. q\<lparr>snd_hash := []\<rparr>) s1 else s1);
             Some (Ret 1, upd_req r (\<lambda>_. req') s2) }
           else Some (Err EAGAIN, upd_req r (\<lambda>q. q\<lparr>req_offset := req_offset q + n\<rparr>) s1)))"

text \<open>
  The digest is sent directly on every path. The address \<open>&req->ddgst + req->offset\<close> counts in
  words of four bytes.
\<close>

definition nvme_tcp_try_send_ddgst :: "henv \<Rightarrow> nat \<Rightarrow> host \<Rightarrow> rc \<times> host" where
  "nvme_tcp_try_send_ddgst e r s =
     (let off = req_offset (reqs s r); len = DIGEST_LENGTH e - off;
          (ret, s1) = do_sendmsg e [\<lparr>seg_mem = Ddgst r, seg_off = 4 * off, seg_len = len\<rparr>] len s in
      case ret of
        Err x \<Rightarrow> (Err x, s1)
      | Ret n \<Rightarrow>
          (if n = 0 then (Ret 0, s1)
           else if off + n = DIGEST_LENGTH e then (Ret 1, nvme_tcp_done_send_req s1)
           else (Err EAGAIN, upd_req r (\<lambda>q. q\<lparr>req_offset := req_offset q + n\<rparr>) s1)))"

section \<open>One round of sending\<close>

text \<open>The next request, or the decision to send a caravan whose doorbell has rung.\<close>

definition try_send_pick :: "henv \<Rightarrow> host \<Rightarrow> host" where
  "try_send_pick e s =
     (case send_list (hq s) of
        r # l \<Rightarrow> upd_hq (\<lambda>q. q\<lparr>send_list := l,
                   nr_caravan_req := nr_caravan_req q + (if delayed e q (reqs s r) then 1 else 0),
                   cur_request := Some r\<rparr>) s
      | [] \<Rightarrow>
          (if (timer_set (hq s) = 0 \<or> \<not> timer_active (hq s)) \<and> caravan_len (hq s) \<noteq> 0
           then upd_hq (\<lambda>q. q\<lparr>nr_req := nr_req q - nr_caravan_req q, nr_caravan_req := 0,
                              timer_set := 0, send_now := True\<rparr>) s
           else s))"

text \<open>
  Sending the caravan: nothing when the socket has no room, the error when it fails; otherwise the
  caravan counts as sent.
\<close>

definition try_send_caravan :: "henv \<Rightarrow> host \<Rightarrow> rc option \<times> host" where
  "try_send_caravan e s =
     (if wspace e (sock_pos s) < int (caravan_len (hq s))
      then (Some (Ret 0), upd_hq (\<lambda>q. q\<lparr>sock_nospace := True\<rparr>) (s\<lparr>sock_pos := Suc (sock_pos s)\<rparr>))
      else
        (let (ret, s1) = do_sendmsg e (caravan_segs (hq s)) (caravan_len (hq s)) (s\<lparr>sock_pos := Suc (sock_pos s)\<rparr>) in
         if \<not> rc_pos ret then (Some ret, s1)
         else (None, upd_hq (\<lambda>q. q\<lparr>nr_iovs := 0, nr_mapped := 0, caravan_len := 0, send_now := False\<rparr>) s1)))"

fun eagain_zero :: "rc \<Rightarrow> rc" where
  "eagain_zero (Err EAGAIN) = Ret 0"
| "eagain_zero r = r"

text \<open>The states of the current request that one call goes through.\<close>

definition send_from_ddgst :: "henv \<Rightarrow> nat \<Rightarrow> rc \<Rightarrow> host \<Rightarrow> rc \<times> host" where
  "send_from_ddgst e r ret s =
     (if send_state (reqs s r) = NVME_TCP_SEND_DDGST then nvme_tcp_try_send_ddgst e r s else (ret, s))"

definition send_from_data :: "henv \<Rightarrow> nat \<Rightarrow> rc \<Rightarrow> host \<Rightarrow> (rc \<times> host) option" where
  "send_from_data e r ret s =
     (if send_state (reqs s r) = NVME_TCP_SEND_DATA then do {
        (ret1, s1) \<leftarrow> nvme_tcp_try_send_data e r s;
        Some (if rc_pos ret1 then send_from_ddgst e r ret1 s1 else (ret1, s1)) }
      else Some (send_from_ddgst e r ret s))"

definition send_from_h2c :: "henv \<Rightarrow> nat \<Rightarrow> rc \<Rightarrow> host \<Rightarrow> (rc \<times> host) option" where
  "send_from_h2c e r ret s =
     (if send_state (reqs s r) = NVME_TCP_SEND_H2C_PDU then do {
        (ret1, s1) \<leftarrow> nvme_tcp_try_send_data_pdu e r s;
        if rc_pos ret1 then send_from_data e r ret1 s1 else Some (ret1, s1) }
      else send_from_data e r ret s)"

definition send_request :: "henv \<Rightarrow> nat \<Rightarrow> host \<Rightarrow> (rc \<times> host) option" where
  "send_request e r s =
     (if send_state (reqs s r) = NVME_TCP_SEND_CMD_PDU then do {
        (ret, s1) \<leftarrow> nvme_tcp_try_send_cmd_pdu e r s;
        if \<not> rc_pos ret then Some (eagain_zero ret, s1)
        else if \<not> nvme_tcp_has_inline_data e (hq s1) (reqs s1 r) then Some (ret, s1)
        else do { (ret2, s2) \<leftarrow> send_from_h2c e r ret s1; Some (eagain_zero ret2, s2) } }
      else do { (ret2, s2) \<leftarrow> send_from_h2c e r (Ret 1) s; Some (eagain_zero ret2, s2) })"

definition nvme_tcp_try_send :: "henv \<Rightarrow> host \<Rightarrow> (rc \<times> host) option" where
  "nvme_tcp_try_send e s =
     (let s1 = (if cur_request (hq s) = None then try_send_pick e s else s) in
      if cur_request (hq s1) = None \<and> caravan_len (hq s1) = 0 then Some (Ret 0, s1)
      else
        (let (stop, s2) = (if send_now (hq s1) then try_send_caravan e s1 else (None, s1)) in
         case stop of
           Some ret \<Rightarrow> Some (ret, s2)
         | None \<Rightarrow> (case cur_request (hq s2) of None \<Rightarrow> Some (Ret 0, s2) | Some r \<Rightarrow> send_request e r s2)))"

end
