(* ===== verification/Tcp_Host_Recv.thy ===== *)
theory Tcp_Host_Recv
  imports Tcp_Host_Send
begin

text \<open>
  The receive side of the NVMe/TCP host driver: the state machine that takes PDU headers, data and
  data digests out of the byte stream, the handlers of completions, data and R2T PDUs, the socket
  callbacks and the work functions. Received bytes are lists of bytes. The layout of the PDUs, the
  digest, the tag table and the state of the controller are parameters.
\<close>

section \<open>Parameters\<close>

datatype pdu_type = Nvme_tcp_c2h_data | Nvme_tcp_rsp | Nvme_tcp_r2t | Other_pdu nat

record penv =
  sizeof_rsp_pdu :: nat
  hdr_type :: "u8 list \<Rightarrow> pdu_type"
  hdr_hlen :: "u8 list \<Rightarrow> nat"
  hdr_plen :: "u8 list \<Rightarrow> u32"
  F_HDGST :: "u8 list \<Rightarrow> bool"
  F_DDGST :: "u8 list \<Rightarrow> bool"
  F_DATA_SUCCESS :: "u8 list \<Rightarrow> bool"
  F_DATA_LAST :: "u8 list \<Rightarrow> bool"
  digest :: "u8 list \<Rightarrow> u8 list"
  behind_pdu :: "u8 list \<Rightarrow> u8 list"
  cqe_command_id :: "u8 list \<Rightarrow> nat"
  cqe_status :: "u8 list \<Rightarrow> u16"
  data_command_id :: "u8 list \<Rightarrow> nat"
  data_length :: "u8 list \<Rightarrow> nat"
  r2t_command_id :: "u8 list \<Rightarrow> nat"
  r2t_length :: "u8 list \<Rightarrow> nat"
  r2t_offset :: "u8 list \<Rightarrow> nat"
  r2t_ttag :: "u8 list \<Rightarrow> u16"
  tag_to_rq :: "nat \<Rightarrow> nat option"
  rq_tag_of :: "nat \<Rightarrow> nat"
  payload_bytes :: "nat \<Rightarrow> nat"
  AQ_BLK_MQ_DEPTH :: nat
  SC_SUCCESS :: u16
  SC_HOST_PATH_ERROR :: u16
  to_resetting :: "nat \<Rightarrow> bool"
  copy_fault :: "nat \<Rightarrow> errno option"

definition upd_rx :: "(recv_ctx \<Rightarrow> recv_ctx) \<Rightarrow> host \<Rightarrow> host" where
  "upd_rx f s = s\<lparr>rx := f (rx s)\<rparr>"

section \<open>State\<close>

datatype nvme_tcp_recv_state = NVME_TCP_RECV_PDU | NVME_TCP_RECV_DATA | NVME_TCP_RECV_DDGST

definition nvme_tcp_recv_state :: "recv_ctx \<Rightarrow> nvme_tcp_recv_state" where
  "nvme_tcp_recv_state x =
     (if pdu_remaining x \<noteq> 0 then NVME_TCP_RECV_PDU
      else if ddgst_remaining x \<noteq> 0 then NVME_TCP_RECV_DDGST else NVME_TCP_RECV_DATA)"

definition nvme_tcp_init_recv_ctx :: "henv \<Rightarrow> penv \<Rightarrow> host \<Rightarrow> host" where
  "nvme_tcp_init_recv_ctx e p s =
     upd_rx (\<lambda>x. x\<lparr>pdu_remaining := sizeof_rsp_pdu p + nvme_tcp_hdgst_len e (hq s),
                   rx_pdu := [], data_remaining := None, ddgst_remaining := 0\<rparr>) s"

definition nvme_tcp_error_recovery :: "penv \<Rightarrow> host \<Rightarrow> host" where
  "nvme_tcp_error_recovery p s = (if to_resetting p (err_work s) then s\<lparr>err_work := Suc (err_work s)\<rparr> else s)"

definition end_rq :: "nat \<Rightarrow> u16 \<Rightarrow> host \<Rightarrow> host" where
  "end_rq r status s = s\<lparr>completed := completed s @ [(r, status)]\<rparr>"

definition count_cqe :: "host \<Rightarrow> host" where
  "count_cqe s = upd_rx (\<lambda>x. x\<lparr>nr_cqe := nr_cqe x + 1\<rparr>) s"

definition nvme_tcp_end_request :: "nat \<Rightarrow> u16 \<Rightarrow> host \<Rightarrow> host" where
  "nvme_tcp_end_request r status s = end_rq r (push_bit 1 status) s"

section \<open>Handlers of PDUs\<close>

definition nvme_tcp_process_nvme_cqe :: "penv \<Rightarrow> u8 list \<Rightarrow> host \<Rightarrow> errno option \<times> host" where
  "nvme_tcp_process_nvme_cqe p pdu s =
     (case tag_to_rq p (cqe_command_id p pdu) of
        None \<Rightarrow> (Some EINVAL, nvme_tcp_error_recovery p s)
      | Some r \<Rightarrow> (None, count_cqe (end_rq r (cqe_status p pdu) s)))"

definition nvme_tcp_handle_c2h_data :: "penv \<Rightarrow> u8 list \<Rightarrow> host \<Rightarrow> errno option \<times> host" where
  "nvme_tcp_handle_c2h_data p pdu s =
     (case tag_to_rq p (data_command_id p pdu) of
        None \<Rightarrow> (Some ENOENT, s)
      | Some r \<Rightarrow>
          (if payload_bytes p r = 0 then (Some EIO, s)
           else
             (let s1 = upd_rx (\<lambda>x. x\<lparr>data_remaining := Some (data_length p pdu)\<rparr>) s in
              if F_DATA_SUCCESS p pdu \<and> \<not> F_DATA_LAST p pdu
              then (Some EPROTO, nvme_tcp_error_recovery p s1) else (None, s1))))"

definition nvme_tcp_handle_comp :: "penv \<Rightarrow> u8 list \<Rightarrow> host \<Rightarrow> errno option \<times> host" where
  "nvme_tcp_handle_comp p pdu s =
     (if queue_id (hq s) = 0 \<and> AQ_BLK_MQ_DEPTH p \<le> cqe_command_id p pdu
      then (None, s\<lparr>async_events := async_events s @ [cqe_command_id p pdu]\<rparr>)
      else nvme_tcp_process_nvme_cqe p pdu s)"

definition nvme_tcp_setup_h2c_data_pdu ::
  "henv \<Rightarrow> penv \<Rightarrow> nat \<Rightarrow> u8 list \<Rightarrow> host \<Rightarrow> errno option \<times> host" where
  "nvme_tcp_setup_h2c_data_pdu e p r pdu s =
     (let hdgst = nvme_tcp_hdgst_len e (hq s); ddgst = nvme_tcp_ddgst_len e (hq s);
          s1 = upd_req r (\<lambda>q. q\<lparr>pdu_len := r2t_length p pdu, pdu_sent := 0\<rparr>) s;
          req = reqs s1 r in
      if data_len req < data_sent req + pdu_len req then (Some EPROTO, s1)
      else if r2t_offset p pdu < data_sent req then (Some EPROTO, s1)
      else
        (None, upd_req r (\<lambda>q. q\<lparr>req_h2c := Some
           \<lparr>h2c_hdgst = hdr_digest (hq s1), h2c_ddgst = data_digest (hq s1), h2c_last = True,
            h2c_hlen = sizeof_data_pdu e, h2c_pdo = sizeof_data_pdu e + hdgst,
            h2c_plen = sizeof_data_pdu e + hdgst + pdu_len req + ddgst,
            h2c_ttag = r2t_ttag p pdu, h2c_command_id = rq_tag_of p r,
            h2c_data_offset = data_sent req, h2c_data_length = pdu_len req\<rparr>\<rparr>) s1))"

definition nvme_tcp_handle_r2t :: "henv \<Rightarrow> penv \<Rightarrow> u8 list \<Rightarrow> host \<Rightarrow> errno option \<times> host" where
  "nvme_tcp_handle_r2t e p pdu s =
     (case tag_to_rq p (r2t_command_id p pdu) of
        None \<Rightarrow> (Some ENOENT, s)
      | Some r \<Rightarrow>
          (case nvme_tcp_setup_h2c_data_pdu e p r pdu s of
             (Some err, s1) \<Rightarrow> (Some err, s1)
           | (None, s1) \<Rightarrow>
               (None, nvme_tcp_queue_request e r
                  (upd_req r (\<lambda>q. q\<lparr>send_state := NVME_TCP_SEND_H2C_PDU, req_offset := 0\<rparr>) s1))))"

text \<open>
  \<open>hlen\<close> comes with the PDU and is not compared with the size of its header: for a longer one the digest is
  read, and computed over, what the memory holds behind the received bytes.
\<close>

definition nvme_tcp_verify_hdgst :: "henv \<Rightarrow> penv \<Rightarrow> u8 list \<Rightarrow> errno option" where
  "nvme_tcp_verify_hdgst e p pdu =
     (let buf = pdu @ behind_pdu p pdu in
      if \<not> F_HDGST p pdu then Some EPROTO
      else if take (DIGEST_LENGTH e) (drop (hdr_hlen p pdu) buf) \<noteq> digest p (take (hdr_hlen p pdu) buf)
      then Some EIO else None)"

definition nvme_tcp_check_ddgst :: "henv \<Rightarrow> penv \<Rightarrow> u8 list \<Rightarrow> host \<Rightarrow> errno option \<times> host" where
  "nvme_tcp_check_ddgst e p pdu s =
     (let len = hdr_plen p pdu - of_nat (hdr_hlen p pdu) -
                (if F_HDGST p pdu then of_nat (nvme_tcp_hdgst_len e (hq s)) else 0) in
      if len \<noteq> 0 \<and> \<not> F_DDGST p pdu then (Some EPROTO, s)
      else (None, upd_rx (\<lambda>x. x\<lparr>rcv_hash := []\<rparr>) s))"

definition handle_pdu :: "henv \<Rightarrow> penv \<Rightarrow> u8 list \<Rightarrow> host \<Rightarrow> errno option \<times> host" where
  "handle_pdu e p pdu s =
     (case hdr_type p pdu of
        Nvme_tcp_c2h_data \<Rightarrow> nvme_tcp_handle_c2h_data p pdu s
      | Nvme_tcp_rsp \<Rightarrow> nvme_tcp_handle_comp p pdu (nvme_tcp_init_recv_ctx e p s)
      | Nvme_tcp_r2t \<Rightarrow> nvme_tcp_handle_r2t e p pdu (nvme_tcp_init_recv_ctx e p s)
      | Other_pdu n \<Rightarrow> (Some EINVAL, s))"

text \<open>
  A complete header: both digest checks, then the handler of its type. The buffer keeps the last
  header, which the data states read.
\<close>

definition pdu_complete :: "henv \<Rightarrow> penv \<Rightarrow> host \<Rightarrow> errno option \<times> host" where
  "pdu_complete e p s =
     (let pdu = rx_pdu (rx s) in
      case (if hdr_digest (hq s) then nvme_tcp_verify_hdgst e p pdu else None) of
        Some err \<Rightarrow> (Some err, s)
      | None \<Rightarrow>
          (case (if data_digest (hq s) then nvme_tcp_check_ddgst e p pdu s else (None, s)) of
             (Some err, s1) \<Rightarrow> (Some err, s1)
           | (None, s1) \<Rightarrow> handle_pdu e p pdu s1))"

definition nvme_tcp_recv_pdu :: "henv \<Rightarrow> penv \<Rightarrow> u8 list \<Rightarrow> host \<Rightarrow> errno option \<times> u8 list \<times> host" where
  "nvme_tcp_recv_pdu e p bs s =
     (let n = min (length bs) (pdu_remaining (rx s));
          s1 = upd_rx (\<lambda>x. x\<lparr>rx_pdu := rx_pdu x @ take n bs, pdu_remaining := pdu_remaining x - n\<rparr>) s in
      if pdu_remaining (rx s1) \<noteq> 0 then (None, drop n bs, s1)
      else (let (err, s2) = pdu_complete e p s1 in (err, drop n bs, s2)))"

section \<open>Data\<close>

text \<open>The loop over the bios of a read: bytes left to take, bytes still expected, request and hash.\<close>

definition next_bio :: "nvme_tcp_request \<Rightarrow> nvme_tcp_request option" where
  "next_bio req = (case bios req of [] \<Rightarrow> None | _ # bs \<Rightarrow> Some (req\<lparr>bios := bs\<rparr>))"

lemma next_bio_shorter: "next_bio req = Some req' \<Longrightarrow> length (bios req') < length (bios req)"
  by (auto simp: next_bio_def split: list.splits)

lemma init_iter_bios: "nvme_tcp_init_iter req = Some req' \<Longrightarrow> bios req' = bios req"
  by (auto simp: nvme_tcp_init_iter_def split: option.splits list.splits)

record rx_loop =
  xl_bytes :: "u8 list"
  xl_rem :: nat
  xl_req :: nvme_tcp_request
  xl_hash :: "u8 list"

definition copy_piece :: "bool \<Rightarrow> nat \<Rightarrow> nvme_tcp_request \<Rightarrow> rx_loop \<Rightarrow> rx_loop" where
  "copy_piece hash n req x =
     x\<lparr>xl_bytes := drop n (xl_bytes x), xl_rem := xl_rem x - n,
       xl_req := req\<lparr>iter := iov_iter_advance n (iter req), rx_data := rx_data req @ take n (xl_bytes x)\<rparr>,
       xl_hash := (if hash then xl_hash x @ take n (xl_bytes x) else xl_hash x)\<rparr>"

function (sequential) recv_data_loop :: "bool \<Rightarrow> errno option \<Rightarrow> rx_loop \<Rightarrow> (errno option \<times> bool \<times> rx_loop) option" where
  "recv_data_loop hash fault x =
     (let n = min (length (xl_bytes x)) (xl_rem x) in
      if n = 0 then Some (None, False, x)
      else if it_count (iter (xl_req x)) = 0 then
        (case next_bio (xl_req x) of
           None \<Rightarrow> None
         | Some req1 \<Rightarrow>
             (if bios req1 = [] then Some (Some EIO, True, x\<lparr>xl_req := req1\<rparr>)
              else case nvme_tcp_init_iter req1 of
                     None \<Rightarrow> None
                   | Some req2 \<Rightarrow>
                       (case fault of
                          Some err \<Rightarrow> Some (Some err, False, x\<lparr>xl_req := req2\<rparr>)
                        | None \<Rightarrow> recv_data_loop hash fault (copy_piece hash (min n (it_count (iter req2))) req2 x))))
      else
        (case fault of
           Some err \<Rightarrow> Some (Some err, False, x)
         | None \<Rightarrow> recv_data_loop hash fault (copy_piece hash (min n (it_count (iter (xl_req x)))) (xl_req x) x)))"
  by pat_completeness auto
termination
proof (relation "measures [\<lambda>(h, f, x). length (xl_bytes x), \<lambda>(h, f, x). length (bios (xl_req x))]", goal_cases)
  case 1
  then show ?case by simp
next
  case (2 hash fault x n req1 req2)
  then have "length (bios req2) < length (bios (xl_req x))"
    using init_iter_bios next_bio_shorter by metis
  then show ?case by (simp add: copy_piece_def) linarith
next
  case (3 hash fault x n)
  then show ?case by (simp add: copy_piece_def)
qed

declare recv_data_loop.simps [simp del]

text \<open>All data of the PDU has arrived: wait for the digest, or complete and start over.\<close>

definition data_complete :: "henv \<Rightarrow> penv \<Rightarrow> nat \<Rightarrow> host \<Rightarrow> host" where
  "data_complete e p r s =
     (if data_digest (hq s)
      then upd_rx (\<lambda>x. x\<lparr>exp_ddgst := digest p (rcv_hash x), ddgst_remaining := DIGEST_LENGTH e, recv_ddgst := []\<rparr>) s
      else
        nvme_tcp_init_recv_ctx e p
          (if F_DATA_SUCCESS p (rx_pdu (rx s)) then count_cqe (nvme_tcp_end_request r (SC_SUCCESS p) s) else s))"

definition nvme_tcp_recv_data ::
  "henv \<Rightarrow> penv \<Rightarrow> u8 list \<Rightarrow> host \<Rightarrow> (errno option \<times> u8 list \<times> host) option" where
  "nvme_tcp_recv_data e p bs s =
     (case tag_to_rq p (data_command_id p (rx_pdu (rx s))) of
        None \<Rightarrow> Some (Some ENOENT, bs, s)
      | Some r \<Rightarrow>
          (case data_remaining (rx s) of
             None \<Rightarrow> None
           | Some rem \<Rightarrow> do {
               (err, reset, x) \<leftarrow> recv_data_loop (data_digest (hq s)) (copy_fault p r)
                   \<lparr>xl_bytes = bs, xl_rem = rem, xl_req = reqs s r, xl_hash = rcv_hash (rx s)\<rparr>;
               let s1 = upd_rx (\<lambda>c. c\<lparr>data_remaining := Some (xl_rem x), rcv_hash := xl_hash x\<rparr>)
                          (upd_req r (\<lambda>_. xl_req x) s);
               let s2 = (if reset then nvme_tcp_init_recv_ctx e p s1 else s1);
               Some (case err of
                       Some er \<Rightarrow> (Some er, xl_bytes x, s2)
                     | None \<Rightarrow> (None, xl_bytes x, if xl_rem x = 0 then data_complete e p r s2 else s2)) }))"

definition nvme_tcp_recv_ddgst ::
  "henv \<Rightarrow> penv \<Rightarrow> u8 list \<Rightarrow> host \<Rightarrow> (errno option \<times> u8 list \<times> host) option" where
  "nvme_tcp_recv_ddgst e p bs s =
     (let n = min (length bs) (ddgst_remaining (rx s));
          s1 = upd_rx (\<lambda>x. x\<lparr>recv_ddgst := recv_ddgst x @ take n bs, ddgst_remaining := ddgst_remaining x - n\<rparr>) s in
      if ddgst_remaining (rx s1) \<noteq> 0 then Some (None, drop n bs, s1)
      else if recv_ddgst (rx s1) \<noteq> exp_ddgst (rx s1) then Some (Some EIO, drop n bs, s1)
      else if F_DATA_SUCCESS p (rx_pdu (rx s1)) then
        (case tag_to_rq p (data_command_id p (rx_pdu (rx s1))) of
           None \<Rightarrow> None
         | Some r \<Rightarrow> Some (None, drop n bs,
             nvme_tcp_init_recv_ctx e p (count_cqe (nvme_tcp_end_request r (SC_SUCCESS p) s1))))
      else Some (None, drop n bs, nvme_tcp_init_recv_ctx e p s1))"

section \<open>A segment of the stream\<close>

definition recv_step :: "henv \<Rightarrow> penv \<Rightarrow> u8 list \<Rightarrow> host \<Rightarrow> (errno option \<times> u8 list \<times> host) option" where
  "recv_step e p bs s =
     (case nvme_tcp_recv_state (rx s) of
        NVME_TCP_RECV_PDU \<Rightarrow> Some (nvme_tcp_recv_pdu e p bs s)
      | NVME_TCP_RECV_DATA \<Rightarrow> nvme_tcp_recv_data e p bs s
      | NVME_TCP_RECV_DDGST \<Rightarrow> nvme_tcp_recv_ddgst e p bs s)"

definition recv_failed :: "penv \<Rightarrow> host \<Rightarrow> host" where
  "recv_failed p s = nvme_tcp_error_recovery p (upd_rx (\<lambda>x. x\<lparr>rd_enabled := False\<rparr>) s)"

text \<open>
  \<open>nvme_tcp_recv_skb\<close>: no result stands for a loop that does not end or a null pointer; otherwise
  the error, if any, and the state.
\<close>

partial_function (option) nvme_tcp_recv_skb ::
  "henv \<Rightarrow> penv \<Rightarrow> u8 list \<Rightarrow> host \<Rightarrow> (errno option \<times> host) option" where
  "nvme_tcp_recv_skb e p bs s =
     (if bs = [] then Some (None, s)
      else do {
        y \<leftarrow> recv_step e p bs s;
        (case y of (err, bs', s') \<Rightarrow>
          (case err of
             Some er \<Rightarrow> Some (Some er, recv_failed p s')
           | None \<Rightarrow> nvme_tcp_recv_skb e p bs' s')) })"

text \<open>\<open>nvme_tcp_try_recv\<close>: the socket hands over the segments it holds; the number of bytes taken.\<close>

fun read_sock :: "henv \<Rightarrow> penv \<Rightarrow> u8 list list \<Rightarrow> nat \<Rightarrow> host \<Rightarrow> (rc \<times> host) option" where
  "read_sock e p [] n s = Some (Ret n, s)"
| "read_sock e p (b # bs) n s = do {
     (err, s1) \<leftarrow> nvme_tcp_recv_skb e p b s;
     (case err of Some er \<Rightarrow> Some (if n = 0 then Err er else Ret n, s1)
      | None \<Rightarrow> read_sock e p bs (n + length b) s1) }"

definition nvme_tcp_try_recv :: "henv \<Rightarrow> penv \<Rightarrow> u8 list list \<Rightarrow> host \<Rightarrow> (rc \<times> host) option" where
  "nvme_tcp_try_recv e p bss s = read_sock e p bss 0 (upd_rx (\<lambda>x. x\<lparr>nr_cqe := 0\<rparr>) s)"

section \<open>Socket callbacks and work functions\<close>

definition nvme_tcp_data_ready :: "host \<Rightarrow> host" where
  "nvme_tcp_data_ready s = (if rd_enabled (rx s) then upd_hq queue_io_work s else s)"

definition nvme_tcp_write_space :: "bool \<Rightarrow> host \<Rightarrow> host" where
  "nvme_tcp_write_space writeable s =
     (if writeable then upd_hq (\<lambda>q. queue_io_work (q\<lparr>sock_nospace := False\<rparr>)) s else s)"

definition nvme_tcp_state_change :: "penv \<Rightarrow> bool \<Rightarrow> host \<Rightarrow> host" where
  "nvme_tcp_state_change p closing s = (if closing then nvme_tcp_error_recovery p s else s)"

definition nvme_tcp_fail_request :: "penv \<Rightarrow> nat \<Rightarrow> host \<Rightarrow> host" where
  "nvme_tcp_fail_request p r s = nvme_tcp_end_request r (SC_HOST_PATH_ERROR p) s"

text \<open>
  \<open>nvme_tcp_io_work\<close> and \<open>nvme_tcp_io_work_lat\<close>: rounds of sending and receiving until there is
  nothing to do or the time is up. The first round always runs. Each round is given the segments the socket then holds; the list
  ends when the deadline has passed. A failure without a current request is a null pointer.
\<close>

fun io_work_loop :: "henv \<Rightarrow> penv \<Rightarrow> (host \<Rightarrow> host) \<Rightarrow> u8 list list list \<Rightarrow> host \<Rightarrow> host option" where
  "io_work_loop e p requeue [] s = Some (requeue s)"
| "io_work_loop e p requeue (bss # rounds) s = do {
     (ret, s1) \<leftarrow> nvme_tcp_try_send e s;
     (case ret of
        Err er \<Rightarrow>
          (if er \<noteq> EPIPE \<and> er \<noteq> ECONNRESET
           then do { r \<leftarrow> cur_request (hq s1); Some (nvme_tcp_done_send_req (nvme_tcp_fail_request p r s1)) }
           else Some (nvme_tcp_done_send_req s1))
      | Ret n \<Rightarrow> do {
          (ret2, s2) \<leftarrow> nvme_tcp_try_recv e p bss s1;
          if n = 0 \<and> \<not> rc_pos ret2 then Some s2 else io_work_loop e p requeue rounds s2 }) }"

definition nvme_tcp_io_work :: "henv \<Rightarrow> penv \<Rightarrow> u8 list list \<Rightarrow> u8 list list list \<Rightarrow> host \<Rightarrow> host option" where
  "nvme_tcp_io_work e p first rounds s =
     io_work_loop e p (upd_hq (\<lambda>q. q\<lparr>io_work := True\<rparr>)) (first # rounds)
       (if kthread_nice s \<noteq> i10_thru_nice e then s\<lparr>kthread_nice := i10_thru_nice e\<rparr> else s)"

definition nvme_tcp_io_work_lat :: "henv \<Rightarrow> penv \<Rightarrow> u8 list list \<Rightarrow> u8 list list list \<Rightarrow> host \<Rightarrow> host option" where
  "nvme_tcp_io_work_lat e p first rounds s =
     io_work_loop e p (upd_hq (\<lambda>q. q\<lparr>io_work_lat := True\<rparr>)) (first # rounds) s"

end
