(* ===== verification/Tcp_Host_Inv.thy ===== *)
theory Tcp_Host_Inv
  imports Tcp_Host_Recv
begin

text \<open>
  What sending does to a queue of the host driver: every step works on the current request only, keeps
  the caravan within its arrays and appends to the byte stream; the invariant of a queue and its
  preservation by \<open>nvme_tcp_try_send\<close>.
\<close>

unbundle bit_operations_syntax

section \<open>What a step of the sender leaves alone\<close>

definition frame :: "nat \<Rightarrow> host \<Rightarrow> host \<Rightarrow> bool" where
  "frame r s s' \<longleftrightarrow>
     queue_id (hq s') = queue_id (hq s) \<and> prio_class (hq s') = prio_class (hq s) \<and>
     cmnd_capsule_len (hq s') = cmnd_capsule_len (hq s) \<and> send_list (hq s') = send_list (hq s) \<and> nr_req (hq s') = nr_req (hq s) \<and>
     nr_caravan_req (hq s') = nr_caravan_req (hq s) \<and> timer_active (hq s') = timer_active (hq s) \<and>
     timer_set (hq s') = timer_set (hq s) \<and> hdr_digest (hq s') = hdr_digest (hq s) \<and>
     data_digest (hq s') = data_digest (hq s) \<and> (\<forall>x. x \<noteq> r \<longrightarrow> reqs s' x = reqs s x) \<and>
     (cur_request (hq s') = cur_request (hq s) \<or> cur_request (hq s') = None)"

lemma frame_refl [simp]: "frame r s s"
  by (simp add: frame_def)

lemma frame_trans: "frame r s t \<Longrightarrow> frame r t u \<Longrightarrow> frame r s u"
  by (auto simp: frame_def)

text \<open>
  The caravan: the arrays have the size they are allocated with, the counters stay within them and
  \<open>caravan_len\<close> is the number of bytes collected. A queue on the legacy path has no caravan.
\<close>

definition caravan_ok :: "henv \<Rightarrow> nvme_tcp_queue \<Rightarrow> bool" where
  "caravan_ok e q \<longleftrightarrow>
     length (caravan_iovs q) = I10_MAX_AGGREGATION_SIZE * 2 \<and> length (caravan_mapped q) = I10_MAX_AGGREGATION_SIZE \<and>
     nr_iovs q \<le> I10_MAX_AGGREGATION_SIZE * 2 \<and> nr_mapped q \<le> I10_MAX_AGGREGATION_SIZE \<and>
     caravan_len q = segs_len (caravan_segs q) \<and> (i10_host_legacy_path e q \<longrightarrow> nr_iovs q = 0)"

definition out :: "host \<Rightarrow> hseg list" where
  "out s = wire s @ caravan_segs (hq s)"

text \<open>
  One step of the sender on request \<open>r\<close>: everything else stays, the caravan stays within its bounds
  and, on a connection without data digests, the stream of bytes only grows at its end.
\<close>

definition sends :: "henv \<Rightarrow> nat \<Rightarrow> host \<Rightarrow> host \<Rightarrow> bool" where
  "sends e r s s' \<longleftrightarrow> frame r s s' \<and> caravan_ok e (hq s') \<and>
     (\<not> data_digest (hq s) \<and> send_state (reqs s r) \<noteq> NVME_TCP_SEND_DDGST \<longrightarrow>
        (\<exists>gs. out s' = out s @ gs) \<and> send_state (reqs s' r) \<noteq> NVME_TCP_SEND_DDGST)"

lemma sends_refl: "caravan_ok e (hq s) \<Longrightarrow> sends e r s s"
  by (simp add: sends_def)

lemma sends_trans: "sends e r s t \<Longrightarrow> sends e r t u \<Longrightarrow> sends e r s u"
proof -
  assume st: "sends e r s t" and tu: "sends e r t u"
  then have f: "frame r s t" "frame r t u" "caravan_ok e (hq u)" by (simp_all add: sends_def)
  then have d: "data_digest (hq t) = data_digest (hq s)" by (simp add: frame_def)
  show "sends e r s u" unfolding sends_def
  proof (intro conjI impI)
    assume n: "\<not> data_digest (hq s) \<and> send_state (reqs s r) \<noteq> NVME_TCP_SEND_DDGST"
    then obtain gs where gs: "out t = out s @ gs" "send_state (reqs t r) \<noteq> NVME_TCP_SEND_DDGST"
      using st unfolding sends_def by blast
    then obtain gs' where "out u = out t @ gs'" "send_state (reqs u r) \<noteq> NVME_TCP_SEND_DDGST"
      using tu n d unfolding sends_def by blast
    with gs show "\<exists>gs. out u = out s @ gs" "send_state (reqs u r) \<noteq> NVME_TCP_SEND_DDGST" by auto
  qed (use f frame_trans in blast)+
qed

lemma sends_ok: "sends e r s s' \<Longrightarrow> caravan_ok e (hq s')"
  by (simp add: sends_def)

lemma legacy_frame: "frame r s s' \<Longrightarrow> i10_host_legacy_path e (hq s') = i10_host_legacy_path e (hq s)"
  by (simp add: frame_def i10_host_legacy_path_def i10_host_is_latency_def)

lemma sends_upd_req:
  "caravan_ok e (hq s) \<Longrightarrow> send_state (f (reqs s r)) = NVME_TCP_SEND_DDGST \<Longrightarrow> data_digest (hq s) \<Longrightarrow>
     sends e r s (upd_req r f s)"
  "caravan_ok e (hq s) \<Longrightarrow> send_state (f (reqs s r)) = send_state (reqs s r) \<or> send_state (f (reqs s r)) \<noteq> NVME_TCP_SEND_DDGST
     \<Longrightarrow> sends e r s (upd_req r f s)"
  by (auto simp add: sends_def frame_def upd_req_def out_def)

lemma sends_upd_hq:
  assumes "caravan_ok e (hq s)" "frame r s (upd_hq f s)" "caravan_iovs (f (hq s)) = caravan_iovs (hq s)"
    "caravan_mapped (f (hq s)) = caravan_mapped (hq s)" "nr_iovs (f (hq s)) = nr_iovs (hq s)"
    "nr_mapped (f (hq s)) = nr_mapped (hq s)" "caravan_len (f (hq s)) = caravan_len (hq s)"
  shows "sends e r s (upd_hq f s)"
proof -
  have "i10_host_legacy_path e (f (hq s)) = i10_host_legacy_path e (hq s)"
    using legacy_frame [OF assms(2)] by (simp add: upd_hq_def)
  then show ?thesis using assms
    by (simp add: sends_def caravan_ok_def out_def upd_hq_def caravan_segs_def)
qed

lemma caravan_add_ok:
  assumes ok: "caravan_ok e q" and nf: "\<not> i10_host_is_caravan_full q" and nl: "\<not> i10_host_legacy_path e q"
  obtains iovs where
    "caravan_add g q = Some (q\<lparr>caravan_iovs := iovs, nr_iovs := nr_iovs q + 1, caravan_len := caravan_len q + seg_len g\<rparr>)"
    "caravan_ok e (q\<lparr>caravan_iovs := iovs, nr_iovs := nr_iovs q + 1, caravan_len := caravan_len q + seg_len g\<rparr>)"
    "take (nr_iovs q + 1) iovs = caravan_segs q @ [g]"
proof -
  have n: "nr_iovs q < length (caravan_iovs q)"
    using ok nf by (auto simp: caravan_ok_def i10_host_is_caravan_full_def)
  let ?iovs = "(caravan_iovs q)[nr_iovs q := g]"
  let ?q = "q\<lparr>caravan_iovs := ?iovs, nr_iovs := nr_iovs q + 1, caravan_len := caravan_len q + seg_len g\<rparr>"
  have add: "caravan_add g q = Some ?q" using n by (simp add: caravan_add_def)
  have segs: "take (nr_iovs q + 1) ?iovs = caravan_segs q @ [g]"
    using n by (simp add: caravan_segs_def take_Suc_conv_app_nth)
  then have "caravan_segs ?q = caravan_segs q @ [g]" by (simp add: caravan_segs_def)
  then have "caravan_ok e ?q"
    using ok nf nl n
    by (simp add: caravan_ok_def i10_host_is_caravan_full_def i10_host_legacy_path_def i10_host_is_latency_def segs_len_def)
  then show ?thesis using add segs that by blast
qed

lemma caravan_map_ok:
  assumes "caravan_ok e q" "nr_mapped q < I10_MAX_AGGREGATION_SIZE"
  shows "\<exists>m. caravan_map pg q = Some (q\<lparr>caravan_mapped := m, nr_mapped := nr_mapped q + 1\<rparr>) \<and>
     caravan_ok e (q\<lparr>caravan_mapped := m, nr_mapped := nr_mapped q + 1\<rparr>)"
  using assms
  by (intro exI [of _ "(caravan_mapped q)[nr_mapped q := pg]"])
    (simp add: caravan_map_def caravan_ok_def caravan_segs_def i10_host_legacy_path_def i10_host_is_latency_def)

lemma do_sendpage_shape: "\<exists>ret gs. do_sendpage e g s = (ret, s\<lparr>wire := wire s @ gs, sock_pos := Suc (sock_pos s)\<rparr>)"
proof (cases "rc_cap (seg_len g) (sendpage e (sock_pos s) (seg_len g))")
  case (Ret n)
  then show ?thesis by (intro exI [of _ "Ret n"] exI [of _ "if n = 0 then [] else [seg_prefix n g]"]) (simp add: do_sendpage_def)
next
  case (Err x)
  then show ?thesis by (intro exI [of _ "Err x"] exI [of _ "[]"]) (simp add: do_sendpage_def)
qed

lemma do_sendpage_sends:
  assumes d: "do_sendpage e g s = (ret, s1)" and "caravan_ok e (hq s)" "i10_host_legacy_path e (hq s)"
  shows "sends e r s s1" "hq s1 = hq s"
proof -
  obtain gs where s1: "s1 = s\<lparr>wire := wire s @ gs, sock_pos := Suc (sock_pos s)\<rparr>"
    using do_sendpage_shape [of e g s] d by auto
  have "caravan_segs (hq s) = []" using assms by (simp add: caravan_ok_def caravan_segs_def)
  then show "sends e r s s1" "hq s1 = hq s"
    unfolding s1 using assms(2) by (simp_all add: sends_def frame_def out_def)
qed

lemma send_piece_collects:
  assumes ok: "caravan_ok e (hq s)" and nf: "\<not> i10_host_is_caravan_full (hq s)" and nl: "\<not> i10_host_legacy_path e (hq s)"
  obtains s1 where "send_piece e g pg s = Some ((False, Ret (seg_len g)), s1)" "caravan_ok e (hq s1)"
    "cur_request (hq s1) = cur_request (hq s)" "wire s1 = wire s" "sock_pos s1 = sock_pos s"
    "caravan_segs (hq s1) = caravan_segs (hq s) @ [g]" "reqs s1 = reqs s" "\<And>r. frame r s s1"
proof -
  obtain iovs where q1: "caravan_add g (hq s) = Some ((hq s)\<lparr>caravan_iovs := iovs, nr_iovs := nr_iovs (hq s) + 1,
        caravan_len := caravan_len (hq s) + seg_len g\<rparr>)"
      "caravan_ok e ((hq s)\<lparr>caravan_iovs := iovs, nr_iovs := nr_iovs (hq s) + 1,
        caravan_len := caravan_len (hq s) + seg_len g\<rparr>)"
    and tk: "take (nr_iovs (hq s) + 1) iovs = caravan_segs (hq s) @ [g]"
    using caravan_add_ok [OF ok nf nl] by blast
  define q1 where "q1 = (hq s)\<lparr>caravan_iovs := iovs, nr_iovs := nr_iovs (hq s) + 1,
        caravan_len := caravan_len (hq s) + seg_len g\<rparr>"
  have nm: "nr_mapped q1 < I10_MAX_AGGREGATION_SIZE"
    using nf by (simp add: q1_def i10_host_is_caravan_full_def)
  obtain m n where q2: "(case pg of None \<Rightarrow> Some q1 | Some p \<Rightarrow> caravan_map p q1) = Some (q1\<lparr>caravan_mapped := m, nr_mapped := n\<rparr>)"
    "caravan_ok e (q1\<lparr>caravan_mapped := m, nr_mapped := n\<rparr>)"
  proof (cases pg)
    case None
    then show ?thesis using that [of "nr_mapped q1" "caravan_mapped q1"] q1(2) by (simp add: q1_def)
  next
    case (Some p)
    then show ?thesis using that caravan_map_ok [OF q1(2) [folded q1_def] nm, of p] by auto
  qed
  define s1 where "s1 = s\<lparr>hq := q1\<lparr>caravan_mapped := m, nr_mapped := n\<rparr>\<rparr>"
  have "send_piece e g pg s = Some ((False, Ret (seg_len g)), s1)"
    using nl nf q1(1) [folded q1_def] q2(1) by (simp add: send_piece_def s1_def)
  moreover have "frame r s s1" "cur_request (hq s1) = cur_request (hq s)" "wire s1 = wire s" "sock_pos s1 = sock_pos s"
    "caravan_segs (hq s1) = caravan_segs (hq s) @ [g]" for r
    using tk by (simp_all add: s1_def q1_def frame_def out_def caravan_segs_def)
  moreover have "caravan_ok e (hq s1)" "reqs s1 = reqs s" using q2(2) by (simp_all add: s1_def)
  ultimately show ?thesis by (intro that)
qed

lemma send_piece_sends:
  assumes "caravan_ok e (hq s)"
  shows "\<exists>x s1. send_piece e g pg s = Some (x, s1) \<and> sends e r s s1 \<and> cur_request (hq s1) = cur_request (hq s)"
proof (cases "i10_host_legacy_path e (hq s)")
  case True
  obtain ret s1 where d: "do_sendpage e g s = (ret, s1)" by (cases "do_sendpage e g s")
  have "cur_request (hq s1) = cur_request (hq s)"
    using do_sendpage_sends(2) [OF d assms True] by simp
  moreover have "send_piece e g pg s = Some ((False, ret), s1)" using True d by (simp add: send_piece_def)
  ultimately show ?thesis using do_sendpage_sends(1) [OF d assms True] by blast
next
  case nl: False
  show ?thesis
  proof (cases "i10_host_is_caravan_full (hq s)")
    case True
    have "sends e r s (upd_hq (\<lambda>q. q\<lparr>send_now := True\<rparr>) s)"
      by (rule sends_upd_hq [OF assms]) (simp_all add: frame_def upd_hq_def)
    moreover have "send_piece e g pg s = Some ((True, Ret 1), upd_hq (\<lambda>q. q\<lparr>send_now := True\<rparr>) s)"
      using nl True by (simp add: send_piece_def)
    moreover have "cur_request (hq (upd_hq (\<lambda>q. q\<lparr>send_now := True\<rparr>) s)) = cur_request (hq s)"
      by (simp add: upd_hq_def)
    ultimately show ?thesis by blast
  next
    case nf: False
    obtain s1 where s1: "send_piece e g pg s = Some ((False, Ret (seg_len g)), s1)" "caravan_ok e (hq s1)"
      "cur_request (hq s1) = cur_request (hq s)" "wire s1 = wire s" "caravan_segs (hq s1) = caravan_segs (hq s) @ [g]"
      "reqs s1 = reqs s" "\<And>r. frame r s s1"
      using send_piece_collects [OF assms nf nl] by metis
    then have "sends e r s s1" by (auto simp: sends_def out_def)
    with s1(1,3) show ?thesis by blast
  qed
qed

lemma send_piece_sends': 
  assumes "send_piece e g pg s = Some (x, s1)" "caravan_ok e (hq s)"
  shows "sends e r s s1" "caravan_ok e (hq s1)"
  using send_piece_sends [OF assms(2), of g pg r] assms(1) by (auto simp: sends_def)

lemma done_send_sends: "caravan_ok e (hq s) \<Longrightarrow> sends e r s (nvme_tcp_done_send_req s)"
  unfolding nvme_tcp_done_send_req_def by (rule sends_upd_hq) (simp_all add: frame_def upd_hq_def)

lemma snd_hash_sends: "caravan_ok e (hq s) \<Longrightarrow> sends e r s (upd_hq (\<lambda>q. q\<lparr>snd_hash := h q\<rparr>) s)"
  by (rule sends_upd_hq) (simp_all add: frame_def upd_hq_def)

lemma send_now_sends: "caravan_ok e (hq s) \<Longrightarrow> sends e r s (upd_hq (\<lambda>q. q\<lparr>send_now := b\<rparr>) s)"
  by (rule sends_upd_hq) (simp_all add: frame_def upd_hq_def)

lemma advance_state: "nvme_tcp_advance_req n req = Some req' \<Longrightarrow> send_state req' = send_state req"
  by (auto simp: nvme_tcp_advance_req_def nvme_tcp_init_iter_def Let_def split: if_splits option.splits list.splits bind_splits)

lemma init_iter_state: "nvme_tcp_init_iter req = Some req' \<Longrightarrow> send_state req' = send_state req"
  by (auto simp: nvme_tcp_init_iter_def split: if_splits option.splits list.splits)

text \<open>What one round of the data loop does to the state when the piece went out.\<close>

lemma data_round_sends:
  assumes p: "send_piece e g pg s = Some (x, s1)" and ok: "caravan_ok e (hq s)"
    and a: "nvme_tcp_advance_req n (reqs s1 r) = Some req"
    and s3: "s3 = (if data_digest (hq (upd_req r (\<lambda>_. req) s1))
               then upd_hq (\<lambda>q. q\<lparr>snd_hash := snd_hash q @ h\<rparr>) (upd_req r (\<lambda>_. req) s1) else upd_req r (\<lambda>_. req) s1)"
  shows "sends e r s s3" "caravan_ok e (hq s3)"
proof -
  have 1: "sends e r s s1" "caravan_ok e (hq s1)" using send_piece_sends' [OF p ok] by auto
  have 2: "sends e r s1 (upd_req r (\<lambda>_. req) s1)"
    by (rule sends_upd_req(2) [OF 1(2)]) (simp add: advance_state [OF a])
  have "sends e r (upd_req r (\<lambda>_. req) s1) s3"
    unfolding s3 using snd_hash_sends [OF sends_ok [OF 2]] sends_refl [OF sends_ok [OF 2]] by simp
  then show "sends e r s s3" "caravan_ok e (hq s3)"
    using sends_trans [OF sends_trans [OF 1(1) 2]] sends_ok by blast+
qed

lemma try_send_data_sends:
  "nvme_tcp_try_send_data e r s = Some (ret, s') \<Longrightarrow> caravan_ok e (hq s) \<Longrightarrow> sends e r s s'"
proof (induction e r s rule: nvme_tcp_try_send_data.induct)
  case (1 e r s)
  obtain g where g: "nvme_tcp_req_cur (reqs s r) = Some g"
    using "1.prems"(1) by (subst (asm) nvme_tcp_try_send_data.simps) (auto split: option.splits)
  obtain b x s1 where p: "send_piece e g (seg_page g) s = Some ((b, x), s1)"
    using "1.prems"(1) g by (subst (asm) nvme_tcp_try_send_data.simps) (auto split: option.splits)
  have s1: "sends e r s s1" using send_piece_sends' [OF p "1.prems"(2)] by blast
  show ?case
  proof (cases "b \<or> \<not> rc_pos x")
    case True
    then have "s' = s1"
      using "1.prems"(1) g p by (subst (asm) nvme_tcp_try_send_data.simps) (cases b; cases x; auto split: nat.splits)
    with s1 show ?thesis by simp
  next
    case False
    then obtain n where x: "b = False" "x = Ret (Suc n)" by (cases x) (auto simp: gr0_conv_Suc)
    obtain req where a: "nvme_tcp_advance_req (Suc n) (reqs s1 r) = Some req"
      using "1.prems"(1) g p x by (subst (asm) nvme_tcp_try_send_data.simps) (auto split: option.splits)
    define s2 where "s2 = upd_req r (\<lambda>_. req) s1"
    define s3 where "s3 = (if data_digest (hq s2)
                           then upd_hq (\<lambda>q. q\<lparr>snd_hash := snd_hash q @ [seg_prefix (Suc n) g]\<rparr>) s2 else s2)"
    have s3: "sends e r s s3" "caravan_ok e (hq s3)"
      using data_round_sends [OF p "1.prems"(2) a s3_def [unfolded s2_def]] by auto
    have step: "nvme_tcp_try_send_data e r s =
      (if nvme_tcp_pdu_last_send (reqs s r) (seg_len g) \<and> Suc n = seg_len g then
         (if data_digest (hq s3)
          then Some (Ret 1, upd_req r (\<lambda>q. q\<lparr>req_ddgst := snd_hash (hq s3),
                      send_state := NVME_TCP_SEND_DDGST, req_offset := 0\<rparr>) s3)
          else Some (Ret 1, nvme_tcp_done_send_req s3))
       else nvme_tcp_try_send_data e r s3)"
      by (subst nvme_tcp_try_send_data.simps)
        (simp only: g p x a option.case prod.case bool.case rc.case nat.case Let_def s2_def [symmetric] s3_def [symmetric])
    show ?thesis
    proof (cases "nvme_tcp_pdu_last_send (reqs s r) (seg_len g) \<and> Suc n = seg_len g")
      case True
      then have "sends e r s3 s'"
        using "1.prems"(1) step done_send_sends [OF s3(2)] sends_upd_req(1) [OF s3(2)] by (auto split: if_splits)
      with s3(1) show ?thesis by (rule sends_trans)
    next
      case False
      have "sends e r s3 s'"
      proof (rule "1.IH" [OF g p refl refl x(1) x(2) refl a s2_def s3_def False _ s3(2)])
        show "nvme_tcp_try_send_data e r s3 = Some (ret, s')" using "1.prems"(1) step False by simp
      qed
      with s3(1) show ?thesis by (rule sends_trans)
    qed
  qed
qed

text \<open>The PDU of the request went out completely: the data follows, or the request is done.\<close>

lemma to_data_sends:
  assumes "caravan_ok e (hq s)" "send_state req' = NVME_TCP_SEND_DATA"
  shows "sends e r s (upd_req r (\<lambda>_. req') (if d then upd_hq (\<lambda>q. q\<lparr>snd_hash := []\<rparr>) s else s))"
proof -
  let ?s2 = "if d then upd_hq (\<lambda>q. q\<lparr>snd_hash := []\<rparr>) s else s"
  have 1: "sends e r s ?s2" using snd_hash_sends [OF assms(1), of r "\<lambda>_. []"] sends_refl [OF assms(1)] by simp
  have "sends e r ?s2 (upd_req r (\<lambda>_. req') ?s2)"
    by (rule sends_upd_req(2) [OF sends_ok [OF 1]]) (simp add: assms(2))
  with 1 show ?thesis by (rule sends_trans)
qed

lemmas to_data_cases = to_data_sends [where d = True, simplified] to_data_sends [where d = False, simplified]

lemma init_iter_data:
  "nvme_tcp_init_iter (req\<lparr>send_state := NVME_TCP_SEND_DATA\<rparr>) = Some req' \<Longrightarrow> send_state req' = NVME_TCP_SEND_DATA"
  by (drule init_iter_state) simp

lemma req_offset_sends: "caravan_ok e (hq s) \<Longrightarrow> sends e r s (upd_req r (\<lambda>q. q\<lparr>req_offset := f q\<rparr>) s)"
  by (rule sends_upd_req(2)) simp_all

lemma try_send_cmd_pdu_sends:
  assumes c: "nvme_tcp_try_send_cmd_pdu e r s = Some (ret, s')" and ok: "caravan_ok e (hq s)"
  shows "sends e r s s'"
proof -
  define len where "len = sizeof_cmd_pdu e + nvme_tcp_hdgst_len e (hq s) - req_offset (reqs s r)"
  define g where "g = \<lparr>seg_mem = Pdu r, seg_off = req_offset (reqs s r), seg_len = len\<rparr>"
  note c' = c [unfolded nvme_tcp_try_send_cmd_pdu_def Let_def, folded len_def, folded g_def]
  obtain b x s0 where p: "send_piece e g None s = Some ((b, x), s0)"
    using c' by (auto split: option.splits)
  have s0: "sends e r s s0" "caravan_ok e (hq s0)" using send_piece_sends' [OF p ok] by auto
  show ?thesis
  proof (cases "b \<or> rc_neg x")
    case True
    then have "s' = s0" using c' p by (cases b; cases x) auto
    with s0 show ?thesis by simp
  next
    case False
    then obtain n where x: "b = False" "x = Ret n" by (cases x) auto
    define s1 where "s1 = (if \<not> i10_host_legacy_path e (hq s) \<and> i10_host_is_nodelay_path e (reqs s r)
                           then upd_hq (\<lambda>q. q\<lparr>send_now := True\<rparr>) s0 else s0)"
    have "sends e r s0 s1" using send_now_sends [OF s0(2)] sends_refl [OF s0(2)] by (simp add: s1_def)
    then have s1: "sends e r s s1" "caravan_ok e (hq s1)" using sends_trans [OF s0(1)] sends_ok by blast+
    have "sends e r s1 s'"
      using c' [unfolded p x, simplified, folded s1_def] sends_refl [OF s1(2)] done_send_sends [OF s1(2)] req_offset_sends [OF s1(2)]
        to_data_cases [OF s1(2)] init_iter_data
      by (auto split: if_splits bind_splits)
    with s1(1) show ?thesis by (rule sends_trans)
  qed
qed

lemma try_send_data_pdu_sends:
  assumes c: "nvme_tcp_try_send_data_pdu e r s = Some (ret, s')" and ok: "caravan_ok e (hq s)"
  shows "sends e r s s'"
proof -
  define len where "len = sizeof_data_pdu e - req_offset (reqs s r) + nvme_tcp_hdgst_len e (hq s)"
  define g where "g = \<lparr>seg_mem = Pdu r, seg_off = req_offset (reqs s r), seg_len = len\<rparr>"
  note c' = c [unfolded nvme_tcp_try_send_data_pdu_def Let_def, folded len_def, folded g_def]
  obtain b x s1 where p: "send_piece e g None s = Some ((b, x), s1)"
    using c' by (auto split: option.splits)
  have s1: "sends e r s s1" "caravan_ok e (hq s1)" using send_piece_sends' [OF p ok] by auto
  have "sends e r s1 s'"
    using c' [unfolded p, simplified] sends_refl [OF s1(2)] req_offset_sends [OF s1(2)] to_data_cases [OF s1(2)] init_iter_data
    by (cases b; cases x) (auto split: if_splits bind_splits)
  with s1(1) show ?thesis by (rule sends_trans)
qed

lemma do_sendmsg_shape: "\<exists>gs'. snd (do_sendmsg e gs len s) = s\<lparr>wire := wire s @ gs', sock_pos := Suc (sock_pos s)\<rparr>"
proof (cases "rc_cap len (sendmsg e (sock_pos s) len)")
  case (Ret n)
  then show ?thesis by (intro exI [of _ "if n = 0 then [] else segs_take n gs"]) (simp add: do_sendmsg_def)
next
  case (Err x)
  then show ?thesis by (intro exI [of _ "[]"]) (simp add: do_sendmsg_def)
qed

lemma try_send_ddgst_sends:
  assumes c: "nvme_tcp_try_send_ddgst e r s = (ret, s')" and ok: "caravan_ok e (hq s)"
    and st: "send_state (reqs s r) = NVME_TCP_SEND_DDGST"
  shows "sends e r s s'"
proof -
  define len where "len = DIGEST_LENGTH e - req_offset (reqs s r)"
  define gs where "gs = [\<lparr>seg_mem = Ddgst r, seg_off = 4 * req_offset (reqs s r), seg_len = len\<rparr>]"
  note c' = c [unfolded nvme_tcp_try_send_ddgst_def Let_def, folded len_def, folded gs_def]
  obtain x s1 where d: "do_sendmsg e gs len s = (x, s1)" by (cases "do_sendmsg e gs len s")
  obtain gs' where "s1 = s\<lparr>wire := wire s @ gs', sock_pos := Suc (sock_pos s)\<rparr>"
    using do_sendmsg_shape [of e gs len s] d by auto
  then have s1: "sends e r s s1" "caravan_ok e (hq s1)" using ok st by (simp_all add: sends_def frame_def)
  have "sends e r s1 s'"
    using c' [unfolded d, simplified] sends_refl [OF s1(2)] req_offset_sends [OF s1(2)] done_send_sends [OF s1(2)]
    by (cases x) (auto split: if_splits)
  with s1(1) show ?thesis by (rule sends_trans)
qed

lemma send_from_ddgst_sends: "send_from_ddgst e r ret s = (ret', s') \<Longrightarrow> caravan_ok e (hq s) \<Longrightarrow> sends e r s s'"
  by (auto simp: send_from_ddgst_def intro: try_send_ddgst_sends sends_refl split: if_splits)

lemma send_from_data_sends:
  assumes c: "send_from_data e r ret s = Some (ret', s')" and ok: "caravan_ok e (hq s)"
  shows "sends e r s s'"
proof (cases "send_state (reqs s r) = NVME_TCP_SEND_DATA")
  case True
  then obtain x s1 where d: "nvme_tcp_try_send_data e r s = Some (x, s1)"
    using c by (auto simp: send_from_data_def split: bind_splits)
  then have s1: "sends e r s s1" using ok by (rule try_send_data_sends)
  have "sends e r s1 s'"
    using c True d send_from_ddgst_sends [OF _ sends_ok [OF s1]] sends_refl [OF sends_ok [OF s1]]
    by (auto simp: send_from_data_def split: if_splits)
  with s1 show ?thesis by (rule sends_trans)
next
  case False
  then show ?thesis using c ok send_from_ddgst_sends by (simp add: send_from_data_def)
qed

lemma send_from_h2c_sends:
  assumes c: "send_from_h2c e r ret s = Some (ret', s')" and ok: "caravan_ok e (hq s)"
  shows "sends e r s s'"
proof (cases "send_state (reqs s r) = NVME_TCP_SEND_H2C_PDU")
  case True
  then obtain x s1 where d: "nvme_tcp_try_send_data_pdu e r s = Some (x, s1)"
    using c by (auto simp: send_from_h2c_def split: bind_splits)
  then have s1: "sends e r s s1" using ok by (rule try_send_data_pdu_sends)
  have "sends e r s1 s'"
    using c True d send_from_data_sends [OF _ sends_ok [OF s1]] sends_refl [OF sends_ok [OF s1]]
    by (auto simp: send_from_h2c_def split: if_splits)
  with s1 show ?thesis by (rule sends_trans)
next
  case False
  then show ?thesis using c ok send_from_data_sends by (simp add: send_from_h2c_def)
qed

lemma send_request_sends:
  assumes c: "send_request e r s = Some (ret', s')" and ok: "caravan_ok e (hq s)"
  shows "sends e r s s'"
proof (cases "send_state (reqs s r) = NVME_TCP_SEND_CMD_PDU")
  case True
  then obtain x s1 where d: "nvme_tcp_try_send_cmd_pdu e r s = Some (x, s1)"
    using c by (auto simp: send_request_def split: bind_splits)
  then have s1: "sends e r s s1" using ok by (rule try_send_cmd_pdu_sends)
  have "sends e r s1 s'"
    using c True d send_from_h2c_sends [OF _ sends_ok [OF s1]] sends_refl [OF sends_ok [OF s1]]
    by (auto simp: send_request_def split: if_splits bind_splits)
  with s1 show ?thesis by (rule sends_trans)
next
  case False
  then show ?thesis using c ok send_from_h2c_sends by (auto simp: send_request_def split: bind_splits)
qed

section \<open>The invariant of a queue\<close>

text \<open>
  \<open>nr_req\<close> counts the delayed requests that wait in the send list and those whose bytes are in the
  caravan. The priority class is the one of the queue's number, except before the first request.
\<close>

definition waiting :: "henv \<Rightarrow> host \<Rightarrow> nat list" where
  "waiting e s = filter (\<lambda>r. delayed e (hq s) (reqs s r)) (send_list (hq s))"

definition queue_fresh :: "nvme_tcp_queue \<Rightarrow> bool" where
  "queue_fresh q \<longleftrightarrow> send_list q = [] \<and> cur_request q = None \<and> nr_iovs q = 0 \<and> nr_caravan_req q = 0"

definition prio_ok :: "henv \<Rightarrow> nvme_tcp_queue \<Rightarrow> bool" where
  "prio_ok e q \<longleftrightarrow> prio_class q = (if queue_id q \<le> online_cpus e then 0 else 1)"

definition pending :: "nvme_tcp_queue \<Rightarrow> nat list" where
  "pending q = (case cur_request q of None \<Rightarrow> [] | Some r \<Rightarrow> [r]) @ send_list q"

definition host_inv :: "henv \<Rightarrow> host \<Rightarrow> bool" where
  "host_inv e s \<longleftrightarrow>
     caravan_ok e (hq s) \<and> (queue_fresh (hq s) \<or> prio_ok e (hq s)) \<and> distinct (pending (hq s)) \<and>
     0 \<le> nr_caravan_req (hq s) \<and> nr_req (hq s) = int (length (waiting e s)) + nr_caravan_req (hq s)"

lemma host_invD:
  assumes "host_inv e s"
  shows "caravan_ok e (hq s)" "queue_fresh (hq s) \<or> prio_ok e (hq s)" "distinct (pending (hq s))"
    "0 \<le> nr_caravan_req (hq s)" "nr_req (hq s) = int (length (waiting e s)) + nr_caravan_req (hq s)"
  using assms by (simp_all add: host_inv_def)

lemma try_send_pick_inv:
  assumes inv: "host_inv e s" and c: "cur_request (hq s) = None"
  shows "host_inv e (try_send_pick e s)" "reqs (try_send_pick e s) = reqs s" "wire (try_send_pick e s) = wire s"
    "caravan_segs (hq (try_send_pick e s)) = caravan_segs (hq s)" "caravan_len (hq (try_send_pick e s)) = caravan_len (hq s)"
    "data_digest (hq (try_send_pick e s)) = data_digest (hq s)"
proof -
  note i = host_invD [OF inv]
  show "host_inv e (try_send_pick e s)"
  proof (cases "send_list (hq s)")
    case Nil
    then have "waiting e s = []" by (simp add: waiting_def)
    then show ?thesis using i Nil c
      by (auto simp: try_send_pick_def host_inv_def waiting_def upd_hq_def caravan_ok_def caravan_segs_def queue_fresh_def
          prio_ok_def pending_def i10_host_legacy_path_def i10_host_is_latency_def)
  next
    case (Cons r l)
    let ?d = "delayed e (hq s) (reqs s r)"
    have "int (length (waiting e s)) = (if ?d then 1 else 0) + int (length (filter (\<lambda>r. delayed e (hq s) (reqs s r)) l))"
      using Cons by (simp add: waiting_def)
    moreover have "prio_ok e (hq s)" using i(2) Cons by (simp add: queue_fresh_def)
    ultimately show ?thesis using i Cons c
      by (simp add: try_send_pick_def host_inv_def waiting_def upd_hq_def caravan_ok_def caravan_segs_def queue_fresh_def
          prio_ok_def pending_def i10_host_legacy_path_def i10_host_is_latency_def)
  qed
qed (simp_all add: try_send_pick_def upd_hq_def caravan_segs_def split: list.splits)

lemma frame_waiting: "frame r s s' \<Longrightarrow> r \<notin> set (send_list (hq s)) \<Longrightarrow> waiting e s' = waiting e s"
  unfolding waiting_def frame_def i10_host_legacy_path_def i10_host_is_latency_def
  by (metis (no_types, lifting) filter_cong)

lemma frame_inv:
  assumes inv: "host_inv e s" and c: "cur_request (hq s) = Some r" and f: "frame r s s'" and ok: "caravan_ok e (hq s')"
  shows "host_inv e s'"
proof -
  note i = host_invD [OF inv]
  have w: "waiting e s' = waiting e s"
    using i(3) c by (intro frame_waiting [OF f]) (simp add: pending_def)
  have p: "prio_ok e (hq s')" using i(2) c f by (simp add: queue_fresh_def prio_ok_def frame_def)
  have d: "distinct (pending (hq s'))" using i(3) c f by (auto simp: pending_def frame_def)
  show ?thesis unfolding host_inv_def using w p d ok i(4,5) f by (simp add: frame_def)
qed

text \<open>
  The room the socket announces is room: a caravan that fits is accepted whole, or not at all.
\<close>

definition whole_caravans :: "henv \<Rightarrow> bool" where
  "whole_caravans e \<longleftrightarrow>
     (\<forall>k n m. int n \<le> wspace e k \<longrightarrow> sendmsg e (Suc k) n = Ret m \<longrightarrow> m = 0 \<or> n \<le> m)"

text \<open>The three outcomes of sending a caravan.\<close>

lemma try_send_caravan_cases:
  obtains (nospace) "try_send_caravan e s = (Some (Ret 0), upd_hq (\<lambda>q. q\<lparr>sock_nospace := True\<rparr>) (s\<lparr>sock_pos := Suc (sock_pos s)\<rparr>))"
    | (failed) ret where "\<not> rc_pos ret"
        "ret = rc_cap (caravan_len (hq s)) (sendmsg e (Suc (sock_pos s)) (caravan_len (hq s)))"
        "try_send_caravan e s = (Some ret, s\<lparr>sock_pos := Suc (Suc (sock_pos s))\<rparr>)"
    | (sent) n where "0 < n" "Ret n = rc_cap (caravan_len (hq s)) (sendmsg e (Suc (sock_pos s)) (caravan_len (hq s)))"
        "int (caravan_len (hq s)) \<le> wspace e (sock_pos s)"
        "try_send_caravan e s = (None, s\<lparr>hq := (hq s)\<lparr>nr_iovs := 0, nr_mapped := 0, caravan_len := 0, send_now := False\<rparr>,
           wire := wire s @ segs_take n (caravan_segs (hq s)), sock_pos := Suc (Suc (sock_pos s))\<rparr>)"
proof (cases "wspace e (sock_pos s) < int (caravan_len (hq s))")
  case True
  then show ?thesis using nospace by (simp add: try_send_caravan_def)
next
  case room: False
  define ret where "ret = rc_cap (caravan_len (hq s)) (sendmsg e (Suc (sock_pos s)) (caravan_len (hq s)))"
  show ?thesis
  proof (cases ret)
    case (Err x)
    then show ?thesis using room failed [of ret] by (simp add: try_send_caravan_def do_sendmsg_def ret_def)
  next
    case (Ret n)
    show ?thesis
    proof (cases n)
      case 0
      then show ?thesis using Ret room failed [of ret] by (simp add: try_send_caravan_def do_sendmsg_def ret_def)
    next
      case (Suc m)
      show ?thesis by (rule sent [of n]) (use Ret Suc room in \<open>simp_all add: try_send_caravan_def do_sendmsg_def ret_def upd_hq_def\<close>)
    qed
  qed
qed

lemma flushed_caravan_ok:
  "caravan_ok e q \<Longrightarrow> caravan_ok e (q\<lparr>nr_iovs := 0, nr_mapped := 0, caravan_len := 0, send_now := b\<rparr>)"
  by (simp add: caravan_ok_def caravan_segs_def segs_len_def)

lemma try_send_caravan_inv:
  assumes inv: "host_inv e s" and t: "try_send_caravan e s = (x, s')"
  shows "host_inv e s'" "reqs s' = reqs s" "cur_request (hq s') = cur_request (hq s)" "data_digest (hq s') = data_digest (hq s)"
proof -
  note i = host_invD [OF inv]
  have "host_inv e s' \<and> reqs s' = reqs s \<and> cur_request (hq s') = cur_request (hq s) \<and> data_digest (hq s') = data_digest (hq s)"
  proof (cases rule: try_send_caravan_cases [of e s])
    case nospace
    then have "s' = upd_hq (\<lambda>q. q\<lparr>sock_nospace := True\<rparr>) (s\<lparr>sock_pos := Suc (sock_pos s)\<rparr>)" using t by simp
    then show ?thesis using inv
      by (simp add: host_inv_def upd_hq_def caravan_ok_def caravan_segs_def queue_fresh_def prio_ok_def pending_def
          waiting_def i10_host_legacy_path_def i10_host_is_latency_def)
  next
    case (failed ret)
    then have "s' = s\<lparr>sock_pos := Suc (Suc (sock_pos s))\<rparr>" using t by simp
    then show ?thesis using inv by (simp add: host_inv_def waiting_def)
  next
    case (sent n)
    then have s': "s' = s\<lparr>hq := (hq s)\<lparr>nr_iovs := 0, nr_mapped := 0, caravan_len := 0, send_now := False\<rparr>,
           wire := wire s @ segs_take n (caravan_segs (hq s)), sock_pos := Suc (Suc (sock_pos s))\<rparr>" using t by simp
    show ?thesis unfolding s' using inv flushed_caravan_ok [of e "hq s" False]
      by (simp add: host_inv_def queue_fresh_def prio_ok_def pending_def
          waiting_def i10_host_legacy_path_def i10_host_is_latency_def) (auto split: if_splits)
  qed
  then show "host_inv e s'" "reqs s' = reqs s" "cur_request (hq s') = cur_request (hq s)" "data_digest (hq s') = data_digest (hq s)"
    by simp_all
qed

lemma try_send_caravan_out:
  assumes w: "whole_caravans e" and ok: "caravan_ok e (hq s)" and t: "try_send_caravan e s = (x, s')"
  shows "out s' = out s"
proof (cases rule: try_send_caravan_cases [of e s])
  case (sent n)
  obtain m where m: "sendmsg e (Suc (sock_pos s)) (caravan_len (hq s)) = Ret m"
    using sent(2) by (cases "sendmsg e (Suc (sock_pos s)) (caravan_len (hq s))") auto
  then have "caravan_len (hq s) \<le> m"
    using w sent by (force simp: whole_caravans_def)
  then have "n = segs_len (caravan_segs (hq s))" using sent(2) m ok by (simp add: caravan_ok_def)
  then show ?thesis using sent t by (auto simp: out_def caravan_segs_def segs_take_all)
qed (use t in \<open>auto simp: out_def upd_hq_def caravan_segs_def\<close>)

text \<open>A call of \<open>nvme_tcp_try_send\<close> is a choice, perhaps the caravan, perhaps the current request.\<close>

lemma try_send_cases:
  assumes t: "nvme_tcp_try_send e s = Some (ret, s')" and inv: "host_inv e s"
  obtains s1 where "host_inv e s1" "reqs s1 = reqs s" "out s1 = out s" "data_digest (hq s1) = data_digest (hq s)"
    "s' = s1 \<or> (\<exists>x. try_send_caravan e s1 = (x, s')) \<or>
     (\<exists>r x s2. (s2 = s1 \<or> try_send_caravan e s1 = (x, s2)) \<and> cur_request (hq s2) = Some r \<and> send_request e r s2 = Some (ret, s'))"
proof -
  define s1 where "s1 = (if cur_request (hq s) = None then try_send_pick e s else s)"
  have "host_inv e s1" "reqs s1 = reqs s" "out s1 = out s" "data_digest (hq s1) = data_digest (hq s)"
    using inv try_send_pick_inv [OF inv] by (auto simp: s1_def out_def)
  moreover have "s' = s1 \<or> (\<exists>x. try_send_caravan e s1 = (x, s')) \<or>
     (\<exists>r x s2. (s2 = s1 \<or> try_send_caravan e s1 = (x, s2)) \<and> cur_request (hq s2) = Some r \<and> send_request e r s2 = Some (ret, s'))"
    using t unfolding nvme_tcp_try_send_def Let_def s1_def [symmetric]
    by (cases "try_send_caravan e s1") (auto split: if_splits option.splits)
  ultimately show ?thesis by (rule that)
qed

lemma try_send_inv:
  assumes t: "nvme_tcp_try_send e s = Some (ret, s')" and inv: "host_inv e s"
  shows "host_inv e s'"
proof (rule try_send_cases [OF t inv])
  fix s1
  assume s1: "host_inv e s1" and c: "s' = s1 \<or> (\<exists>x. try_send_caravan e s1 = (x, s')) \<or>
     (\<exists>r x s2. (s2 = s1 \<or> try_send_caravan e s1 = (x, s2)) \<and> cur_request (hq s2) = Some r \<and> send_request e r s2 = Some (ret, s'))"
  then consider "s' = s1" | x where "try_send_caravan e s1 = (x, s')"
    | r x s2 where "s2 = s1 \<or> try_send_caravan e s1 = (x, s2)" "cur_request (hq s2) = Some r" "send_request e r s2 = Some (ret, s')"
    by blast
  then show ?thesis
  proof cases
    case (3 r x s2)
    have "host_inv e s2" using 3(1) s1 try_send_caravan_inv(1) by blast
    moreover have "sends e r s2 s'" using send_request_sends [OF 3(3)] host_invD(1) [OF calculation] by blast
    ultimately show ?thesis using 3(2) frame_inv by (auto simp: sends_def)
  qed (use s1 try_send_caravan_inv(1) in blast)+
qed



section \<open>An example connection\<close>

text \<open>
  An I/O queue with a write of 512 bytes, on a socket that takes everything; used to show that the
  hypotheses of the theorems can be met.
\<close>

definition ex_henv :: henv where
  "ex_henv = \<lparr>sizeof_command = 64, sizeof_cmd_pdu = 72, sizeof_data_pdu = 24, DIGEST_LENGTH = 4,
     i10_allowed_flags = 255, i10_delayed_doorbell_us = 50, i10_thru_nice = -19, online_cpus = 4,
     sendpage = (\<lambda>k n. Ret n), sendmsg = (\<lambda>k n. Ret n), wspace = (\<lambda>k. 1000000)\<rparr>"

definition ex_vec :: bio_vec where
  "ex_vec = \<lparr>bv_page = 7, bv_offset = 0, bv_len = 512\<rparr>"

definition ex_nreq :: nvme_tcp_request where
  "ex_nreq = \<lparr>req_write = True, req_async = False, special = None, data_len = 512, pdu_len = 512, pdu_sent = 0, req_ttag = 0,
     req_ddgst = [], bios = [\<lparr>tb_vecs = [ex_vec], tb_done = 0, tb_size = 512, tb_opf = 1\<rparr>],
     iter = \<lparr>it_vecs = [ex_vec], iov_offset = 0, it_count = 512\<rparr>, req_offset = 0, data_sent = 0,
     send_state = NVME_TCP_SEND_CMD_PDU, rx_data = [], req_h2c = None\<rparr>"

definition ex_queue :: nvme_tcp_queue where
  "ex_queue = \<lparr>queue_id = 1, io_cpu = 0, prio_class = 0, send_list = [], cur_request = None, cmnd_capsule_len = 64,
     hdr_digest = False, data_digest = False, snd_hash = [],
     caravan_iovs = replicate (I10_MAX_AGGREGATION_SIZE * 2) \<lparr>seg_mem = Page 0, seg_off = 0, seg_len = 0\<rparr>,
     caravan_len = 0, nr_iovs = 0, send_now = False, nr_caravan_req = 0,
     caravan_mapped = replicate I10_MAX_AGGREGATION_SIZE 0, nr_mapped = 0, nr_req = 0, timer_active = False, timer_set = 0,
     io_work = False, io_work_lat = False, sock_nospace = False\<rparr>"

definition ex_host :: host where
  "ex_host = \<lparr>hq = ex_queue,
     rx = \<lparr>rx_pdu = [], pdu_remaining = 24, data_remaining = None, ddgst_remaining = 0, nr_cqe = 0, rd_enabled = True,
           rcv_hash = [], exp_ddgst = [], recv_ddgst = []\<rparr>,
     reqs = (\<lambda>_. ex_nreq), wire = [], sock_pos = 0, completed = [], async_events = [], err_work = 0, kthread_nice = 0\<rparr>"

text \<open>The same queue with the command of request 0 in the caravan.\<close>

definition ex_loaded :: host where
  "ex_loaded = ex_host\<lparr>hq := ex_queue\<lparr>caravan_iovs := \<lparr>seg_mem = Pdu 0, seg_off = 0, seg_len = 72\<rparr> # tl (caravan_iovs ex_queue),
     nr_iovs := 1, caravan_len := 72, nr_req := 1, nr_caravan_req := 1, timer_active := True, timer_set := 1\<rparr>\<rparr>"

lemmas ex_host_defs = ex_henv_def ex_vec_def ex_nreq_def ex_queue_def ex_host_def ex_loaded_def

lemma ex_host_inv: "host_inv ex_henv ex_host" "host_inv ex_henv ex_loaded"
  by (simp_all add: host_inv_def caravan_ok_def caravan_segs_def prio_ok_def pending_def waiting_def segs_len_def
      i10_host_legacy_path_def i10_host_is_latency_def ex_host_defs i10_consts)

end
