(* ===== verification/Tcp_Host_Stream.thy ===== *)
theory Tcp_Host_Stream
  imports Tcp_Host_Inv
begin

text \<open>
  The receiving side of the host driver as a processor of a byte stream: it returns on every segment,
  does not depend on the segmentation, delivers the data of a request exactly, checks R2Ts and stops
  at the first error.
\<close>

section \<open>The data loop\<close>

text \<open>Where the next byte goes: the current iterator, or the next bio; \<open>Inl\<close> when there is none.\<close>

definition data_target :: "nvme_tcp_request \<Rightarrow> (nvme_tcp_request + nvme_tcp_request) option" where
  "data_target req =
     (if it_count (iter req) = 0
      then (case next_bio req of None \<Rightarrow> None
            | Some req1 \<Rightarrow> if bios req1 = [] then Some (Inl req1) else map_option Inr (nvme_tcp_init_iter req1))
      else Some (Inr req))"

lemma recv_data_loop_unfold:
  "recv_data_loop h f x =
     (let n = min (length (xl_bytes x)) (xl_rem x) in
      if n = 0 then Some (None, False, x)
      else case data_target (xl_req x) of
        None \<Rightarrow> None
      | Some (Inl req1) \<Rightarrow> Some (Some EIO, True, x\<lparr>xl_req := req1\<rparr>)
      | Some (Inr req2) \<Rightarrow>
          (case f of Some err \<Rightarrow> Some (Some err, False, x\<lparr>xl_req := req2\<rparr>)
           | None \<Rightarrow> recv_data_loop h f (copy_piece h (min n (it_count (iter req2))) req2 x)))"
proof -
  define n where "n = min (length (xl_bytes x)) (xl_rem x)"
  show ?thesis
  proof (cases "it_count (iter (xl_req x)) = 0")
  case c: True
  show ?thesis
  proof (cases "next_bio (xl_req x)")
    case None
    then show ?thesis using c by (subst recv_data_loop.simps, unfold Let_def, fold n_def) (simp add: data_target_def)
  next
    case (Some req1)
    show ?thesis
    proof (cases "nvme_tcp_init_iter req1")
      case None
      then show ?thesis using c Some by (subst recv_data_loop.simps, unfold Let_def, fold n_def) (simp add: data_target_def)
    next
      case init: (Some req2)
      show ?thesis using c Some init
        by (subst recv_data_loop.simps, unfold Let_def, fold n_def) (simp add: data_target_def)
    qed
  qed
next
  case c: False
  then show ?thesis
    by (subst recv_data_loop.simps, unfold Let_def, fold n_def) (cases f; simp add: data_target_def)
  qed
qed

lemma recv_data_induct:
  assumes "\<And>x. (\<And>req. min (length (xl_bytes x)) (xl_rem x) \<noteq> 0 \<Longrightarrow> data_target (xl_req x) = Some (Inr req) \<Longrightarrow>
      P (copy_piece h (min (min (length (xl_bytes x)) (xl_rem x)) (it_count (iter req))) req x)) \<Longrightarrow> P x"
  shows "P x"
proof -
  have "h' = h \<Longrightarrow> f = None \<Longrightarrow> P x" for h' and f :: "errno option"
  proof (induction h' f x rule: recv_data_loop.induct)
    case (1 h' f x)
    show ?case
    proof (rule assms)
      fix req assume n: "min (length (xl_bytes x)) (xl_rem x) \<noteq> 0" and d: "data_target (xl_req x) = Some (Inr req)"
      show "P (copy_piece h (min (min (length (xl_bytes x)) (xl_rem x)) (it_count (iter req))) req x)"
      proof (cases "it_count (iter (xl_req x)) = 0")
        case True
        then obtain req1 where "next_bio (xl_req x) = Some req1" "bios req1 \<noteq> []" "nvme_tcp_init_iter req1 = Some req"
          using d by (auto simp: data_target_def split: option.splits if_splits)
        then show ?thesis using "1.IH"(1) [OF refl n True] "1.prems" by simp
      next
        case False
        then have "req = xl_req x" using d by (simp add: data_target_def)
        then show ?thesis using "1.IH"(2) [OF refl n False] "1.prems" by simp
      qed
    qed
  qed
  then show ?thesis by blast
qed

lemma data_target_bios:
  assumes "bios req \<noteq> []"
  shows "data_target req \<noteq> None" "data_target req = Some (Inr req2) \<Longrightarrow> bios req2 \<noteq> []"
proof -
  have i: "nvme_tcp_init_iter q \<noteq> None" if "bios q \<noteq> []" for q
    using that by (auto simp: nvme_tcp_init_iter_def split: option.splits list.splits)
  show "data_target req \<noteq> None" using assms i
    by (auto simp: data_target_def next_bio_def split: list.splits)
  show "data_target req = Some (Inr req2) \<Longrightarrow> bios req2 \<noteq> []" using assms
    by (auto simp: data_target_def init_iter_bios split: option.splits if_splits)
qed

lemma copy_piece_sel [simp]:
  "xl_bytes (copy_piece h n req x) = drop n (xl_bytes x)" "xl_rem (copy_piece h n req x) = xl_rem x - n"
  "bios (xl_req (copy_piece h n req x)) = bios req"
  by (simp_all add: copy_piece_def)

definition loop_post :: "rx_loop \<Rightarrow> errno option \<times> bool \<times> rx_loop \<Rightarrow> bool" where
  "loop_post x y \<longleftrightarrow> (case y of (err, reset, x') \<Rightarrow> err = None \<longrightarrow>
     \<not> reset \<and> bios (xl_req x') \<noteq> [] \<and> xl_bytes x' = drop (xl_rem x) (xl_bytes x) \<and>
     xl_rem x' = xl_rem x - length (xl_bytes x))"

text \<open>Data can be received for a request as long as its current bio is not the null pointer.\<close>

lemma recv_data_loop_returns:
  "bios (xl_req x) \<noteq> [] \<Longrightarrow> \<exists>y. recv_data_loop h f x = Some y \<and> loop_post x y"
proof (induction x rule: recv_data_induct [where h = h])
  case (1 x)
  let ?n = "min (length (xl_bytes x)) (xl_rem x)"
  show ?case
  proof (cases "?n = 0")
    case True
    then have "recv_data_loop h f x = Some (None, False, x)" by (subst recv_data_loop_unfold) (simp add: Let_def True)
    moreover have "xl_bytes x = [] \<or> xl_rem x = 0"
      using True by (cases "length (xl_bytes x) \<le> xl_rem x") (simp_all add: min_def)
    then have "loop_post x (None, False, x)" using "1.prems" by (elim disjE) (simp_all add: loop_post_def)
    ultimately show ?thesis by blast
  next
    case n: False
    consider req1 where "data_target (xl_req x) = Some (Inl req1)" | req2 where "data_target (xl_req x) = Some (Inr req2)"
      using data_target_bios(1) [OF "1.prems"] by (metis option.exhaust sum.exhaust)
    then show ?thesis
    proof cases
      case 1
      then have "recv_data_loop h f x = Some (Some EIO, True, x\<lparr>xl_req := req1\<rparr>)"
        by (subst recv_data_loop_unfold) (simp only: Let_def if_not_P [OF n] option.case sum.case)
      then show ?thesis by (simp add: loop_post_def)
    next
      case (2 req2)
      let ?m = "min ?n (it_count (iter req2))"
      obtain y where y: "recv_data_loop h f (copy_piece h ?m req2 x) = Some y" "loop_post (copy_piece h ?m req2 x) y"
        using "1.IH" [OF n 2] data_target_bios(2) [OF "1.prems" 2] by auto
      have "xl_rem x - ?m - (length (xl_bytes x) - ?m) = xl_rem x - length (xl_bytes x)" "?m \<le> xl_rem x" by linarith+
      then have "loop_post x y" using y(2) by (auto simp: loop_post_def split: prod.splits)
      moreover have "loop_post x (Some er, False, z)" for er z by (simp add: loop_post_def)
      moreover have "recv_data_loop h f x = (case f of Some err \<Rightarrow> Some (Some err, False, x\<lparr>xl_req := req2\<rparr>)
           | None \<Rightarrow> recv_data_loop h f (copy_piece h ?m req2 x))"
        by (subst recv_data_loop_unfold) (simp only: Let_def if_not_P [OF n] 2 option.case sum.case)
      ultimately show ?thesis using y(1) by (cases f) auto
    qed
  qed
qed

section \<open>The receive state machine returns\<close>

text \<open>
  Between PDUs a header is awaited. After the header of a data PDU its tag belongs to a request with
  a payload, and such a request has a bio.
\<close>

definition rx_wf :: "penv \<Rightarrow> host \<Rightarrow> bool" where
  "rx_wf p s \<longleftrightarrow>
     (pdu_remaining (rx s) = 0 \<longrightarrow>
        (\<exists>r. tag_to_rq p (data_command_id p (rx_pdu (rx s))) = Some r \<and> payload_bytes p r \<noteq> 0) \<and>
        (ddgst_remaining (rx s) = 0 \<longrightarrow> data_remaining (rx s) \<noteq> None)) \<and>
     (\<forall>r. payload_bytes p r \<noteq> 0 \<longrightarrow> bios (reqs s r) \<noteq> [])"

text \<open>The sizes of \<open>nvme-tcp.h\<close> the loop relies on.\<close>

definition sizes_ok :: "henv \<Rightarrow> penv \<Rightarrow> bool" where
  "sizes_ok e p \<longleftrightarrow> 0 < sizeof_rsp_pdu p \<and> 0 < DIGEST_LENGTH e"

text \<open>The bytes left, with a state that is left without taking a byte counted as half a byte.\<close>

definition rx_weight :: "u8 list \<Rightarrow> host \<Rightarrow> nat" where
  "rx_weight bs s = 2 * length bs + of_bool (nvme_tcp_recv_state (rx s) = NVME_TCP_RECV_DATA)"

definition bios_ok :: "penv \<Rightarrow> host \<Rightarrow> bool" where
  "bios_ok p s \<longleftrightarrow> (\<forall>r. payload_bytes p r \<noteq> 0 \<longrightarrow> bios (reqs s r) \<noteq> [])"

lemma init_recv_ctx_wf:
  assumes "sizes_ok e p" "bios_ok p s"
  shows "rx_wf p (nvme_tcp_init_recv_ctx e p s)" "nvme_tcp_recv_state (rx (nvme_tcp_init_recv_ctx e p s)) = NVME_TCP_RECV_PDU"
  using assms by (simp_all add: nvme_tcp_init_recv_ctx_def upd_rx_def rx_wf_def sizes_ok_def nvme_tcp_recv_state_def bios_ok_def)

lemma queue_request_rx: "rx (nvme_tcp_queue_request e r s) = rx s" "reqs (nvme_tcp_queue_request e r s) = reqs s"
  by (simp_all add: nvme_tcp_queue_request_def Let_def)

lemma handle_r2t_rx:
  assumes "nvme_tcp_handle_r2t e p pdu s = (None, s')"
  shows "rx s' = rx s" "bios (reqs s' r) = bios (reqs s r)"
  using assms
  by (auto simp: nvme_tcp_handle_r2t_def nvme_tcp_setup_h2c_data_pdu_def Let_def queue_request_rx upd_req_def
      split: option.splits if_splits)

lemma error_recovery_same: "rx (nvme_tcp_error_recovery p s) = rx s" "reqs (nvme_tcp_error_recovery p s) = reqs s"
  by (simp_all add: nvme_tcp_error_recovery_def)

lemma handle_comp_rx:
  assumes "nvme_tcp_handle_comp p pdu s = (None, s')"
  shows "pdu_remaining (rx s') = pdu_remaining (rx s)" "reqs s' = reqs s"
  using assms
  by (auto simp: nvme_tcp_handle_comp_def nvme_tcp_process_nvme_cqe_def count_cqe_def end_rq_def upd_rx_def split: option.splits if_splits)

lemma pdu_complete_wf:
  assumes sz: "sizes_ok e p" and b: "bios_ok p s" and z: "pdu_remaining (rx s) = 0" and c: "pdu_complete e p s = (None, s')"
  shows "rx_wf p s'"
proof -
  let ?pdu = "rx_pdu (rx s)"
  obtain s1 where s1: "handle_pdu e p ?pdu s1 = (None, s')" "s1 = s \<or> s1 = upd_rx (\<lambda>x. x\<lparr>rcv_hash := []\<rparr>) s"
    using c by (auto simp: pdu_complete_def nvme_tcp_check_ddgst_def Let_def split: option.splits if_splits)
  then have b1: "bios_ok p s1" "pdu_remaining (rx s1) = 0" "rx_pdu (rx s1) = ?pdu"
    using b z by (auto simp: bios_ok_def upd_rx_def)
  define s2 where "s2 = nvme_tcp_init_recv_ctx e p s1"
  have s2: "rx_wf p s2" "pdu_remaining (rx s2) \<noteq> 0" "bios_ok p s2"
    using init_recv_ctx_wf(1) [OF sz b1(1)] sz b1(1)
    by (simp_all add: s2_def nvme_tcp_init_recv_ctx_def upd_rx_def sizes_ok_def bios_ok_def)
  show ?thesis
  proof (cases "hdr_type p ?pdu")
    case Nvme_tcp_c2h_data
    then show ?thesis using s1(1) b1
      by (auto simp: handle_pdu_def nvme_tcp_handle_c2h_data_def Let_def upd_rx_def rx_wf_def bios_ok_def split: option.splits if_splits)
  next
    case Nvme_tcp_rsp
    then have "nvme_tcp_handle_comp p ?pdu s2 = (None, s')" using s1(1) by (simp add: handle_pdu_def s2_def)
    then show ?thesis using handle_comp_rx [of p ?pdu s2 s'] s2 by (simp add: rx_wf_def bios_ok_def)
  next
    case Nvme_tcp_r2t
    then have "nvme_tcp_handle_r2t e p ?pdu s2 = (None, s')" using s1(1) by (simp add: handle_pdu_def s2_def)
    then show ?thesis using handle_r2t_rx [of e p ?pdu s2 s'] s2 by (simp add: rx_wf_def bios_ok_def)
  next
    case (Other_pdu n)
    then show ?thesis using s1(1) by (simp add: handle_pdu_def)
  qed
qed

definition step_post :: "penv \<Rightarrow> u8 list \<Rightarrow> host \<Rightarrow> errno option \<times> u8 list \<times> host \<Rightarrow> bool" where
  "step_post p bs s y \<longleftrightarrow> (case y of (err, bs', s') \<Rightarrow> err = None \<longrightarrow> rx_wf p s' \<and> rx_weight bs' s' < rx_weight bs s)"

lemma weight_drop: "0 < n \<Longrightarrow> n \<le> length bs \<Longrightarrow> rx_weight (drop n bs) s' < rx_weight bs s"
  by (auto simp: rx_weight_def)

lemma recv_pdu_post:
  assumes sz: "sizes_ok e p" and w: "rx_wf p s" and b: "bs \<noteq> []" and st: "pdu_remaining (rx s) \<noteq> 0"
  shows "step_post p bs s (nvme_tcp_recv_pdu e p bs s)"
proof -
  define n where "n = min (length bs) (pdu_remaining (rx s))"
  define s1 where "s1 = upd_rx (\<lambda>x. x\<lparr>rx_pdu := rx_pdu x @ take n bs, pdu_remaining := pdu_remaining x - n\<rparr>) s"
  have n: "0 < n" "n \<le> length bs" using b st by (auto simp: n_def)
  have b1: "bios_ok p s1" using w by (simp add: rx_wf_def bios_ok_def s1_def upd_rx_def)
  have eq: "nvme_tcp_recv_pdu e p bs s = (if pdu_remaining (rx s1) \<noteq> 0 then (None, drop n bs, s1)
      else (let (err, s2) = pdu_complete e p s1 in (err, drop n bs, s2)))"
    by (simp only: nvme_tcp_recv_pdu_def Let_def n_def s1_def)
  show ?thesis
  proof (cases "pdu_remaining (rx s1) = 0")
    case True
    obtain err s2 where c: "pdu_complete e p s1 = (err, s2)" by (cases "pdu_complete e p s1")
    then show ?thesis unfolding eq using True pdu_complete_wf [OF sz b1 True] weight_drop [OF n] by (simp add: step_post_def)
  next
    case False
    have "rx_wf p s1" using False b1 by (simp add: rx_wf_def bios_ok_def)
    then show ?thesis unfolding eq using False weight_drop [OF n] by (simp add: step_post_def)
  qed
qed

lemma recv_ddgst_post:
  assumes sz: "sizes_ok e p" and w: "rx_wf p s" and b: "bs \<noteq> []" and st: "pdu_remaining (rx s) = 0" "ddgst_remaining (rx s) \<noteq> 0"
  shows "\<exists>y. nvme_tcp_recv_ddgst e p bs s = Some y \<and> step_post p bs s y"
proof -
  define n where "n = min (length bs) (ddgst_remaining (rx s))"
  define s1 where "s1 = upd_rx (\<lambda>x. x\<lparr>recv_ddgst := recv_ddgst x @ take n bs, ddgst_remaining := ddgst_remaining x - n\<rparr>) s"
  have n: "0 < n" "n \<le> length bs" using b st by (auto simp: n_def)
  have b1: "bios_ok p s1" using w by (simp add: rx_wf_def bios_ok_def s1_def upd_rx_def)
  obtain r where r: "tag_to_rq p (data_command_id p (rx_pdu (rx s1))) = Some r" "payload_bytes p r \<noteq> 0"
    using w st by (auto simp: rx_wf_def s1_def upd_rx_def)
  define s2 where "s2 = count_cqe (nvme_tcp_end_request r (SC_SUCCESS p) s1)"
  have b2: "bios_ok p s2" using b1 by (simp add: bios_ok_def s2_def count_cqe_def nvme_tcp_end_request_def end_rq_def upd_rx_def)
  have eq: "nvme_tcp_recv_ddgst e p bs s = (if ddgst_remaining (rx s1) \<noteq> 0 then Some (None, drop n bs, s1)
      else if recv_ddgst (rx s1) \<noteq> exp_ddgst (rx s1) then Some (Some EIO, drop n bs, s1)
      else if F_DATA_SUCCESS p (rx_pdu (rx s1)) then Some (None, drop n bs, nvme_tcp_init_recv_ctx e p s2)
      else Some (None, drop n bs, nvme_tcp_init_recv_ctx e p s1))"
    by (simp only: nvme_tcp_recv_ddgst_def Let_def n_def [symmetric] s1_def [symmetric] r option.case s2_def)
  have "rx_wf p s1" if "ddgst_remaining (rx s1) \<noteq> 0"
    using that r b1 st by (auto simp: rx_wf_def bios_ok_def)
  then show ?thesis unfolding eq
    using weight_drop [OF n] init_recv_ctx_wf [OF sz b1] init_recv_ctx_wf [OF sz b2] by (simp add: step_post_def)
qed

lemma data_complete_wf:
  assumes sz: "sizes_ok e p" and b: "bios_ok p s" and st: "pdu_remaining (rx s) = 0"
    and r: "tag_to_rq p (data_command_id p (rx_pdu (rx s))) = Some q" "payload_bytes p q \<noteq> 0"
  shows "rx_wf p (data_complete e p r s)" "nvme_tcp_recv_state (rx (data_complete e p r s)) \<noteq> NVME_TCP_RECV_DATA"
proof -
  have b2: "bios_ok p (count_cqe (nvme_tcp_end_request r (SC_SUCCESS p) s))"
    using b by (simp add: bios_ok_def count_cqe_def nvme_tcp_end_request_def end_rq_def upd_rx_def)
  have "rx_wf p (data_complete e p r s) \<and> nvme_tcp_recv_state (rx (data_complete e p r s)) \<noteq> NVME_TCP_RECV_DATA"
  proof (cases "data_digest (hq s)")
    case True
    define s' where "s' = upd_rx (\<lambda>x. x\<lparr>exp_ddgst := digest p (rcv_hash x), ddgst_remaining := DIGEST_LENGTH e, recv_ddgst := []\<rparr>) s"
    have "rx_pdu (rx s') = rx_pdu (rx s)" "pdu_remaining (rx s') = 0" "ddgst_remaining (rx s') \<noteq> 0" "reqs s' = reqs s"
      using st sz by (simp_all add: s'_def upd_rx_def sizes_ok_def)
    then have "rx_wf p s'" "nvme_tcp_recv_state (rx s') \<noteq> NVME_TCP_RECV_DATA"
      using r b by (auto simp: rx_wf_def bios_ok_def nvme_tcp_recv_state_def)
    then show ?thesis using True by (simp add: data_complete_def s'_def)
  next
    case False
    then show ?thesis using init_recv_ctx_wf [OF sz b] init_recv_ctx_wf [OF sz b2] by (simp add: data_complete_def)
  qed
  then show "rx_wf p (data_complete e p r s)" "nvme_tcp_recv_state (rx (data_complete e p r s)) \<noteq> NVME_TCP_RECV_DATA"
    by simp_all
qed

lemma recv_data_post:
  assumes sz: "sizes_ok e p" and w: "rx_wf p s" and b: "bs \<noteq> []" and st: "pdu_remaining (rx s) = 0" "ddgst_remaining (rx s) = 0"
  shows "\<exists>y. nvme_tcp_recv_data e p bs s = Some y \<and> step_post p bs s y"
proof -
  obtain r rem where r: "tag_to_rq p (data_command_id p (rx_pdu (rx s))) = Some r" "payload_bytes p r \<noteq> 0"
    and rem: "data_remaining (rx s) = Some rem"
    using w st by (auto simp: rx_wf_def)
  define x0 where "x0 = \<lparr>xl_bytes = bs, xl_rem = rem, xl_req = reqs s r, xl_hash = rcv_hash (rx s)\<rparr>"
  have "bios (xl_req x0) \<noteq> []" using w r(2) by (simp add: x0_def rx_wf_def)
  then obtain err reset x where l: "recv_data_loop (data_digest (hq s)) (copy_fault p r) x0 = Some (err, reset, x)"
    and post: "loop_post x0 (err, reset, x)"
    using recv_data_loop_returns by (metis prod_cases3)
  define s1 where "s1 = upd_rx (\<lambda>c. c\<lparr>data_remaining := Some (xl_rem x), rcv_hash := xl_hash x\<rparr>) (upd_req r (\<lambda>_. xl_req x) s)"
  define s2 where "s2 = (if reset then nvme_tcp_init_recv_ctx e p s1 else s1)"
  have eq: "nvme_tcp_recv_data e p bs s = Some (case err of Some er \<Rightarrow> (Some er, xl_bytes x, s2)
      | None \<Rightarrow> (None, xl_bytes x, if xl_rem x = 0 then data_complete e p r s2 else s2))"
    by (simp add: nvme_tcp_recv_data_def r rem l [unfolded x0_def] s1_def [symmetric] s2_def [symmetric] split: option.splits)
  show ?thesis
  proof (cases err)
    case (Some er)
    then show ?thesis unfolding eq by (simp add: step_post_def)
  next
    case None
    then have x: "\<not> reset" "bios (xl_req x) \<noteq> []" "xl_bytes x = drop rem bs" "xl_rem x = rem - length bs"
      using post by (simp_all add: loop_post_def x0_def)
    have s2: "s2 = s1" using x(1) by (simp add: s2_def)
    have b1: "bios_ok p s1" using w x(2) by (simp add: rx_wf_def bios_ok_def s1_def upd_rx_def upd_req_def)
    have rx1: "pdu_remaining (rx s1) = 0" "ddgst_remaining (rx s1) = 0" "rx_pdu (rx s1) = rx_pdu (rx s)" "data_remaining (rx s1) \<noteq> None"
      using st by (simp_all add: s1_def upd_rx_def upd_req_def)
    have d0: "nvme_tcp_recv_state (rx s) = NVME_TCP_RECV_DATA" using st by (simp add: nvme_tcp_recv_state_def)
    show ?thesis
    proof (cases "xl_rem x = 0")
      case True
      note dc = data_complete_wf [OF sz b1 rx1(1) r [folded rx1(3)], of r]
      have "rx_weight (drop rem bs) (data_complete e p r s1) < rx_weight bs s"
        using dc(2) d0 by (simp add: rx_weight_def)
      then show ?thesis unfolding eq using None True dc(1) x s2 by (simp add: step_post_def)
    next
      case False
      then have "length bs < rem" using x(4) by simp
      then have "rx_weight (drop rem bs) s1 < rx_weight bs s" using b d0 by (simp add: rx_weight_def)
      moreover have "rx_wf p s1" using b1 rx1 r by (auto simp: rx_wf_def bios_ok_def)
      ultimately show ?thesis unfolding eq using None False x s2 by (simp add: step_post_def)
    qed
  qed
qed

lemma recv_step_post:
  assumes "sizes_ok e p" "rx_wf p s" "bs \<noteq> []"
  shows "\<exists>y. recv_step e p bs s = Some y \<and> step_post p bs s y"
proof (cases "pdu_remaining (rx s) = 0")
  case True
  then show ?thesis using recv_ddgst_post [OF assms] recv_data_post [OF assms]
    by (simp add: recv_step_def nvme_tcp_recv_state_def)
next
  case False
  then have "recv_step e p bs s = Some (nvme_tcp_recv_pdu e p bs s)" by (simp add: recv_step_def nvme_tcp_recv_state_def)
  then show ?thesis using recv_pdu_post [OF assms False] by blast
qed

lemma recv_skb_returns:
  assumes "sizes_ok e p" "rx_wf p s"
  shows "\<exists>err s'. nvme_tcp_recv_skb e p bs s = Some (err, s') \<and> (err = None \<longrightarrow> rx_wf p s')"
  using assms(2)
proof (induction "rx_weight bs s" arbitrary: bs s rule: less_induct)
  case less
  show ?case
  proof (cases "bs = []")
    case True
    then show ?thesis using less.prems by (subst nvme_tcp_recv_skb.simps) simp
  next
    case False
    then obtain err bs' s' where y: "recv_step e p bs s = Some (err, bs', s')" and post: "step_post p bs s (err, bs', s')"
      using recv_step_post [OF assms(1) less.prems] by (metis prod_cases3)
    show ?thesis
    proof (cases err)
      case None
      then obtain err2 s2 where "nvme_tcp_recv_skb e p bs' s' = Some (err2, s2)" "err2 = None \<longrightarrow> rx_wf p s2"
        using less.hyps [of bs' s'] post by (auto simp: step_post_def)
      then show ?thesis using False y None by (subst nvme_tcp_recv_skb.simps) simp
    next
      case (Some er)
      then show ?thesis using False y by (subst nvme_tcp_recv_skb.simps) simp
    qed
  qed
qed

section \<open>Segmentation\<close>

lemma skip_vecs_add: "skip_vecs (fst (skip_vecs vs n)) (snd (skip_vecs vs n) + b) = skip_vecs vs (n + b)"
  by (induction vs n rule: skip_vecs.induct) auto

lemma iov_iter_advance_add: "iov_iter_advance b (iov_iter_advance a i) = iov_iter_advance (a + b) i"
  using skip_vecs_add [of "it_vecs i" "iov_offset i + a" b]
  by (auto simp: iov_iter_advance_def add.assoc split: prod.splits)

lemma advance_count: "it_count (iov_iter_advance n i) = it_count i - n"
  by (simp add: iov_iter_advance_def split: prod.splits)

definition with_more :: "u8 list \<Rightarrow> rx_loop \<Rightarrow> rx_loop" where
  "with_more b x = x\<lparr>xl_bytes := xl_bytes x @ b\<rparr>"

lemma more_sel [simp]: "xl_bytes (with_more b x) = xl_bytes x @ b" "xl_rem (with_more b x) = xl_rem x" "xl_req (with_more b x) = xl_req x"
  by (simp_all add: with_more_def)

lemma copy_piece_more: "n \<le> length (xl_bytes x) \<Longrightarrow> copy_piece h n req (with_more b x) = with_more b (copy_piece h n req x)"
  by (simp add: copy_piece_def with_more_def)

text \<open>Two pieces copied one after the other are one piece.\<close>

lemma copy_piece_add:
  assumes "n = length (xl_bytes x)"
  shows "copy_piece h m (xl_req (copy_piece h n req x)) (with_more b (copy_piece h n req x)) = copy_piece h (n + m) req (with_more b x)"
  using assms by (simp add: copy_piece_def with_more_def iov_iter_advance_add)

text \<open>
  The loop on a longer segment does what the loop on its first part does, and then goes on with the
  second part.
\<close>

definition split_post :: "bool \<Rightarrow> errno option \<Rightarrow> u8 list \<Rightarrow> rx_loop \<Rightarrow> errno option \<times> bool \<times> rx_loop \<Rightarrow> bool" where
  "split_post h f b x y \<longleftrightarrow> (case y of (err, reset, x') \<Rightarrow>
     recv_data_loop h f (with_more b x) = (if err = None then recv_data_loop h f (with_more b x') else Some (err, reset, with_more b x')))"

lemma recv_data_loop_split:
  "recv_data_loop h f x = Some y \<Longrightarrow> split_post h f b x y"
proof (induction x rule: recv_data_induct [where h = h])
  case (1 x)
  define n where "n = min (length (xl_bytes x)) (xl_rem x)"
  define n' where "n' = min (length (xl_bytes (with_more b x))) (xl_rem (with_more b x))"
  note u = recv_data_loop_unfold [of h f x, unfolded Let_def, folded n_def]
  note u' = recv_data_loop_unfold [of h f "with_more b x", unfolded Let_def, folded n'_def]
  show ?case
  proof (cases "n = 0")
    case True
    then have "y = (None, False, x)" using "1.prems" u by simp
    then show ?thesis by (simp add: split_post_def)
  next
    case n: False
    then have n': "n' \<noteq> 0" "n \<le> n'" by (auto simp: n_def n'_def)
    consider "data_target (xl_req x) = None" | req1 where "data_target (xl_req x) = Some (Inl req1)"
      | req2 where "data_target (xl_req x) = Some (Inr req2)"
      by (metis option.exhaust sum.exhaust)
    then show ?thesis
    proof cases
      case 1
      then show ?thesis using u n "1.prems" by simp
    next
      case (2 req1)
      then have "y = (Some EIO, True, x\<lparr>xl_req := req1\<rparr>)" using u n "1.prems" by simp
      moreover have "recv_data_loop h f (with_more b x) = Some (Some EIO, True, (with_more b x)\<lparr>xl_req := req1\<rparr>)"
        using u' n' 2 by simp
      ultimately show ?thesis by (simp add: split_post_def with_more_def)
    next
      case (3 req2)
      show ?thesis
      proof (cases f)
        case (Some er)
        then have "y = (Some er, False, x\<lparr>xl_req := req2\<rparr>)" using u n 3 "1.prems" by simp
        moreover have "recv_data_loop h f (with_more b x) = Some (Some er, False, (with_more b x)\<lparr>xl_req := req2\<rparr>)"
          using u' n' 3 Some by simp
        ultimately show ?thesis by (simp add: split_post_def with_more_def)
      next
        case None
        define m where "m = min n (it_count (iter req2))"
        define m' where "m' = min n' (it_count (iter req2))"
        define x1 where "x1 = copy_piece h m req2 x"
        have y1: "recv_data_loop h f x1 = Some y" using u n 3 None "1.prems" by (simp add: x1_def m_def)
        have l': "recv_data_loop h f (with_more b x) = recv_data_loop h f (copy_piece h m' req2 (with_more b x))"
          using u' n' 3 None by (simp add: m'_def)
        have IH: "split_post h f b x1 y"
          using "1.IH" [folded n_def, OF n 3, folded m_def, folded x1_def] y1 by simp
        show ?thesis
        proof (cases "m = m'")
          case True
          have "m \<le> length (xl_bytes x)" by (simp add: m_def n_def)
          then have "recv_data_loop h f (with_more b x) = recv_data_loop h f (with_more b x1)"
            using l' True by (simp add: x1_def copy_piece_more)
          then show ?thesis using IH by (simp add: split_post_def split: prod.splits)
        next
          case False
          then have m: "m = length (xl_bytes x)" "m < m'" using n'(2) by (auto simp: m_def m'_def n_def n'_def)
          have x1: "xl_bytes x1 = []" "xl_rem x1 = xl_rem x - m" using m by (simp_all add: x1_def)
          then have "y = (None, False, x1)" using y1 by (subst (asm) recv_data_loop_unfold) simp
          moreover have "recv_data_loop h f (with_more b x1) = recv_data_loop h f (with_more b x)"
          proof -
            define k where "k = min (length b) (xl_rem x - m)"
            have c: "m < it_count (iter req2)" "k \<noteq> 0" using m n n' by (auto simp: k_def m'_def n'_def)
            have t: "data_target (xl_req x1) = Some (Inr (xl_req x1))" "it_count (iter (xl_req x1)) = it_count (iter req2) - m"
              using c(1) by (simp_all add: data_target_def x1_def copy_piece_def advance_count)
            have k: "m + min k (it_count (iter req2) - m) = m'" using m c by (auto simp: k_def m'_def n'_def)
            have "recv_data_loop h f (with_more b x1) =
                recv_data_loop h f (copy_piece h (min k (it_count (iter req2) - m)) (xl_req x1) (with_more b x1))"
              using c(2) t None x1 by (subst recv_data_loop_unfold) (simp add: k_def [symmetric])
            also have "copy_piece h (min k (it_count (iter req2) - m)) (xl_req x1) (with_more b x1) = copy_piece h m' req2 (with_more b x)"
              using copy_piece_add [OF m(1), of h "min k (it_count (iter req2) - m)" req2 b] k by (simp add: x1_def)
            finally show ?thesis using l' by simp
          qed
          ultimately show ?thesis by (simp add: split_post_def)
        qed
      qed
    qed
  qed
qed

text \<open>
  A step on a longer segment: the step on its first part, or, when that part is used up in the middle
  of a header, of data or of a digest, the same as going on with the second part.
\<close>

definition step_split :: "henv \<Rightarrow> penv \<Rightarrow> u8 list \<Rightarrow> u8 list \<Rightarrow> host \<Rightarrow> errno option \<times> u8 list \<times> host \<Rightarrow> bool" where
  "step_split e p b1 b2 s y \<longleftrightarrow> (case y of (err, rest, s1) \<Rightarrow>
     recv_step e p (b1 @ b2) s = Some (err, rest @ b2, s1) \<or>
     err = None \<and> rest = [] \<and> recv_step e p (b1 @ b2) s = recv_step e p b2 s1)"

lemma recv_pdu_split:
  assumes st: "pdu_remaining (rx s) \<noteq> 0"
  shows "step_split e p b1 b2 s (nvme_tcp_recv_pdu e p b1 s)"
proof -
  define rem where "rem = pdu_remaining (rx s)"
  define take_hdr where "take_hdr b s = upd_rx (\<lambda>x. x\<lparr>rx_pdu := rx_pdu x @ b, pdu_remaining := pdu_remaining x - length b\<rparr>) s"
    for b :: "u8 list" and s :: host
  have rem': "pdu_remaining (rx (take_hdr b s)) = pdu_remaining (rx s) - length b" for b s by (simp add: take_hdr_def upd_rx_def)
  have step: "nvme_tcp_recv_pdu e p b s = (let s1 = take_hdr (take (pdu_remaining (rx s)) b) s in
      if pdu_remaining (rx s1) \<noteq> 0 then (None, drop (pdu_remaining (rx s)) b, s1)
      else (let (err, s2) = pdu_complete e p s1 in (err, drop (pdu_remaining (rx s)) b, s2)))" for b s
    by (simp add: nvme_tcp_recv_pdu_def take_hdr_def Let_def min_def split: prod.splits)
  have state: "recv_step e p b s = Some (nvme_tcp_recv_pdu e p b s)" if "pdu_remaining (rx s) \<noteq> 0" for b s
    using that by (simp add: recv_step_def nvme_tcp_recv_state_def)
  show ?thesis
  proof (cases "rem \<le> length b1")
    case True
    then show ?thesis using st
      by (simp add: step_split_def state step Let_def rem' rem_def [symmetric] split: prod.splits)
  next
    case False
    then have s1: "nvme_tcp_recv_pdu e p b1 s = (None, [], take_hdr b1 s)"
      by (simp add: step rem' rem_def)
    have "take_hdr (take (rem - length b1) b2) (take_hdr b1 s) = take_hdr (b1 @ take (rem - length b1) b2) s"
      by (simp add: take_hdr_def upd_rx_def)
    then have "nvme_tcp_recv_pdu e p (b1 @ b2) s = nvme_tcp_recv_pdu e p b2 (take_hdr b1 s)"
      using False by (simp add: step rem' rem_def [symmetric] Let_def)
    then show ?thesis unfolding s1 using st False by (simp add: step_split_def state rem' rem_def)
  qed
qed

lemma recv_ddgst_split:
  assumes st: "pdu_remaining (rx s) = 0" "ddgst_remaining (rx s) \<noteq> 0" and y: "nvme_tcp_recv_ddgst e p b1 s = Some y"
  shows "step_split e p b1 b2 s y"
proof -
  define rem where "rem = ddgst_remaining (rx s)"
  define take_dg where "take_dg b s = upd_rx (\<lambda>x. x\<lparr>recv_ddgst := recv_ddgst x @ b, ddgst_remaining := ddgst_remaining x - length b\<rparr>) s"
    for b :: "u8 list" and s :: host
  define fin where "fin rest s1 = (if recv_ddgst (rx s1) \<noteq> exp_ddgst (rx s1) then Some (Some EIO, rest, s1)
      else if F_DATA_SUCCESS p (rx_pdu (rx s1)) then
        (case tag_to_rq p (data_command_id p (rx_pdu (rx s1))) of
           None \<Rightarrow> None
         | Some r \<Rightarrow> Some (None, rest, nvme_tcp_init_recv_ctx e p (count_cqe (nvme_tcp_end_request r (SC_SUCCESS p) s1))))
      else Some (None, rest, nvme_tcp_init_recv_ctx e p s1))" for rest :: "u8 list" and s1
  have rem': "ddgst_remaining (rx (take_dg b s)) = ddgst_remaining (rx s) - length b"
    "pdu_remaining (rx (take_dg b s)) = pdu_remaining (rx s)" for b s by (simp_all add: take_dg_def upd_rx_def)
  have tk: "take (min (length b) k) b = take k b" "drop (min (length b) k) b = drop k b" for b :: "u8 list" and k
    by (simp_all add: min_def)
  have step: "nvme_tcp_recv_ddgst e p b s = (let s1 = take_dg (take (ddgst_remaining (rx s)) b) s in
      if ddgst_remaining (rx s1) \<noteq> 0 then Some (None, drop (ddgst_remaining (rx s)) b, s1)
      else fin (drop (ddgst_remaining (rx s)) b) s1)" for b s
    by (simp only: nvme_tcp_recv_ddgst_def take_dg_def fin_def Let_def tk length_take)
  have fin: "fin (rest @ b2) s1 = map_option (\<lambda>(err, rest, s2). (err, rest @ b2, s2)) (fin rest s1)" for rest s1
    by (simp add: fin_def split: option.splits)
  have state: "recv_step e p b s = nvme_tcp_recv_ddgst e p b s" if "pdu_remaining (rx s) = 0" "ddgst_remaining (rx s) \<noteq> 0" for b s
    using that by (simp add: recv_step_def nvme_tcp_recv_state_def)
  show ?thesis
  proof (cases "rem \<le> length b1")
    case True
    have "fin (drop rem b1) (take_dg (take rem b1) s) = Some y" using y True by (simp add: step rem' rem_def)
    then have "nvme_tcp_recv_ddgst e p (b1 @ b2) s = Some (case y of (err, rest, s2) \<Rightarrow> (err, rest @ b2, s2))"
      using True by (simp add: step rem' rem_def [symmetric] fin)
    then show ?thesis using st by (simp add: step_split_def state split: prod.splits)
  next
    case False
    then have s1: "y = (None, [], take_dg b1 s)" using y by (simp add: step rem' rem_def)
    have "take_dg (take (rem - length b1) b2) (take_dg b1 s) = take_dg (b1 @ take (rem - length b1) b2) s"
      by (simp add: take_dg_def upd_rx_def)
    then have "nvme_tcp_recv_ddgst e p (b1 @ b2) s = nvme_tcp_recv_ddgst e p b2 (take_dg b1 s)"
      using False by (simp add: step rem' rem_def [symmetric] Let_def)
    then show ?thesis unfolding s1 using st False by (simp add: step_split_def state rem' rem_def)
  qed
qed

text \<open>What \<open>nvme_tcp_recv_data\<close> makes of the result of its loop.\<close>

definition data_result ::
  "henv \<Rightarrow> penv \<Rightarrow> nat \<Rightarrow> host \<Rightarrow> errno option \<times> bool \<times> rx_loop \<Rightarrow> errno option \<times> u8 list \<times> host" where
  "data_result e p r s z = (case z of (err, reset, x) \<Rightarrow>
     (let s1 = upd_rx (\<lambda>c. c\<lparr>data_remaining := Some (xl_rem x), rcv_hash := xl_hash x\<rparr>) (upd_req r (\<lambda>_. xl_req x) s);
          s2 = (if reset then nvme_tcp_init_recv_ctx e p s1 else s1) in
      case err of
        Some er \<Rightarrow> (Some er, xl_bytes x, s2)
      | None \<Rightarrow> (None, xl_bytes x, if xl_rem x = 0 then data_complete e p r s2 else s2)))"

lemma recv_data_result:
  assumes "tag_to_rq p (data_command_id p (rx_pdu (rx s))) = Some r" "data_remaining (rx s) = Some rem"
  shows "nvme_tcp_recv_data e p bs s = map_option (data_result e p r s)
     (recv_data_loop (data_digest (hq s)) (copy_fault p r) \<lparr>xl_bytes = bs, xl_rem = rem, xl_req = reqs s r, xl_hash = rcv_hash (rx s)\<rparr>)"
  using assms
  by (cases "recv_data_loop (data_digest (hq s)) (copy_fault p r) \<lparr>xl_bytes = bs, xl_rem = rem, xl_req = reqs s r, xl_hash = rcv_hash (rx s)\<rparr>")
    (auto simp: nvme_tcp_recv_data_def data_result_def Let_def)

lemma data_result_more:
  "data_result e p r s (err, reset, with_more b x) = (case data_result e p r s (err, reset, x) of (er, rest, s') \<Rightarrow> (er, rest @ b, s'))"
  by (simp add: data_result_def Let_def with_more_def split: option.splits)

lemma data_result_again:
  "data_result e p r (upd_rx (\<lambda>c. c\<lparr>data_remaining := d, rcv_hash := h\<rparr>) (upd_req r f s)) z = data_result e p r s z"
  by (simp add: data_result_def Let_def upd_rx_def upd_req_def split: prod.splits)

lemma recv_data_split:
  assumes w: "rx_wf p s" and st: "pdu_remaining (rx s) = 0" "ddgst_remaining (rx s) = 0"
    and y: "nvme_tcp_recv_data e p b1 s = Some y"
  shows "step_split e p b1 b2 s y"
proof -
  obtain r rem where r: "tag_to_rq p (data_command_id p (rx_pdu (rx s))) = Some r" "payload_bytes p r \<noteq> 0"
    and rem: "data_remaining (rx s) = Some rem"
    using w st by (auto simp: rx_wf_def)
  define x0 where "x0 = \<lparr>xl_bytes = b1, xl_rem = rem, xl_req = reqs s r, xl_hash = rcv_hash (rx s)\<rparr>"
  define loop where "loop = recv_data_loop (data_digest (hq s)) (copy_fault p r)"
  have more0: "\<lparr>xl_bytes = b1 @ b2, xl_rem = rem, xl_req = reqs s r, xl_hash = rcv_hash (rx s)\<rparr> = with_more b2 x0"
    by (simp add: x0_def with_more_def)
  obtain err reset x where l: "loop x0 = Some (err, reset, x)" and yx: "y = data_result e p r s (err, reset, x)"
    using y recv_data_result [OF r(1) rem, of e b1] by (auto simp: loop_def x0_def)
  have long: "recv_step e p (b1 @ b2) s = map_option (data_result e p r s) (loop (with_more b2 x0))"
    using st recv_data_result [OF r(1) rem, of e "b1 @ b2"] more0 by (simp add: recv_step_def nvme_tcp_recv_state_def loop_def)
  have sp: "loop (with_more b2 x0) = (if err = None then loop (with_more b2 x) else Some (err, reset, with_more b2 x))"
    using recv_data_loop_split [OF l [unfolded loop_def], of b2] by (simp add: split_post_def loop_def)
  have "bios (xl_req x0) \<noteq> []" using w r(2) by (simp add: x0_def rx_wf_def)
  then have post: "loop_post x0 (err, reset, x)"
    using recv_data_loop_returns [of x0 "data_digest (hq s)" "copy_fault p r"] l by (auto simp: loop_def)
  have A: "step_split e p b1 b2 s y" if "loop (with_more b2 x0) = Some (err, reset, with_more b2 x)"
    using that long yx by (simp add: step_split_def data_result_more split: prod.splits)
  show ?thesis
  proof (cases "err = None \<and> xl_rem x \<noteq> 0")
    case False
    show ?thesis
    proof (cases "err = None")
      case True
      then have "\<not> reset" "xl_rem x = 0" using post False by (simp_all add: loop_post_def)
      moreover have "loop (with_more b2 x) = Some (None, False, with_more b2 x)"
        unfolding loop_def by (subst recv_data_loop_unfold) (simp add: \<open>xl_rem x = 0\<close>)
      ultimately show ?thesis using sp True by (intro A) simp
    next
      case False
      then show ?thesis using sp by (intro A) auto
    qed
  next
    case True
    then have x: "\<not> reset" "xl_rem x = rem - length b1" "xl_bytes x = drop rem b1"
      using post by (simp_all add: loop_post_def x0_def)
    then have bx: "xl_bytes x = []" using True by simp
    define s1 where "s1 = upd_rx (\<lambda>c. c\<lparr>data_remaining := Some (xl_rem x), rcv_hash := xl_hash x\<rparr>) (upd_req r (\<lambda>_. xl_req x) s)"
    have y1: "y = (None, [], s1)" using True x(1) bx yx by (simp add: data_result_def s1_def)
    have s1: "tag_to_rq p (data_command_id p (rx_pdu (rx s1))) = Some r" "data_remaining (rx s1) = Some (xl_rem x)"
      "pdu_remaining (rx s1) = 0" "ddgst_remaining (rx s1) = 0" "reqs s1 r = xl_req x" "rcv_hash (rx s1) = xl_hash x" "hq s1 = hq s"
      using r st by (simp_all add: s1_def upd_rx_def upd_req_def)
    have "with_more b2 x = \<lparr>xl_bytes = b2, xl_rem = xl_rem x, xl_req = xl_req x, xl_hash = xl_hash x\<rparr>"
      using bx by (cases x) (simp add: with_more_def)
    then have "recv_step e p b2 s1 = map_option (data_result e p r s1) (loop (with_more b2 x))"
      using recv_data_result [OF s1(1,2), of e b2] s1 by (simp add: recv_step_def nvme_tcp_recv_state_def loop_def)
    also have "data_result e p r s1 = data_result e p r s" by (rule ext) (simp add: s1_def data_result_again)
    finally show ?thesis unfolding y1 using long sp True by (simp add: step_split_def)
  qed
qed

lemma recv_step_split:
  assumes "rx_wf p s" "recv_step e p b1 s = Some y"
  shows "step_split e p b1 b2 s y"
  using assms recv_pdu_split [of s e p b1 b2] recv_ddgst_split [of s e p b1 y b2] recv_data_split [of p s e b1 y b2]
  by (auto simp: recv_step_def nvme_tcp_recv_state_def split: if_splits)

lemma recv_skb_append:
  assumes sz: "sizes_ok e p" and "rx_wf p s"
  shows "nvme_tcp_recv_skb e p (b1 @ b2) s =
     (case nvme_tcp_recv_skb e p b1 s of
        None \<Rightarrow> None
      | Some (Some er, s1) \<Rightarrow> Some (Some er, s1)
      | Some (None, s1) \<Rightarrow> nvme_tcp_recv_skb e p b2 s1)"
  using assms(2)
proof (induction "rx_weight b1 s" arbitrary: b1 s rule: less_induct)
  case less
  show ?case
  proof (cases "b1 = [] \<or> b2 = []")
    case True
    obtain err s1 where "nvme_tcp_recv_skb e p b1 s = Some (err, s1)" using recv_skb_returns [OF sz less.prems] by blast
    moreover have "nvme_tcp_recv_skb e p [] s' = Some (None, s')" for s' by (subst nvme_tcp_recv_skb.simps) simp
    ultimately show ?thesis using True by (cases err) auto
  next
    case False
    obtain err rest s1 where y: "recv_step e p b1 s = Some (err, rest, s1)" and post: "step_post p b1 s (err, rest, s1)"
      using recv_step_post [OF sz less.prems, of b1] False by (metis prod_cases3)
    have sp: "step_split e p b1 b2 s (err, rest, s1)" using recv_step_split [OF less.prems y] .
    have one: "nvme_tcp_recv_skb e p b1 s = (case err of Some er \<Rightarrow> Some (Some er, recv_failed p s1) | None \<Rightarrow> nvme_tcp_recv_skb e p rest s1)"
      using False y by (subst nvme_tcp_recv_skb.simps) simp
    consider "recv_step e p (b1 @ b2) s = Some (err, rest @ b2, s1)"
      | "err = None" "rest = []" "recv_step e p (b1 @ b2) s = recv_step e p b2 s1"
      using sp by (auto simp: step_split_def)
    then show ?thesis
    proof cases
      case 1
      have "nvme_tcp_recv_skb e p (b1 @ b2) s = (case err of Some er \<Rightarrow> Some (Some er, recv_failed p s1) | None \<Rightarrow> nvme_tcp_recv_skb e p (rest @ b2) s1)"
        using False 1 by (subst nvme_tcp_recv_skb.simps) simp
      then show ?thesis using less.hyps [of rest s1] post one by (cases err) (simp_all add: step_post_def)
    next
      case 2
      have "nvme_tcp_recv_skb e p [] s1 = Some (None, s1)" by (subst nvme_tcp_recv_skb.simps) simp
      moreover have "nvme_tcp_recv_skb e p (b1 @ b2) s = nvme_tcp_recv_skb e p b2 s1"
        using False 2(3) by (subst (1 2) nvme_tcp_recv_skb.simps) simp
      ultimately show ?thesis using 2 one by simp
    qed
  qed
qed

section \<open>An example of the PDU layout\<close>

definition ex_penv :: penv where
  "ex_penv = \<lparr>sizeof_rsp_pdu = 24, hdr_type = (\<lambda>b. if b ! 0 = 7 then Nvme_tcp_c2h_data else Other_pdu 9),
     hdr_hlen = (\<lambda>b. 24), hdr_plen = (\<lambda>b. 28), F_HDGST = (\<lambda>b. False), F_DDGST = (\<lambda>b. False),
     F_DATA_SUCCESS = (\<lambda>b. True), F_DATA_LAST = (\<lambda>b. True), digest = (\<lambda>b. [0, 0, 0, 0]), behind_pdu = (\<lambda>b. []),
     cqe_command_id = (\<lambda>b. 0), cqe_status = (\<lambda>b. 0), data_command_id = (\<lambda>b. 0), data_length = (\<lambda>b. 4),
     r2t_command_id = (\<lambda>b. 0), r2t_length = (\<lambda>b. 4), r2t_offset = (\<lambda>b. 0), r2t_ttag = (\<lambda>b. 0),
     tag_to_rq = Some, rq_tag_of = (\<lambda>r. r), payload_bytes = (\<lambda>r. 512), AQ_BLK_MQ_DEPTH = 31,
     SC_SUCCESS = 0, SC_HOST_PATH_ERROR = 880, to_resetting = (\<lambda>k. True), copy_fault = (\<lambda>r. None)\<rparr>"

text \<open>A connection in the middle of the data of request 0.\<close>

definition ex_receiving :: host where
  "ex_receiving = ex_host\<lparr>rx := (rx ex_host)\<lparr>rx_pdu := replicate 24 7, pdu_remaining := 0, data_remaining := Some 4\<rparr>\<rparr>"

lemma ex_rx_wf: "sizes_ok ex_henv ex_penv" "rx_wf ex_penv ex_host" "rx_wf ex_penv ex_receiving"
  by (simp_all add: sizes_ok_def rx_wf_def ex_penv_def ex_receiving_def ex_host_defs)

section \<open>Receiving is correct\<close>

text \<open>The segments of a stream in turn, up to the first error.\<close>

fun recv_all :: "henv \<Rightarrow> penv \<Rightarrow> u8 list list \<Rightarrow> host \<Rightarrow> (errno option \<times> host) option" where
  "recv_all e p [] s = Some (None, s)"
| "recv_all e p (b # bs) s =
     (case nvme_tcp_recv_skb e p b s of
        None \<Rightarrow> None
      | Some (Some er, s1) \<Rightarrow> Some (Some er, s1)
      | Some (None, s1) \<Rightarrow> recv_all e p bs s1)"

text \<open>
  C11: Receiving does not depend on how TCP cuts the stream. The receiver returns on every segment, and
  handing it the segments of a stream one by one, stopping at the first error, has the same result and
  the same effects as handing it the whole stream at once: header, data and digest may be split
  anywhere.
\<close>

theorem recv_segmentation:
  assumes "sizes_ok e p" "rx_wf p s"
  shows "nvme_tcp_recv_skb e p (concat segs) s = recv_all e p segs s \<and> recv_all e p segs s \<noteq> None"
  using assms(2)
proof (induction segs arbitrary: s)
  case Nil
  then show ?case by (subst nvme_tcp_recv_skb.simps) simp
next
  case (Cons b bs)
  obtain err s1 where r: "nvme_tcp_recv_skb e p b s = Some (err, s1)" "err = None \<longrightarrow> rx_wf p s1"
    using recv_skb_returns [OF assms(1) Cons.prems] by blast
  then show ?case using Cons.IH [of s1] recv_skb_append [OF assms(1) Cons.prems, of b "concat bs"] by (cases err) simp_all
qed

theorem recv_segmentation_witness:
  "nvme_tcp_recv_skb ex_henv ex_penv ([7] @ replicate 23 0 @ [1, 2] @ [3, 4]) ex_host =
     recv_all ex_henv ex_penv [[7], replicate 23 0 @ [1, 2], [3, 4]] ex_host"
  using recv_segmentation [OF ex_rx_wf(1,2), of "[[7], replicate 23 0 @ [1, 2], [3, 4]]"] by simp

section \<open>What is delivered\<close>

lemma data_target_rx:
  assumes "data_target req = Some (Inr req2)"
  shows "rx_data req2 = rx_data req"
  using assms by (auto simp: data_target_def next_bio_def nvme_tcp_init_iter_def split: option.splits if_splits list.splits)

definition delivered :: "rx_loop \<Rightarrow> errno option \<times> bool \<times> rx_loop \<Rightarrow> bool" where
  "delivered x y \<longleftrightarrow> (case y of (err, reset, x') \<Rightarrow>
     err = None \<longrightarrow> rx_data (xl_req x') = rx_data (xl_req x) @ take (xl_rem x) (xl_bytes x))"

lemma recv_data_loop_delivers: "recv_data_loop h f x = Some y \<Longrightarrow> delivered x y"
proof (induction x rule: recv_data_induct [where h = h])
  case (1 x)
  define n where "n = min (length (xl_bytes x)) (xl_rem x)"
  note u = recv_data_loop_unfold [of h f x, unfolded Let_def, folded n_def]
  show ?case
  proof (cases "n = 0")
    case True
    then have "take (xl_rem x) (xl_bytes x) = []" by (auto simp: n_def min_def split: if_splits)
    moreover have "y = (None, False, x)" using True "1.prems" u by simp
    ultimately show ?thesis by (simp add: delivered_def)
  next
    case n: False
    show ?thesis
    proof (cases "\<exists>req2. data_target (xl_req x) = Some (Inr req2) \<and> f = None")
      case True
      then obtain req2 where d: "data_target (xl_req x) = Some (Inr req2)" "f = None" by blast
      define m where "m = min n (it_count (iter req2))"
      have m: "m \<le> length (xl_bytes x)" "m \<le> xl_rem x" by (auto simp: m_def n_def)
      have "recv_data_loop h f (copy_piece h m req2 x) = Some y" using u n d "1.prems" by (simp add: m_def)
      then have "delivered (copy_piece h m req2 x) y" using "1.IH" [folded n_def, OF n d(1), folded m_def] by simp
      moreover have "take m (xl_bytes x) @ take (xl_rem x - m) (drop m (xl_bytes x)) = take (xl_rem x) (xl_bytes x)"
        using m by (metis le_add_diff_inverse take_add)
      ultimately show ?thesis using data_target_rx [OF d(1)]
        by (simp add: delivered_def copy_piece_def split: prod.splits)
    next
      case False
      then have "fst y \<noteq> None" using u n "1.prems" by (auto split: option.splits sum.splits)
      then show ?thesis by (auto simp: delivered_def)
    qed
  qed
qed

text \<open>
  C25: Data PDUs are delivered exactly. A step of the data state without an error hands the request of
  the PDU's tag the next bytes of the stream, as many as are both present and still expected, leaves
  the other requests alone, and hands back the rest of the stream.
\<close>

theorem recv_data_delivers:
  assumes r: "tag_to_rq p (data_command_id p (rx_pdu (rx s))) = Some r" and rem: "data_remaining (rx s) = Some rem"
    and b: "bios (reqs s r) \<noteq> []" and y: "nvme_tcp_recv_data e p bs s = Some (None, rest, s')"
  shows "rx_data (reqs s' r) = rx_data (reqs s r) @ take rem bs \<and> rest = drop rem bs \<and> (\<forall>q. q = r \<or> reqs s' q = reqs s q)"
proof -
  define x0 where "x0 = \<lparr>xl_bytes = bs, xl_rem = rem, xl_req = reqs s r, xl_hash = rcv_hash (rx s)\<rparr>"
  obtain err reset x where l: "recv_data_loop (data_digest (hq s)) (copy_fault p r) x0 = Some (err, reset, x)"
    and yx: "(None, rest, s') = data_result e p r s (err, reset, x)"
    using y recv_data_result [OF r rem, of e bs] by (auto simp: x0_def)
  have err: "err = None" using yx by (auto simp: data_result_def Let_def split: option.splits)
  have post: "loop_post x0 (err, reset, x)" using recv_data_loop_returns [of x0 "data_digest (hq s)" "copy_fault p r"] l b by (simp add: x0_def)
  have del: "rx_data (xl_req x) = rx_data (reqs s r) @ take rem bs" "xl_bytes x = drop rem bs" "\<not> reset"
    using recv_data_loop_delivers [OF l] post err by (simp_all add: delivered_def loop_post_def x0_def)
  have dc: "reqs (data_complete e p r t) = reqs t" for t
    by (simp add: data_complete_def nvme_tcp_init_recv_ctx_def count_cqe_def nvme_tcp_end_request_def end_rq_def upd_rx_def)
  have "reqs s' = (reqs s)(r := xl_req x)" "rest = xl_bytes x"
    using yx err del(3) by (auto simp: data_result_def Let_def dc upd_rx_def upd_req_def)
  then show ?thesis using del by simp
qed

theorem recv_data_delivers_witness:
  "\<exists>rest s'. nvme_tcp_recv_data ex_henv ex_penv [1, 2, 3, 4, 5] ex_receiving = Some (None, rest, s') \<and>
     rx_data (reqs s' 0) = [1, 2, 3, 4] \<and> rest = [5]"
proof -
  have r: "tag_to_rq ex_penv (data_command_id ex_penv (rx_pdu (rx ex_receiving))) = Some 0" "data_remaining (rx ex_receiving) = Some 4"
    "bios (reqs ex_receiving 0) \<noteq> []" "rx_data (reqs ex_receiving 0) = []" "copy_fault ex_penv 0 = None"
    by (simp_all add: ex_penv_def ex_receiving_def ex_host_defs)
  define x0 :: rx_loop where "x0 = \<lparr>xl_bytes = [1, 2, 3, 4, 5], xl_rem = 4, xl_req = reqs ex_receiving 0, xl_hash = rcv_hash (rx ex_receiving)\<rparr>"
  define x1 where "x1 = copy_piece (data_digest (hq ex_receiving)) 4 (reqs ex_receiving 0) x0"
  have "data_target (reqs ex_receiving 0) = Some (Inr (reqs ex_receiving 0))" "it_count (iter (reqs ex_receiving 0)) = 512"
    by (simp_all add: data_target_def ex_receiving_def ex_host_defs)
  then have "recv_data_loop (data_digest (hq ex_receiving)) (copy_fault ex_penv 0) x0 =
      recv_data_loop (data_digest (hq ex_receiving)) (copy_fault ex_penv 0) x1"
    using r(5) by (subst recv_data_loop_unfold) (simp add: x0_def x1_def eval_nat_numeral)
  also have "\<dots> = Some (None, False, x1)" by (subst recv_data_loop_unfold) (simp add: x1_def x0_def)
  finally have "nvme_tcp_recv_data ex_henv ex_penv [1, 2, 3, 4, 5] ex_receiving =
      Some (data_result ex_henv ex_penv 0 ex_receiving (None, False, x1))"
    using recv_data_result [OF r(1,2), of ex_henv "[1, 2, 3, 4, 5]"] by (simp only: x0_def option.map)
  then obtain rest s' where y: "nvme_tcp_recv_data ex_henv ex_penv [1, 2, 3, 4, 5] ex_receiving = Some (None, rest, s')"
    by (simp only: data_result_def prod.case option.case Let_def)
  show ?thesis using y recv_data_delivers [OF r(1-3) y] r(4) by simp
qed

lemma recv_skb_error: "nvme_tcp_recv_skb e p bs s = Some y \<Longrightarrow> fst y = None \<or> (\<exists>t. snd y = recv_failed p t)"
  by (rule nvme_tcp_recv_skb.raw_induct [where P = "\<lambda>e p bs s y. fst y = None \<or> (\<exists>t. snd y = recv_failed p t)"])
    (fastforce split: if_splits bind_splits option.splits)+

text \<open>
  Errors stop the connection. When a segment cannot be processed the receiver disables reading and
  asks for error recovery, and from then on arriving data no longer schedules the receiver.
\<close>

theorem recv_error_stops:
  assumes "nvme_tcp_recv_skb e p bs s = Some (Some err, s')"
  shows "\<not> rd_enabled (rx s') \<and> nvme_tcp_data_ready s' = s' \<and>
    (\<exists>t. s' = nvme_tcp_error_recovery p (upd_rx (\<lambda>x. x\<lparr>rd_enabled := False\<rparr>) t))"
proof -
  obtain t where "s' = nvme_tcp_error_recovery p (upd_rx (\<lambda>x. x\<lparr>rd_enabled := False\<rparr>) t)"
    using recv_skb_error [OF assms] by (auto simp: recv_failed_def)
  moreover from this have "\<not> rd_enabled (rx s')" by (simp add: error_recovery_same upd_rx_def)
  ultimately show ?thesis by (auto simp: nvme_tcp_data_ready_def)
qed

theorem recv_error_stops_witness:
  "\<exists>s'. nvme_tcp_recv_skb ex_henv ex_penv (replicate 24 0) ex_host = Some (Some EINVAL, s') \<and> \<not> rd_enabled (rx s')"
proof -
  have "recv_step ex_henv ex_penv (replicate 24 0) ex_host = Some (Some EINVAL, [], upd_rx (\<lambda>x. x\<lparr>rx_pdu := replicate 24 0, pdu_remaining := 0\<rparr>) ex_host)"
    by (simp add: recv_step_def nvme_tcp_recv_state_def nvme_tcp_recv_pdu_def pdu_complete_def handle_pdu_def upd_rx_def Let_def
        ex_host_def ex_queue_def ex_penv_def)
  then have "nvme_tcp_recv_skb ex_henv ex_penv (replicate 24 0) ex_host =
      Some (Some EINVAL, recv_failed ex_penv (upd_rx (\<lambda>x. x\<lparr>rx_pdu := replicate 24 0, pdu_remaining := 0\<rparr>) ex_host))"
    by (subst nvme_tcp_recv_skb.simps) simp
  then show ?thesis using recv_error_stops by blast
qed

end
