(* ===== verification/Tcp_Host_Correct.thy ===== *)
theory Tcp_Host_Correct
  imports Tcp_Host_Inv
begin

text \<open>
  The properties of the sending side of the host driver: accounting of delayed requests and caravans,
  order of the byte stream, the doorbell, and the two ways in which the stream is damaged.
\<close>

section \<open>Every operation on a queue keeps the invariant\<close>

text \<open>
  What can happen to a queue: the block layer or an R2T queues a request, the sender runs, a
  request is taken off after an error, the doorbell timer fires, and the owner of a request that is
  not queued changes it.
\<close>

datatype host_op = Queue_request nat | Try_send | Done_send | Doorbell_timeout | Set_request nat nvme_tcp_request

fun host_exec :: "henv \<Rightarrow> host_op \<Rightarrow> host \<Rightarrow> host option" where
  "host_exec e (Queue_request r) s = Some (nvme_tcp_queue_request e r s)"
| "host_exec e Try_send s = map_option snd (nvme_tcp_try_send e s)"
| "host_exec e Done_send s = Some (nvme_tcp_done_send_req s)"
| "host_exec e Doorbell_timeout s = Some (i10_host_doorbell_timeout s)"
| "host_exec e (Set_request r req) s = Some (upd_req r (\<lambda>_. req) s)"

fun host_ok :: "host_op \<Rightarrow> host \<Rightarrow> bool" where
  "host_ok (Queue_request r) s = (r \<notin> set (pending (hq s)))"
| "host_ok Try_send s = True"
| "host_ok Done_send s = True"
| "host_ok Doorbell_timeout s = timer_active (hq s)"
| "host_ok (Set_request r req) s = (r \<notin> set (pending (hq s)) \<and> send_state req \<noteq> NVME_TCP_SEND_DDGST)"

text \<open>Timer and work items aside, queueing a request only appends it to the list and counts it.\<close>

definition same_but_doorbell :: "nvme_tcp_queue \<Rightarrow> nvme_tcp_queue \<Rightarrow> bool" where
  "same_but_doorbell q q' \<longleftrightarrow>
     (\<exists>a t w l. q' = q\<lparr>timer_active := a, timer_set := t, io_work := w, io_work_lat := l\<rparr>)"

lemma doorbell_refl: "same_but_doorbell q q"
  unfolding same_but_doorbell_def
  by (intro exI [of _ "timer_active q"] exI [of _ "timer_set q"] exI [of _ "io_work q"] exI [of _ "io_work_lat q"]) simp

lemma doorbell_start: "same_but_doorbell q (q\<lparr>timer_active := a, timer_set := t\<rparr>)"
  unfolding same_but_doorbell_def
  by (intro exI [of _ a] exI [of _ t] exI [of _ "io_work q"] exI [of _ "io_work_lat q"]) simp

lemma doorbell_ring: "same_but_doorbell q q' \<Longrightarrow> same_but_doorbell q (ring_doorbell q')"
proof -
  assume "same_but_doorbell q q'"
  then obtain a t w l where q': "q' = q\<lparr>timer_active := a, timer_set := t, io_work := w, io_work_lat := l\<rparr>"
    by (auto simp: same_but_doorbell_def)
  show ?thesis unfolding same_but_doorbell_def q'
    by (intro exI [of _ False] exI [of _ 0] exI [of _ "w \<or> prio_class q \<noteq> 1"] exI [of _ "l \<or> prio_class q = 1"])
      (simp add: ring_doorbell_def queue_io_work_def i10_host_is_latency_def)
qed

definition queued :: "henv \<Rightarrow> nat \<Rightarrow> nvme_tcp_queue \<Rightarrow> nvme_tcp_queue" where
  "queued e r q = q\<lparr>prio_class := (if queue_id q \<le> online_cpus e then 0 else 1), send_list := send_list q @ [r]\<rparr>"

lemma queue_request_hq: "nvme_tcp_queue_request e r s = s\<lparr>hq := hq (nvme_tcp_queue_request e r s)\<rparr>"
  by (simp add: nvme_tcp_queue_request_def Let_def)

lemma queue_request_shape:
  "same_but_doorbell ((queued e r (hq s))\<lparr>nr_req := nr_req (hq s) + of_bool (delayed e (queued e r (hq s)) (reqs s r))\<rparr>)
     (hq (nvme_tcp_queue_request e r s))"
proof -
  define q1 where "q1 = queued e r (hq s)"
  define q2 where "q2 = q1\<lparr>nr_req := nr_req q1 + 1\<rparr>"
  define q3 where "q3 = (if nr_req q2 = 1 \<and> \<not> timer_active q2 then q2\<lparr>timer_active := True, timer_set := timer_set q2 + 1\<rparr> else q2)"
  have eq: "hq (nvme_tcp_queue_request e r s) = (if delayed e q1 (reqs s r) then
      if I10_AGGREGATION_SIZE \<le> nr_req q3 then ring_doorbell q3 else q3 else ring_doorbell q1)"
    by (simp add: nvme_tcp_queue_request_def Let_def q1_def q2_def q3_def queued_def)
  have n: "nr_req q1 = nr_req (hq s)" by (simp add: q1_def queued_def)
  have q3: "same_but_doorbell q2 q3" using doorbell_refl doorbell_start by (simp add: q3_def)
  show ?thesis unfolding q1_def [symmetric]
  proof (cases "delayed e q1 (reqs s r)")
    case True
    have "same_but_doorbell q2 (hq (nvme_tcp_queue_request e r s))"
      unfolding eq if_P [OF True] using q3 doorbell_ring [OF q3] by simp
    then show "same_but_doorbell (q1\<lparr>nr_req := nr_req (hq s) + of_bool (delayed e q1 (reqs s r))\<rparr>) (hq (nvme_tcp_queue_request e r s))"
      using True by (simp add: q2_def n)
  next
    case False
    have "q1\<lparr>nr_req := nr_req (hq s) + of_bool (delayed e q1 (reqs s r))\<rparr> = q1"
      using False by (simp flip: n)
    then show "same_but_doorbell (q1\<lparr>nr_req := nr_req (hq s) + of_bool (delayed e q1 (reqs s r))\<rparr>) (hq (nvme_tcp_queue_request e r s))"
      unfolding eq if_not_P [OF False] using doorbell_ring [OF doorbell_refl, of q1] by simp
  qed
qed

lemma queue_request_inv:
  assumes inv: "host_inv e s" and r: "r \<notin> set (pending (hq s))"
  shows "host_inv e (nvme_tcp_queue_request e r s)" "out (nvme_tcp_queue_request e r s) = out s"
    "reqs (nvme_tcp_queue_request e r s) = reqs s"
    "data_digest (hq (nvme_tcp_queue_request e r s)) = data_digest (hq s)"
proof -
  note i = host_invD [OF inv]
  define q1 where "q1 = queued e r (hq s)"
  obtain a t w l where "hq (nvme_tcp_queue_request e r s) =
      q1\<lparr>nr_req := nr_req (hq s) + of_bool (delayed e q1 (reqs s r)), timer_active := a, timer_set := t, io_work := w, io_work_lat := l\<rparr>"
    using queue_request_shape [where e = e and r = r and s = s, unfolded same_but_doorbell_def, folded q1_def] by auto
  then have eq: "nvme_tcp_queue_request e r s = s\<lparr>hq :=
      q1\<lparr>nr_req := nr_req (hq s) + of_bool (delayed e q1 (reqs s r)), timer_active := a, timer_set := t, io_work := w, io_work_lat := l\<rparr>\<rparr>"
    by (intro trans [OF queue_request_hq]) simp
  have leg: "i10_host_legacy_path e (q1\<lparr>nr_req := x, timer_active := a, timer_set := t, io_work := w, io_work_lat := l\<rparr>) =
      i10_host_legacy_path e q1" for x
    by (simp add: i10_host_legacy_path_def i10_host_is_latency_def)
  have old: "send_list (hq s) = [] \<and> nr_iovs (hq s) = 0 \<or> i10_host_legacy_path e q1 = i10_host_legacy_path e (hq s)"
    using i(2) by (auto simp: q1_def queued_def queue_fresh_def prio_ok_def i10_host_legacy_path_def i10_host_is_latency_def)
  have c: "caravan_ok e q1"
    using i(1) old by (auto simp: caravan_ok_def q1_def queued_def caravan_segs_def)
  have w: "int (length (filter (\<lambda>x. delayed e q1 (reqs s x)) (send_list q1))) = int (length (waiting e s)) + of_bool (delayed e q1 (reqs s r))"
    using old by (auto simp: q1_def queued_def waiting_def)
  show "host_inv e (nvme_tcp_queue_request e r s)"
    unfolding eq host_inv_def using c w i r
    by (simp add: waiting_def leg caravan_ok_def prio_ok_def pending_def caravan_segs_def)
      (auto simp: q1_def queued_def pending_def split: option.splits)
  show "out (nvme_tcp_queue_request e r s) = out s" "reqs (nvme_tcp_queue_request e r s) = reqs s"
    "data_digest (hq (nvme_tcp_queue_request e r s)) = data_digest (hq s)"
    by (simp_all add: eq out_def caravan_segs_def q1_def queued_def)
qed

lemma done_send_inv:
  assumes inv: "host_inv e s"
  shows "host_inv e (nvme_tcp_done_send_req s)"
proof (cases "cur_request (hq s)")
  case None
  then have "(hq s)\<lparr>cur_request := None\<rparr> = hq s" by (cases "hq s") simp
  then show ?thesis using inv by (simp add: nvme_tcp_done_send_req_def upd_hq_def)
next
  case (Some r)
  have "sends e r s (nvme_tcp_done_send_req s)" using done_send_sends host_invD(1) [OF inv] .
  then show ?thesis using frame_inv [OF inv Some] by (simp add: sends_def)
qed

text \<open>The invariant does not read the timer and the work items.\<close>

lemma doorbell_inv:
  assumes inv: "host_inv e s" and d: "same_but_doorbell (hq s) q"
  shows "host_inv e (s\<lparr>hq := q\<rparr>)"
proof -
  obtain a t w l where q: "q = (hq s)\<lparr>timer_active := a, timer_set := t, io_work := w, io_work_lat := l\<rparr>"
    using d by (auto simp: same_but_doorbell_def)
  have leg: "i10_host_legacy_path e q = i10_host_legacy_path e (hq s)"
    by (simp add: q i10_host_legacy_path_def i10_host_is_latency_def)
  have "waiting e (s\<lparr>hq := q\<rparr>) = waiting e s" by (simp add: waiting_def leg) (simp add: q)
  moreover have "caravan_ok e q" using host_invD(1) [OF inv] leg by (simp add: caravan_ok_def caravan_segs_def q)
  moreover have "queue_fresh q = queue_fresh (hq s)" "prio_ok e q = prio_ok e (hq s)" "pending q = pending (hq s)"
    by (simp_all add: q queue_fresh_def prio_ok_def pending_def)
  ultimately show ?thesis using inv by (simp add: host_inv_def) (simp add: q)
qed

lemma doorbell_timeout_inv: "host_inv e s \<Longrightarrow> host_inv e (i10_host_doorbell_timeout s)"
  using doorbell_inv [OF _ doorbell_ring [OF doorbell_refl]]
  by (simp add: i10_host_doorbell_timeout_def upd_hq_def ring_doorbell_def)

lemma doorbell_timeout_same:
  "reqs (i10_host_doorbell_timeout s) = reqs s" "out (i10_host_doorbell_timeout s) = out s"
  "data_digest (hq (i10_host_doorbell_timeout s)) = data_digest (hq s)"
  by (simp_all add: i10_host_doorbell_timeout_def queue_io_work_def upd_hq_def out_def caravan_segs_def)

lemma set_request_inv:
  assumes inv: "host_inv e s" and r: "r \<notin> set (pending (hq s))"
  shows "host_inv e (upd_req r (\<lambda>_. req) s)"
proof -
  have "waiting e (upd_req r (\<lambda>_. req) s) = waiting e s"
    using r by (auto simp: waiting_def upd_req_def pending_def intro!: filter_cong)
  then show ?thesis using inv by (simp add: host_inv_def upd_req_def)
qed

interpretation hosti: op_invariant "host_exec e" host_ok "host_inv e" for e
proof
  fix s a s' assume i: "host_inv e s" and ok: "host_ok a s" and x: "host_exec e a s = Some s'"
  show "host_inv e s'"
  proof (cases a)
    case (Queue_request r)
    then show ?thesis using x ok queue_request_inv(1) [OF i] by auto
  next
    case Try_send
    then show ?thesis using x try_send_inv i by auto
  next
    case Done_send
    then show ?thesis using x done_send_inv i by auto
  next
    case Doorbell_timeout
    then show ?thesis using x doorbell_timeout_inv i by auto
  next
    case (Set_request r req)
    then show ?thesis using x ok set_request_inv i by auto
  qed
qed

text \<open>The stream: without data digests it only grows at its end.\<close>

definition stream_inv :: "henv \<Rightarrow> hseg list \<Rightarrow> host \<Rightarrow> bool" where
  "stream_inv e w s \<longleftrightarrow>
     host_inv e s \<and> \<not> data_digest (hq s) \<and> (\<forall>r. send_state (reqs s r) \<noteq> NVME_TCP_SEND_DDGST) \<and> (\<exists>gs. out s = w @ gs)"

lemma try_send_stream:
  assumes t: "nvme_tcp_try_send e s = Some (ret, s')" and si: "stream_inv e w s" and whole: "whole_caravans e"
  shows "stream_inv e w s'"
proof (rule try_send_cases [OF t])
  note i = si [unfolded stream_inv_def]
  show "host_inv e s" using i by simp
  fix s1
  assume s1: "host_inv e s1" "reqs s1 = reqs s" "out s1 = out s" "data_digest (hq s1) = data_digest (hq s)"
  have stop: "stream_inv e w s2" if "s2 = s1 \<or> try_send_caravan e s1 = (x, s2)" for x s2
    using that s1 i try_send_caravan_inv [OF s1(1)] try_send_caravan_out [OF whole host_invD(1) [OF s1(1)]]
    by (auto simp: stream_inv_def)
  assume "s' = s1 \<or> (\<exists>x. try_send_caravan e s1 = (x, s')) \<or>
     (\<exists>r x s2. (s2 = s1 \<or> try_send_caravan e s1 = (x, s2)) \<and> cur_request (hq s2) = Some r \<and> send_request e r s2 = Some (ret, s'))"
  then consider x where "s' = s1 \<or> try_send_caravan e s1 = (x, s')"
    | r x s2 where "s2 = s1 \<or> try_send_caravan e s1 = (x, s2)" "cur_request (hq s2) = Some r" "send_request e r s2 = Some (ret, s')"
    by blast
  then show "stream_inv e w s'"
  proof cases
    case 1
    then show ?thesis by (rule stop)
  next
    case (2 r x s2)
    have s2: "stream_inv e w s2" using 2(1) by (rule stop)
    then have d: "host_inv e s2" "\<not> data_digest (hq s2)" "send_state (reqs s2 q) \<noteq> NVME_TCP_SEND_DDGST" for q
      by (simp_all add: stream_inv_def)
    have sd: "sends e r s2 s'" using send_request_sends [OF 2(3)] host_invD(1) [OF d(1)] by blast
    then have f: "frame r s2 s'" "\<exists>gs. out s' = out s2 @ gs" "send_state (reqs s' r) \<noteq> NVME_TCP_SEND_DDGST"
      using d by (simp_all add: sends_def)
    have "send_state (reqs s' q) \<noteq> NVME_TCP_SEND_DDGST" for q
      using f(1,3) d(3) by (cases "q = r") (simp_all add: frame_def)
    moreover have "host_inv e s'" using frame_inv [OF d(1) 2(2) f(1) sends_ok [OF sd]] .
    moreover have "\<not> data_digest (hq s')" using f(1) d(2) by (simp add: frame_def)
    ultimately show ?thesis using s2 f(2) unfolding stream_inv_def by force
  qed
qed

interpretation streami: op_invariant "host_exec e" host_ok "\<lambda>s. whole_caravans e \<longrightarrow> stream_inv e w s" for e w
proof (standard, rule impI)
  fix s a s'
  assume i: "whole_caravans e \<longrightarrow> stream_inv e w s" and ok: "host_ok a s" and x: "host_exec e a s = Some s'" and w: "whole_caravans e"
  then have si: "stream_inv e w s" by simp
  then have inv: "host_inv e s" by (simp add: stream_inv_def)
  have inv': "host_inv e s'" using hosti.exec_inv [OF inv ok x] .
  show "stream_inv e w s'"
  proof (cases a)
    case (Queue_request r)
    then show ?thesis using x ok queue_request_inv [OF inv, of r] si by (auto simp: stream_inv_def)
  next
    case Try_send
    then show ?thesis using x try_send_stream si w by auto
  next
    case Done_send
    then show ?thesis using x si inv'
      by (auto simp: stream_inv_def nvme_tcp_done_send_req_def upd_hq_def out_def caravan_segs_def)
  next
    case Doorbell_timeout
    then show ?thesis using x si inv' by (auto simp: stream_inv_def doorbell_timeout_same)
  next
    case (Set_request r req)
    then show ?thesis using x ok si inv' by (auto simp: stream_inv_def upd_req_def out_def split: if_splits)
  qed
qed


text \<open>A request of the example connection is queued and sent.\<close>

lemma ex_run: "\<exists>s'. hosti.run ex_henv ex_host [Queue_request 0, Try_send] s'"
proof -
  obtain ret t where t: "nvme_tcp_try_send ex_henv (nvme_tcp_queue_request ex_henv 0 ex_host) = Some (ret, t)"
    by (simp add: nvme_tcp_try_send_def nvme_tcp_queue_request_def try_send_pick_def send_request_def nvme_tcp_try_send_cmd_pdu_def
        send_piece_def Let_def caravan_add_def i10_host_is_caravan_full_def i10_host_legacy_path_def i10_host_is_latency_def
        i10_host_is_nodelay_path_def upd_hq_def upd_req_def ring_doorbell_def queue_io_work_def ex_host_defs i10_consts
        nvme_tcp_hdgst_len_def nvme_tcp_has_inline_data_def nvme_tcp_inline_data_size_def nvme_tcp_done_send_req_def)
  have ok: "host_ok (Queue_request 0) ex_host" by (simp add: pending_def ex_host_defs)
  have x: "host_exec ex_henv (Queue_request 0) ex_host = Some (nvme_tcp_queue_request ex_henv 0 ex_host)"
    "host_exec ex_henv Try_send (nvme_tcp_queue_request ex_henv 0 ex_host) = Some t" "host_ok Try_send s" for s
    using t by simp_all
  show ?thesis using hosti.run_cons [OF ok x(1) hosti.run_cons [OF x(3) x(2) hosti.run_nil]] by blast
qed

text \<open>The data of request 0 is about to be sent on a connection with data digests.\<close>

definition ex_sending :: host where
  "ex_sending = ex_host\<lparr>hq := ex_queue\<lparr>data_digest := True, cur_request := Some 0\<rparr>,
     reqs := (\<lambda>_. ex_nreq\<lparr>send_state := NVME_TCP_SEND_DATA\<rparr>)\<rparr>"

section \<open>Sending is correct\<close>

text \<open>
  C8: The byte stream. On a connection without data digests, and with a socket that accepts whole the
  caravans it has room for, what has been sent followed by what waits in the caravan only ever grows at
  its end: aggregation neither loses nor reorders a byte.
\<close>

theorem stream_grows:
  assumes "host_inv e s" "\<not> data_digest (hq s)" "\<forall>r. send_state (reqs s r) \<noteq> NVME_TCP_SEND_DDGST"
    and "whole_caravans e" "hosti.run e s ops s'"
  shows "\<exists>gs. wire s' @ caravan_segs (hq s') = (wire s @ caravan_segs (hq s)) @ gs"
proof -
  have "stream_inv e (out s) s" using assms(1-3) by (simp add: stream_inv_def)
  then have "stream_inv e (out s) s'"
    using streami.run_inv [of e s ops s' "out s"] assms(4,5) by blast
  then show ?thesis by (simp add: stream_inv_def out_def)
qed

theorem stream_grows_witness:
  "\<exists>s'. hosti.run ex_henv ex_host [Queue_request 0, Try_send] s' \<and>
     (\<exists>gs. wire s' @ caravan_segs (hq s') = (wire ex_host @ caravan_segs (hq ex_host)) @ gs)"
proof -
  have "\<not> data_digest (hq ex_host)" "\<forall>r. send_state (reqs ex_host r) \<noteq> NVME_TCP_SEND_DDGST" "whole_caravans ex_henv"
    by (simp_all add: ex_host_defs whole_caravans_def)
  then show ?thesis using stream_grows [OF ex_host_inv(1)] ex_run by blast
qed

text \<open>
  C16: The doorbell. Let the timer fire on a queue whose invariant holds, with a caravan that is not empty,
  an empty list and no current request, and let the socket report room for the whole caravan and accept
  all of it. Then the next call of the sender puts the whole caravan on the wire, empties it and forgets
  the requests it carried: nothing that waits for the timer stays behind.
\<close>

theorem doorbell_flushes:
  assumes inv: "host_inv e s" and c: "caravan_len (hq s) \<noteq> 0" "send_list (hq s) = []" "cur_request (hq s) = None"
    and room: "int (caravan_len (hq s)) \<le> wspace e (sock_pos s)" "sendmsg e (Suc (sock_pos s)) (caravan_len (hq s)) = Ret (caravan_len (hq s))"
  shows "\<exists>s'. nvme_tcp_try_send e (i10_host_doorbell_timeout s) = Some (Ret 0, s') \<and>
    wire s' = wire s @ caravan_segs (hq s) \<and> caravan_segs (hq s') = [] \<and> caravan_len (hq s') = 0 \<and>
    nr_req (hq s') = 0 \<and> nr_caravan_req (hq s') = 0 \<and> \<not> send_now (hq s')"
proof -
  define t where "t = i10_host_doorbell_timeout s"
  have t: "wire t = wire s" "caravan_segs (hq t) = caravan_segs (hq s)" "caravan_len (hq t) = caravan_len (hq s)"
    "send_list (hq t) = []" "cur_request (hq t) = None" "timer_set (hq t) = 0" "sock_pos t = sock_pos s" "nr_req (hq t) = nr_req (hq s)"
    "nr_caravan_req (hq t) = nr_caravan_req (hq s)"
    using c by (simp_all add: t_def i10_host_doorbell_timeout_def queue_io_work_def upd_hq_def caravan_segs_def)
  define u where "u = upd_hq (\<lambda>q. q\<lparr>nr_req := nr_req q - nr_caravan_req q, nr_caravan_req := 0, timer_set := 0, send_now := True\<rparr>) t"
  have pick: "try_send_pick e t = u" using t c(1) by (simp add: try_send_pick_def u_def)
  have "waiting e s = []" using c by (simp add: waiting_def)
  then have n: "nr_req (hq s) = nr_caravan_req (hq s)" using host_invD(5) [OF inv] by simp
  have u: "wire u = wire s" "caravan_segs (hq u) = caravan_segs (hq s)" "caravan_len (hq u) = caravan_len (hq s)"
    "cur_request (hq u) = None" "send_now (hq u)" "sock_pos u = sock_pos s" "nr_req (hq u) = 0" "nr_caravan_req (hq u) = 0"
    using t n by (simp_all add: u_def upd_hq_def caravan_segs_def)
  have len: "segs_take (caravan_len (hq s)) (caravan_segs (hq s)) = caravan_segs (hq s)"
    using host_invD(1) [OF inv] by (intro segs_take_all) (simp add: caravan_ok_def)
  define v where "v = u\<lparr>hq := (hq u)\<lparr>nr_iovs := 0, nr_mapped := 0, caravan_len := 0, send_now := False\<rparr>,
     wire := wire s @ caravan_segs (hq s), sock_pos := Suc (Suc (sock_pos s))\<rparr>"
  have flush: "try_send_caravan e u = (None, v)"
    using u room c(1) len by (simp add: try_send_caravan_def do_sendmsg_def upd_hq_def v_def)
  have "nvme_tcp_try_send e t = Some (Ret 0, v)"
    using t(5) pick u c(1) flush by (simp add: nvme_tcp_try_send_def Let_def) (simp add: v_def)
  then show ?thesis unfolding t_def [symmetric] using u by (intro exI [of _ v]) (simp add: v_def caravan_segs_def)
qed

theorem doorbell_flushes_witness:
  "\<exists>s'. nvme_tcp_try_send ex_henv (i10_host_doorbell_timeout ex_loaded) = Some (Ret 0, s') \<and>
     wire s' = [\<lparr>seg_mem = Pdu 0, seg_off = 0, seg_len = 72\<rparr>] \<and> nr_req (hq s') = 0"
proof -
  have l: "caravan_len (hq ex_loaded) \<noteq> 0" "send_list (hq ex_loaded) = []" "cur_request (hq ex_loaded) = None"
    "int (caravan_len (hq ex_loaded)) \<le> wspace ex_henv (sock_pos ex_loaded)"
    "sendmsg ex_henv (Suc (sock_pos ex_loaded)) (caravan_len (hq ex_loaded)) = Ret (caravan_len (hq ex_loaded))"
    "wire ex_loaded @ caravan_segs (hq ex_loaded) = [\<lparr>seg_mem = Pdu 0, seg_off = 0, seg_len = 72\<rparr>]"
    by (simp_all add: ex_host_defs caravan_segs_def)
  show ?thesis using doorbell_flushes [OF ex_host_inv(2) l(1-5)] l(6) by auto
qed

text \<open>
  C19: A full batch rings the doorbell: the request that brings the number of delayed requests to sixteen or
  more, and every request that must not be delayed, cancels the timer, clears \<open>timer_set\<close> and schedules the
  sender. Any other delayed request leaves both work items as they were, and after it the timer runs exactly
  when it ran before or this request is the first of its batch (\<open>nr_req\<close> is now 1).
\<close>

theorem batch_rings:
  "let q = hq (nvme_tcp_queue_request e r s) in
   if delayed e q (reqs s r) \<and> nr_req q < I10_AGGREGATION_SIZE
   then timer_active q = (timer_active (hq s) \<or> nr_req q = 1) \<and> io_work q = io_work (hq s) \<and> io_work_lat q = io_work_lat (hq s)
   else \<not> timer_active q \<and> timer_set q = 0 \<and> (if i10_host_is_latency q then io_work_lat q else io_work q)"
proof -
  define q1 where "q1 = queued e r (hq s)"
  define q2 where "q2 = q1\<lparr>nr_req := nr_req q1 + 1\<rparr>"
  define q3 where "q3 = (if nr_req q2 = 1 \<and> \<not> timer_active q2 then q2\<lparr>timer_active := True, timer_set := timer_set q2 + 1\<rparr> else q2)"
  have eq: "hq (nvme_tcp_queue_request e r s) = (if delayed e q1 (reqs s r) then
      if I10_AGGREGATION_SIZE \<le> nr_req q3 then ring_doorbell q3 else q3 else ring_doorbell q1)"
    by (simp add: nvme_tcp_queue_request_def Let_def q1_def q2_def q3_def queued_def)
  have leg: "i10_host_legacy_path e (ring_doorbell q) = i10_host_legacy_path e q" "nr_req (ring_doorbell q) = nr_req q" for q
    by (simp_all add: ring_doorbell_def queue_io_work_def i10_host_legacy_path_def i10_host_is_latency_def)
  have q3: "i10_host_legacy_path e q3 = i10_host_legacy_path e q1" "timer_active q3 = (timer_active (hq s) \<or> nr_req q3 = 1)"
    "io_work q3 = io_work (hq s)" "io_work_lat q3 = io_work_lat (hq s)"
    by (auto simp: q3_def q2_def q1_def queued_def i10_host_legacy_path_def i10_host_is_latency_def)
  have ring: "\<not> timer_active (ring_doorbell q) \<and> timer_set (ring_doorbell q) = 0 \<and>
      (if i10_host_is_latency (ring_doorbell q) then io_work_lat (ring_doorbell q) else io_work (ring_doorbell q))" for q
    by (simp add: ring_doorbell_def queue_io_work_def i10_host_is_latency_def)
  have d: "delayed e (hq (nvme_tcp_queue_request e r s)) (reqs s r) = delayed e q1 (reqs s r)"
    unfolding eq by (simp add: leg q3)
  have n: "nr_req (hq (nvme_tcp_queue_request e r s)) = (if delayed e q1 (reqs s r) then nr_req q3 else nr_req q1)"
    unfolding eq by (simp add: leg)
  show ?thesis unfolding Let_def d n unfolding eq using ring q3 by simp
qed

text \<open>
  C36: A partly accepted caravan. When the socket takes only \<open>n\<close> of the bytes of a caravan, the driver
  treats the caravan as sent: it is emptied, and the remaining bytes reach neither the wire nor the
  next caravan.
\<close>

theorem partial_caravan_lost:
  assumes "caravan_ok e (hq s)" "0 < n" "n < caravan_len (hq s)" "int (caravan_len (hq s)) \<le> wspace e (sock_pos s)"
    and "sendmsg e (Suc (sock_pos s)) (caravan_len (hq s)) = Ret n"
  shows "\<exists>s'. try_send_caravan e s = (None, s') \<and> segs_len (wire s') = segs_len (wire s) + n \<and>
    caravan_segs (hq s') = [] \<and> segs_len (out s') < segs_len (out s)"
proof -
  have "caravan_len (hq s) = segs_len (caravan_segs (hq s))" using assms(1) by (simp add: caravan_ok_def)
  then show ?thesis using assms
    by (simp add: try_send_caravan_def do_sendmsg_def upd_hq_def out_def caravan_segs_def segs_take_len)
qed

theorem partial_caravan_lost_witness:
  "\<exists>s'. try_send_caravan (ex_henv\<lparr>sendmsg := \<lambda>k n. Ret 10\<rparr>) ex_loaded = (None, s') \<and> caravan_segs (hq s') = [] \<and>
     segs_len (out s') < segs_len (out ex_loaded)"
proof -
  have "caravan_ok (ex_henv\<lparr>sendmsg := \<lambda>k n. Ret 10\<rparr>) (hq ex_loaded)"
    using host_invD(1) [OF ex_host_inv(2)] by (simp add: caravan_ok_def i10_host_legacy_path_def)
  moreover have "10 < caravan_len (hq ex_loaded)"
    "int (caravan_len (hq ex_loaded)) \<le> wspace (ex_henv\<lparr>sendmsg := \<lambda>k n. Ret 10\<rparr>) (sock_pos ex_loaded)"
    by (simp_all add: ex_host_defs)
  ultimately show ?thesis
    using partial_caravan_lost [of "ex_henv\<lparr>sendmsg := \<lambda>k n. Ret 10\<rparr>" ex_loaded 10] by auto
qed

text \<open>
  With data digests the stream is not kept in order. While the last piece of a request's data is
  collected in the caravan, its digest is sent directly: on the wire the digest precedes the data it
  covers.
\<close>

theorem digest_overtakes_data:
  assumes inv: "caravan_ok e (hq s)" "\<not> i10_host_legacy_path e (hq s)" "\<not> i10_host_is_caravan_full (hq s)"
    and r: "send_state (reqs s r) = NVME_TCP_SEND_DATA" "data_digest (hq s)"
    and g: "nvme_tcp_req_cur (reqs s r) = Some g" "nvme_tcp_pdu_last_send (reqs s r) (seg_len g)" "0 < seg_len g"
    and a: "nvme_tcp_advance_req (seg_len g) (reqs s r) = Some req'"
    and d: "sendmsg e (sock_pos s) (DIGEST_LENGTH e) = Ret (DIGEST_LENGTH e)" "0 < DIGEST_LENGTH e"
  shows "\<exists>s'. send_request e r s = Some (Ret 1, s') \<and> caravan_segs (hq s') = caravan_segs (hq s) @ [g] \<and>
    wire s' = wire s @ [\<lparr>seg_mem = Ddgst r, seg_off = 0, seg_len = DIGEST_LENGTH e\<rparr>]"
proof -
  obtain s1 where s1: "send_piece e g (seg_page g) s = Some ((False, Ret (seg_len g)), s1)"
    "wire s1 = wire s" "sock_pos s1 = sock_pos s" "caravan_segs (hq s1) = caravan_segs (hq s) @ [g]" "reqs s1 = reqs s"
    "\<And>r. frame r s s1"
    using send_piece_collects [OF inv(1,3,2)] by metis
  define s2 where "s2 = upd_req r (\<lambda>_. req') s1"
  define s3 where "s3 = upd_hq (\<lambda>q. q\<lparr>snd_hash := snd_hash q @ [seg_prefix (seg_len g) g]\<rparr>) s2"
  define s4 where "s4 = upd_req r (\<lambda>q. q\<lparr>req_ddgst := snd_hash (hq s3), send_state := NVME_TCP_SEND_DDGST, req_offset := 0\<rparr>) s3"
  have dd: "data_digest (hq s2)" "data_digest (hq s3)"
    using s1(6) [of r] r(2) by (simp_all add: frame_def s2_def s3_def upd_hq_def upd_req_def)
  obtain n where n: "seg_len g = Suc n" using g(3) gr0_conv_Suc by blast
  have data: "nvme_tcp_try_send_data e r s = Some (Ret 1, s4)"
    by (subst nvme_tcp_try_send_data.simps)
      (simp only: g(1) s1(1,5) n [symmetric] option.case prod.case bool.case rc.case, simp only: n nat.case a [unfolded n] option.case Let_def,
       simp add: dd s2_def [symmetric] s3_def [unfolded n, symmetric] s4_def g(2) [unfolded n])
  have s4: "send_state (reqs s4 r) = NVME_TCP_SEND_DDGST" "req_offset (reqs s4 r) = 0" "sock_pos s4 = sock_pos s" "wire s4 = wire s"
    "caravan_segs (hq s4) = caravan_segs (hq s) @ [g]"
    using s1 by (simp_all add: s4_def s3_def s2_def upd_req_def upd_hq_def caravan_segs_def)
  show ?thesis
    using r data s4 d
    by (simp add: send_request_def send_from_h2c_def send_from_data_def send_from_ddgst_def nvme_tcp_try_send_ddgst_def Let_def
        do_sendmsg_def nvme_tcp_done_send_req_def upd_hq_def caravan_segs_def)
qed

theorem digest_overtakes_data_witness:
  "\<exists>s'. send_request ex_henv 0 ex_sending = Some (Ret 1, s') \<and>
     caravan_segs (hq s') = [\<lparr>seg_mem = Page 7, seg_off = 0, seg_len = 512\<rparr>] \<and>
     wire s' = [\<lparr>seg_mem = Ddgst 0, seg_off = 0, seg_len = 4\<rparr>]"
proof -
  let ?g = "\<lparr>seg_mem = Page 7, seg_off = 0, seg_len = 512\<rparr>"
  have s: "caravan_ok ex_henv (hq ex_sending)" "\<not> i10_host_legacy_path ex_henv (hq ex_sending)"
    "\<not> i10_host_is_caravan_full (hq ex_sending)" "send_state (reqs ex_sending 0) = NVME_TCP_SEND_DATA" "data_digest (hq ex_sending)"
    "nvme_tcp_req_cur (reqs ex_sending 0) = Some ?g" "nvme_tcp_pdu_last_send (reqs ex_sending 0) (seg_len ?g)" "0 < seg_len ?g"
    "sendmsg ex_henv (sock_pos ex_sending) (DIGEST_LENGTH ex_henv) = Ret (DIGEST_LENGTH ex_henv)" "0 < DIGEST_LENGTH ex_henv"
    by (simp_all add: ex_sending_def ex_host_defs caravan_ok_def caravan_segs_def i10_consts i10_host_legacy_path_def
        i10_host_is_latency_def i10_host_is_caravan_full_def nvme_tcp_req_cur_def nvme_tcp_pdu_last_send_def nvme_tcp_pdu_data_left_def)
  obtain req' where a: "nvme_tcp_advance_req (seg_len ?g) (reqs ex_sending 0) = Some req'"
    by (simp add: nvme_tcp_advance_req_def iov_iter_advance_def ex_sending_def ex_host_defs)
  have "caravan_segs (hq ex_sending) = []" "wire ex_sending = []" "DIGEST_LENGTH ex_henv = 4"
    by (simp_all add: ex_sending_def ex_host_defs caravan_segs_def)
  then show ?thesis using digest_overtakes_data [OF s(1-8) a s(9,10)] by auto
qed

end
