(* ===== verification/Nvme.thy ===== *)
theory Nvme
  imports Tcp_Wire
begin

text \<open>
  What both drivers read of \<open>include/linux/nvme.h\<close>: status codes, descriptor types of scatter/gather lists
  and the common part of a command.
\<close>

unbundle bit_operations_syntax

section \<open>Constants of the NVMe interface\<close>

definition NVME_SC_INVALID_FIELD :: u16 where "NVME_SC_INVALID_FIELD = 2"
definition NVME_SC_INTERNAL :: u16 where "NVME_SC_INTERNAL = 6"
definition NVME_SC_SGL_INVALID_OFFSET :: u16 where "NVME_SC_SGL_INVALID_OFFSET = 22"
definition NVME_SC_DNR :: u16 where "NVME_SC_DNR = 16384"
definition NVME_SGL_FMT_OFFSET :: u8 where "NVME_SGL_FMT_OFFSET = 1"
definition NVME_SGL_FMT_TRANSPORT_A :: u8 where "NVME_SGL_FMT_TRANSPORT_A = 10"
definition NVME_SGL_FMT_DATA_DESC :: u8 where "NVME_SGL_FMT_DATA_DESC = 0"
definition NVME_TRANSPORT_SGL_DATA_DESC :: u8 where "NVME_TRANSPORT_SGL_DATA_DESC = 5"
definition NVME_CMD_SGL_METABUF :: u8 where "NVME_CMD_SGL_METABUF = 64"
definition nvme_admin_async_event :: u8 where "nvme_admin_async_event = 12"
definition nvme_fabrics_command :: u8 where "nvme_fabrics_command = 127"
definition NVME_AQ_DEPTH :: nat where "NVME_AQ_DEPTH = 32"
definition NVME_NR_AEN_COMMANDS :: nat where "NVME_NR_AEN_COMMANDS = 1"
definition NVME_AQ_BLK_MQ_DEPTH :: nat where "NVME_AQ_BLK_MQ_DEPTH = NVME_AQ_DEPTH - NVME_NR_AEN_COMMANDS"
definition NVME_AQ_MQ_TAG_DEPTH :: nat where "NVME_AQ_MQ_TAG_DEPTH = NVME_AQ_BLK_MQ_DEPTH - 1"

lemmas nvme_consts [nvme_defs] = NVME_SC_INVALID_FIELD_def NVME_SC_INTERNAL_def NVME_SC_SGL_INVALID_OFFSET_def
  NVME_SC_DNR_def NVME_SGL_FMT_OFFSET_def NVME_SGL_FMT_TRANSPORT_A_def NVME_SGL_FMT_DATA_DESC_def
  NVME_TRANSPORT_SGL_DATA_DESC_def NVME_CMD_SGL_METABUF_def nvme_admin_async_event_def nvme_fabrics_command_def
  NVME_AQ_DEPTH_def NVME_NR_AEN_COMMANDS_def NVME_AQ_BLK_MQ_DEPTH_def NVME_AQ_MQ_TAG_DEPTH_def

section \<open>Commands\<close>

text \<open>The fields of a command that the drivers read or write, with its one scatter/gather descriptor.\<close>

record nvme_command =
  opcode :: u8
  nvme_flags :: u8
  fctype :: u8
  command_id :: u16
  sgl_addr :: u64
  sgl_type :: u8
  sgl_length :: nat

definition nvme_is_fabrics :: "nvme_command \<Rightarrow> bool" where
  "nvme_is_fabrics x \<longleftrightarrow> opcode x = nvme_fabrics_command"

definition nvme_is_write :: "nvme_command \<Rightarrow> bool" where
  "nvme_is_write x \<longleftrightarrow> (if nvme_is_fabrics x then fctype x AND 1 \<noteq> 0 else opcode x AND 1 \<noteq> 0)"

end
