(* ===== verification/Tcp_Host_Cmd.thy ===== *)
theory Tcp_Host_Cmd
  imports Tcp_Host_Correct Nvme Blk_Types
begin

text \<open>
  The operations of the host driver that the block layer calls for a request: setting up the command PDU
  (\<open>nvme_tcp_setup_cmd_pdu\<close>), queueing it (\<open>nvme_tcp_queue_rq\<close>), asynchronous events and polling. What the NVMe core
  writes into the command and its readiness tests are parameters.
\<close>

section \<open>State\<close>

text \<open>A request of the block layer as the driver reads it.\<close>

record blk_request =
  rq_write :: bool
  rq_segments :: nat
  rq_bytes :: nat
  rq_bios :: "tbio list"
  rq_special :: "bio_vec option"

definition blk_rq_payload_bytes :: "blk_request \<Rightarrow> nat" where
  "blk_rq_payload_bytes rq = (case rq_special rq of Some v \<Rightarrow> bv_len v | None \<Rightarrow> rq_bytes rq)"

definition blk_rq_nr_phys_segments :: "blk_request \<Rightarrow> nat" where
  "blk_rq_nr_phys_segments rq = (case rq_special rq of Some v \<Rightarrow> 1 | None \<Rightarrow> rq_segments rq)"

record nvme_tcp_cmd_pdu =
  cp_hdgst :: bool
  cp_ddgst :: bool
  cp_hlen :: u8
  cp_pdo :: u8
  cp_plen :: u32
  cp_cmd :: nvme_command

text \<open>
  A queue with the PDUs of its requests, whether it is live, the requests started in the block layer and
  those whose command was given back to the core.
\<close>

record hdrv =
  hst :: host
  pdus :: "nat \<Rightarrow> nvme_tcp_cmd_pdu"
  q_live :: bool
  started :: "nat list"
  cleaned :: "nat list"

record qenv =
  brq :: "nat \<Rightarrow> blk_request"
  nvme_setup_cmd :: "nat \<Rightarrow> blk_status \<times> nvme_command"
  nvmf_check_ready :: "nat \<Rightarrow> bool \<Rightarrow> bool"
  nvmf_fail_nonready_command :: "nat \<Rightarrow> blk_status"
  icdoff :: u64

definition upd_pdu :: "nat \<Rightarrow> (nvme_tcp_cmd_pdu \<Rightarrow> nvme_tcp_cmd_pdu) \<Rightarrow> hdrv \<Rightarrow> hdrv" where
  "upd_pdu r f d = d\<lparr>pdus := (pdus d)(r := f (pdus d r))\<rparr>"

section \<open>The scatter/gather descriptor\<close>

definition nvme_tcp_set_sg_null :: "nvme_command \<Rightarrow> nvme_command" where
  "nvme_tcp_set_sg_null c =
     c\<lparr>sgl_addr := 0, sgl_length := 0, sgl_type := push_bit 4 NVME_TRANSPORT_SGL_DATA_DESC OR NVME_SGL_FMT_TRANSPORT_A\<rparr>"

definition nvme_tcp_set_sg_inline :: "qenv \<Rightarrow> nat \<Rightarrow> nvme_command \<Rightarrow> nvme_command" where
  "nvme_tcp_set_sg_inline v len c =
     c\<lparr>sgl_addr := icdoff v, sgl_length := len, sgl_type := push_bit 4 NVME_SGL_FMT_DATA_DESC OR NVME_SGL_FMT_OFFSET\<rparr>"

definition nvme_tcp_set_sg_host_data :: "nat \<Rightarrow> nvme_command \<Rightarrow> nvme_command" where
  "nvme_tcp_set_sg_host_data len c =
     c\<lparr>sgl_addr := 0, sgl_length := len, sgl_type := push_bit 4 NVME_TRANSPORT_SGL_DATA_DESC OR NVME_SGL_FMT_TRANSPORT_A\<rparr>"

definition nvme_tcp_map_data :: "henv \<Rightarrow> qenv \<Rightarrow> nvme_tcp_queue \<Rightarrow> blk_request \<Rightarrow> nat \<Rightarrow> nvme_command \<Rightarrow> blk_status \<times> nvme_command" where
  "nvme_tcp_map_data e v q rq len c0 =
     (let c = c0\<lparr>nvme_flags := nvme_flags c0 OR NVME_CMD_SGL_METABUF\<rparr> in
      (BLK_STS_OK,
       if blk_rq_nr_phys_segments rq = 0 then nvme_tcp_set_sg_null c
       else if rq_write rq \<and> len \<le> nvme_tcp_inline_data_size e q then nvme_tcp_set_sg_inline v len c
       else nvme_tcp_set_sg_host_data len c))"

section \<open>Queueing a request\<close>

text \<open>The driver's part of a request as it is before its command is sent; it has inline data or an iterator.\<close>

definition setup_request :: "henv \<Rightarrow> nvme_tcp_queue \<Rightarrow> blk_request \<Rightarrow> nvme_tcp_request \<Rightarrow> nvme_tcp_request option" where
  "setup_request e q rq req =
     (let len = (if blk_rq_nr_phys_segments rq \<noteq> 0 then blk_rq_payload_bytes rq else 0);
          inline_data = (rq_write rq \<and> len \<le> nvme_tcp_inline_data_size e q);
          req1 = req\<lparr>req_write := rq_write rq, req_async := False,
                     special := map_option (\<lambda>v. (v, blk_rq_payload_bytes rq)) (rq_special rq),
                     send_state := NVME_TCP_SEND_CMD_PDU, req_offset := 0, data_sent := 0,
                     pdu_len := (if inline_data then len else 0), pdu_sent := 0, data_len := len, bios := rq_bios rq\<rparr> in
      if \<not> inline_data \<and> rq_bios rq \<noteq> [] then nvme_tcp_init_iter req1 else Some req1)"

definition setup_header :: "henv \<Rightarrow> nvme_tcp_queue \<Rightarrow> nat \<Rightarrow> nvme_tcp_cmd_pdu \<Rightarrow> nvme_tcp_cmd_pdu" where
  "setup_header e q len pdu =
     (let hdgst = nvme_tcp_hdgst_len e q;
          ddgst = (if data_digest q \<and> len \<noteq> 0 then nvme_tcp_ddgst_len e q else 0) in
      pdu\<lparr>cp_hdgst := hdr_digest q, cp_ddgst := (data_digest q \<and> len \<noteq> 0), cp_hlen := of_nat (sizeof_cmd_pdu e),
          cp_pdo := (if len \<noteq> 0 then of_nat (sizeof_cmd_pdu e + hdgst) else 0),
          cp_plen := of_nat (sizeof_cmd_pdu e + hdgst + len + ddgst)\<rparr>)"

definition nvme_tcp_setup_cmd_pdu :: "henv \<Rightarrow> qenv \<Rightarrow> nat \<Rightarrow> hdrv \<Rightarrow> (blk_status \<times> hdrv) option" where
  "nvme_tcp_setup_cmd_pdu e v r d =
     (let rq = brq v r; q = hq (hst d); (ret, c) = nvme_setup_cmd v r; d0 = upd_pdu r (\<lambda>p. p\<lparr>cp_cmd := c\<rparr>) d in
      if ret \<noteq> BLK_STS_OK then Some (ret, d0)
      else do {
        req \<leftarrow> setup_request e q rq (reqs (hst d) r);
        let (ret1, c1) = nvme_tcp_map_data e v q rq (data_len req) c;
        let d1 = upd_pdu r (\<lambda>p. (setup_header e q (pdu_len req) p)\<lparr>cp_cmd := c1\<rparr>) (d0\<lparr>hst := upd_req r (\<lambda>_. req) (hst d0)\<rparr>);
        if ret1 \<noteq> BLK_STS_OK then Some (ret1, d1\<lparr>cleaned := cleaned d1 @ [r]\<rparr>) else Some (BLK_STS_OK, d1) })"

definition nvme_tcp_queue_rq :: "henv \<Rightarrow> qenv \<Rightarrow> nat \<Rightarrow> hdrv \<Rightarrow> (blk_status \<times> hdrv) option" where
  "nvme_tcp_queue_rq e v r d =
     (if \<not> nvmf_check_ready v r (q_live d) then Some (nvmf_fail_nonready_command v r, d)
      else do {
        (ret, d1) \<leftarrow> nvme_tcp_setup_cmd_pdu e v r d;
        if ret \<noteq> BLK_STS_OK then Some (ret, d1)
        else Some (BLK_STS_OK, d1\<lparr>started := started d1 @ [r], hst := nvme_tcp_queue_request e r (hst d1)\<rparr>) })"

section \<open>Asynchronous events and polling\<close>

text \<open>The request for asynchronous events of the controller, with its own PDU; lengths of an earlier use stay.\<close>

definition nvme_tcp_submit_async_event :: "henv \<Rightarrow> nat \<Rightarrow> hdrv \<Rightarrow> hdrv" where
  "nvme_tcp_submit_async_event e r d =
     (let q = hq (hst d);
          c = nvme_tcp_set_sg_null \<lparr>opcode = nvme_admin_async_event, nvme_flags = NVME_CMD_SGL_METABUF, fctype = 0,
                command_id = of_nat NVME_AQ_BLK_MQ_DEPTH, sgl_addr = 0, sgl_type = 0, sgl_length = 0\<rparr>;
          d1 = upd_pdu r (\<lambda>_. \<lparr>cp_hdgst = hdr_digest q, cp_ddgst = False, cp_hlen = of_nat (sizeof_cmd_pdu e), cp_pdo = 0,
                 cp_plen = of_nat (sizeof_cmd_pdu e + nvme_tcp_hdgst_len e q), cp_cmd = c\<rparr>) d in
      d1\<lparr>hst := nvme_tcp_queue_request e r
           (upd_req r (\<lambda>x. x\<lparr>send_state := NVME_TCP_SEND_CMD_PDU, req_offset := 0, bios := [], data_len := 0\<rparr>) (hst d1))\<rparr>)"

text \<open>The segments are those that the socket holds after busy polling of the device.\<close>

definition nvme_tcp_poll :: "henv \<Rightarrow> penv \<Rightarrow> u8 list list \<Rightarrow> hdrv \<Rightarrow> (nat \<times> hdrv) option" where
  "nvme_tcp_poll e p bss d = do {
     (ret, s) \<leftarrow> nvme_tcp_try_recv e p bss (hst d);
     Some (nr_cqe (rx s), d\<lparr>hst := s\<rparr>) }"

end
