(* ===== verification/Tcp_Host_Progress.thy ===== *)
theory Tcp_Host_Progress
  imports Tcp_Host_Stream Tcp_Host_Cmd
begin

text \<open>
  The sender of the host driver never gets stuck: requests that describe their data consistently are sent without leaving
  a vector, a list of bios or an array of the caravan, and stay that way from one call to the next.
\<close>

section \<open>Requests that can be sent\<close>

definition vecs_len :: "bio_vec list \<Rightarrow> nat" where
  "vecs_len vs = sum_list (map bv_len vs)"

text \<open>An offset that lies in the first of some vectors.\<close>

fun in_head :: "nat \<Rightarrow> bio_vec list \<Rightarrow> bool" where
  "in_head off [] = False"
| "in_head off (v # vs) = (off < bv_len v)"


text \<open>A bio: its vectors hold what was done before and what is left, which is not nothing.\<close>

definition bio_ok :: "tbio \<Rightarrow> bool" where
  "bio_ok b \<longleftrightarrow> 0 < tb_size b \<and> tb_done b + tb_size b = vecs_len (tb_vecs b) \<and> in_head (tb_done b) (tb_vecs b)"

definition iter_ok :: "iov_iter \<Rightarrow> bool" where
  "iter_ok i \<longleftrightarrow> iov_offset i + it_count i = vecs_len (it_vecs i) \<and>
     (it_count i = 0 \<or> in_head (iov_offset i) (it_vecs i))"

text \<open>The bytes of the bios after the current one; a special payload is one vector.\<close>

definition rest_len :: "nvme_tcp_request \<Rightarrow> nat" where
  "rest_len req = (if special req = None then sum_list (map tb_size (tl (bios req))) else 0)"

text \<open>A request in the middle of its data: sent, in the iterator, and in the bios to come add up to all data.\<close>

definition streaming :: "nvme_tcp_request \<Rightarrow> bool" where
  "streaming req \<longleftrightarrow> req_write req \<and> iter_ok (iter req) \<and> data_sent req + it_count (iter req) + rest_len req = data_len req \<and>
     (it_count (iter req) = 0 \<longrightarrow> data_sent req = data_len req) \<and> (special req = None \<longrightarrow> list_all bio_ok (tl (bios req)))"

text \<open>A request before its first byte of data.\<close>

definition fresh :: "nvme_tcp_request \<Rightarrow> bool" where
  "fresh req \<longleftrightarrow> req_write req \<and> data_sent req = 0 \<and>
     (case special req of
        Some (v, n) \<Rightarrow> bv_len v = n \<and> n = data_len req \<and> 0 < n
      | None \<Rightarrow> bios req \<noteq> [] \<and> list_all bio_ok (bios req) \<and> sum_list (map tb_size (bios req)) = data_len req)"

text \<open>The data of the current PDU is not all sent and lies within the request.\<close>

definition pdu_fits :: "nvme_tcp_request \<Rightarrow> bool" where
  "pdu_fits req \<longleftrightarrow> pdu_sent req < pdu_len req \<and> data_sent req + (pdu_len req - pdu_sent req) \<le> data_len req"

definition sendable :: "henv \<Rightarrow> nvme_tcp_queue \<Rightarrow> nvme_tcp_request \<Rightarrow> bool" where
  "sendable e q req \<longleftrightarrow>
     (case send_state req of
        NVME_TCP_SEND_CMD_PDU \<Rightarrow> nvme_tcp_has_inline_data e q req \<longrightarrow> fresh req \<and> pdu_fits req
      | NVME_TCP_SEND_H2C_PDU \<Rightarrow> (if data_sent req = 0 then fresh req else streaming req) \<and> pdu_fits req
      | NVME_TCP_SEND_DATA \<Rightarrow> streaming req \<and> pdu_fits req
      | NVME_TCP_SEND_DDGST \<Rightarrow> True)"

lemma sendable_cong: "cmnd_capsule_len q' = cmnd_capsule_len q \<Longrightarrow> sendable e q' req = sendable e q req"
  by (simp add: sendable_def nvme_tcp_has_inline_data_def nvme_tcp_inline_data_size_def split: nvme_tcp_send_state.split)

lemma stream_upd [simp]:
  "streaming (req\<lparr>send_state := x\<rparr>) = streaming req" "fresh (req\<lparr>send_state := x\<rparr>) = fresh req" "pdu_fits (req\<lparr>send_state := x\<rparr>) = pdu_fits req"
  "streaming (req\<lparr>req_offset := n\<rparr>) = streaming req" "fresh (req\<lparr>req_offset := n\<rparr>) = fresh req" "pdu_fits (req\<lparr>req_offset := n\<rparr>) = pdu_fits req"
  "pdu_fits (req\<lparr>iter := i\<rparr>) = pdu_fits req"
  by (simp_all add: streaming_def fresh_def pdu_fits_def rest_len_def split: option.split)

lemma sendable_offset [simp]: "sendable e q (req\<lparr>req_offset := n\<rparr>) = sendable e q req"
  by (simp add: sendable_def nvme_tcp_has_inline_data_def split: nvme_tcp_send_state.split)

section \<open>Iterators\<close>






section \<open>Every step of the sender is defined\<close>














section \<open>The whole sender\<close>

definition all_sendable :: "henv \<Rightarrow> host \<Rightarrow> bool" where
  "all_sendable e s \<longleftrightarrow> (\<forall>r\<in>set (pending (hq s)). sendable e (hq s) (reqs s r))"







lemma queue_request_same:
  "pending (hq (nvme_tcp_queue_request e r s)) = pending (hq s) @ [r]" "cmnd_capsule_len (hq (nvme_tcp_queue_request e r s)) = cmnd_capsule_len (hq s)"
  "reqs (nvme_tcp_queue_request e r s) = reqs s"
  by (simp_all add: nvme_tcp_queue_request_def Let_def ring_doorbell_def queue_io_work_def pending_def)



text \<open>The write of the example connection, as it is queued: its data is not part of the command.\<close>

lemma ex_sendable: "sendable ex_henv (hq ex_host) (reqs ex_host 0)" "all_sendable ex_henv ex_host"
  by (simp_all add: sendable_def all_sendable_def pending_def nvme_tcp_has_inline_data_def nvme_tcp_inline_data_size_def ex_host_defs)


section \<open>Requests that the driver queues\<close>

text \<open>A request of the block layer whose bios, or whose special payload, hold the data it announces.\<close>

definition rq_ok :: "blk_request \<Rightarrow> bool" where
  "rq_ok rq \<longleftrightarrow>
     (case rq_special rq of
        Some v \<Rightarrow> True
      | None \<Rightarrow> list_all bio_ok (rq_bios rq) \<and> (rq_segments rq \<noteq> 0 \<longrightarrow> sum_list (map tb_size (rq_bios rq)) = rq_bytes rq))"

lemma init_iter_keeps:
  "nvme_tcp_init_iter req = Some req' \<Longrightarrow> \<exists>i. req' = req\<lparr>iter := i\<rparr>"
  by (auto simp: nvme_tcp_init_iter_def split: option.splits list.splits)

lemma setup_request_sendable:
  assumes "rq_ok rq"
  shows "\<exists>req'. setup_request e q rq req = Some req' \<and> sendable e q req'"
proof -
  define len where "len = (if blk_rq_nr_phys_segments rq \<noteq> 0 then blk_rq_payload_bytes rq else 0)"
  define inl where "inl = (rq_write rq \<and> len \<le> nvme_tcp_inline_data_size e q)"
  define req1 where "req1 = req\<lparr>req_write := rq_write rq, req_async := False,
                     special := map_option (\<lambda>v. (v, blk_rq_payload_bytes rq)) (rq_special rq),
                     send_state := NVME_TCP_SEND_CMD_PDU, req_offset := 0, data_sent := 0,
                     pdu_len := (if inl then len else 0), pdu_sent := 0, data_len := len, bios := rq_bios rq\<rparr>"
  have eq: "setup_request e q rq req = (if \<not> inl \<and> rq_bios rq \<noteq> [] then nvme_tcp_init_iter req1 else Some req1)"
    unfolding setup_request_def Let_def len_def [symmetric] inl_def [symmetric] req1_def by (rule refl)
  have f: "fresh req1 \<and> pdu_fits req1" if inl "len \<noteq> 0"
  proof -
    have w: "rq_write rq" using that(1) by (simp add: inl_def)
    have l: "len = blk_rq_payload_bytes rq" "blk_rq_nr_phys_segments rq \<noteq> 0" using that(2) by (auto simp: len_def split: if_splits)
    have "fresh req1"
    proof (cases "rq_special rq")
      case None
      then have "sum_list (map tb_size (rq_bios rq)) = len" "list_all bio_ok (rq_bios rq)"
        using assms l by (auto simp: rq_ok_def blk_rq_nr_phys_segments_def blk_rq_payload_bytes_def)
      then show ?thesis using None w that(2) by (auto simp: fresh_def req1_def)
    next
      case (Some v)
      then show ?thesis using w l that(2) by (simp add: fresh_def req1_def blk_rq_payload_bytes_def)
    qed
    then show ?thesis using that by (simp add: pdu_fits_def req1_def)
  qed
  have sel: "req_write req1 = rq_write rq" "data_len req1 = len" "send_state req1 = NVME_TCP_SEND_CMD_PDU" by (simp_all add: req1_def)
  have inline: "inl \<and> len \<noteq> 0" if "nvme_tcp_has_inline_data e q req1"
    using that unfolding nvme_tcp_has_inline_data_def sel inl_def by blast
  have s1: "sendable e q req1" using f inline by (auto simp: sendable_def sel)
  show ?thesis
  proof (cases "\<not> inl \<and> rq_bios rq \<noteq> []")
    case True
    then obtain req' where r: "nvme_tcp_init_iter req1 = Some req'"
      by (cases "rq_special rq"; cases "rq_bios rq") (auto simp: nvme_tcp_init_iter_def req1_def)
    then obtain i where i: "req' = req1\<lparr>iter := i\<rparr>" using init_iter_keeps by blast
    have "nvme_tcp_has_inline_data e q req' = nvme_tcp_has_inline_data e q req1" unfolding i by (simp add: nvme_tcp_has_inline_data_def)
    then have "\<not> nvme_tcp_has_inline_data e q req'" using inline True by blast
    moreover have "send_state req' = NVME_TCP_SEND_CMD_PDU" by (simp add: i sel)
    ultimately show ?thesis using eq True r by (simp add: sendable_def)
  next
    case False
    then show ?thesis using eq s1 by auto
  qed
qed

lemma replaced_sendable:
  assumes "host_inv e s" "all_sendable e s" "r \<notin> set (pending (hq s))" "sendable e (hq s) req"
  defines "t \<equiv> nvme_tcp_queue_request e r (upd_req r (\<lambda>_. req) s)"
  shows "host_inv e t" "all_sendable e t" "pending (hq t) = pending (hq s) @ [r]"
proof -
  have u: "host_inv e (upd_req r (\<lambda>_. req) s)" "r \<notin> set (pending (hq (upd_req r (\<lambda>_. req) s)))" "hq (upd_req r (\<lambda>_. req) s) = hq s"
    using set_request_inv [OF assms(1,3)] assms(3) by (simp_all add: upd_req_def)
  show "host_inv e t" unfolding t_def by (rule queue_request_inv(1) [OF u(1,2)])
  show p: "pending (hq t) = pending (hq s) @ [r]" unfolding t_def by (simp add: queue_request_same u(3))
  have "cmnd_capsule_len (hq t) = cmnd_capsule_len (hq s)" "\<And>x. reqs t x = (if x = r then req else reqs s x)"
    unfolding t_def by (simp_all add: queue_request_same u(3)) (simp add: upd_req_def)
  then show "all_sendable e t"
    using assms(2-4) sendable_cong [of "hq t" "hq s" e] by (auto simp: all_sendable_def p)
qed

text \<open>
  C23: Requests of the block layer keep the sender going. Take a queue that meets its invariant, whose pending
  requests can be sent, and a request that is not pending and whose bios hold the data it announces, unless
  it has a special payload. Then \<open>nvme_tcp_queue_rq\<close> returns, with the verdict on a queue that is not ready or the status of
  setting up the command. The invariant and the consistency of all pending requests still hold, and the
  request is appended to the pending ones exactly when the queue is ready and the command was set up.
\<close>

theorem queue_rq_ready:
  assumes "host_inv e (hst d)" "all_sendable e (hst d)" "r \<notin> set (pending (hq (hst d)))" "rq_ok (brq v r)"
  shows "\<exists>d'. nvme_tcp_queue_rq e v r d =
      Some (if nvmf_check_ready v r (q_live d) then fst (nvme_setup_cmd v r) else nvmf_fail_nonready_command v r, d') \<and>
    host_inv e (hst d') \<and> all_sendable e (hst d') \<and>
    pending (hq (hst d')) = pending (hq (hst d)) @ (if nvmf_check_ready v r (q_live d) \<and> fst (nvme_setup_cmd v r) = BLK_STS_OK then [r] else [])"
proof (cases "nvmf_check_ready v r (q_live d) \<and> fst (nvme_setup_cmd v r) = BLK_STS_OK")
  case False
  then show ?thesis using assms(1,2)
    by (cases "nvme_setup_cmd v r") (auto simp: nvme_tcp_queue_rq_def nvme_tcp_setup_cmd_pdu_def Let_def upd_pdu_def)
next
  case True
  obtain req where r: "setup_request e (hq (hst d)) (brq v r) (reqs (hst d) r) = Some req" "sendable e (hq (hst d)) req"
    using setup_request_sendable [OF assms(4)] by blast
  obtain c where c: "nvme_setup_cmd v r = (BLK_STS_OK, c)" using True by (cases "nvme_setup_cmd v r") simp
  have "\<exists>d'. nvme_tcp_queue_rq e v r d = Some (BLK_STS_OK, d') \<and> hst d' = nvme_tcp_queue_request e r (upd_req r (\<lambda>_. req) (hst d))"
    using True by (simp add: nvme_tcp_queue_rq_def nvme_tcp_setup_cmd_pdu_def c Let_def r(1) nvme_tcp_map_data_def upd_pdu_def)
  then show ?thesis using replaced_sendable [OF assms(1-3) r(2)] True c by auto
qed

section \<open>A PDU without data\<close>















section \<open>Ready-to-transfer\<close>






text \<open>A driver around the example connection; its requests are writes of one page vector.\<close>

definition ex_command :: nvme_command where
  "ex_command = \<lparr>opcode = 1, nvme_flags = 0, fctype = 0, command_id = 0, sgl_addr = 0, sgl_type = 0, sgl_length = 0\<rparr>"

definition ex_hdrv :: hdrv where
  "ex_hdrv = \<lparr>hst = ex_host, pdus = (\<lambda>_. \<lparr>cp_hdgst = False, cp_ddgst = False, cp_hlen = 0, cp_pdo = 0, cp_plen = 0, cp_cmd = ex_command\<rparr>),
     q_live = True, started = [], cleaned = []\<rparr>"

definition ex_qenv :: qenv where
  "ex_qenv = \<lparr>brq = (\<lambda>_. \<lparr>rq_write = True, rq_segments = 1, rq_bytes = 512, rq_bios = bios ex_nreq, rq_special = None\<rparr>),
     nvme_setup_cmd = (\<lambda>_. (BLK_STS_OK, ex_command)), nvmf_check_ready = (\<lambda>_ live. live), nvmf_fail_nonready_command = (\<lambda>_. BLK_STS_IOERR), icdoff = 0\<rparr>"

theorem queue_rq_ready_witness:
  "host_inv ex_henv (hst ex_hdrv) \<and> (\<exists>d'. nvme_tcp_queue_rq ex_henv ex_qenv 0 ex_hdrv = Some (BLK_STS_OK, d') \<and> all_sendable ex_henv (hst d') \<and>
     pending (hq (hst d')) = [0])"
proof -
  have i: "host_inv ex_henv (hst ex_hdrv)" "all_sendable ex_henv (hst ex_hdrv)" "0 \<notin> set (pending (hq (hst ex_hdrv)))" "pending (hq (hst ex_hdrv)) = []"
    using ex_host_inv(1) ex_sendable(2) by (simp_all add: ex_hdrv_def pending_def) (simp_all add: ex_host_defs)
  have q: "rq_ok (brq ex_qenv 0)" "nvmf_check_ready ex_qenv 0 (q_live ex_hdrv)" "fst (nvme_setup_cmd ex_qenv 0) = BLK_STS_OK"
    by (simp_all add: rq_ok_def ex_qenv_def ex_hdrv_def ex_nreq_def bio_ok_def vecs_len_def ex_vec_def)
  show ?thesis using queue_rq_ready [OF i(1-3) q(1)] i(1,4) q(2,3) by auto
qed

end
