(* ===== verification/Tcp_Host_Ctrl.thy ===== *)
theory Tcp_Host_Ctrl
  imports Tcp_Host_Cmd Blk_Mq_Tags
begin

text \<open>
  Controllers of the NVMe/TCP host driver: allocation, start, stop and release of queues with their sockets and
  buffers, the number and the types of the I/O queues, set-up and take-down of a controller, error recovery,
  reset, reconnection and removal. The NVMe core, the fabrics library and the socket layer are calls whose results
  are parameters; what they own is a pointer with a lifetime. A tag set is what the driver asks for, checked by the
  block layer, and one object that stands for the memory in it.
\<close>

section \<open>State\<close>

datatype nvme_ctrl_state =
  NVME_CTRL_NEW | NVME_CTRL_LIVE | NVME_CTRL_RESETTING | NVME_CTRL_CONNECTING | NVME_CTRL_DELETING | NVME_CTRL_DEAD

text \<open>
  A queue of a controller: the bits of \<open>flags\<close>, the objects it owns, whether the callbacks of its socket are the
  driver's, and its part in sending and receiving.
\<close>

record hcq =
  Q_ALLOCATED :: bool
  Q_LIVE :: bool
  q_sock :: ptr
  q_pdu :: ptr
  q_iovs :: ptr
  q_mapped :: ptr
  q_snd_hash :: ptr
  q_rcv_hash :: ptr
  q_size :: nat
  q_callbacks :: bool
  q_host :: host

text \<open>Calls into the NVMe core and the block layer that do not return a value, in order.\<close>

datatype ctl_event =
    Quiesce_admin | Unquiesce_admin | Stop_queues | Start_queues | Cancel_admin | Cancel_io | Start_ctrl | Stop_ctrl
  | Shutdown_ctrl | Disable_ctrl | Stop_keep_alive | Delete_ctrl | Update_nr_hw_queues nat | Uninit_ctrl | Flush_err_work

record nvme_tcp_ctrl =
  ctl_queues :: "hcq list"
  ctl_state :: nvme_ctrl_state
  queue_count :: nat
  sqsize :: u16
  ioccsz :: u32
  maxcmd :: u16
  ctl_icdoff :: u16
  nr_reconnects :: int
  io_queues :: "hctx_type \<Rightarrow> nat"
  async_pdu :: ptr
  admin_tagset :: ptr
  fabrics_q :: ptr
  admin_q :: ptr
  tagset :: ptr
  connect_q :: ptr
  admin_tag_set :: blk_mq_tag_set
  tag_set :: blk_mq_tag_set
  connect_work :: bool
  ctl_err_work :: bool
  kst :: kstate
  cevents :: "ctl_event list"

text \<open>The answer to the request for a connection.\<close>

record icresp =
  ic_is_icresp :: bool
  ic_plen :: u32
  ic_pfv :: u16
  ic_ddgst :: bool
  ic_hdgst :: bool
  ic_cpda :: u8

text \<open>What identification of the controller reports.\<close>

record ctrl_ident =
  id_icdoff :: u16
  id_ioccsz :: u32
  id_maxcmd :: u16

record nvmf_ctrl_options =
  nr_io_queues :: nat
  nr_write_queues :: nat
  nr_poll_queues :: nat
  opt_queue_size :: nat
  opt_hdr_digest :: bool
  opt_data_digest :: bool
  opt_tos :: int
  opt_host_traddr :: bool
  opt_trsvcid :: bool
  duplicate_connect :: bool

record cenv =
  ck :: kenv
  cm :: menv
  che :: henv
  chp :: penv
  opts :: nvmf_ctrl_options
  sizeof_icresp :: nat
  sizeof_tcp_request :: nat
  PFV_1_0 :: u16
  ADMIN_CCSZ :: nat
  ctl_online_cpus :: nat
  next_wrap :: "int \<Rightarrow> int"
  icresp_at :: "nat \<Rightarrow> icresp"
  identify :: "nat \<Rightarrow> ctrl_ident"
  set_queue_count :: "nat \<Rightarrow> nat \<Rightarrow> rc \<times> nat"
  change_ok :: "nvme_ctrl_state \<Rightarrow> nvme_ctrl_state \<Rightarrow> bool"
  nvmf_should_reconnect :: "int \<Rightarrow> bool"

abbreviation qhq :: "hcq \<Rightarrow> nvme_tcp_queue" where "qhq q \<equiv> hq (q_host q)"

definition upd_qh :: "(nvme_tcp_queue \<Rightarrow> nvme_tcp_queue) \<Rightarrow> hcq \<Rightarrow> hcq" where
  "upd_qh f q = q\<lparr>q_host := upd_hq f (q_host q)\<rparr>"

definition clog :: "ctl_event \<Rightarrow> nvme_tcp_ctrl \<Rightarrow> nvme_tcp_ctrl" where
  "clog ev c = c\<lparr>cevents := cevents c @ [ev]\<rparr>"

section \<open>Digests and the connection\<close>

abbreviation digests :: "hcq \<Rightarrow> bool" where "digests q \<equiv> hdr_digest (qhq q) \<or> data_digest (qhq q)"

text \<open>The transform is found through the receive hash; it goes with the two requests.\<close>

definition nvme_tcp_free_crypto :: "hcq \<Rightarrow> kstate \<Rightarrow> (hcq \<times> kstate) option" where
  "nvme_tcp_free_crypto q k = do {
     k_use (q_rcv_hash q);
     (r, k1) \<leftarrow> k_free (q_rcv_hash q) k;
     (s, k2) \<leftarrow> k_free (q_snd_hash q) k1;
     Some (q\<lparr>q_rcv_hash := r, q_snd_hash := s\<rparr>, kmem_add (-1) k2) }"

definition nvme_tcp_alloc_crypto :: "kenv \<Rightarrow> hcq \<Rightarrow> kstate \<Rightarrow> rc \<times> hcq \<times> kstate" where
  "nvme_tcp_alloc_crypto v q k =
     (case k_make v k of (ret, k1) \<Rightarrow>
        if ret \<noteq> Ret 0 then (ret, q, k1)
        else
          (case k_new v k1 of (s, k2) \<Rightarrow>
             if s = Null then (Err ENOMEM, q\<lparr>q_snd_hash := Null\<rparr>, kmem_add (-1) k2)
             else
               (case k_new v k2 of (r, k3) \<Rightarrow>
                  if r = Null then (Err ENOMEM, q\<lparr>q_snd_hash := Freed, q_rcv_hash := Null\<rparr>, kmem_add (-2) k3)
                  else (Ret 0, q\<lparr>q_snd_hash := s, q_rcv_hash := r\<rparr>, k3))))"

text \<open>The tests of the answer, in the order of the code.\<close>

definition icresp_ok :: "cenv \<Rightarrow> nvme_tcp_queue \<Rightarrow> icresp \<Rightarrow> bool" where
  "icresp_ok v q a \<longleftrightarrow>
     ic_is_icresp a \<and> unat (ic_plen a) = sizeof_icresp v \<and> ic_pfv a = PFV_1_0 v \<and> ic_ddgst a = data_digest q \<and>
     ic_hdgst a = hdr_digest q \<and> ic_cpda a = 0"

text \<open>Two buffers, a message out and one in; both buffers are freed on every path.\<close>

definition nvme_tcp_init_connection :: "cenv \<Rightarrow> hcq \<Rightarrow> kstate \<Rightarrow> rc \<times> kstate" where
  "nvme_tcp_init_connection v q k =
     (case k_new (ck v) k of (a, k1) \<Rightarrow>
        if a = Null then (Err ENOMEM, k1)
        else
          (case k_new (ck v) k1 of (b, k2) \<Rightarrow>
             if b = Null then (Err ENOMEM, kmem_add (-1) k2)
             else
               (case k_do (ck v) k2 of (ret, k3) \<Rightarrow>
                  if rc_neg ret then (ret, kmem_add (-2) k3)
                  else
                    (case k_do (ck v) k3 of (ret2, k4) \<Rightarrow>
                       if rc_neg ret2 then (ret2, kmem_add (-2) k4)
                       else (if icresp_ok v (qhq q) (icresp_at v (kpos k3)) then Ret 0 else Err EINVAL, kmem_add (-2) k4)))))"

section \<open>Queues\<close>

text \<open>The end of the error path of \<open>nvme_tcp_alloc_queue\<close>, by its labels.\<close>

definition err_sock :: "rc \<Rightarrow> hcq \<Rightarrow> kstate \<Rightarrow> (rc \<times> hcq \<times> kstate) option" where
  "err_sock ret q k = do { (p, k1) \<leftarrow> k_release (q_sock q) k; Some (ret, q\<lparr>q_sock := Null\<rparr>, k1) }"

definition err_crypto :: "rc \<Rightarrow> hcq \<Rightarrow> kstate \<Rightarrow> (rc \<times> hcq \<times> kstate) option" where
  "err_crypto ret q k = do {
     (q1, k1) \<leftarrow> (if digests q then nvme_tcp_free_crypto q k else Some (q, k));
     err_sock ret q1 k1 }"

definition err_rcv_pdu :: "rc \<Rightarrow> hcq \<Rightarrow> kstate \<Rightarrow> (rc \<times> hcq \<times> kstate) option" where
  "err_rcv_pdu ret q k = do { (p, k1) \<leftarrow> k_free (q_pdu q) k; err_crypto ret (q\<lparr>q_pdu := p\<rparr>) k1 }"

text \<open>The two arrays of the caravan and the counters of the queue; memory is refused before there is a socket.\<close>

definition alloc_caravan :: "cenv \<Rightarrow> hcq \<Rightarrow> kstate \<Rightarrow> rc \<times> hcq \<times> kstate" where
  "alloc_caravan v q k =
     (case k_new (ck v) k of (a, k1) \<Rightarrow>
        if a = Null then (Err ENOMEM, q\<lparr>q_iovs := Null\<rparr>, k1)
        else
          (case k_new (ck v) k1 of (b, k2) \<Rightarrow>
             if b = Null then (Err ENOMEM, q\<lparr>q_iovs := Live, q_mapped := Null\<rparr>, k2)
             else (Ret 0, upd_qh (\<lambda>x. x\<lparr>
                     caravan_iovs := replicate (I10_MAX_AGGREGATION_SIZE * 2) \<lparr>seg_mem = Page 0, seg_off = 0, seg_len = 0\<rparr>,
                     caravan_mapped := replicate I10_MAX_AGGREGATION_SIZE 0,
                     nr_req := 0, timer_set := 0, nr_iovs := 0, nr_caravan_req := 0, nr_mapped := 0, caravan_len := 0,
                     send_now := False, timer_active := False\<rparr>) (q\<lparr>q_iovs := Live, q_mapped := Live\<rparr>), k2)))"

text \<open>
  The options of the socket (two of TCP, two buffer sizes, linger and the type of service), the fields of the
  receiver, and the local address.
\<close>

definition open_sock :: "cenv \<Rightarrow> nat \<Rightarrow> hcq \<Rightarrow> kstate \<Rightarrow> (rc \<times> hcq \<times> kstate) option" where
  "open_sock v qid q k =
     (case k_all (ck v) (if 0 \<le> opt_tos (opts v) then 6 else 5) k of (ret, k1) \<Rightarrow>
        if ret \<noteq> Ret 0 then err_sock ret q k1
        else
          (let n = (if qid = 0 then 0 else (qid - 1) mod ctl_online_cpus v);
               q1 = q\<lparr>q_host := upd_rx (\<lambda>x. x\<lparr>data_remaining := Some 0, ddgst_remaining := 0, pdu_remaining := 0, rx_pdu := []\<rparr>)
                        (upd_hq (\<lambda>x. x\<lparr>io_cpu := next_wrap v (int n - 1), cur_request := None\<rparr>) (q_host q))\<rparr> in
           if opt_host_traddr (opts v)
           then (case k_do (ck v) k1 of (ret2, k2) \<Rightarrow> if ret2 \<noteq> Ret 0 then err_sock ret2 q1 k2 else Some (Ret 0, q1, k2))
           else Some (Ret 0, q1, k1)))"

text \<open>Digests, the buffer for headers, and the connection; then the queue is allocated and its callbacks are set.\<close>

definition connect_sock :: "cenv \<Rightarrow> hcq \<Rightarrow> kstate \<Rightarrow> (rc \<times> hcq \<times> kstate) option" where
  "connect_sock v q0 k =
     (let q = upd_qh (\<lambda>x. x\<lparr>hdr_digest := opt_hdr_digest (opts v), data_digest := opt_data_digest (opts v)\<rparr>) q0 in
      case (if digests q then nvme_tcp_alloc_crypto (ck v) q k else (Ret 0, q, k)) of (ret, q1, k1) \<Rightarrow>
        if ret \<noteq> Ret 0 then err_sock ret q1 k1
        else
          (case k_new (ck v) k1 of (p, k2) \<Rightarrow>
             if p = Null then err_crypto (Err ENOMEM) (q1\<lparr>q_pdu := Null\<rparr>) k2
             else
               (case k_do (ck v) k2 of (ret2, k3) \<Rightarrow>
                  if ret2 \<noteq> Ret 0 then err_rcv_pdu ret2 (q1\<lparr>q_pdu := Live\<rparr>) k3
                  else
                    (case nvme_tcp_init_connection v q1 k3 of (ret3, k4) \<Rightarrow>
                       if ret3 \<noteq> Ret 0 then do { k_use (q_sock q1); err_rcv_pdu ret3 (q1\<lparr>q_pdu := Live\<rparr>) k4 }
                       else Some (Ret 0, q1\<lparr>q_pdu := Live, Q_ALLOCATED := True, q_callbacks := True,
                              q_host := nvme_tcp_init_recv_ctx (che v) (chp v) (upd_rx (\<lambda>x. x\<lparr>rd_enabled := True\<rparr>) (q_host q1))\<rparr>, k4)))))"

definition nvme_tcp_alloc_queue :: "cenv \<Rightarrow> u32 \<Rightarrow> nat \<Rightarrow> nat \<Rightarrow> hcq \<Rightarrow> kstate \<Rightarrow> (rc \<times> hcq \<times> kstate) option" where
  "nvme_tcp_alloc_queue v ccsz qid depth q k =
     (let q0 = upd_qh (\<lambda>x. x\<lparr>queue_id := qid, send_list := [], io_work := False, io_work_lat := False,
                 cmnd_capsule_len := (if 0 < qid then unat (ccsz * 16) else sizeof_command (che v) + ADMIN_CCSZ v)\<rparr>)
                 (q\<lparr>q_size := depth\<rparr>) in
      case alloc_caravan v q0 k of (ret, q1, k1) \<Rightarrow>
        if ret \<noteq> Ret 0 then err_sock ret q1 k1
        else
          (case k_make (ck v) k1 of (ret2, k2) \<Rightarrow>
             if ret2 \<noteq> Ret 0 then Some (ret2, q1, k2)
             else do {
               (ret3, q3, k3) \<leftarrow> open_sock v qid (q1\<lparr>q_sock := Live\<rparr>) k2;
               if ret3 \<noteq> Ret 0 then Some (ret3, q3, k3) else connect_sock v q3 k3 }))"

definition nvme_tcp_free_queue :: "hcq \<Rightarrow> kstate \<Rightarrow> (hcq \<times> kstate) option" where
  "nvme_tcp_free_queue q k =
     (if \<not> Q_ALLOCATED q then Some (q, k)
      else do {
        (q1, k1) \<leftarrow> (if digests q then nvme_tcp_free_crypto q k else Some (q, k));
        (s, k2) \<leftarrow> k_release (q_sock q1) k1;
        (p, k3) \<leftarrow> k_free (q_pdu q1) k2;
        (a, k4) \<leftarrow> k_free (q_iovs q1) k3;
        (b, k5) \<leftarrow> k_free (q_mapped q1) k4;
        Some (upd_qh (\<lambda>x. x\<lparr>timer_active := False\<rparr>)
               (q1\<lparr>Q_ALLOCATED := False, q_sock := s, q_pdu := p, q_iovs := a, q_mapped := b\<rparr>), k5) })"

definition nvme_tcp_restore_sock_calls :: "hcq \<Rightarrow> hcq option" where
  "nvme_tcp_restore_sock_calls q = do { k_use (q_sock q); Some (q\<lparr>q_callbacks := False\<rparr>) }"

text \<open>\<open>__nvme_tcp_stop_queue\<close>\<close>

definition stop_queue' :: "hcq \<Rightarrow> hcq option" where
  "stop_queue' q = do {
     k_use (q_sock q);
     q1 \<leftarrow> nvme_tcp_restore_sock_calls q;
     Some (upd_qh (\<lambda>x. x\<lparr>io_work := False, io_work_lat := False\<rparr>) q1) }"

definition nvme_tcp_stop_queue :: "hcq \<Rightarrow> hcq option" where
  "nvme_tcp_stop_queue q = (if \<not> Q_LIVE q then Some q else stop_queue' (q\<lparr>Q_LIVE := False\<rparr>))"

text \<open>The connect command of fabrics, for the admin queue or an I/O queue.\<close>

definition nvme_tcp_start_queue :: "cenv \<Rightarrow> hcq \<Rightarrow> kstate \<Rightarrow> (rc \<times> hcq \<times> kstate) option" where
  "nvme_tcp_start_queue v q k =
     (case k_do (ck v) k of (ret, k1) \<Rightarrow>
        if ret = Ret 0 then Some (ret, q\<lparr>Q_LIVE := True\<rparr>, k1)
        else do { q1 \<leftarrow> (if Q_ALLOCATED q then stop_queue' q else Some q); Some (ret, q1, k1) })"

section \<open>The queues of a controller\<close>

text \<open>An operation on the queue at an index; there is no queue beyond the array.\<close>

definition on_queue :: "nat \<Rightarrow> (hcq \<Rightarrow> kstate \<Rightarrow> (rc \<times> hcq \<times> kstate) option) \<Rightarrow> nvme_tcp_ctrl \<Rightarrow> (rc \<times> nvme_tcp_ctrl) option" where
  "on_queue i f c = do {
     q \<leftarrow> arr_get (ctl_queues c) (int i);
     (ret, q1, k1) \<leftarrow> f q (kst c);
     Some (ret, c\<lparr>ctl_queues := (ctl_queues c)[i := q1], kst := k1\<rparr>) }"

definition free_at :: "nat \<Rightarrow> nvme_tcp_ctrl \<Rightarrow> nvme_tcp_ctrl option" where
  "free_at i c = map_option snd (on_queue i (\<lambda>q k. map_option (\<lambda>y. (Ret 0, y)) (nvme_tcp_free_queue q k)) c)"

definition stop_at :: "nat \<Rightarrow> nvme_tcp_ctrl \<Rightarrow> nvme_tcp_ctrl option" where
  "stop_at i c = map_option snd (on_queue i (\<lambda>q k. map_option (\<lambda>q1. (Ret 0, q1, k)) (nvme_tcp_stop_queue q)) c)"

definition start_at :: "cenv \<Rightarrow> nat \<Rightarrow> nvme_tcp_ctrl \<Rightarrow> (rc \<times> nvme_tcp_ctrl) option" where
  "start_at v i c = on_queue i (nvme_tcp_start_queue v) c"

definition alloc_at :: "cenv \<Rightarrow> nat \<Rightarrow> nat \<Rightarrow> nvme_tcp_ctrl \<Rightarrow> (rc \<times> nvme_tcp_ctrl) option" where
  "alloc_at v i depth c = on_queue i (nvme_tcp_alloc_queue v (ioccsz c) i depth) c"

definition nvme_tcp_free_io_queues :: "nvme_tcp_ctrl \<Rightarrow> nvme_tcp_ctrl option" where
  "nvme_tcp_free_io_queues c = for_each free_at [1..<queue_count c] c"

definition nvme_tcp_stop_io_queues :: "nvme_tcp_ctrl \<Rightarrow> nvme_tcp_ctrl option" where
  "nvme_tcp_stop_io_queues c = for_each stop_at [1..<queue_count c] c"

text \<open>
  Operations on the queues \<open>i\<close>, \<open>i + 1\<close> and so on; when one of them fails, the ones before are undone in reverse.
\<close>

fun each_queue ::
  "(nat \<Rightarrow> nvme_tcp_ctrl \<Rightarrow> (rc \<times> nvme_tcp_ctrl) option) \<Rightarrow> (nat \<Rightarrow> nvme_tcp_ctrl \<Rightarrow> nvme_tcp_ctrl option) \<Rightarrow>
   nat \<Rightarrow> nat \<Rightarrow> nvme_tcp_ctrl \<Rightarrow> (rc \<times> nvme_tcp_ctrl) option" where
  "each_queue f undo i 0 c = Some (Ret 0, c)"
| "each_queue f undo i (Suc n) c = do {
     (ret, c1) \<leftarrow> f i c;
     if ret \<noteq> Ret 0 then do { c2 \<leftarrow> for_each undo (rev [1..<i]) c1; Some (ret, c2) }
     else each_queue f undo (Suc i) n c1 }"

definition nvme_tcp_start_io_queues :: "cenv \<Rightarrow> nvme_tcp_ctrl \<Rightarrow> (rc \<times> nvme_tcp_ctrl) option" where
  "nvme_tcp_start_io_queues v c = each_queue (start_at v) stop_at 1 (queue_count c - 1) c"

text \<open>\<open>__nvme_tcp_alloc_io_queues\<close>\<close>

definition alloc_io_queues' :: "cenv \<Rightarrow> nvme_tcp_ctrl \<Rightarrow> (rc \<times> nvme_tcp_ctrl) option" where
  "alloc_io_queues' v c = each_queue (\<lambda>i. alloc_at v i (unat (sqsize c) + 1)) free_at 1 (queue_count c - 1) c"

text \<open>The request for asynchronous events has a PDU of its own.\<close>

definition nvme_tcp_free_async_req :: "nvme_tcp_ctrl \<Rightarrow> nvme_tcp_ctrl option" where
  "nvme_tcp_free_async_req c = do { (p, k1) \<leftarrow> k_release (async_pdu c) (kst c); Some (c\<lparr>async_pdu := p, kst := k1\<rparr>) }"

definition nvme_tcp_alloc_async_req :: "cenv \<Rightarrow> nvme_tcp_ctrl \<Rightarrow> rc \<times> nvme_tcp_ctrl" where
  "nvme_tcp_alloc_async_req v c =
     (case k_new (ck v) (kst c) of (p, k1) \<Rightarrow> (if p = Null then Err ENOMEM else Ret 0, c\<lparr>async_pdu := p, kst := k1\<rparr>))"

definition nvme_tcp_free_admin_queue :: "nvme_tcp_ctrl \<Rightarrow> nvme_tcp_ctrl option" where
  "nvme_tcp_free_admin_queue c = do {
     c1 \<leftarrow> (if async_pdu c \<noteq> Null then map_option (\<lambda>c1. c1\<lparr>async_pdu := Null\<rparr>) (nvme_tcp_free_async_req c) else Some c);
     free_at 0 c1 }"

definition nvme_tcp_alloc_admin_queue :: "cenv \<Rightarrow> nvme_tcp_ctrl \<Rightarrow> (rc \<times> nvme_tcp_ctrl) option" where
  "nvme_tcp_alloc_admin_queue v c = do {
     (ret, c1) \<leftarrow> alloc_at v 0 NVME_AQ_DEPTH c;
     if ret \<noteq> Ret 0 then Some (ret, c1)
     else
       (case nvme_tcp_alloc_async_req v c1 of (ret2, c2) \<Rightarrow>
          if ret2 \<noteq> Ret 0 then do { c3 \<leftarrow> free_at 0 c2; Some (ret2, c3) } else Some (Ret 0, c2)) }"

section \<open>Types of I/O queues\<close>

definition nvme_tcp_nr_io_queues :: "cenv \<Rightarrow> nat" where
  "nvme_tcp_nr_io_queues v =
     min (nr_io_queues (opts v)) (ctl_online_cpus v) + min (nr_write_queues (opts v)) (ctl_online_cpus v) +
     min (nr_poll_queues (opts v)) (ctl_online_cpus v)"

text \<open>How many queues of each type there are; entries that are not assigned keep their value.\<close>

definition nvme_tcp_set_io_queues :: "nvmf_ctrl_options \<Rightarrow> nat \<Rightarrow> (hctx_type \<Rightarrow> nat) \<Rightarrow> hctx_type \<Rightarrow> nat" where
  "nvme_tcp_set_io_queues ops nr0 m0 =
     (let (nr, m) =
        (if nr_write_queues ops \<noteq> 0 \<and> nr_io_queues ops < nr0 then
           (let nr1 = nr0 - nr_io_queues ops; d = min (nr_write_queues ops) nr1 in
            (nr1 - d, m0(HCTX_TYPE_READ := nr_io_queues ops, HCTX_TYPE_DEFAULT := d)))
         else
           (let d = min (nr_io_queues ops) nr0 in (nr0 - d, m0(HCTX_TYPE_DEFAULT := d)))) in
      if nr_poll_queues ops \<noteq> 0 \<and> nr \<noteq> 0 then m(HCTX_TYPE_POLL := min (nr_poll_queues ops) nr) else m)"

text \<open>The part of the hardware queues that a map covers, and the CPUs spread over it.\<close>

definition queue_range :: "menv \<Rightarrow> nat \<Rightarrow> nat \<Rightarrow> blk_mq_queue_map" where
  "queue_range m nr off = \<lparr>mq_map = map_cpus m nr off, map_nr_queues = nr, map_offset = off\<rparr>"

definition nvme_tcp_map_queues ::
  "menv \<Rightarrow> nvmf_ctrl_options \<Rightarrow> (hctx_type \<Rightarrow> nat) \<Rightarrow> blk_mq_tag_set \<Rightarrow> rc \<times> (hctx_type \<Rightarrow> blk_mq_queue_map)" where
  "nvme_tcp_map_queues m ops io s =
     (let d = queue_range m (io HCTX_TYPE_DEFAULT) 0;
          r = (if nr_write_queues ops \<noteq> 0 \<and> io HCTX_TYPE_READ \<noteq> 0
               then queue_range m (io HCTX_TYPE_READ) (io HCTX_TYPE_DEFAULT) else d);
          m1 = (set_map s)(HCTX_TYPE_DEFAULT := d, HCTX_TYPE_READ := r) in
      (Ret 0,
       if nr_poll_queues ops \<noteq> 0 \<and> io HCTX_TYPE_POLL \<noteq> 0
       then m1(HCTX_TYPE_POLL := queue_range m (io HCTX_TYPE_POLL) (io HCTX_TYPE_DEFAULT + io HCTX_TYPE_READ)) else m1))"

definition nvme_tcp_alloc_io_queues :: "cenv \<Rightarrow> nvme_tcp_ctrl \<Rightarrow> (rc \<times> nvme_tcp_ctrl) option" where
  "nvme_tcp_alloc_io_queues v c =
     (case set_queue_count v (kpos (kst c)) (nvme_tcp_nr_io_queues v) of (ret, nr) \<Rightarrow>
        let c1 = c\<lparr>kst := k_next (kst c)\<rparr> in
        if ret \<noteq> Ret 0 then Some (ret, c1)
        else
          (let c2 = c1\<lparr>queue_count := nr + 1\<rparr> in
           if queue_count c2 < 2 then Some (Ret 0, c2)
           else alloc_io_queues' v (c2\<lparr>io_queues := nvme_tcp_set_io_queues (opts v) nr (io_queues c2)\<rparr>)))"

section \<open>Set-up and take-down of the queues\<close>

text \<open>
  What the driver asks for: a cleared tag set for the admin queue, with tags for the connect and the keep-alive command,
  or for the I/O queues, with a tag for the connect command.
\<close>

definition new_tag_set :: blk_mq_tag_set where
  "new_tag_set =
     \<lparr>set_map = (\<lambda>_. \<lparr>mq_map = [], map_nr_queues = 0, map_offset = 0\<rparr>), set_map_mem = (\<lambda>_. Null), nr_maps = 0, set_nr_hw = 0,
      queue_depth = 0, reserved_tags = 0, cmd_size = 0, set_node = NUMA_NO_NODE, set_flags = {}, set_tags = [], tags_mem = Null\<rparr>"

definition admin_tagset_args :: "cenv \<Rightarrow> blk_mq_tag_set" where
  "admin_tagset_args v =
     new_tag_set\<lparr>queue_depth := NVME_AQ_MQ_TAG_DEPTH, reserved_tags := 2, cmd_size := sizeof_tcp_request v, set_nr_hw := 1\<rparr>"

definition io_tagset_args :: "cenv \<Rightarrow> nvme_tcp_ctrl \<Rightarrow> blk_mq_tag_set" where
  "io_tagset_args v c =
     new_tag_set\<lparr>queue_depth := unat (sqsize c) + 1, reserved_tags := 1, set_flags := {BLK_MQ_F_SHOULD_MERGE},
       cmd_size := sizeof_tcp_request v, set_nr_hw := queue_count c - 1,
       nr_maps := (if nr_poll_queues (opts v) \<noteq> 0 then HCTX_MAX_TYPES else 2)\<rparr>"

text \<open>The operations of the driver: both tag sets can queue requests and know no budgets.\<close>

definition tcp_mq_ops :: "cenv \<Rightarrow> menv" where
  "tcp_mq_ops v = (cm v)\<lparr>op_queue_rq := True, op_get_budget := False, op_put_budget := False, op_init_request := True,
     op_exit_request := True, op_exit_hctx := False\<rparr>"

text \<open>
  \<open>blk_mq_alloc_tag_set\<close>, which checks its arguments, and \<open>blk_mq_init_queue\<close> make an object or return an error;
  \<open>blk_cleanup_queue\<close> and \<open>blk_mq_free_tag_set\<close> release it.
\<close>

definition make_obj :: "cenv \<Rightarrow> nvme_tcp_ctrl \<Rightarrow> rc \<times> ptr \<times> nvme_tcp_ctrl" where
  "make_obj v c = (case k_make (ck v) (kst c) of (ret, k1) \<Rightarrow> (ret, if ret = Ret 0 then Live else ErrPtr, c\<lparr>kst := k1\<rparr>))"

definition nvme_tcp_alloc_tagset :: "cenv \<Rightarrow> bool \<Rightarrow> nvme_tcp_ctrl \<Rightarrow> rc \<times> ptr \<times> nvme_tcp_ctrl" where
  "nvme_tcp_alloc_tagset v admin c =
     (case tag_set_args (tcp_mq_ops v) (if admin then admin_tagset_args v else io_tagset_args v c) of (ret, s) \<Rightarrow>
        let c1 = (if admin then c\<lparr>admin_tag_set := s\<rparr> else c\<lparr>tag_set := s\<rparr>) in
        if ret \<noteq> Ret 0 then (ret, ErrPtr, c1) else make_obj v c1)"

definition drop_obj :: "(nvme_tcp_ctrl \<Rightarrow> ptr) \<Rightarrow> (ptr \<Rightarrow> nvme_tcp_ctrl \<Rightarrow> nvme_tcp_ctrl) \<Rightarrow> nvme_tcp_ctrl \<Rightarrow> nvme_tcp_ctrl option" where
  "drop_obj get put c = do { (p, k1) \<leftarrow> k_release (get c) (kst c); Some (put p (c\<lparr>kst := k1\<rparr>)) }"

abbreviation drop_tagset :: "nvme_tcp_ctrl \<Rightarrow> nvme_tcp_ctrl option" where
  "drop_tagset \<equiv> drop_obj tagset (\<lambda>p. tagset_update (\<lambda>_. p))"
abbreviation drop_connect_q :: "nvme_tcp_ctrl \<Rightarrow> nvme_tcp_ctrl option" where
  "drop_connect_q \<equiv> drop_obj connect_q (\<lambda>p. connect_q_update (\<lambda>_. p))"
abbreviation drop_admin_tagset :: "nvme_tcp_ctrl \<Rightarrow> nvme_tcp_ctrl option" where
  "drop_admin_tagset \<equiv> drop_obj admin_tagset (\<lambda>p. admin_tagset_update (\<lambda>_. p))"
abbreviation drop_fabrics_q :: "nvme_tcp_ctrl \<Rightarrow> nvme_tcp_ctrl option" where
  "drop_fabrics_q \<equiv> drop_obj fabrics_q (\<lambda>p. fabrics_q_update (\<lambda>_. p))"
abbreviation drop_admin_q :: "nvme_tcp_ctrl \<Rightarrow> nvme_tcp_ctrl option" where
  "drop_admin_q \<equiv> drop_obj admin_q (\<lambda>p. admin_q_update (\<lambda>_. p))"

abbreviation when_new :: "bool \<Rightarrow> (nvme_tcp_ctrl \<Rightarrow> nvme_tcp_ctrl option) \<Rightarrow> nvme_tcp_ctrl \<Rightarrow> nvme_tcp_ctrl option" where
  "when_new new f c \<equiv> if new then f c else Some c"

definition nvme_tcp_destroy_io_queues :: "bool \<Rightarrow> nvme_tcp_ctrl \<Rightarrow> nvme_tcp_ctrl option" where
  "nvme_tcp_destroy_io_queues remove c = do {
     c1 \<leftarrow> nvme_tcp_stop_io_queues c;
     c2 \<leftarrow> when_new remove drop_connect_q c1;
     c3 \<leftarrow> when_new remove drop_tagset c2;
     nvme_tcp_free_io_queues c3 }"

text \<open>The error path of \<open>nvme_tcp_configure_io_queues\<close>, by how much there is to undo.\<close>

definition undo_io :: "nat \<Rightarrow> rc \<Rightarrow> bool \<Rightarrow> nvme_tcp_ctrl \<Rightarrow> (rc \<times> nvme_tcp_ctrl) option" where
  "undo_io level ret new c = do {
     c1 \<leftarrow> (if 2 \<le> level then when_new new drop_connect_q c else Some c);
     c2 \<leftarrow> (if 1 \<le> level then when_new new drop_tagset c1 else Some c1);
     c3 \<leftarrow> nvme_tcp_free_io_queues c2;
     Some (ret, c3) }"

definition start_io :: "cenv \<Rightarrow> bool \<Rightarrow> nvme_tcp_ctrl \<Rightarrow> (rc \<times> nvme_tcp_ctrl) option" where
  "start_io v new c = do {
     (ret, c1) \<leftarrow> nvme_tcp_start_io_queues v c;
     if ret \<noteq> Ret 0 then undo_io 2 ret new c1 else Some (Ret 0, c1) }"

definition nvme_tcp_configure_io_queues :: "cenv \<Rightarrow> bool \<Rightarrow> nvme_tcp_ctrl \<Rightarrow> (rc \<times> nvme_tcp_ctrl) option" where
  "nvme_tcp_configure_io_queues v new c = do {
     (ret, c1) \<leftarrow> nvme_tcp_alloc_io_queues v c;
     if ret \<noteq> Ret 0 then Some (ret, c1)
     else if new then
       (case nvme_tcp_alloc_tagset v False c1 of (ret2, p2, c2) \<Rightarrow>
          let c2' = c2\<lparr>tagset := p2\<rparr> in
          if ret2 \<noteq> Ret 0 then undo_io 0 ret2 new c2'
          else
            (case make_obj v c2' of (ret3, p3, c3) \<Rightarrow>
               let c3' = c3\<lparr>connect_q := p3\<rparr> in
               if ret3 \<noteq> Ret 0 then undo_io 1 ret3 new c3' else start_io v new c3'))
     else do { k_use (tagset c1); start_io v new (clog (Update_nr_hw_queues (queue_count c1 - 1)) c1) } }"

definition nvme_tcp_destroy_admin_queue :: "bool \<Rightarrow> nvme_tcp_ctrl \<Rightarrow> nvme_tcp_ctrl option" where
  "nvme_tcp_destroy_admin_queue remove c = do {
     c1 \<leftarrow> stop_at 0 c;
     c2 \<leftarrow> when_new remove drop_admin_q c1;
     c3 \<leftarrow> when_new remove drop_fabrics_q c2;
     c4 \<leftarrow> when_new remove drop_admin_tagset c3;
     nvme_tcp_free_admin_queue c4 }"

definition undo_admin :: "nat \<Rightarrow> rc \<Rightarrow> bool \<Rightarrow> nvme_tcp_ctrl \<Rightarrow> (rc \<times> nvme_tcp_ctrl) option" where
  "undo_admin level ret new c = do {
     c0 \<leftarrow> (if 4 \<le> level then stop_at 0 c else Some c);
     c1 \<leftarrow> (if 3 \<le> level then when_new new drop_admin_q c0 else Some c0);
     c2 \<leftarrow> (if 2 \<le> level then when_new new drop_fabrics_q c1 else Some c1);
     c3 \<leftarrow> (if 1 \<le> level then when_new new drop_admin_tagset c2 else Some c2);
     c4 \<leftarrow> nvme_tcp_free_admin_queue c3;
     Some (ret, c4) }"

text \<open>The connect command, \<open>nvme_enable_ctrl\<close> and \<open>nvme_init_identify\<close>, which reads what the controller can do.\<close>

definition start_admin :: "cenv \<Rightarrow> bool \<Rightarrow> nvme_tcp_ctrl \<Rightarrow> (rc \<times> nvme_tcp_ctrl) option" where
  "start_admin v new c = do {
     (ret, c1) \<leftarrow> start_at v 0 c;
     if ret \<noteq> Ret 0 then undo_admin 3 ret new c1
     else
       (case k_do (ck v) (kst c1) of (ret2, k2) \<Rightarrow>
          let c2 = c1\<lparr>kst := k2\<rparr> in
          if ret2 \<noteq> Ret 0 then undo_admin 4 ret2 new c2
          else do {
            k_use (admin_q c2);
            case k_do (ck v) k2 of (ret3, k3) \<Rightarrow>
              let c3 = clog Unquiesce_admin (c2\<lparr>kst := k3\<rparr>) in
              if ret3 \<noteq> Ret 0 then undo_admin 4 ret3 new c3
              else
                (let i = identify v (kpos k2) in
                 Some (Ret 0, c3\<lparr>ctl_icdoff := id_icdoff i, ioccsz := id_ioccsz i, maxcmd := id_maxcmd i\<rparr>)) }) }"

definition nvme_tcp_configure_admin_queue :: "cenv \<Rightarrow> bool \<Rightarrow> nvme_tcp_ctrl \<Rightarrow> (rc \<times> nvme_tcp_ctrl) option" where
  "nvme_tcp_configure_admin_queue v new c = do {
     (ret, c1) \<leftarrow> nvme_tcp_alloc_admin_queue v c;
     if ret \<noteq> Ret 0 then Some (ret, c1)
     else if new then
       (case nvme_tcp_alloc_tagset v True c1 of (ret2, p2, c2) \<Rightarrow>
          let c2' = c2\<lparr>admin_tagset := p2\<rparr> in
          if ret2 \<noteq> Ret 0 then undo_admin 0 ret2 new c2'
          else
            (case make_obj v c2' of (ret3, p3, c3) \<Rightarrow>
               let c3' = c3\<lparr>fabrics_q := p3\<rparr> in
               if ret3 \<noteq> Ret 0 then undo_admin 1 ret3 new c3'
               else
                 (case make_obj v c3' of (ret4, p4, c4) \<Rightarrow>
                    let c4' = c4\<lparr>admin_q := p4\<rparr> in
                    if ret4 \<noteq> Ret 0 then undo_admin 2 ret4 new c4' else start_admin v new c4')))
     else start_admin v new c1 }"

definition nvme_tcp_teardown_admin_queue :: "bool \<Rightarrow> nvme_tcp_ctrl \<Rightarrow> nvme_tcp_ctrl option" where
  "nvme_tcp_teardown_admin_queue remove c = do {
     k_use (admin_q c);
     c1 \<leftarrow> stop_at 0 (clog Quiesce_admin c);
     c2 \<leftarrow> (if admin_tagset c1 \<noteq> Null then do { k_use (admin_tagset c1); Some (clog Cancel_admin c1) } else Some c1);
     nvme_tcp_destroy_admin_queue remove (if remove then clog Unquiesce_admin c2 else c2) }"

definition nvme_tcp_teardown_io_queues :: "bool \<Rightarrow> nvme_tcp_ctrl \<Rightarrow> nvme_tcp_ctrl option" where
  "nvme_tcp_teardown_io_queues remove c =
     (if queue_count c \<le> 1 then Some c
      else do {
        c1 \<leftarrow> nvme_tcp_stop_io_queues (clog Stop_queues c);
        c2 \<leftarrow> (if tagset c1 \<noteq> Null then do { k_use (tagset c1); Some (clog Cancel_io c1) } else Some c1);
        nvme_tcp_destroy_io_queues remove (if remove then clog Start_queues c2 else c2) })"

section \<open>Controllers\<close>

definition nvme_change_ctrl_state :: "cenv \<Rightarrow> nvme_ctrl_state \<Rightarrow> nvme_tcp_ctrl \<Rightarrow> bool \<times> nvme_tcp_ctrl" where
  "nvme_change_ctrl_state v st c = (if change_ok v (ctl_state c) st then (True, c\<lparr>ctl_state := st\<rparr>) else (False, c))"

definition nvme_tcp_reconnect_or_remove :: "cenv \<Rightarrow> nvme_tcp_ctrl \<Rightarrow> nvme_tcp_ctrl" where
  "nvme_tcp_reconnect_or_remove v c =
     (if ctl_state c \<noteq> NVME_CTRL_CONNECTING then c
      else if nvmf_should_reconnect v (nr_reconnects c) then c\<lparr>connect_work := True\<rparr> else clog Delete_ctrl c)"

text \<open>The label \<open>destroy_admin\<close>, with the return code that was set before.\<close>

definition destroy_admin :: "rc \<Rightarrow> bool \<Rightarrow> nvme_tcp_ctrl \<Rightarrow> (rc \<times> nvme_tcp_ctrl) option" where
  "destroy_admin ret new c = do {
     c1 \<leftarrow> stop_at 0 c;
     c2 \<leftarrow> nvme_tcp_destroy_admin_queue new c1;
     Some (ret, c2) }"

definition go_live :: "cenv \<Rightarrow> bool \<Rightarrow> nvme_tcp_ctrl \<Rightarrow> (rc \<times> nvme_tcp_ctrl) option" where
  "go_live v new c =
     (case nvme_change_ctrl_state v NVME_CTRL_LIVE c of
        (True, c1) \<Rightarrow> Some (Ret 0, clog Start_ctrl c1)
      | (False, c1) \<Rightarrow> do {
          c2 \<leftarrow> (if 1 < queue_count c1 then nvme_tcp_destroy_io_queues new c1 else Some c1);
          destroy_admin (Err EINVAL) new c2 })"

definition nvme_tcp_setup_ctrl :: "cenv \<Rightarrow> bool \<Rightarrow> nvme_tcp_ctrl \<Rightarrow> (rc \<times> nvme_tcp_ctrl) option" where
  "nvme_tcp_setup_ctrl v new c = do {
     (ret, c1) \<leftarrow> nvme_tcp_configure_admin_queue v new c;
     if ret \<noteq> Ret 0 then Some (ret, c1)
     else if ctl_icdoff c1 \<noteq> 0 then destroy_admin ret new c1
     else do {
       let c2 = (if unat (maxcmd c1) < unat (sqsize c1) + 1 then c1\<lparr>sqsize := maxcmd c1 - 1\<rparr> else c1);
       if 1 < queue_count c2 then do {
         (ret3, c3) \<leftarrow> nvme_tcp_configure_io_queues v new c2;
         if ret3 \<noteq> Ret 0 then destroy_admin ret3 new c3 else go_live v new c3 }
       else go_live v new c2 } }"

definition nvme_tcp_reconnect_ctrl_work :: "cenv \<Rightarrow> nvme_tcp_ctrl \<Rightarrow> nvme_tcp_ctrl option" where
  "nvme_tcp_reconnect_ctrl_work v c = do {
     (ret, c1) \<leftarrow> nvme_tcp_setup_ctrl v False (c\<lparr>connect_work := False, nr_reconnects := nr_reconnects c + 1\<rparr>);
     Some (if ret \<noteq> Ret 0 then nvme_tcp_reconnect_or_remove v c1 else c1\<lparr>nr_reconnects := 0\<rparr>) }"

definition nvme_tcp_error_recovery_work :: "cenv \<Rightarrow> nvme_tcp_ctrl \<Rightarrow> nvme_tcp_ctrl option" where
  "nvme_tcp_error_recovery_work v c = do {
     c1 \<leftarrow> nvme_tcp_teardown_io_queues False (clog Stop_keep_alive (c\<lparr>ctl_err_work := False\<rparr>));
     c2 \<leftarrow> nvme_tcp_teardown_admin_queue False (clog Start_queues c1);
     k_use (admin_q c2);
     Some (case nvme_change_ctrl_state v NVME_CTRL_CONNECTING (clog Unquiesce_admin c2) of
             (True, c3) \<Rightarrow> nvme_tcp_reconnect_or_remove v c3
           | (False, c3) \<Rightarrow> c3) }"

text \<open>\<open>nvme_tcp_error_recovery\<close> on the controller.\<close>

definition error_recovery :: "cenv \<Rightarrow> nvme_tcp_ctrl \<Rightarrow> nvme_tcp_ctrl" where
  "error_recovery v c =
     (case nvme_change_ctrl_state v NVME_CTRL_RESETTING c of (True, c1) \<Rightarrow> c1\<lparr>ctl_err_work := True\<rparr> | (False, c1) \<Rightarrow> c1)"

definition nvme_tcp_teardown_ctrl :: "bool \<Rightarrow> nvme_tcp_ctrl \<Rightarrow> nvme_tcp_ctrl option" where
  "nvme_tcp_teardown_ctrl shutdown c = do {
     c1 \<leftarrow> nvme_tcp_teardown_io_queues shutdown (c\<lparr>ctl_err_work := False, connect_work := False\<rparr>);
     k_use (admin_q c1);
     nvme_tcp_teardown_admin_queue shutdown (clog (if shutdown then Shutdown_ctrl else Disable_ctrl) (clog Quiesce_admin c1)) }"

definition nvme_tcp_delete_ctrl :: "nvme_tcp_ctrl \<Rightarrow> nvme_tcp_ctrl option" where
  "nvme_tcp_delete_ctrl c = nvme_tcp_teardown_ctrl True c"

definition nvme_reset_ctrl_work :: "cenv \<Rightarrow> nvme_tcp_ctrl \<Rightarrow> nvme_tcp_ctrl option" where
  "nvme_reset_ctrl_work v c = do {
     c1 \<leftarrow> nvme_tcp_teardown_ctrl False (clog Stop_ctrl c);
     case nvme_change_ctrl_state v NVME_CTRL_CONNECTING c1 of
       (False, c2) \<Rightarrow> Some c2
     | (True, c2) \<Rightarrow> do {
         (ret, c3) \<leftarrow> nvme_tcp_setup_ctrl v False c2;
         Some (if ret \<noteq> Ret 0 then nvme_tcp_reconnect_or_remove v (c3\<lparr>nr_reconnects := nr_reconnects c3 + 1\<rparr>) else c3) } }"

datatype blk_eh_timer_return = BLK_EH_DONE | BLK_EH_RESET_TIMER

text \<open>A request has timed out. The pending recovery is waited for before the queues are taken down here.\<close>

definition nvme_tcp_timeout :: "cenv \<Rightarrow> nvme_tcp_ctrl \<Rightarrow> (blk_eh_timer_return \<times> nvme_tcp_ctrl) option" where
  "nvme_tcp_timeout v c =
     (if ctl_state c = NVME_CTRL_RESETTING then Some (BLK_EH_RESET_TIMER, c)
      else if ctl_state c \<noteq> NVME_CTRL_LIVE then do {
        c1 \<leftarrow> nvme_tcp_teardown_io_queues False (clog Flush_err_work c);
        c2 \<leftarrow> nvme_tcp_teardown_admin_queue False c1;
        Some (BLK_EH_DONE, c2) }
      else Some (BLK_EH_RESET_TIMER, error_recovery v c))"

section \<open>Creation and removal\<close>

definition zero_hcq :: "host \<Rightarrow> hcq" where
  "zero_hcq h =
     \<lparr>Q_ALLOCATED = False, Q_LIVE = False, q_sock = Null, q_pdu = Null, q_iovs = Null, q_mapped = Null, q_snd_hash = Null,
      q_rcv_hash = Null, q_size = 0, q_callbacks = False, q_host = h\<rparr>"

text \<open>The zeroed controller with the options of the connection; the queues are allocated later.\<close>

definition new_ctrl :: "nvmf_ctrl_options \<Rightarrow> kstate \<Rightarrow> nvme_tcp_ctrl" where
  "new_ctrl ops k =
     \<lparr>ctl_queues = [], ctl_state = NVME_CTRL_NEW, queue_count = nr_io_queues ops + nr_write_queues ops + nr_poll_queues ops + 1,
      sqsize = of_nat (opt_queue_size ops) - 1, ioccsz = 0, maxcmd = 0, ctl_icdoff = 0, nr_reconnects = 0, io_queues = (\<lambda>_. 0),
      async_pdu = Null, admin_tagset = Null, fabrics_q = Null, admin_q = Null, tagset = Null, connect_q = Null,
      admin_tag_set = new_tag_set, tag_set = new_tag_set,
      connect_work = False, ctl_err_work = False, kst = k, cevents = []\<rparr>"

text \<open>The controllers that exist, by whether their addresses match the options.\<close>

definition nvme_tcp_existing_controller :: "bool list \<Rightarrow> bool" where
  "nvme_tcp_existing_controller matches \<longleftrightarrow> list_ex (\<lambda>m. m) matches"

text \<open>The label \<open>out_uninit_ctrl\<close>: the last reference goes, a positive status becomes an error.\<close>

fun uninit_rc :: "rc \<Rightarrow> rc" where
  "uninit_rc (Ret n) = (if 0 < n then Err EIO else Ret 0)"
| "uninit_rc (Err e) = Err e"

text \<open>
  Allocation of the controller, the default service, the addresses, the queues and \<open>nvme_init_ctrl\<close>; then the set-up.
  \<open>h\<close> is a queue as \<open>kcalloc\<close> leaves it. The result is the error or the controller, whose address is in the list of
  controllers; the state of a controller that could not be set up is what its last reference leaves.
\<close>

definition nvme_tcp_create_ctrl :: "cenv \<Rightarrow> host \<Rightarrow> bool list \<Rightarrow> kstate \<Rightarrow> (rc \<times> nvme_tcp_ctrl option \<times> kstate) option" where
  "nvme_tcp_create_ctrl v h matches k =
     (case k_new (ck v) k of (p, k1) \<Rightarrow>
        if p = Null then Some (Err ENOMEM, None, k1)
        else
          (case (if opt_trsvcid (opts v) then (Live, k1) else k_new (ck v) k1) of (t, k2) \<Rightarrow>
             if t = Null then Some (Err ENOMEM, None, kmem_add (-1) k2)
             else
               (case k_all (ck v) (if opt_host_traddr (opts v) then 2 else 1) k2 of (ret, k3) \<Rightarrow>
                  if ret \<noteq> Ret 0 then Some (ret, None, kmem_add (-1) k3)
                  else if \<not> duplicate_connect (opts v) \<and> nvme_tcp_existing_controller matches
                  then Some (Err EALREADY, None, kmem_add (-1) k3)
                  else
                    (case k_new (ck v) k3 of (a, k4) \<Rightarrow>
                       if a = Null then Some (Err ENOMEM, None, kmem_add (-1) k4)
                       else
                         (case k_do (ck v) k4 of (ret5, k5) \<Rightarrow>
                            if ret5 \<noteq> Ret 0 then Some (ret5, None, kmem_add (-2) k5)
                            else
                              (let c0 = new_ctrl (opts v) k5; c = c0\<lparr>ctl_queues := replicate (queue_count c0) (zero_hcq h)\<rparr> in
                               case nvme_change_ctrl_state v NVME_CTRL_CONNECTING c of
                                 (False, c1) \<Rightarrow> Some (Err EINTR, None, kmem_add (-2) (kst c1))
                               | (True, c1) \<Rightarrow> do {
                                   (ret6, c2) \<leftarrow> nvme_tcp_setup_ctrl v True c1;
                                   if ret6 \<noteq> Ret 0 then Some (uninit_rc ret6, None, kmem_add (-2) (kst c2))
                                   else Some (Ret 0, Some c2, kst c2) }))))))"

text \<open>
  The last reference to a controller: its queues and itself are freed. The options go with it when it is in the list
  of controllers, which it leaves; this is the first component of the result.
\<close>

definition nvme_tcp_free_ctrl :: "bool \<Rightarrow> nvme_tcp_ctrl \<Rightarrow> bool \<times> kstate" where
  "nvme_tcp_free_ctrl listed c = (listed, kmem_add (-2) (kst c))"

text \<open>Two work queues; when there is none for latency-sensitive queues the first one is not destroyed.\<close>

definition nvme_tcp_init_module :: "kenv \<Rightarrow> kstate \<Rightarrow> rc \<times> kstate" where
  "nvme_tcp_init_module v k =
     (case k_new v k of (a, k1) \<Rightarrow>
        if a = Null then (Err ENOMEM, k1)
        else (case k_new v k1 of (b, k2) \<Rightarrow> (if b = Null then Err ENOMEM else Ret 0, k2)))"

text \<open>Every controller of the list is deleted, then both work queues are destroyed.\<close>

definition nvme_tcp_cleanup_module :: "nat \<Rightarrow> kstate \<Rightarrow> ctl_event list \<times> kstate" where
  "nvme_tcp_cleanup_module n k = (replicate n Delete_ctrl, kmem_add (-2) k)"

section \<open>Hooks of the tag sets\<close>

text \<open>
  A request of the admin or of the I/O tag set gets a PDU, of the size of a command with the digest of the queue, and
  the queue it goes to.
\<close>

definition nvme_tcp_init_request :: "cenv \<Rightarrow> bool \<Rightarrow> nat \<Rightarrow> nvme_tcp_ctrl \<Rightarrow> (rc \<times> (nat \<times> nat) option \<times> nvme_tcp_ctrl) option" where
  "nvme_tcp_init_request v io hctx_idx c = do {
     let i = (if io then hctx_idx + 1 else 0);
     q \<leftarrow> arr_get (ctl_queues c) (int i);
     case k_new (ck v) (kst c) of (p, k1) \<Rightarrow>
       if p = Null then Some (Err ENOMEM, None, c\<lparr>kst := k1\<rparr>)
       else Some (Ret 0, Some (i, sizeof_cmd_pdu (che v) + nvme_tcp_hdgst_len (che v) (qhq q)), c\<lparr>kst := k1\<rparr>) }"

definition nvme_tcp_exit_request :: "ptr \<Rightarrow> kstate \<Rightarrow> (ptr \<times> kstate) option" where
  "nvme_tcp_exit_request pdu k = k_release pdu k"

definition nvme_tcp_init_hctx :: "nat \<Rightarrow> blk_mq_hw_ctx \<Rightarrow> blk_mq_hw_ctx" where
  "nvme_tcp_init_hctx hctx_idx h = h\<lparr>blk_switch := True, hctx_driver_data := Nvme_tcp_queue (hctx_idx + 1)\<rparr>"

definition nvme_tcp_init_admin_hctx :: "blk_mq_hw_ctx \<Rightarrow> blk_mq_hw_ctx" where
  "nvme_tcp_init_admin_hctx h = h\<lparr>hctx_driver_data := Nvme_tcp_queue 0\<rparr>"

end
