(* ===== verification/Switch_Lanes.thy ===== *)
theory Switch_Lanes
  imports Blk_Mq_Setup_Correct Tcp_Host_Ctrl Tcp_Host_Correct
begin

text \<open>
  The two kinds of applications keep apart on their way to the network. The class of a task marks its bios, the mark
  selects a type of hardware queue, the maps of the driver give each type its own queues, and the number of
  a queue decides in the driver whether its requests are delayed. The parts are those of \<open>block/blk-mq.h\<close>,
  \<open>block/blk-mq.c\<close> and \<open>drivers/nvme/host/tcp.c\<close>.
\<close>

section \<open>The maps of the driver\<close>

text \<open>\<open>blk_mq_map_queues\<close> gives every CPU one of the queues of the range it is called with.\<close>

definition cpus_spread :: "menv \<Rightarrow> bool" where
  "cpus_spread m \<longleftrightarrow> (\<forall>nr off. 0 < nr \<longrightarrow> length (map_cpus m nr off) = nr_cpu_ids (mkern m) \<and>
     (\<forall>c < nr_cpu_ids (mkern m). off \<le> map_cpus m nr off ! c \<and> map_cpus m nr off ! c < off + nr))"

lemma spread_at:
  assumes "cpus_spread m" "0 < nr" "c < nr_cpu_ids (mkern m)"
  shows "c < length (map_cpus m nr off)" "off \<le> map_cpus m nr off ! c" "map_cpus m nr off ! c < off + nr"
  using assms by (simp_all add: cpus_spread_def)

definition cpus_ok :: "menv \<Rightarrow> bool" where
  "cpus_ok m \<longleftrightarrow> distinct (possible_cpus m) \<and> nr_cpu_ids (mkern m) < 65535 \<and> (\<forall>c\<in>set (possible_cpus m). c < nr_cpu_ids (mkern m))"

text \<open>The maps for \<open>n\<close> write queues and \<open>i\<close> further queues when the controller grants all of them.\<close>

definition split_maps :: "menv \<Rightarrow> nvmf_ctrl_options \<Rightarrow> (hctx_type \<Rightarrow> nat) \<Rightarrow> nat \<Rightarrow> blk_mq_tag_set \<Rightarrow> hctx_type \<Rightarrow> blk_mq_queue_map" where
  "split_maps m ops io0 nr s = snd (nvme_tcp_map_queues m ops (nvme_tcp_set_io_queues ops nr io0) s)"

lemma split_maps_ranges:
  assumes "nr_write_queues ops = n" "nr_io_queues ops = i" "nr_poll_queues ops = 0" "0 < n" "0 < i"
  shows "split_maps m ops io0 (n + i) s HCTX_TYPE_DEFAULT = queue_range m n 0" "split_maps m ops io0 (n + i) s HCTX_TYPE_READ = queue_range m i n"
  using assms by (simp_all add: split_maps_def nvme_tcp_map_queues_def nvme_tcp_set_io_queues_def Let_def)

definition split_type :: "nat \<Rightarrow> nat \<Rightarrow> hctx_type" where
  "split_type n h = (if h < n then HCTX_TYPE_DEFAULT else HCTX_TYPE_READ)"

lemma split_used:
  assumes "set_map ts HCTX_TYPE_DEFAULT = queue_range m n 0" "set_map ts HCTX_TYPE_READ = queue_range m i n" "nr_maps ts = 2" "0 < n" "0 < i"
  shows "used_types ts = [HCTX_TYPE_DEFAULT, HCTX_TYPE_READ]"
  using assms by (simp add: used_types_def hctx_types_def queue_range_def numeral_2_eq_2)

lemma split_plan:
  assumes "set_map ts HCTX_TYPE_DEFAULT = queue_range m n 0" "set_map ts HCTX_TYPE_READ = queue_range m i n" "nr_maps ts = 2" "0 < n" "0 < i"
    and "cpus_spread m" "cpus_ok m"
  shows "map_plan m ts (split_type n) (n + i)"
proof -
  have at: "c < length (map_cpus m n 0) \<and> map_cpus m n 0 ! c < n \<and> c < length (map_cpus m i n) \<and> n \<le> map_cpus m i n ! c \<and> map_cpus m i n ! c < n + i"
    if "c < nr_cpu_ids (mkern m)" for c
    using spread_at [OF assms(6,4) that, of 0] spread_at [OF assms(6,5) that, of n] by simp
  then have all: "\<forall>c\<in>set (possible_cpus m). c < nr_cpu_ids (mkern m) \<and> c < length (map_cpus m n 0) \<and> map_cpus m n 0 ! c < n \<and>
      c < length (map_cpus m i n) \<and> \<not> map_cpus m i n ! c < n \<and> map_cpus m i n ! c < n + i"
    using assms(7) by (simp add: cpus_ok_def not_less)
  show ?thesis
    unfolding map_plan_def split_used [OF assms(1-5)]
    using all assms(3,7) by (simp add: cpus_ok_def assms(1,2) queue_range_def HCTX_MAX_TYPES_def split_type_def hctx_type_index_def trans_less_add1)
qed

section \<open>Lanes\<close>

text \<open>What queueing a request does on the latency lane and on the throughput lane of the driver.\<close>

definition on_lane :: "henv \<Rightarrow> nat \<Rightarrow> host \<Rightarrow> bool \<Rightarrow> bool" where
  "on_lane e r s latency \<longleftrightarrow>
     (let q = hq (nvme_tcp_queue_request e r s) in
      i10_host_is_latency q = latency \<and> send_list q = send_list (hq s) @ [r] \<and>
      (if latency then io_work_lat q \<and> io_work q = io_work (hq s) \<and> \<not> timer_active q \<and> nr_req q = nr_req (hq s)
       else io_work_lat q = io_work_lat (hq s) \<and>
         (delayed e q (reqs s r) \<and> nr_req q < I10_AGGREGATION_SIZE \<or> io_work q)))"

lemma queue_request_lane: "on_lane e r s (\<not> queue_id (hq s) \<le> online_cpus e)"
  by (auto simp: on_lane_def nvme_tcp_queue_request_def Let_def ring_doorbell_def queue_io_work_def i10_host_is_latency_def i10_host_legacy_path_def)

lemma marked: "REQ_PRIO k \<noteq> 0 \<Longrightarrow> (x OR REQ_PRIO k) AND REQ_PRIO k \<noteq> (0 :: u32)"
  by (metis and.commute bit.conj_disj_distrib and.idem or_eq_0_iff)

lemma class_queue:
  assumes "REQ_PRIO k \<noteq> 0" "bi_opf b AND REQ_PRIO k = 0"
    and "(bi_opf b OR REQ_PRIO k) AND REQ_HIPRI k = 0" "(bi_opf b OR REQ_PRIO k) AND REQ_FUA k = 0"
  shows "blk_mq_map_queue k (bi_opf (blk_switch_set_ioprio k (Some prio) b)) ctx =
    ctx_hctxs ctx (if IOPRIO_PRIO_CLASS k prio = BLK_SWITCH_L_APP then HCTX_TYPE_READ else HCTX_TYPE_DEFAULT)"
proof -
  have "bi_opf b AND REQ_HIPRI k = 0" using assms(3) by (simp add: bit.conj_disj_distrib2 or_eq_0_iff)
  then show ?thesis using assms marked [OF assms(1)] by (simp add: blk_mq_map_queue_def blk_switch_set_ioprio_def Let_def)
qed

text \<open>
  C22: The lanes. Assume a driver set up with as many write queues as there are online CPUs, some further I/O
  queues and no poll queues, all of them granted, and with \<open>exit_request\<close> when it has \<open>init_request\<close>; a request
  queue with all their hardware contexts and tags; the two maps the driver makes for them; and a spreading of
  CPUs that stays within the range it is given. After the mapping of the software queues, take a
  bio of a task on any possible CPU that asks neither for polling nor for FUA and is not marked as priority by its
  submitter, the mark being a flag of its own. If the task is of the latency class, the bio goes to one of the I/O queues; the driver
  puts its requests on the latency lane, whose sender is scheduled at once and whose timer stays off. If the task is of
  another class, the bio goes to one of the write queues, the driver puts its requests on the throughput lane, where
  they wait for a batch or schedule the sender of that lane, and the latency lane is not touched.
\<close>
theorem lanes_separate:
  assumes "cpus_spread m" "cpus_ok m" "nr_write_queues ops = n" "nr_io_queues ops = i" "nr_poll_queues ops = 0" "0 < n" "0 < i"
    and "set_map ts = split_maps m ops io0 (n + i) ts0" "nr_maps ts = 2" "q_nr_hw q = n + i" "present (n + i) q" "tags_of ts (n + i)"
    and "op_exit_request m = op_init_request m" "c \<in> set (possible_cpus m)" "online_cpus e = n"
    and "REQ_PRIO k \<noteq> 0" "bi_opf b AND REQ_PRIO k = 0" "(bi_opf b OR REQ_PRIO k) AND REQ_HIPRI k = 0" "(bi_opf b OR REQ_PRIO k) AND REQ_FUA k = 0"
  shows "\<exists>ts' q' kk'. blk_mq_map_swqueue m ts q kk = Some (ts', q', kk') \<and>
    (let latency = (IOPRIO_PRIO_CLASS k prio = BLK_SWITCH_L_APP);
         h = blk_mq_map_queue k (bi_opf (blk_switch_set_ioprio k (Some prio) b)) (ctx_at (q_blk q') c) in
     (if latency then n \<le> h \<and> h < n + i else h < n) \<and>
     (\<forall>s r x. hctx_driver_data (nvme_tcp_init_hctx h x) = Nvme_tcp_queue (queue_id (hq s)) \<longrightarrow> on_lane e r s latency))"
proof -
  note maps = split_maps_ranges [OF assms(3-7), of m io0 ts0, folded assms(8)]
  have plan: "map_plan m ts (split_type n) (q_nr_hw q)" unfolding assms(10) by (rule split_plan [OF maps assms(9,6,7,1,2)])
  obtain ts' q' kk' where r: "blk_mq_map_swqueue m ts q kk = Some (ts', q', kk')"
      "\<forall>c\<in>set (possible_cpus m). \<forall>j. ctx_hctxs (ctx_at (q_blk q') c) j = map_target ts j c"
    using map_swqueue_run [OF plan, unfolded assms(10), OF assms(11-13), of kk] by blast
  define latency where "latency = (IOPRIO_PRIO_CLASS k prio = BLK_SWITCH_L_APP)"
  define h where "h = blk_mq_map_queue k (bi_opf (blk_switch_set_ioprio k (Some prio) b)) (ctx_at (q_blk q') c)"
  have h: "h = map_target ts (if latency then HCTX_TYPE_READ else HCTX_TYPE_DEFAULT) c"
    using class_queue [OF assms(16-19), of prio "ctx_at (q_blk q') c"] r(2) assms(14) by (simp add: h_def latency_def)
  have c: "c < nr_cpu_ids (mkern m)" using assms(2,14) by (simp add: cpus_ok_def)
  have range: "if latency then n \<le> h \<and> h < n + i else h < n"
    using spread_at [OF assms(1,6) c, of 0] spread_at [OF assms(1,7) c, of n] maps
    by (simp add: h map_target_def split_used [OF maps assms(9,6,7)] queue_range_def)
  have "on_lane e r s latency" if "hctx_driver_data (nvme_tcp_init_hctx h x) = Nvme_tcp_queue (queue_id (hq s))" for s r x
  proof -
    have "queue_id (hq s) = h + 1" using that by (simp add: nvme_tcp_init_hctx_def)
    then have "(\<not> queue_id (hq s) \<le> online_cpus e) = latency" using range assms(15) by (cases latency) simp_all
    then show ?thesis using queue_request_lane [of e r s] by simp
  qed
  then show ?thesis
    unfolding latency_def [symmetric] Let_def
    by (intro exI [of _ ts'] exI [of _ q'] exI [of _ kk'] conjI r(1) allI impI) (use range in \<open>simp_all flip: h_def\<close>)
qed

text \<open>An example: four CPUs, four write queues, four other queues, and a task of each class on CPU 2.\<close>

definition ex_options :: nvmf_ctrl_options where
  "ex_options = \<lparr>nr_io_queues = 4, nr_write_queues = 4, nr_poll_queues = 0, opt_queue_size = 128, opt_hdr_digest = False, opt_data_digest = False,
     opt_tos = -1, opt_host_traddr = False, opt_trsvcid = True, duplicate_connect = False\<rparr>"

definition ex_split :: blk_mq_tag_set where
  "ex_split = ex_maps\<lparr>set_map := split_maps ex_menv ex_options (\<lambda>_. 0) (4 + 4) new_tag_set\<rparr>"

theorem lanes_separate_witness:
  "\<exists>ts' q' kk'. blk_mq_map_swqueue ex_menv ex_split ex_mq \<lparr>kmem = 0, kpos = 0\<rparr> = Some (ts', q', kk') \<and>
     (let h = blk_mq_map_queue ex_kernel (bi_opf (blk_switch_set_ioprio ex_kernel (Some 8196) ex_bio)) (ctx_at (q_blk q') 2) in 4 \<le> h \<and> h < 8)"
proof -
  have m: "cpus_spread ex_menv" "cpus_ok ex_menv" "op_exit_request ex_menv = op_init_request ex_menv" "2 \<in> set (possible_cpus ex_menv)"
    by (simp_all add: cpus_spread_def cpus_ok_def ex_menv_def ex_kernel_def)
  have o: "nr_write_queues ex_options = 4" "nr_io_queues ex_options = 4" "nr_poll_queues ex_options = 0" "(0::nat) < 4"
    by (simp_all add: ex_options_def)
  have t: "set_map ex_split = split_maps ex_menv ex_options (\<lambda>_. 0) (4 + 4) new_tag_set" "nr_maps ex_split = 2" "q_nr_hw ex_mq = 4 + 4" "present (4 + 4) ex_mq"
      "tags_of ex_split (4 + 4)" "online_cpus ex_henv = 4"
    by (simp_all add: ex_split_def ex_maps_def ex_mq_def ex_blk_def present_def tags_of_def ex_henv_def)
  have b: "REQ_PRIO ex_kernel \<noteq> 0" "bi_opf ex_bio AND REQ_PRIO ex_kernel = 0" "(bi_opf ex_bio OR REQ_PRIO ex_kernel) AND REQ_HIPRI ex_kernel = 0"
      "(bi_opf ex_bio OR REQ_PRIO ex_kernel) AND REQ_FUA ex_kernel = 0" "IOPRIO_PRIO_CLASS ex_kernel 8196 = BLK_SWITCH_L_APP"
    by (simp_all add: ex_kernel_def ex_bio_def BLK_SWITCH_L_APP_def)
  show ?thesis
    using lanes_separate [OF m(1,2) o(1-3) o(4,4) t(1-5) m(3,4) t(6) b(1-4), of "\<lparr>kmem = 0, kpos = 0\<rparr>" 8196] b(5) by (auto simp: Let_def)
qed

end
