(* ===== verification/Tcp_Target_Send.thy ===== *)
theory Tcp_Target_Send
  imports Tcp_Wire
begin

text \<open>
  The NVMe/TCP target driver, \<open>drivers/nvme/target/tcp.c\<close>: its commands and queues, and the send side with
  the caravans that collect responses, data and R2T PDUs. A command is the one embedded in the queue for
  the connect request or an entry of the command array. Pages go back to the allocator by \<open>sgl_free\<close>;
  \<open>freed\<close> remembers them. The answers of the socket are parameters indexed by the number of calls made so
  far; flags of the socket calls are not modelled.
\<close>

section \<open>Data\<close>

definition I10_TARGET_CARAVAN_CAPACITY :: nat where "I10_TARGET_CARAVAN_CAPACITY = 65536"
definition I10_TARGET_SEND_BUDGET :: nat where "I10_TARGET_SEND_BUDGET = 16"

lemmas i10_target_consts [nvme_defs] = I10_TARGET_CARAVAN_CAPACITY_def I10_TARGET_SEND_BUDGET_def

datatype nvmet_tcp_send_state =
  NVMET_TCP_SEND_DATA_PDU | NVMET_TCP_SEND_DATA | NVMET_TCP_SEND_R2T | NVMET_TCP_SEND_DDGST | NVMET_TCP_SEND_RESPONSE

datatype nvmet_tcp_recv_state = NVMET_TCP_RECV_PDU | NVMET_TCP_RECV_DATA | NVMET_TCP_RECV_DDGST | NVMET_TCP_RECV_ERR

datatype nvmet_tcp_queue_state = NVMET_TCP_Q_CONNECTING | NVMET_TCP_Q_LIVE | NVMET_TCP_Q_DISCONNECTING

datatype cmd_ref = Connect | Cmd nat

text \<open>The objects that pieces of memory lie in.\<close>

datatype tmem = Data_pdu cmd_ref | Rsp_pdu cmd_ref | R2t_pdu cmd_ref | Exp_ddgst cmd_ref | Sg_page nat | Icresp_pdu

type_synonym tseg = "tmem seg"

text \<open>An entry of a scatter list: page, offset in it and length.\<close>

record sg_ent =
  sg_page :: nat
  sg_offset :: nat
  sg_length :: nat

text \<open>The fields of the PDU headers that the driver fills in.\<close>

record c2h_hdr =
  ch_success :: bool
  ch_last :: bool
  ch_hdgst :: bool
  ch_ddgst :: bool
  ch_hlen :: nat
  ch_pdo :: nat
  ch_plen :: nat
  ch_command_id :: u16
  ch_data_length :: nat
  ch_data_offset :: nat

record r2t_hdr =
  rh_hdgst :: bool
  rh_hlen :: nat
  rh_pdo :: nat
  rh_plen :: nat
  rh_command_id :: u16
  rh_ttag :: u16
  rh_length :: nat
  rh_offset :: nat

record rsp_hdr =
  rs_hdgst :: bool
  rs_hlen :: nat
  rs_pdo :: nat
  rs_plen :: nat

text \<open>
  A command. Of its \<open>nvmet_req\<close>: the direction, id and SGL of the NVMe command, the lengths, the scatter
  list and the id and status of the completion.
\<close>

record nvmet_tcp_cmd =
  c_write :: bool
  c_command_id :: u16
  c_sgl_type :: u8
  c_sgl_len :: nat
  c_data_len :: nat
  transfer_len :: nat
  c_sg :: "sg_ent list"
  cqe_id :: u16
  cqe_status :: u16
  rbytes_done :: nat
  wbytes_done :: nat
  c_pdu_len :: nat
  c_pdu_recv :: nat
  sg_idx :: nat
  c_nr_mapped :: nat
  recv_iov :: "tseg list"
  recv_left :: nat
  c_rx :: "u8 list"
  iov_live :: bool
  init_failed :: bool
  c_offset :: nat
  cur_sg :: "sg_ent list"
  c_state :: nvmet_tcp_send_state
  c_exp_ddgst :: "u8 list"
  c_recv_ddgst :: "u8 list"
  data_pdu :: c2h_hdr
  r2t_pdu :: r2t_hdr
  rsp_pdu :: rsp_hdr

record nvmet_tcp_queue =
  sq_qid :: nat
  sq_ctrl :: "nat option"
  sqhd_disabled :: bool
  tq_idx :: int
  tq_cpu :: int
  tq_prio_class :: int
  orig_cpu :: int
  tq_numa_node :: int
  tq_metric :: u32
  nr_cmds :: nat
  free_list :: "cmd_ref list"
  resp_list :: "cmd_ref list"
  resp_send_list :: "cmd_ref list"
  send_list_len :: int
  snd_cmd :: "cmd_ref option"
  tq_iovs :: "tseg list"
  tq_nr_iovs :: nat
  tq_caravan_len :: nat
  caravan_cmds :: "cmd_ref list"
  nr_caravan_cmds :: nat
  tq_send_now :: bool
  tq_mapped :: "nat list"
  nr_caravan_mapped :: nat
  rcv_offset :: nat
  rcv_left :: nat
  rcv_state :: nvmet_tcp_recv_state
  rcv_cmd :: "cmd_ref option"
  rcv_pdu :: "u8 list"
  tq_hdr_digest :: bool
  tq_data_digest :: bool
  crypto_live :: bool
  tq_state :: nvmet_tcp_queue_state
  tq_io_work :: bool
  tq_io_work_lat :: bool
  release_work :: bool
  tq_nospace :: bool

text \<open>Calls into the target core and the socket layer, in order.\<close>

datatype tgt_event =
    Req_init cmd_ref bool
  | Req_execute cmd_ref
  | Req_complete cmd_ref u16
  | Req_uninit cmd_ref
  | Ctrl_fatal_error
  | Sock_shutdown

record target =
  tq :: nvmet_tcp_queue
  cmds :: "cmd_ref \<Rightarrow> nvmet_tcp_cmd"
  twire :: "tseg list"
  tsock_pos :: nat
  freed :: "nat list"
  tevents :: "tgt_event list"
  tkthread_nice :: int

text \<open>
  Parameters: sizes of \<open>nvme-tcp.h\<close>, module parameters, the socket, the digest of a sequence of bytes and
  the contents of a command's scatter list.
\<close>

record tenv =
  tsizeof_data_pdu :: nat
  tsizeof_r2t_pdu :: nat
  tsizeof_rsp_pdu :: nat
  TDIGEST_LENGTH :: nat
  nvmet_tcp_aggr :: bool
  tsendpage :: "nat \<Rightarrow> nat \<Rightarrow> rc"
  tsendmsg :: "nat \<Rightarrow> nat \<Rightarrow> rc"
  twspace :: "nat \<Rightarrow> int"
  sg_digest :: "sg_ent list \<Rightarrow> nat \<Rightarrow> u8 list"

definition upd_tq :: "(nvmet_tcp_queue \<Rightarrow> nvmet_tcp_queue) \<Rightarrow> target \<Rightarrow> target" where
  "upd_tq f s = s\<lparr>tq := f (tq s)\<rparr>"

definition upd_cmd :: "cmd_ref \<Rightarrow> (nvmet_tcp_cmd \<Rightarrow> nvmet_tcp_cmd) \<Rightarrow> target \<Rightarrow> target" where
  "upd_cmd c f s = s\<lparr>cmds := (cmds s)(c := f (cmds s c))\<rparr>"

definition tlog :: "tgt_event \<Rightarrow> target \<Rightarrow> target" where
  "tlog ev s = s\<lparr>tevents := tevents s @ [ev]\<rparr>"

section \<open>Commands\<close>

text \<open>\<open>cmd - queue->cmds\<close>, truncated to 16 bits; the connect command has no index in the array.\<close>

fun nvmet_tcp_cmd_tag :: "cmd_ref \<Rightarrow> u16 option" where
  "nvmet_tcp_cmd_tag (Cmd n) = Some (of_nat n)"
| "nvmet_tcp_cmd_tag Connect = None"

definition nvmet_tcp_has_data_in :: "nvmet_tcp_cmd \<Rightarrow> bool" where
  "nvmet_tcp_has_data_in x \<longleftrightarrow> c_write x \<and> rbytes_done x < transfer_len x"

definition nvmet_tcp_need_data_in :: "nvmet_tcp_cmd \<Rightarrow> bool" where
  "nvmet_tcp_need_data_in x \<longleftrightarrow> nvmet_tcp_has_data_in x \<and> cqe_status x = 0"

definition nvmet_tcp_need_data_out :: "nvmet_tcp_cmd \<Rightarrow> bool" where
  "nvmet_tcp_need_data_out x \<longleftrightarrow> \<not> c_write x \<and> 0 < transfer_len x \<and> cqe_status x = 0"

definition nvmet_tcp_has_inline_data :: "nvmet_tcp_cmd \<Rightarrow> bool" where
  "nvmet_tcp_has_inline_data x \<longleftrightarrow> c_write x \<and> c_pdu_len x \<noteq> 0 \<and> rbytes_done x = 0"

definition nvmet_tcp_get_cmd :: "target \<Rightarrow> cmd_ref option \<times> target" where
  "nvmet_tcp_get_cmd s =
     (case free_list (tq s) of
        [] \<Rightarrow> (None, s)
      | c # l \<Rightarrow> (Some c, upd_cmd c (\<lambda>x. x\<lparr>rbytes_done := 0, wbytes_done := 0, c_pdu_len := 0, c_pdu_recv := 0,
                                           iov_live := False, init_failed := False\<rparr>)
                           (upd_tq (\<lambda>q. q\<lparr>free_list := l\<rparr>) s)))"

definition nvmet_tcp_put_cmd :: "cmd_ref \<Rightarrow> target \<Rightarrow> target" where
  "nvmet_tcp_put_cmd c s = (if c = Connect then s else upd_tq (\<lambda>q. q\<lparr>free_list := free_list q @ [c]\<rparr>) s)"

definition nvmet_tcp_hdgst_len :: "tenv \<Rightarrow> nvmet_tcp_queue \<Rightarrow> nat" where
  "nvmet_tcp_hdgst_len e q = (if tq_hdr_digest q then TDIGEST_LENGTH e else 0)"

definition nvmet_tcp_ddgst_len :: "tenv \<Rightarrow> nvmet_tcp_queue \<Rightarrow> nat" where
  "nvmet_tcp_ddgst_len e q = (if tq_data_digest q then TDIGEST_LENGTH e else 0)"

text \<open>\<open>sgl_free\<close> and \<open>kfree\<close> of the vector of a command.\<close>

definition free_cmd_data :: "cmd_ref \<Rightarrow> target \<Rightarrow> target" where
  "free_cmd_data c s = upd_cmd c (\<lambda>x. x\<lparr>iov_live := False\<rparr>) (s\<lparr>freed := freed s @ map sg_page (c_sg (cmds s c))\<rparr>)"

section \<open>Headers\<close>

definition nvmet_tcp_ddgst :: "tenv \<Rightarrow> cmd_ref \<Rightarrow> target \<Rightarrow> target" where
  "nvmet_tcp_ddgst e c s = upd_cmd c (\<lambda>x. x\<lparr>c_exp_ddgst := sg_digest e (c_sg x) (transfer_len x)\<rparr>) s"

definition nvmet_setup_c2h_data_pdu :: "tenv \<Rightarrow> cmd_ref \<Rightarrow> target \<Rightarrow> target" where
  "nvmet_setup_c2h_data_pdu e c s =
     (let q = tq s; hdgst = nvmet_tcp_hdgst_len e q; ddgst = nvmet_tcp_ddgst_len e q;
          s1 = upd_cmd c (\<lambda>x. x\<lparr>c_offset := 0, c_state := NVMET_TCP_SEND_DATA_PDU, data_pdu :=
                 \<lparr>ch_success = sqhd_disabled q, ch_last = True, ch_hdgst = tq_hdr_digest q, ch_ddgst = tq_data_digest q,
                  ch_hlen = tsizeof_data_pdu e, ch_pdo = tsizeof_data_pdu e + hdgst,
                  ch_plen = tsizeof_data_pdu e + hdgst + transfer_len x + ddgst,
                  ch_command_id = cqe_id x, ch_data_length = transfer_len x, ch_data_offset = wbytes_done x\<rparr>\<rparr>) s
      in if tq_data_digest q then nvmet_tcp_ddgst e c s1 else s1)"

definition nvmet_setup_r2t_pdu :: "tenv \<Rightarrow> cmd_ref \<Rightarrow> target \<Rightarrow> target option" where
  "nvmet_setup_r2t_pdu e c s = do {
     ttag \<leftarrow> nvmet_tcp_cmd_tag c;
     let q = tq s; hdgst = nvmet_tcp_hdgst_len e q in
     Some (upd_cmd c (\<lambda>x. x\<lparr>c_offset := 0, c_state := NVMET_TCP_SEND_R2T, r2t_pdu :=
       \<lparr>rh_hdgst = tq_hdr_digest q, rh_hlen = tsizeof_r2t_pdu e, rh_pdo = 0, rh_plen = tsizeof_r2t_pdu e + hdgst,
        rh_command_id = c_command_id x, rh_ttag = ttag,
        rh_length = transfer_len x - rbytes_done x, rh_offset = rbytes_done x\<rparr>\<rparr>) s) }"

definition nvmet_setup_response_pdu :: "tenv \<Rightarrow> cmd_ref \<Rightarrow> target \<Rightarrow> target" where
  "nvmet_setup_response_pdu e c s =
     (let q = tq s in
      upd_cmd c (\<lambda>x. x\<lparr>c_offset := 0, c_state := NVMET_TCP_SEND_RESPONSE, rsp_pdu :=
        \<lparr>rs_hdgst = tq_hdr_digest q, rs_hlen = tsizeof_rsp_pdu e, rs_pdo = 0,
         rs_plen = tsizeof_rsp_pdu e + nvmet_tcp_hdgst_len e q\<rparr>\<rparr>) s)"

section \<open>The list of responses\<close>

text \<open>The lock-free list holds the newest response first; moving it to the send list turns it around.\<close>

definition nvmet_tcp_process_resp_list :: "target \<Rightarrow> target" where
  "nvmet_tcp_process_resp_list s =
     upd_tq (\<lambda>q. q\<lparr>resp_list := [], resp_send_list := rev (resp_list q) @ resp_send_list q,
                   send_list_len := send_list_len q + int (length (resp_list q))\<rparr>) s"

definition i10_target_is_latency :: "nvmet_tcp_queue \<Rightarrow> bool" where
  "i10_target_is_latency q \<longleftrightarrow> tq_prio_class q = 1"

definition i10_target_is_admin_queue :: "nvmet_tcp_queue \<Rightarrow> bool" where
  "i10_target_is_admin_queue q \<longleftrightarrow> sq_qid q = 0 \<or> tq_prio_class q = 1"

definition i10_target_is_caravan_full :: "nvmet_tcp_queue \<Rightarrow> bool" where
  "i10_target_is_caravan_full q \<longleftrightarrow>
     I10_TARGET_CARAVAN_CAPACITY \<le> tq_caravan_len q \<or> I10_TARGET_SEND_BUDGET * 3 \<le> tq_nr_iovs q \<or>
     I10_TARGET_SEND_BUDGET \<le> nr_caravan_cmds q \<or> I10_TARGET_SEND_BUDGET \<le> nr_caravan_mapped q"

definition tqueue_io_work :: "nvmet_tcp_queue \<Rightarrow> nvmet_tcp_queue" where
  "tqueue_io_work q = (if i10_target_is_latency q then q\<lparr>tq_io_work_lat := True\<rparr> else q\<lparr>tq_io_work := True\<rparr>)"

definition fetch_setup :: "tenv \<Rightarrow> cmd_ref \<Rightarrow> target \<Rightarrow> target option" where
  "fetch_setup e c s =
     (if nvmet_tcp_need_data_out (cmds s c) then Some (nvmet_setup_c2h_data_pdu e c s)
      else if nvmet_tcp_need_data_in (cmds s c) then nvmet_setup_r2t_pdu e c s
      else Some (nvmet_setup_response_pdu e c s))"

definition nvmet_tcp_fetch_cmd :: "tenv \<Rightarrow> target \<Rightarrow> (cmd_ref option \<times> target) option" where
  "nvmet_tcp_fetch_cmd e s =
     (let s1 = (if resp_send_list (tq s) = [] then nvmet_tcp_process_resp_list s else s) in
      case resp_send_list (tq s1) of
        [] \<Rightarrow> Some (None, upd_tq (\<lambda>q. q\<lparr>snd_cmd := None\<rparr>) s1)
      | c # l \<Rightarrow> do {
          s2 \<leftarrow> fetch_setup e c (upd_tq (\<lambda>q. q\<lparr>snd_cmd := Some c, resp_send_list := l, send_list_len := send_list_len q - 1\<rparr>) s1);
          Some (Some c, s2) })"

definition nvmet_tcp_queue_response :: "cmd_ref \<Rightarrow> target \<Rightarrow> target" where
  "nvmet_tcp_queue_response c s = upd_tq (\<lambda>q. tqueue_io_work (q\<lparr>resp_list := c # resp_list q\<rparr>)) s"

section \<open>The socket and the caravan\<close>

definition tdo_sendpage :: "tenv \<Rightarrow> tseg \<Rightarrow> target \<Rightarrow> rc \<times> target" where
  "tdo_sendpage e g s =
     (let r = rc_cap (seg_len g) (tsendpage e (tsock_pos s) (seg_len g));
          s1 = s\<lparr>tsock_pos := Suc (tsock_pos s)\<rparr> in
      (r, case r of Ret n \<Rightarrow> (if n = 0 then s1 else s1\<lparr>twire := twire s1 @ [seg_prefix n g]\<rparr>) | Err _ \<Rightarrow> s1))"

definition tdo_sendmsg :: "tenv \<Rightarrow> tseg list \<Rightarrow> nat \<Rightarrow> target \<Rightarrow> rc \<times> target" where
  "tdo_sendmsg e gs len s =
     (let r = rc_cap len (tsendmsg e (tsock_pos s) len);
          s1 = s\<lparr>tsock_pos := Suc (tsock_pos s)\<rparr> in
      (r, case r of Ret n \<Rightarrow> (if n = 0 then s1 else s1\<lparr>twire := twire s1 @ segs_take n gs\<rparr>) | Err _ \<Rightarrow> s1))"

definition aggregating :: "tenv \<Rightarrow> nvmet_tcp_queue \<Rightarrow> bool" where
  "aggregating e q \<longleftrightarrow> nvmet_tcp_aggr e \<and> \<not> i10_target_is_admin_queue q"

definition tcaravan_add :: "tseg \<Rightarrow> nvmet_tcp_queue \<Rightarrow> nvmet_tcp_queue option" where
  "tcaravan_add g q = do {
     iovs \<leftarrow> arr_set (tq_iovs q) (int (tq_nr_iovs q)) g;
     Some (q\<lparr>tq_iovs := iovs, tq_nr_iovs := tq_nr_iovs q + 1, tq_caravan_len := tq_caravan_len q + seg_len g\<rparr>) }"

definition tcaravan_map :: "nat \<Rightarrow> nvmet_tcp_queue \<Rightarrow> nvmet_tcp_queue option" where
  "tcaravan_map page q = do {
     m \<leftarrow> arr_set (tq_mapped q) (int (nr_caravan_mapped q)) page;
     Some (q\<lparr>tq_mapped := m, nr_caravan_mapped := nr_caravan_mapped q + 1\<rparr>) }"

definition tcaravan_cmd :: "cmd_ref \<Rightarrow> nvmet_tcp_queue \<Rightarrow> nvmet_tcp_queue option" where
  "tcaravan_cmd c q = do {
     m \<leftarrow> arr_set (caravan_cmds q) (int (nr_caravan_cmds q)) c;
     Some (q\<lparr>caravan_cmds := m, nr_caravan_cmds := nr_caravan_cmds q + 1\<rparr>) }"

definition tcaravan_segs :: "nvmet_tcp_queue \<Rightarrow> tseg list" where
  "tcaravan_segs q = take (tq_nr_iovs q) (tq_iovs q)"

text \<open>
  The piece to send next, in its place in a caravan or as the socket gets it directly: \<^const>\<open>None\<close> in the
  first component stands for the early return of a full caravan.
\<close>

definition tsend_piece ::
  "tenv \<Rightarrow> tseg \<Rightarrow> tseg \<Rightarrow> nat option \<Rightarrow> target \<Rightarrow> (rc option \<times> target) option" where
  "tsend_piece e gc gd page s =
     (if aggregating e (tq s) then
        (if i10_target_is_caravan_full (tq s) then Some (None, upd_tq (\<lambda>q. q\<lparr>tq_send_now := True\<rparr>) s)
         else do {
           q1 \<leftarrow> tcaravan_add gc (tq s);
           q2 \<leftarrow> (case page of None \<Rightarrow> Some q1 | Some p \<Rightarrow> tcaravan_map p q1);
           Some (Some (Ret (seg_len gc)), s\<lparr>tq := q2\<rparr>) })
      else (let (r, s1) = tdo_sendpage e gd s in Some (Some r, s1)))"

section \<open>Sending a command\<close>

text \<open>In a caravan \<open>cmd->data_pdu + cmd->offset\<close> is counted in whole PDUs.\<close>

definition nvmet_try_send_data_pdu :: "tenv \<Rightarrow> cmd_ref \<Rightarrow> target \<Rightarrow> (rc \<times> target) option" where
  "nvmet_try_send_data_pdu e c s =
     (let off = c_offset (cmds s c);
          left = tsizeof_data_pdu e + nvmet_tcp_hdgst_len e (tq s) - off in
      case tsend_piece e \<lparr>seg_mem = Data_pdu c, seg_off = tsizeof_data_pdu e * off, seg_len = left\<rparr>
                         \<lparr>seg_mem = Data_pdu c, seg_off = off, seg_len = left\<rparr> None s of
        None \<Rightarrow> None
      | Some (None, s1) \<Rightarrow> Some (Ret 1, s1)
      | Some (Some (Err x), s1) \<Rightarrow> Some (Err x, s1)
      | Some (Some (Ret n), s1) \<Rightarrow>
          (if n = 0 then Some (Ret 0, s1)
           else if left - n \<noteq> 0 then Some (Err EAGAIN, upd_cmd c (\<lambda>x. x\<lparr>c_offset := c_offset x + n\<rparr>) s1)
           else Some (Ret 1, upd_cmd c (\<lambda>x. x\<lparr>c_state := NVMET_TCP_SEND_DATA, c_offset := 0\<rparr>) s1)))"

text \<open>The state after \<open>n\<close> bytes of the current entry of the scatter list.\<close>

definition sg_advance :: "nat \<Rightarrow> nvmet_tcp_cmd \<Rightarrow> nvmet_tcp_cmd" where
  "sg_advance n x =
     (let x1 = x\<lparr>c_offset := c_offset x + n, wbytes_done := wbytes_done x + n\<rparr> in
      case cur_sg x1 of
        [] \<Rightarrow> x1
      | g # gs \<Rightarrow> (if c_offset x1 = sg_length g then x1\<lparr>cur_sg := gs, c_offset := 0\<rparr> else x1))"

lemma tdo_sendpage_cmds: "tdo_sendpage e g s = (r, s1) \<Longrightarrow> cmds s1 = cmds s"
  by (auto simp: tdo_sendpage_def Let_def split: rc.splits)

lemma tdo_sendpage_le: "tdo_sendpage e g s = (Ret n, s1) \<Longrightarrow> n \<le> seg_len g"
  by (auto simp: tdo_sendpage_def Let_def intro: rc_cap_le)

lemma tsend_piece_cmds: "tsend_piece e gc gd p s = Some (x, s1) \<Longrightarrow> cmds s1 = cmds s"
  by (auto simp: tsend_piece_def upd_tq_def Let_def dest: tdo_sendpage_cmds split: if_splits prod.splits bind_splits)

lemma tsend_piece_le:
  "tsend_piece e gc gd p s = Some (Some (Ret n), s1) \<Longrightarrow> seg_len gc = seg_len gd \<Longrightarrow> n \<le> seg_len gd"
  by (auto simp: tsend_piece_def Let_def dest: tdo_sendpage_le split: if_splits prod.splits bind_splits)

text \<open>
  The loop of \<open>nvmet_try_send_data\<close> over the scatter list: \<^const>\<open>None\<close> as return code when it has come to
  the end of the list.
\<close>

function (sequential) send_sg_loop :: "tenv \<Rightarrow> cmd_ref \<Rightarrow> target \<Rightarrow> (rc option \<times> target) option" where
  "send_sg_loop e c s =
     (case cur_sg (cmds s c) of
        [] \<Rightarrow> Some (None, s)
      | g # gs \<Rightarrow>
          (let off = c_offset (cmds s c); left = sg_length g - off;
               piece = \<lparr>seg_mem = Sg_page (sg_page g), seg_off = off, seg_len = left\<rparr> in
           case tsend_piece e piece piece (Some (sg_page g)) s of
             None \<Rightarrow> None
           | Some (None, s1) \<Rightarrow> Some (Some (Ret 1), s1)
           | Some (Some (Err x), s1) \<Rightarrow> Some (Some (Err x), s1)
           | Some (Some (Ret 0), s1) \<Rightarrow> Some (Some (Ret 0), s1)
           | Some (Some (Ret (Suc n)), s1) \<Rightarrow> send_sg_loop e c (upd_cmd c (sg_advance (Suc n)) s1)))"
  by pat_completeness auto
termination
proof (relation "measure (\<lambda>(e, c, s). sum_list (map sg_length (cur_sg (cmds s c))) - c_offset (cmds s c))", goal_cases)
  case 1
  then show ?case by simp
next
  case (2 e c s g gs off left piece a x s1 b m n)
  have p: "tsend_piece e piece piece (Some (sg_page g)) s = Some (Some (Ret (Suc n)), s1)" using 2 by simp
  have le: "Suc n \<le> sg_length g - c_offset (cmds s c)" using tsend_piece_le [OF p] 2(2-4) by simp
  have "cmds s1 = cmds s" using tsend_piece_cmds [OF p] .
  then show ?case using 2(1) le by (auto simp: upd_cmd_def sg_advance_def Let_def)
qed

declare send_sg_loop.simps [simp del]

definition nvmet_try_send_data :: "tenv \<Rightarrow> cmd_ref \<Rightarrow> target \<Rightarrow> (rc \<times> target) option" where
  "nvmet_try_send_data e c s = do {
     (ret, s1) \<leftarrow> send_sg_loop e c s;
     case ret of
       Some r \<Rightarrow> Some (r, s1)
     | None \<Rightarrow>
         (let q = tq s1;
              s2 = (if tq_data_digest q then upd_cmd c (\<lambda>x. x\<lparr>c_state := NVMET_TCP_SEND_DDGST, c_offset := 0\<rparr>) s1
                    else if sqhd_disabled q then nvmet_tcp_put_cmd c (upd_tq (\<lambda>q. q\<lparr>snd_cmd := None\<rparr>) s1)
                    else nvmet_setup_response_pdu e c s1) in
          Some (Ret 1, if sqhd_disabled q then free_cmd_data c s2 else s2)) }"

definition nvmet_try_send_response :: "tenv \<Rightarrow> cmd_ref \<Rightarrow> target \<Rightarrow> (rc \<times> target) option" where
  "nvmet_try_send_response e c s =
     (let off = c_offset (cmds s c);
          left = tsizeof_rsp_pdu e + nvmet_tcp_hdgst_len e (tq s) - off in
      if aggregating e (tq s) then
        (if i10_target_is_caravan_full (tq s) then Some (Ret 1, upd_tq (\<lambda>q. q\<lparr>tq_send_now := True\<rparr>) s)
         else do {
           q1 \<leftarrow> tcaravan_add \<lparr>seg_mem = Rsp_pdu c, seg_off = tsizeof_rsp_pdu e * off, seg_len = left\<rparr> (tq s);
           q2 \<leftarrow> tcaravan_cmd c q1;
           Some (Ret 1, upd_cmd c (\<lambda>x. x\<lparr>c_offset := c_offset x + left\<rparr>) (s\<lparr>tq := q2\<lparr>snd_cmd := None\<rparr>\<rparr>)) })
      else
        (case tdo_sendpage e \<lparr>seg_mem = Rsp_pdu c, seg_off = off, seg_len = left\<rparr> s of
           (Err x, s1) \<Rightarrow> Some (Err x, s1)
         | (Ret n, s1) \<Rightarrow>
             (if n = 0 then Some (Ret 0, s1)
              else if left - n \<noteq> 0 then Some (Err EAGAIN, upd_cmd c (\<lambda>x. x\<lparr>c_offset := c_offset x + n\<rparr>) s1)
              else Some (Ret 1, nvmet_tcp_put_cmd c (upd_tq (\<lambda>q. q\<lparr>snd_cmd := None\<rparr>)
                     (free_cmd_data c (upd_cmd c (\<lambda>x. x\<lparr>c_offset := c_offset x + n\<rparr>) s1)))))))"

definition nvmet_try_send_r2t :: "tenv \<Rightarrow> cmd_ref \<Rightarrow> target \<Rightarrow> (rc \<times> target) option" where
  "nvmet_try_send_r2t e c s =
     (let off = c_offset (cmds s c);
          left = tsizeof_r2t_pdu e + nvmet_tcp_hdgst_len e (tq s) - off in
      case tsend_piece e \<lparr>seg_mem = R2t_pdu c, seg_off = tsizeof_r2t_pdu e * off, seg_len = left\<rparr>
                         \<lparr>seg_mem = R2t_pdu c, seg_off = off, seg_len = left\<rparr> None s of
        None \<Rightarrow> None
      | Some (None, s1) \<Rightarrow> Some (Ret 1, s1)
      | Some (Some (Err x), s1) \<Rightarrow> Some (Err x, s1)
      | Some (Some (Ret n), s1) \<Rightarrow>
          (if n = 0 then Some (Ret 0, s1)
           else (let s2 = upd_cmd c (\<lambda>x. x\<lparr>c_offset := c_offset x + n\<rparr>) s1 in
                 if left - n \<noteq> 0 then Some (Err EAGAIN, s2) else Some (Ret 1, upd_tq (\<lambda>q. q\<lparr>snd_cmd := None\<rparr>) s2))))"

text \<open>
  The digest is sent directly on every path, from \<open>&cmd->exp_ddgst + cmd->offset\<close>, which counts in words of
  four bytes; what the socket does not take of it is not sent again.
\<close>

definition nvmet_try_send_ddgst :: "tenv \<Rightarrow> cmd_ref \<Rightarrow> target \<Rightarrow> rc \<times> target" where
  "nvmet_try_send_ddgst e c s =
     (let off = c_offset (cmds s c); len = TDIGEST_LENGTH e - off;
          (ret, s1) = tdo_sendmsg e [\<lparr>seg_mem = Exp_ddgst c, seg_off = 4 * off, seg_len = len\<rparr>] len s in
      case ret of
        Err x \<Rightarrow> (Err x, s1)
      | Ret n \<Rightarrow>
          (if n = 0 then (Ret 0, s1)
           else (let s2 = upd_cmd c (\<lambda>x. x\<lparr>c_offset := c_offset x + n\<rparr>) s1 in
                 (Ret 1, if sqhd_disabled (tq s2) then nvmet_tcp_put_cmd c (upd_tq (\<lambda>q. q\<lparr>snd_cmd := None\<rparr>) s2)
                         else nvmet_setup_response_pdu e c s2))))"

section \<open>One command\<close>

text \<open>
  The states that one call goes through, in the order of the code. The result of a state that was
  skipped is the one before.
\<close>

definition send_if ::
  "nvmet_tcp_send_state \<Rightarrow> cmd_ref \<Rightarrow> (target \<Rightarrow> (rc \<times> target) option) \<Rightarrow>
   (rc \<Rightarrow> target \<Rightarrow> (rc \<times> target) option) \<Rightarrow> rc \<Rightarrow> target \<Rightarrow> (rc \<times> target) option" where
  "send_if st c f k ret s =
     (if c_state (cmds s c) = st
      then do { (ret1, s1) \<leftarrow> f s; if rc_pos ret1 then k ret1 s1 else Some (ret1, s1) }
      else k ret s)"

definition send_states :: "tenv \<Rightarrow> cmd_ref \<Rightarrow> target \<Rightarrow> (rc \<times> target) option" where
  "send_states e c =
     send_if NVMET_TCP_SEND_DATA_PDU c (nvmet_try_send_data_pdu e c)
      (send_if NVMET_TCP_SEND_DATA c (nvmet_try_send_data e c)
       (send_if NVMET_TCP_SEND_DDGST c (\<lambda>s. Some (nvmet_try_send_ddgst e c s))
        (send_if NVMET_TCP_SEND_R2T c (nvmet_try_send_r2t e c)
         (send_if NVMET_TCP_SEND_RESPONSE c (nvmet_try_send_response e c) (\<lambda>ret s. Some (ret, s)))))) (Ret 0)"

fun done_send :: "rc \<Rightarrow> rc" where
  "done_send (Err EAGAIN) = Ret 0"
| "done_send (Err x) = Err x"
| "done_send (Ret n) = Ret 1"

definition nvmet_tcp_try_send_one :: "tenv \<Rightarrow> target \<Rightarrow> (rc \<times> target) option" where
  "nvmet_tcp_try_send_one e s = do {
     (co, s1) \<leftarrow> (if snd_cmd (tq s) = None \<or> tq_state (tq s) = NVMET_TCP_Q_DISCONNECTING
                  then nvmet_tcp_fetch_cmd e s else Some (snd_cmd (tq s), s));
     case co of
       None \<Rightarrow> Some (Ret 0, s1)
     | Some c \<Rightarrow> do { (ret, s2) \<leftarrow> send_states e c s1; Some (done_send ret, s2) } }"

section \<open>A round of sending\<close>

text \<open>
  Sending the caravan: \<^const>\<open>True\<close> when the socket has no room. Whatever the socket accepts, the caravan
  counts as sent, and its commands are released.
\<close>

definition send_tcaravan :: "tenv \<Rightarrow> target \<Rightarrow> bool \<times> target" where
  "send_tcaravan e s =
     (let s0 = s\<lparr>tsock_pos := Suc (tsock_pos s)\<rparr> in
      if twspace e (tsock_pos s) < int (tq_caravan_len (tq s)) then (True, upd_tq (\<lambda>q. q\<lparr>tq_nospace := True\<rparr>) s0)
      else
        (let (ret, s1) = tdo_sendmsg e (tcaravan_segs (tq s)) (tq_caravan_len (tq s)) s0;
             s2 = fold (\<lambda>c x. nvmet_tcp_put_cmd c (free_cmd_data c x)) (take (nr_caravan_cmds (tq s)) (caravan_cmds (tq s))) s1 in
         (False, upd_tq (\<lambda>q. q\<lparr>tq_nr_iovs := 0, nr_caravan_cmds := 0, nr_caravan_mapped := 0, tq_caravan_len := 0,
                               tq_send_now := False\<rparr>) s2)))"

text \<open>The loop over the budget: rounds left, sends so far, the last result.\<close>

fun try_send_loop :: "tenv \<Rightarrow> nat \<Rightarrow> nat \<Rightarrow> rc \<Rightarrow> target \<Rightarrow> (rc \<times> nat \<times> target) option" where
  "try_send_loop e 0 sends ret s = Some (ret, sends, s)"
| "try_send_loop e (Suc n) sends ret s = do {
     (ret1, s1) \<leftarrow> nvmet_tcp_try_send_one e s;
     let (stop, s2) = (if nvmet_tcp_aggr e \<and> tq_caravan_len (tq s1) \<noteq> 0 \<and> (tq_send_now (tq s1) \<or> \<not> rc_pos ret1 \<or> n = 0)
                       then send_tcaravan e s1 else (False, s1));
     if stop then Some (Ret 0, sends, s2)
     else if \<not> rc_pos ret1 then Some (ret1, sends, s2)
     else try_send_loop e n (Suc sends) ret1 s2 }"

definition nvmet_tcp_try_send :: "tenv \<Rightarrow> int \<Rightarrow> nat \<Rightarrow> target \<Rightarrow> (rc \<times> nat \<times> target) option" where
  "nvmet_tcp_try_send e budget sends s = try_send_loop e (nat budget) sends (Ret 0) s"

end
