(* ===== verification/Tcp_Target_Recv.thy ===== *)
theory Tcp_Target_Recv
  imports Tcp_Target_Send Nvme
begin

text \<open>
  The receive side of the NVMe/TCP target driver: connection set-up, command capsules, H2C data and digests,
  and the work functions. The bytes of the PDU under reception, up to the offset of the queue, are kept as a list;
  the layout of PDUs, digests, the answers of the socket and of the target core are parameters, indexed by
  the number of calls made so far where they change over time.
\<close>

section \<open>Parameters\<close>

datatype tpdu_type = Nvme_tcp_icreq | Nvme_tcp_cmd | Nvme_tcp_h2c_data | Other_tpdu nat

record renv =
  sizeof_hdr :: nat
  sizeof_icreq_pdu :: nat
  sizeof_icresp_pdu :: nat
  tsizeof_cmd_pdu :: nat
  TPAGE_SIZE :: nat
  inline_data_size :: nat
  th_type :: "u8 list \<Rightarrow> tpdu_type"
  th_hlen :: "u8 list \<Rightarrow> nat"
  th_plen :: "u8 list \<Rightarrow> u32"
  TF_HDGST :: "u8 list \<Rightarrow> bool"
  TF_DDGST :: "u8 list \<Rightarrow> bool"
  icreq_pfv :: "u8 list \<Rightarrow> u16"
  NVME_TCP_PFV_1_0 :: u16
  icreq_hpda :: "u8 list \<Rightarrow> u8"
  icreq_hdgst :: "u8 list \<Rightarrow> bool"
  icreq_ddgst :: "u8 list \<Rightarrow> bool"
  capsule :: "u8 list \<Rightarrow> nvme_command"
  data_ttag :: "u8 list \<Rightarrow> u16"
  data_offset :: "u8 list \<Rightarrow> nat"
  data_len_of :: "u8 list \<Rightarrow> nat"
  tdigest :: "u8 list \<Rightarrow> u8 list"
  crypto_alloc_ahash :: "errno option"
  ahash_request_alloc :: "nat \<Rightarrow> bool"
  recvmsg :: "nat \<Rightarrow> nat \<Rightarrow> errno + u8 list"
  req_init :: "nat \<Rightarrow> nvme_command \<Rightarrow> bool \<times> nat \<times> u16"
  sgl_alloc :: "nat \<Rightarrow> nat \<Rightarrow> sg_ent list option"
  kmalloc_iov :: "nat \<Rightarrow> bool"

definition outside_call :: "target \<Rightarrow> target" where
  "outside_call s = s\<lparr>tsock_pos := Suc (tsock_pos s)\<rparr>"

text \<open>The socket never hands over more than it is asked for.\<close>

definition tdo_recvmsg :: "renv \<Rightarrow> nat \<Rightarrow> target \<Rightarrow> (errno + u8 list) \<times> target" where
  "tdo_recvmsg p len s =
     (case recvmsg p (tsock_pos s) len of Inl er \<Rightarrow> Inl er | Inr bs \<Rightarrow> Inr (take len bs), outside_call s)"

section \<open>Digests of headers\<close>

text \<open>
  \<open>nvmet_tcp_hdgst\<close> writes the digest of the first \<open>len\<close> bytes of the buffer behind them.
\<close>

definition nvmet_tcp_hdgst :: "renv \<Rightarrow> u8 list \<Rightarrow> nat \<Rightarrow> u8 list" where
  "nvmet_tcp_hdgst p pdu len =
     (let d = tdigest p (take len pdu) in take len pdu @ d @ drop (len + length d) pdu)"

definition nvmet_tcp_verify_hdgst :: "tenv \<Rightarrow> renv \<Rightarrow> u8 list \<Rightarrow> nat \<Rightarrow> errno option" where
  "nvmet_tcp_verify_hdgst e p pdu len =
     (if \<not> TF_HDGST p pdu then Some EPROTO
      else
        (let recv_digest = take (TDIGEST_LENGTH e) (drop (th_hlen p pdu) pdu);
             exp_digest = take (TDIGEST_LENGTH e) (drop (th_hlen p pdu) (nvmet_tcp_hdgst p pdu len)) in
         if recv_digest \<noteq> exp_digest then Some EPROTO else None))"

definition nvmet_tcp_check_ddgst :: "tenv \<Rightarrow> renv \<Rightarrow> u8 list \<Rightarrow> nvmet_tcp_queue \<Rightarrow> errno option" where
  "nvmet_tcp_check_ddgst e p pdu q =
     (let len = th_plen p pdu - of_nat (th_hlen p pdu) -
                (if TF_HDGST p pdu then of_nat (nvmet_tcp_hdgst_len e q) else 0) in
      if len \<noteq> 0 \<and> \<not> TF_DDGST p pdu then Some EPROTO else None)"

section \<open>Mapping of data\<close>

definition div_round_up :: "nat \<Rightarrow> nat \<Rightarrow> nat" where
  "div_round_up n d = (n + d - 1) div d"

text \<open>The entries that are unmapped have to be entries of the scatter list.\<close>

definition nvmet_tcp_unmap_pdu_iovec :: "cmd_ref \<Rightarrow> target \<Rightarrow> target option" where
  "nvmet_tcp_unmap_pdu_iovec c s =
     (if c_nr_mapped (cmds s c) = 0 \<or> sg_idx (cmds s c) + c_nr_mapped (cmds s c) \<le> length (c_sg (cmds s c)) then Some s else None)"

text \<open>The loop over the entries: the lengths are unsigned 32 bit numbers, the end of the list is a null pointer.\<close>

fun map_iov_loop :: "nat \<Rightarrow> sg_ent list \<Rightarrow> nat \<Rightarrow> tseg list option" where
  "map_iov_loop off sgs 0 = Some []"
| "map_iov_loop off [] (Suc n) = None"
| "map_iov_loop off (g # gs) (Suc n) = do {
     let iov_len = min (Suc n) (unat (of_nat (sg_length g) - of_nat off :: u32));
     rest \<leftarrow> map_iov_loop off gs (Suc n - iov_len);
     Some (\<lparr>seg_mem = Sg_page (sg_page g), seg_off = sg_offset g + off, seg_len = iov_len\<rparr> # rest) }"

definition nvmet_tcp_map_pdu_iovec :: "renv \<Rightarrow> cmd_ref \<Rightarrow> target \<Rightarrow> target option" where
  "nvmet_tcp_map_pdu_iovec p c s = do {
     let x = cmds s c; idx = div_round_up (rbytes_done x) (TPAGE_SIZE p) in
     if c_pdu_len x \<noteq> 0 \<and> \<not> iov_live x then None
     else do {
       iov \<leftarrow> map_iov_loop (rbytes_done x mod TPAGE_SIZE p) (drop idx (c_sg x)) (c_pdu_len x);
       Some (upd_cmd c (\<lambda>x. x\<lparr>c_nr_mapped := div_round_up (c_pdu_len x) (TPAGE_SIZE p), sg_idx := idx, recv_iov := iov,
                             recv_left := c_pdu_len x\<rparr>) s) } }"

definition nvmet_tcp_fatal_error :: "target \<Rightarrow> target" where
  "nvmet_tcp_fatal_error s =
     tlog (if sq_ctrl (tq s) \<noteq> None then Ctrl_fatal_error else Sock_shutdown) (upd_tq (\<lambda>q. q\<lparr>rcv_state := NVMET_TCP_RECV_ERR\<rparr>) s)"

text \<open>The status of mapping the data of a command, zero for success.\<close>

definition nvmet_tcp_map_data :: "renv \<Rightarrow> cmd_ref \<Rightarrow> target \<Rightarrow> u16 \<times> target" where
  "nvmet_tcp_map_data p c s =
     (let x = cmds s c; len = c_sgl_len x;
          inline_sgl = (c_sgl_type x = push_bit 4 NVME_SGL_FMT_DATA_DESC OR NVME_SGL_FMT_OFFSET) in
      if c_data_len x = 0 then (0, s)
      else if inline_sgl \<and> \<not> c_write x then (NVME_SC_INVALID_FIELD OR NVME_SC_DNR, s)
      else if inline_sgl \<and> inline_data_size p < len then (NVME_SC_SGL_INVALID_OFFSET OR NVME_SC_DNR, s)
      else
        (let s1 = upd_cmd c (\<lambda>x. x\<lparr>c_pdu_len := (if inline_sgl then len else c_pdu_len x), transfer_len := transfer_len x + len\<rparr>) s in
         case sgl_alloc p (tsock_pos s1) len of
           None \<Rightarrow> (NVME_SC_INTERNAL, outside_call s1)
         | Some sg \<Rightarrow>
             (let s2 = upd_cmd c (\<lambda>x. x\<lparr>c_sg := sg, cur_sg := sg, c_rx := []\<rparr>) (outside_call s1) in
              if nvmet_tcp_has_data_in (cmds s2 c) then
                (if kmalloc_iov p (tsock_pos s2) then (0, upd_cmd c (\<lambda>x. x\<lparr>iov_live := True\<rparr>) (outside_call s2))
                 else (NVME_SC_INTERNAL, (outside_call s2)\<lparr>freed := freed s2 @ map sg_page sg\<rparr>))
              else (0, s2))))"

section \<open>Connection set-up\<close>

definition nvmet_prepare_receive_pdu :: "renv \<Rightarrow> target \<Rightarrow> target" where
  "nvmet_prepare_receive_pdu p s =
     upd_tq (\<lambda>q. q\<lparr>rcv_offset := 0, rcv_left := sizeof_hdr p, rcv_cmd := None, rcv_state := NVMET_TCP_RECV_PDU, rcv_pdu := []\<rparr>) s"

text \<open>Freeing the two hashes is undefined when they are not allocated.\<close>

definition nvmet_tcp_free_crypto :: "target \<Rightarrow> target option" where
  "nvmet_tcp_free_crypto s = (if crypto_live (tq s) then Some (upd_tq (\<lambda>q. q\<lparr>crypto_live := False\<rparr>) s) else None)"

definition nvmet_tcp_alloc_crypto :: "renv \<Rightarrow> target \<Rightarrow> errno option \<times> target" where
  "nvmet_tcp_alloc_crypto p s =
     (case crypto_alloc_ahash p of
        Some er \<Rightarrow> (Some er, s)
      | None \<Rightarrow>
          (if \<not> ahash_request_alloc p 0 then (Some ENOMEM, s)
           else if \<not> ahash_request_alloc p 1 then (Some ENOMEM, s)
           else (None, upd_tq (\<lambda>q. q\<lparr>crypto_live := True\<rparr>) s)))"

text \<open>
  A wrong length of the request is reported but not the end of its handling. The answer is one PDU
  sent at once.
\<close>

definition nvmet_tcp_handle_icreq :: "tenv \<Rightarrow> renv \<Rightarrow> target \<Rightarrow> (rc \<times> target) option" where
  "nvmet_tcp_handle_icreq e p s =
     (let pdu = rcv_pdu (tq s);
          s0 = (if unat (th_plen p pdu) \<noteq> sizeof_icreq_pdu p then nvmet_tcp_fatal_error s else s) in
      if icreq_pfv p pdu \<noteq> NVME_TCP_PFV_1_0 p then Some (Err EPROTO, s0)
      else if icreq_hpda p pdu \<noteq> 0 then Some (Err EPROTO, s0)
      else
        (let s1 = upd_tq (\<lambda>q. q\<lparr>tq_hdr_digest := icreq_hdgst p pdu, tq_data_digest := icreq_ddgst p pdu\<rparr>) s0;
             digests = (tq_hdr_digest (tq s1) \<or> tq_data_digest (tq s1));
             (er, s2) = (if digests then nvmet_tcp_alloc_crypto p s1 else (None, s1)) in
         case er of
           Some x \<Rightarrow> Some (Err x, s2)
         | None \<Rightarrow>
             (case tdo_sendmsg e [\<lparr>seg_mem = Icresp_pdu, seg_off = 0, seg_len = sizeof_icresp_pdu p\<rparr>] (sizeof_icresp_pdu p) s2 of
                (Err x, s3) \<Rightarrow> do { s4 \<leftarrow> (if digests then nvmet_tcp_free_crypto s3 else Some s3); Some (Err x, s4) }
              | (Ret n, s3) \<Rightarrow> Some (Ret 0, nvmet_prepare_receive_pdu p (upd_tq (\<lambda>q. q\<lparr>tq_state := NVMET_TCP_Q_LIVE\<rparr>) s3)))))"

section \<open>Commands and data PDUs\<close>

definition nvmet_tcp_handle_req_failure :: "renv \<Rightarrow> cmd_ref \<Rightarrow> target \<Rightarrow> target option" where
  "nvmet_tcp_handle_req_failure p c s =
     (let s1 = upd_cmd c (\<lambda>x. x\<lparr>c_data_len := c_sgl_len x\<rparr>) s in
      if \<not> c_write (cmds s1 c) \<or> inline_data_size p < c_data_len (cmds s1 c) then Some (nvmet_prepare_receive_pdu p s1)
      else
        (case nvmet_tcp_map_data p c s1 of (st, s2) \<Rightarrow>
           if st \<noteq> 0 then Some (nvmet_tcp_fatal_error s2)
           else do {
             s3 \<leftarrow> nvmet_tcp_map_pdu_iovec p c (upd_tq (\<lambda>q. q\<lparr>rcv_state := NVMET_TCP_RECV_DATA\<rparr>) s2);
             Some (upd_cmd c (\<lambda>x. x\<lparr>init_failed := True\<rparr>) s3) }))"

text \<open>The tag of the host is an index into the command array; it is not compared with the array's size.\<close>

definition nvmet_tcp_handle_h2c_data_pdu :: "renv \<Rightarrow> target \<Rightarrow> (rc \<times> target) option" where
  "nvmet_tcp_handle_h2c_data_pdu p s =
     (let pdu = rcv_pdu (tq s); c = Cmd (unat (data_ttag p pdu)) in
      if nr_cmds (tq s) \<le> unat (data_ttag p pdu) then None
      else if data_offset p pdu \<noteq> rbytes_done (cmds s c)
      then Some (Err EPROTO, tlog (Req_complete c (NVME_SC_INVALID_FIELD OR NVME_SC_DNR)) s)
      else do {
        s1 \<leftarrow> nvmet_tcp_map_pdu_iovec p c (upd_cmd c (\<lambda>x. x\<lparr>c_pdu_len := data_len_of p pdu, c_pdu_recv := 0\<rparr>) s);
        Some (Ret 0, upd_tq (\<lambda>q. q\<lparr>rcv_cmd := Some c, rcv_state := NVMET_TCP_RECV_DATA\<rparr>) s1) })"

text \<open>
  A new command takes the fields of the capsule; \<open>nvmet_req_init\<close> resets the request, finds the length of
  its data and sets its status. When it fails the target core has completed the request: its call of
  \<open>nvmet_tcp_queue_response\<close> is a step of its own, as after \<open>nvmet_req_complete\<close> and \<open>nvmet_req_execute\<close>.
\<close>

definition load_capsule :: "nvme_command \<Rightarrow> nat \<times> u16 \<Rightarrow> nvmet_tcp_cmd \<Rightarrow> nvmet_tcp_cmd" where
  "load_capsule x init c =
     c\<lparr>c_write := nvme_is_write x, c_command_id := command_id x, c_sgl_type := sgl_type x, c_sgl_len := sgl_length x,
       c_data_len := fst init, transfer_len := 0, c_sg := [], cqe_status := snd init\<rparr>"

definition handle_capsule :: "renv \<Rightarrow> cmd_ref \<Rightarrow> target \<Rightarrow> (rc \<times> target) option" where
  "handle_capsule p c s =
     (let x = capsule p (rcv_pdu (tq s)); (ok, init) = req_init p (tsock_pos s) x;
          s1 = tlog (Req_init c ok) (upd_cmd c (load_capsule x init) (outside_call s)) in
      if \<not> ok then do { s2 \<leftarrow> nvmet_tcp_handle_req_failure p c s1; Some (Err EAGAIN, s2) }
      else
        (case nvmet_tcp_map_data p c s1 of (st, s2) \<Rightarrow>
           if st \<noteq> 0 then
             Some (Err EAGAIN, nvmet_prepare_receive_pdu p
               (if nvmet_tcp_has_inline_data (cmds s2 c) then nvmet_tcp_fatal_error s2 else tlog (Req_complete c st) s2))
           else if nvmet_tcp_need_data_in (cmds s2 c) then
             (if nvmet_tcp_has_inline_data (cmds s2 c)
              then do { s3 \<leftarrow> nvmet_tcp_map_pdu_iovec p c (upd_tq (\<lambda>q. q\<lparr>rcv_state := NVMET_TCP_RECV_DATA\<rparr>) s2); Some (Ret 0, s3) }
              else Some (Ret 0, nvmet_prepare_receive_pdu p (nvmet_tcp_queue_response c s2)))
           else Some (Ret 0, nvmet_prepare_receive_pdu p (tlog (Req_execute c) s2))))"

definition nvmet_tcp_done_recv_pdu :: "tenv \<Rightarrow> renv \<Rightarrow> target \<Rightarrow> (rc \<times> target) option" where
  "nvmet_tcp_done_recv_pdu e p s =
     (let ty = th_type p (rcv_pdu (tq s)) in
      if tq_state (tq s) = NVMET_TCP_Q_CONNECTING then
        (if ty \<noteq> Nvme_tcp_icreq then Some (Err EPROTO, nvmet_tcp_fatal_error s)
         else nvmet_tcp_handle_icreq e p s)
      else if ty = Nvme_tcp_h2c_data then nvmet_tcp_handle_h2c_data_pdu p s
      else
        (case nvmet_tcp_get_cmd s of
           (None, s1) \<Rightarrow> Some (Err ENOMEM, nvmet_tcp_fatal_error (upd_tq (\<lambda>q. q\<lparr>rcv_cmd := None\<rparr>) s1))
         | (Some c, s1) \<Rightarrow> handle_capsule p c (upd_tq (\<lambda>q. q\<lparr>rcv_cmd := Some c\<rparr>) s1)))"

section \<open>The header\<close>

definition nvmet_tcp_pdu_size :: "tenv \<Rightarrow> renv \<Rightarrow> tpdu_type \<Rightarrow> nat" where
  "nvmet_tcp_pdu_size e p ty =
     (case ty of Nvme_tcp_icreq \<Rightarrow> sizeof_icreq_pdu p | Nvme_tcp_cmd \<Rightarrow> tsizeof_cmd_pdu p
      | Nvme_tcp_h2c_data \<Rightarrow> tsizeof_data_pdu e | Other_tpdu n \<Rightarrow> 0)"

definition nvmet_tcp_pdu_valid :: "tpdu_type \<Rightarrow> bool" where
  "nvmet_tcp_pdu_valid ty \<longleftrightarrow> ty = Nvme_tcp_icreq \<or> ty = Nvme_tcp_cmd \<or> ty = Nvme_tcp_h2c_data"

text \<open>The complete header: the checks of the digests, then the handler.\<close>

definition recv_pdu_done :: "tenv \<Rightarrow> renv \<Rightarrow> target \<Rightarrow> (rc \<times> target) option" where
  "recv_pdu_done e p s =
     (if tq_hdr_digest (tq s) \<and> nvmet_tcp_verify_hdgst e p (rcv_pdu (tq s)) (rcv_offset (tq s)) \<noteq> None
      then Some (Err EPROTO, nvmet_tcp_fatal_error s)
      else if tq_data_digest (tq s) \<and> nvmet_tcp_check_ddgst e p (rcv_pdu (tq s)) (tq s) \<noteq> None
      then Some (Err EPROTO, nvmet_tcp_fatal_error s)
      else nvmet_tcp_done_recv_pdu e p s)"

text \<open>One read of the header, with what follows a complete common header.\<close>

definition pdu_step :: "tenv \<Rightarrow> renv \<Rightarrow> (target \<Rightarrow> (rc \<times> target) option) \<Rightarrow> target \<Rightarrow> (rc \<times> target) option" where
  "pdu_step e p k s =
     (case tdo_recvmsg p (rcv_left (tq s)) s of
        (Inl er, s1) \<Rightarrow> Some (Err er, s1)
      | (Inr bs, s0) \<Rightarrow>
          (let s1 = upd_tq (\<lambda>q. q\<lparr>rcv_pdu := rcv_pdu q @ bs, rcv_offset := rcv_offset q + length bs, rcv_left := rcv_left q - length bs\<rparr>) s0;
               pdu = rcv_pdu (tq s1) in
           if rcv_left (tq s1) \<noteq> 0 then Some (Err EAGAIN, s1)
           else if rcv_offset (tq s1) = sizeof_hdr p then
             (if \<not> nvmet_tcp_pdu_valid (th_type p pdu) then Some (Err EIO, nvmet_tcp_fatal_error s1)
              else if th_hlen p pdu \<noteq> nvmet_tcp_pdu_size e p (th_type p pdu) then Some (Err EIO, s1)
              else k (upd_tq (\<lambda>q. q\<lparr>rcv_left := th_hlen p pdu - rcv_offset q + nvmet_tcp_hdgst_len e q\<rparr>) s1))
           else recv_pdu_done e p s1))"

lemma pdu_step_mono [partial_function_mono]:
  "(\<And>s. mono_option (\<lambda>f. k f s)) \<Longrightarrow> mono_option (\<lambda>f. pdu_step e p (k f) s)"
  unfolding pdu_step_def by (cases "tdo_recvmsg p (rcv_left (tq s)) s") (auto simp: Let_def monotone_on_def flat_ord_def fun_ord_def split: sum.split)

text \<open>The \<open>goto recv\<close> of the code is the recursive call; no result stands for a loop without end.\<close>

partial_function (option) nvmet_tcp_try_recv_pdu :: "tenv \<Rightarrow> renv \<Rightarrow> target \<Rightarrow> (rc \<times> target) option" where
  "nvmet_tcp_try_recv_pdu e p s = pdu_step e p (nvmet_tcp_try_recv_pdu e p) s"

section \<open>Data and digest\<close>

definition nvmet_tcp_prep_recv_ddgst :: "tenv \<Rightarrow> cmd_ref \<Rightarrow> target \<Rightarrow> target" where
  "nvmet_tcp_prep_recv_ddgst e c s =
     upd_tq (\<lambda>q. q\<lparr>rcv_offset := 0, rcv_left := TDIGEST_LENGTH e, rcv_state := NVMET_TCP_RECV_DDGST\<rparr>)
       (upd_cmd c (\<lambda>x. x\<lparr>c_recv_ddgst := []\<rparr>) (nvmet_tcp_ddgst e c s))"

text \<open>The loop that fills the vector of the command: the return code that ends it early, if any.\<close>

function (sequential) recv_msg_loop :: "renv \<Rightarrow> cmd_ref \<Rightarrow> target \<Rightarrow> rc option \<times> target" where
  "recv_msg_loop p c s =
     (if recv_left (cmds s c) = 0 then (None, s)
      else
        (case tdo_recvmsg p (recv_left (cmds s c)) s of
           (Inl er, s1) \<Rightarrow> (Some (Err er), s1)
         | (Inr [], s1) \<Rightarrow> (Some (Ret 0), s1)
         | (Inr (b # bs), s1) \<Rightarrow>
             recv_msg_loop p c (upd_cmd c (\<lambda>x. x\<lparr>c_pdu_recv := c_pdu_recv x + length (b # bs), rbytes_done := rbytes_done x + length (b # bs),
                 recv_left := recv_left x - length (b # bs), c_rx := c_rx x @ b # bs\<rparr>) s1)))"
  by pat_completeness auto
termination
proof (relation "measure (\<lambda>(p, c, s). recv_left (cmds s c))", goal_cases)
  case 1
  then show ?case by simp
next
  case (2 p c s x s1 l b bs)
  then have "cmds s1 = cmds s" by (auto simp: tdo_recvmsg_def outside_call_def)
  then show ?case using 2(1) by (simp add: upd_cmd_def)
qed

declare recv_msg_loop.simps [simp del]

definition nvmet_tcp_try_recv_data :: "tenv \<Rightarrow> renv \<Rightarrow> target \<Rightarrow> (rc \<times> target) option" where
  "nvmet_tcp_try_recv_data e p s = do {
     c \<leftarrow> rcv_cmd (tq s);
     case recv_msg_loop p c s of
       (Some r, s1) \<Rightarrow> Some (r, s1)
     | (None, s1) \<Rightarrow> do {
         s2 \<leftarrow> nvmet_tcp_unmap_pdu_iovec c s1;
         let complete = (\<not> init_failed (cmds s2 c) \<and> rbytes_done (cmds s2 c) = transfer_len (cmds s2 c)) in
         Some (Ret 0,
           if complete \<and> tq_data_digest (tq s2) then nvmet_tcp_prep_recv_ddgst e c s2
           else nvmet_prepare_receive_pdu p (if complete then tlog (Req_execute c) s2 else s2)) } }"

definition nvmet_tcp_finish_cmd :: "cmd_ref \<Rightarrow> target \<Rightarrow> target option" where
  "nvmet_tcp_finish_cmd c s = do {
     s1 \<leftarrow> nvmet_tcp_unmap_pdu_iovec c (tlog (Req_uninit c) s);
     Some (free_cmd_data c s1) }"

definition nvmet_tcp_try_recv_ddgst :: "renv \<Rightarrow> target \<Rightarrow> (rc \<times> target) option" where
  "nvmet_tcp_try_recv_ddgst p s = do {
     c \<leftarrow> rcv_cmd (tq s);
     case tdo_recvmsg p (rcv_left (tq s)) s of
       (Inl er, s1) \<Rightarrow> Some (Err er, s1)
     | (Inr bs, s0) \<Rightarrow> do {
         let s1 = upd_cmd c (\<lambda>x. x\<lparr>c_recv_ddgst := c_recv_ddgst x @ bs\<rparr>)
                    (upd_tq (\<lambda>q. q\<lparr>rcv_offset := rcv_offset q + length bs, rcv_left := rcv_left q - length bs\<rparr>) s0);
         if rcv_left (tq s1) \<noteq> 0 then Some (Err EAGAIN, s1)
         else if tq_data_digest (tq s1) \<and> c_exp_ddgst (cmds s1 c) \<noteq> c_recv_ddgst (cmds s1 c) then do {
           s2 \<leftarrow> nvmet_tcp_finish_cmd c s1;
           Some (Err EPROTO, nvmet_prepare_receive_pdu p (nvmet_tcp_fatal_error s2)) }
         else
           Some (Ret 0, nvmet_prepare_receive_pdu p
             (if \<not> init_failed (cmds s1 c) \<and> rbytes_done (cmds s1 c) = transfer_len (cmds s1 c) then tlog (Req_execute c) s1 else s1)) } }"

section \<open>A round of receiving\<close>

text \<open>The states that one call goes through, in the order of the code.\<close>

definition recv_if ::
  "nvmet_tcp_recv_state \<Rightarrow> (target \<Rightarrow> (rc \<times> target) option) \<Rightarrow> (target \<Rightarrow> (rc \<times> target) option) \<Rightarrow> target \<Rightarrow> (rc \<times> target) option" where
  "recv_if st f k s =
     (if rcv_state (tq s) = st
      then do { (ret, s1) \<leftarrow> f s; if ret \<noteq> Ret 0 then Some (ret, s1) else k s1 }
      else k s)"

fun done_recv :: "rc \<Rightarrow> rc" where
  "done_recv (Err EAGAIN) = Ret 0"
| "done_recv (Err x) = Err x"
| "done_recv (Ret n) = Ret 1"

definition nvmet_tcp_try_recv_one :: "tenv \<Rightarrow> renv \<Rightarrow> target \<Rightarrow> (rc \<times> target) option" where
  "nvmet_tcp_try_recv_one e p s =
     (if rcv_state (tq s) = NVMET_TCP_RECV_ERR then Some (Ret 0, s)
      else do {
        (ret, s1) \<leftarrow> recv_if NVMET_TCP_RECV_PDU (nvmet_tcp_try_recv_pdu e p)
                      (recv_if NVMET_TCP_RECV_DATA (nvmet_tcp_try_recv_data e p)
                       (recv_if NVMET_TCP_RECV_DDGST (nvmet_tcp_try_recv_ddgst p) (\<lambda>x. Some (Ret 0, x)))) s;
        Some (done_recv ret, s1) })"

fun try_recv_loop :: "tenv \<Rightarrow> renv \<Rightarrow> nat \<Rightarrow> nat \<Rightarrow> rc \<Rightarrow> target \<Rightarrow> (rc \<times> nat \<times> target) option" where
  "try_recv_loop e p 0 recvs ret s = Some (ret, recvs, s)"
| "try_recv_loop e p (Suc n) recvs ret s = do {
     (ret1, s1) \<leftarrow> nvmet_tcp_try_recv_one e p s;
     if \<not> rc_pos ret1 then Some (ret1, recvs, s1) else try_recv_loop e p n (Suc recvs) ret1 s1 }"

definition nvmet_tcp_try_recv :: "tenv \<Rightarrow> renv \<Rightarrow> int \<Rightarrow> nat \<Rightarrow> target \<Rightarrow> (rc \<times> nat \<times> target) option" where
  "nvmet_tcp_try_recv e p budget recvs s = try_recv_loop e p (nat budget) recvs (Ret 0) s"

section \<open>Work functions\<close>

definition nvmet_tcp_schedule_release_queue :: "target \<Rightarrow> target" where
  "nvmet_tcp_schedule_release_queue s =
     (if tq_state (tq s) \<noteq> NVMET_TCP_Q_DISCONNECTING
      then upd_tq (\<lambda>q. q\<lparr>tq_state := NVMET_TCP_Q_DISCONNECTING, release_work := True\<rparr>) s else s)"

text \<open>The module parameters of the work functions.\<close>

record budgets =
  nvmet_tcp_io_recv_budget :: int
  nvmet_tcp_io_send_budget :: int
  nvmet_tcp_io_work_budget :: int
  ti10_thru_nice :: int

definition io_work_error :: "errno \<Rightarrow> target \<Rightarrow> target" where
  "io_work_error er s = (if er = EPIPE \<or> er = ECONNRESET then tlog Sock_shutdown s else nvmet_tcp_fatal_error s)"

text \<open>
  A round of the loop of \<open>nvmet_tcp_io_work\<close> and \<open>nvmet_tcp_io_work_lat\<close>: whether another one follows, whether work
  is pending, and the number of operations so far.
\<close>

definition io_round :: "tenv \<Rightarrow> renv \<Rightarrow> budgets \<Rightarrow> nat \<Rightarrow> target \<Rightarrow> (bool \<times> bool \<times> nat \<times> target) option" where
  "io_round e p b ops s = do {
     y \<leftarrow> nvmet_tcp_try_recv e p (nvmet_tcp_io_recv_budget b) ops s;
     (case y of
        (Err er, ops1, s1) \<Rightarrow> Some (False, False, ops1, io_work_error er s1)
      | (Ret n, ops1, s1) \<Rightarrow> do {
          z \<leftarrow> nvmet_tcp_try_send e (nvmet_tcp_io_send_budget b) ops1 s1;
          (case z of
             (Err er, ops2, s2) \<Rightarrow> Some (False, False, ops2, io_work_error er s2)
           | (Ret m, ops2, s2) \<Rightarrow>
               (let pending = (0 < n \<or> 0 < m) in
                Some (pending \<and> int ops2 < nvmet_tcp_io_work_budget b, pending, ops2, s2))) }) }"

partial_function (option) tio_work_loop :: "tenv \<Rightarrow> renv \<Rightarrow> budgets \<Rightarrow> nat \<Rightarrow> target \<Rightarrow> (bool \<times> target) option" where
  "tio_work_loop e p b ops s = do {
     (go, pending, ops1, s1) \<leftarrow> io_round e p b ops s;
     if go then tio_work_loop e p b ops1 s1 else Some (pending, s1) }"

definition nvmet_tcp_io_work :: "tenv \<Rightarrow> renv \<Rightarrow> budgets \<Rightarrow> target \<Rightarrow> target option" where
  "nvmet_tcp_io_work e p b s = do {
     (again, s1) \<leftarrow> tio_work_loop e p b 0 (if tkthread_nice s \<noteq> ti10_thru_nice b then s\<lparr>tkthread_nice := ti10_thru_nice b\<rparr> else s);
     Some (if again then upd_tq (\<lambda>q. q\<lparr>tq_io_work := True\<rparr>) s1 else s1) }"

definition nvmet_tcp_io_work_lat :: "tenv \<Rightarrow> renv \<Rightarrow> budgets \<Rightarrow> target \<Rightarrow> target option" where
  "nvmet_tcp_io_work_lat e p b s = do {
     (again, s1) \<leftarrow> tio_work_loop e p b 0 s;
     Some (if again then upd_tq (\<lambda>q. q\<lparr>tq_io_work_lat := True\<rparr>) s1 else s1) }"

end
