(* ===== verification/Tcp_Target_Queue.thy ===== *)
theory Tcp_Target_Queue
  imports Tcp_Target_Recv "HOL-Library.Signed_Division"
begin

text \<open>
  Ports and queues of the NVMe/TCP target: accepting connections, allocation and release of queues and
  commands, the callbacks of the sockets with the steering of queues between cores, and the registration of
  the transport. Memory of the allocator is a ledger: the number of live allocations. Freeing memory that is
  not allocated, and following a pointer to it, has no result.
\<close>

section \<open>State\<close>

text \<open>
  A queue with its socket: whether \<open>sk_user_data\<close> points to it and the callbacks are the driver's, the size of
  the command array when it is allocated, and the bytes in the receive buffer of the socket.
\<close>

record lane =
  l_t :: target
  sk_user_data :: bool
  sk_callbacks :: bool
  sock_open :: bool
  cmd_array :: "nat option"
  sk_rmem_alloc :: u32

record nvmet_tcp_port =
  last_cpu :: int
  reset_metric :: u64
  print_time :: u64
  accept_scheduled :: bool

record server =
  queue_list :: "lane list"
  port :: nvmet_tcp_port
  queue_ida :: "nat list"
  kmem :: nat
  call_pos :: nat

text \<open>
  Parameters: the machine, module parameters, the answers of the allocator, of the socket layer and of the
  target core, and \<open>ida_simple_get\<close> and \<open>cpumask_next_wrap\<close> of the kernel.
\<close>

record senv =
  num_online_cpus :: int
  num_online_nodes :: int
  i10_target_steering :: bool
  i10_thru_printk :: bool
  jiffies :: u64
  jiffies_200ms :: u64
  jiffies_50ms :: u64
  ktry_alloc :: "nat \<Rightarrow> bool"
  call_result :: "nat \<Rightarrow> errno option"
  ida_simple_get :: "nat list \<Rightarrow> errno + nat"
  cpumask_next_wrap :: "int \<Rightarrow> int"
  rcv_tos :: int

definition upd_l :: "(nvmet_tcp_queue \<Rightarrow> nvmet_tcp_queue) \<Rightarrow> lane \<Rightarrow> lane" where
  "upd_l f l = l\<lparr>l_t := upd_tq f (l_t l)\<rparr>"

abbreviation lq :: "lane \<Rightarrow> nvmet_tcp_queue" where "lq l \<equiv> tq (l_t l)"

text \<open>An allocation that may fail, and a call that may fail.\<close>

definition kalloc :: "senv \<Rightarrow> server \<Rightarrow> bool \<times> server" where
  "kalloc v s =
     (if ktry_alloc v (call_pos s) then (True, s\<lparr>call_pos := Suc (call_pos s), kmem := kmem s + 1\<rparr>)
      else (False, s\<lparr>call_pos := Suc (call_pos s)\<rparr>))"

definition kfrees :: "nat \<Rightarrow> server \<Rightarrow> server option" where
  "kfrees n s = (if n \<le> kmem s then Some (s\<lparr>kmem := kmem s - n\<rparr>) else None)"

definition try_call :: "senv \<Rightarrow> server \<Rightarrow> errno option \<times> server" where
  "try_call v s = (call_result v (call_pos s), s\<lparr>call_pos := Suc (call_pos s)\<rparr>)"

section \<open>Command memory\<close>

text \<open>A number of allocations, such as the four PDUs of a command: what was allocated is freed when one fails.\<close>

fun alloc_all :: "senv \<Rightarrow> nat \<Rightarrow> nat \<Rightarrow> server \<Rightarrow> (bool \<times> server) option" where
  "alloc_all v have_n 0 s = Some (True, s)"
| "alloc_all v have_n (Suc n) s =
     (case kalloc v s of
        (True, s1) \<Rightarrow> alloc_all v (Suc have_n) n s1
      | (False, s1) \<Rightarrow> do { s2 \<leftarrow> kfrees have_n s1; Some (False, s2) })"

definition nvmet_tcp_alloc_cmd :: "senv \<Rightarrow> cmd_ref \<Rightarrow> lane \<Rightarrow> server \<Rightarrow> (rc \<times> lane \<times> server) option" where
  "nvmet_tcp_alloc_cmd v c l s = do {
     (ok, s1) \<leftarrow> alloc_all v 0 4 s;
     Some (if ok then (Ret 0, upd_l (\<lambda>q. q\<lparr>free_list := free_list q @ [c]\<rparr>) l, s1) else (Err ENOMEM, l, s1)) }"

definition nvmet_tcp_free_cmd :: "server \<Rightarrow> server option" where
  "nvmet_tcp_free_cmd s = kfrees 4 s"

fun free_cmd_loop :: "nat \<Rightarrow> server \<Rightarrow> server option" where
  "free_cmd_loop 0 s = Some s"
| "free_cmd_loop (Suc n) s = do { s1 \<leftarrow> nvmet_tcp_free_cmd s; free_cmd_loop n s1 }"

text \<open>The loop over the array, with the number of commands allocated when it stopped.\<close>

fun alloc_cmd_loop :: "senv \<Rightarrow> nat \<Rightarrow> nat \<Rightarrow> lane \<Rightarrow> server \<Rightarrow> (rc \<times> nat \<times> lane \<times> server) option" where
  "alloc_cmd_loop v i 0 l s = Some (Ret 0, i, l, s)"
| "alloc_cmd_loop v i (Suc n) l s = do {
     (ret, l1, s1) \<leftarrow> nvmet_tcp_alloc_cmd v (Cmd i) l s;
     if ret \<noteq> Ret 0 then Some (ret, i, l1, s1) else alloc_cmd_loop v (Suc i) n l1 s1 }"

text \<open>Commands of an array that is given up stay on the free list.\<close>

definition nvmet_tcp_alloc_cmds :: "senv \<Rightarrow> lane \<Rightarrow> server \<Rightarrow> (rc \<times> lane \<times> server) option" where
  "nvmet_tcp_alloc_cmds v l s =
     (case kalloc v s of
        (False, s1) \<Rightarrow> Some (Err EINVAL, l, s1)
      | (True, s1) \<Rightarrow> do {
          (ret, i, l1, s2) \<leftarrow> alloc_cmd_loop v 0 (nr_cmds (lq l)) l s1;
          if ret = Ret 0 then Some (Ret 0, l1\<lparr>cmd_array := Some (nr_cmds (lq l))\<rparr>, s2)
          else do { s3 \<leftarrow> free_cmd_loop i s2; s4 \<leftarrow> kfrees 1 s3; Some (ret, l1, s4) } })"

definition nvmet_tcp_free_cmds :: "lane \<Rightarrow> server \<Rightarrow> server option" where
  "nvmet_tcp_free_cmds l s =
     (if nr_cmds (lq l) \<noteq> 0 \<and> cmd_array l \<noteq> Some (nr_cmds (lq l)) then None
      else do {
        s1 \<leftarrow> free_cmd_loop (nr_cmds (lq l)) s;
        s2 \<leftarrow> nvmet_tcp_free_cmd s1;
        kfrees (if cmd_array l = None then 0 else 1) s2 })"

section \<open>Release of a queue\<close>

definition nvmet_tcp_restore_socket_callbacks :: "lane \<Rightarrow> lane" where
  "nvmet_tcp_restore_socket_callbacks l = l\<lparr>sk_callbacks := False, sk_user_data := False\<rparr>"

definition uninit_cmd :: "cmd_ref \<Rightarrow> target \<Rightarrow> target option" where
  "uninit_cmd c s = (if nvmet_tcp_need_data_in (cmds s c) then nvmet_tcp_finish_cmd c s else Some s)"

fun uninit_loop :: "nat \<Rightarrow> nat \<Rightarrow> target \<Rightarrow> target option" where
  "uninit_loop i 0 s = Some s"
| "uninit_loop i (Suc n) s = do { s1 \<leftarrow> uninit_cmd (Cmd i) s; uninit_loop (Suc i) n s1 }"

definition nvmet_tcp_uninit_data_in_cmds :: "lane \<Rightarrow> lane option" where
  "nvmet_tcp_uninit_data_in_cmds l =
     (if nr_cmds (lq l) \<noteq> 0 \<and> cmd_array l \<noteq> Some (nr_cmds (lq l)) then None
      else do {
        t1 \<leftarrow> uninit_loop 0 (nr_cmds (lq l)) (l_t l);
        t2 \<leftarrow> (if nr_cmds (tq t1) = 0 then uninit_cmd Connect t1 else Some t1);
        Some (l\<lparr>l_t := t2\<rparr>) })"

text \<open>
  The work function of the release of the queue at a position of the list. Pending work is flushed before,
  so it is idle here; the queue itself is the last allocation to go.
\<close>

definition nvmet_tcp_release_queue_work :: "nat \<Rightarrow> server \<Rightarrow> server option" where
  "nvmet_tcp_release_queue_work i s = do {
     l \<leftarrow> arr_get (queue_list s) (int i);
     let s0 = s\<lparr>queue_list := take i (queue_list s) @ drop (Suc i) (queue_list s)\<rparr>;
     l1 \<leftarrow> nvmet_tcp_uninit_data_in_cmds (nvmet_tcp_restore_socket_callbacks l);
     s1 \<leftarrow> nvmet_tcp_free_cmds l1 s0;
     _ \<leftarrow> (if tq_hdr_digest (lq l1) \<or> tq_data_digest (lq l1) then nvmet_tcp_free_crypto (l_t l1) else Some (l_t l1));
     kfrees 1 (s1\<lparr>queue_ida := removeAll (nat (tq_idx (lq l1))) (queue_ida s1)\<rparr>) }"

section \<open>Steering\<close>

text \<open>A time that was never set, or has passed.\<close>

definition due :: "u64 \<Rightarrow> u64 \<Rightarrow> bool" where
  "due now t \<longleftrightarrow> t = 0 \<or> time_after now t"

definition reset_lane :: "lane \<Rightarrow> lane" where
  "reset_lane l = (if sq_qid (lq l) \<noteq> 0 then upd_l (\<lambda>q. q\<lparr>tq_metric := 0, tq_cpu := orig_cpu q\<rparr>) l else l)"

text \<open>
  The new value of a metric from a sample of the receive buffer. The metric is unsigned and the sample is a
  signed number, which the shift divides with its sign.
\<close>

definition new_metric :: "u32 \<Rightarrow> u32 \<Rightarrow> u32" where
  "new_metric m sample =
     (let m1 = (if m = 0 then sample else m - drop_bit 3 m + signed_drop_bit 3 sample) in if m1 < 10 then 0 else m1)"

text \<open>
  The loads of the cores of a node, in two arrays of six entries on the stack: the first component holds the
  latency lanes, the second the throughput lanes. Entries that were not set have no value.
\<close>

type_synonym loads = "u32 option list"

definition load_add :: "int \<Rightarrow> u32 \<Rightarrow> loads \<Rightarrow> loads option" where
  "load_add i m a = do { x \<leftarrow> arr_get a i; y \<leftarrow> x; arr_set a i (Some (y + m)) }"

fun reset_loads :: "nat \<Rightarrow> loads \<Rightarrow> loads option" where
  "reset_loads 0 a = Some a"
| "reset_loads (Suc n) a = do { b \<leftarrow> reset_loads n a; arr_set b (int n) (Some 0) }"

text \<open>One queue of the list in the update of the metrics.\<close>

definition measure_lane :: "senv \<Rightarrow> int \<Rightarrow> lane \<Rightarrow> loads \<times> loads \<Rightarrow> (lane \<times> loads \<times> loads) option" where
  "measure_lane v node l a =
     (if sq_qid (lq l) \<noteq> 0 \<and> tq_numa_node (lq l) = node then do {
        let l1 = upd_l (\<lambda>q. q\<lparr>tq_metric := new_metric (tq_metric q) (sk_rmem_alloc l)\<rparr>) l;
        let i = tq_cpu (lq l1) sdiv num_online_nodes v;
        if num_online_cpus v < tq_idx (lq l1)
        then do { b \<leftarrow> load_add i (tq_metric (lq l1)) (fst a); Some (l1, b, snd a) }
        else do { b \<leftarrow> load_add i (tq_metric (lq l1)) (snd a); Some (l1, fst a, b) } }
      else Some (l, a))"

fun measure_lanes :: "senv \<Rightarrow> int \<Rightarrow> lane list \<Rightarrow> loads \<times> loads \<Rightarrow> (lane list \<times> loads \<times> loads) option" where
  "measure_lanes v node [] a = Some ([], a)"
| "measure_lanes v node (l # ls) a = do {
     (l1, a1) \<leftarrow> measure_lane v node l a;
     (ls1, a2) \<leftarrow> measure_lanes v node ls a1;
     Some (l1 # ls1, a2) }"

definition load_at :: "loads \<Rightarrow> int \<Rightarrow> u32 option" where
  "load_at a i = do { x \<leftarrow> arr_get a i; x }"

text \<open>
  The choice of a core of the node: the candidate so far, \<open>-1\<close> for none, with the load to beat. The comparisons
  are of signed numbers and stop at the first condition that fails.
\<close>

definition lat_step :: "loads \<Rightarrow> loads \<Rightarrow> int \<Rightarrow> int \<Rightarrow> int \<times> int \<Rightarrow> (int \<times> int) option" where
  "lat_step lat thru local i st =
     (if i = local then Some st
      else do {
        li \<leftarrow> load_at lat i;
        if li = 0 then Some st
        else do {
          tl \<leftarrow> load_at thru local;
          if tl = 0 then Some st
          else do {
            ti \<leftarrow> load_at thru i;
            ll \<leftarrow> load_at lat local;
            if sint (li + ti) < sint (ll + tl) \<and> sint (li + ti) < snd st then Some (i, sint (li + ti)) else Some st } } })"

definition thru_step :: "loads \<Rightarrow> int \<Rightarrow> int \<Rightarrow> int \<times> int \<Rightarrow> (int \<times> int) option" where
  "thru_step lat local i st =
     (if i = local then Some st
      else do {
        ll \<leftarrow> load_at lat local;
        if ll = 0 then Some st
        else do {
          li \<leftarrow> load_at lat i;
          if sint li < snd st then Some (i, sint li) else Some st } })"

definition steer :: "senv \<Rightarrow> loads \<times> loads \<Rightarrow> int \<Rightarrow> nvmet_tcp_queue \<Rightarrow> nvmet_tcp_queue option" where
  "steer v a local q = do {
     let cores = map int [0..<nat (num_online_cpus v sdiv num_online_nodes v)];
     (best, _) \<leftarrow> for_each (if i10_target_is_latency q then lat_step (fst a) (snd a) local else thru_step (fst a) local) cores (-1, 1000000);
     Some (tqueue_io_work (if 0 \<le> best then q\<lparr>tq_cpu := best * num_online_nodes v + tq_numa_node q\<rparr> else q)) }"

text \<open>
  The print-out of all loads writes to four tables of four rows with six columns: it has no other effect as
  long as it stays inside them.
\<close>

definition print_loads_ok :: "senv \<Rightarrow> lane list \<Rightarrow> bool" where
  "print_loads_ok v ls \<longleftrightarrow>
     num_online_nodes v \<le> 4 \<and> num_online_cpus v sdiv num_online_nodes v \<le> 6 \<and>
     (\<forall>l \<in> set ls. 0 \<le> tq_numa_node (lq l) \<and> tq_numa_node (lq l) < num_online_nodes v \<and>
        0 \<le> tq_cpu (lq l) sdiv num_online_nodes v \<and>
        tq_cpu (lq l) sdiv num_online_nodes v < num_online_cpus v sdiv num_online_nodes v)"

definition no_loads :: loads where "no_loads = replicate 6 None"

text \<open>The callback for data on the socket of the queue at position \<open>i\<close>.\<close>

definition steering :: "senv \<Rightarrow> nat \<Rightarrow> server \<Rightarrow> server option" where
  "steering v i s = do {
     l \<leftarrow> arr_get (queue_list s) (int i);
     let node = tq_numa_node (lq l);
     let local = tq_cpu (lq l) sdiv num_online_nodes v;
     let ls = (if sq_qid (lq l) \<noteq> 0 \<and> due (jiffies v) (reset_metric (port s)) then map reset_lane (queue_list s) else queue_list s);
     let p1 = (port s)\<lparr>reset_metric := jiffies v + jiffies_200ms v\<rparr>;
     q1 \<leftarrow> arr_get ls (int i);
     let printing = (i10_thru_printk v \<and> sq_qid (lq q1) \<noteq> 0 \<and> tq_cpu (lq q1) = 0 \<and> due (jiffies v) (print_time p1));
     if printing \<and> \<not> print_loads_ok v ls then None
     else do {
       let p2 = (if printing then p1\<lparr>print_time := jiffies v + jiffies_50ms v\<rparr> else p1);
       a \<leftarrow> reset_loads (nat (num_online_cpus v sdiv num_online_nodes v)) no_loads;
       (ls2, a2) \<leftarrow> measure_lanes v node ls (a, a);
       l2 \<leftarrow> arr_get ls2 (int i);
       q2 \<leftarrow> steer v a2 local (lq l2);
       Some (s\<lparr>port := p2, queue_list := ls2[i := upd_l (\<lambda>_. q2) l2]\<rparr>) } }"

definition nvmet_tcp_data_ready :: "senv \<Rightarrow> nat \<Rightarrow> server \<Rightarrow> server option" where
  "nvmet_tcp_data_ready v i s = do {
     l \<leftarrow> arr_get (queue_list s) (int i);
     if \<not> sk_user_data l then Some s
     else if i10_target_steering v then steering v i s
     else Some (s\<lparr>queue_list := (queue_list s)[i := upd_l tqueue_io_work l]\<rparr>) }"

section \<open>The other callbacks\<close>

definition nvmet_tcp_write_space :: "bool \<Rightarrow> lane \<Rightarrow> lane" where
  "nvmet_tcp_write_space writeable l =
     (if \<not> sk_user_data l then l
      else if tq_state (lq l) = NVMET_TCP_Q_CONNECTING then l
      else if writeable then upd_l (\<lambda>q. tqueue_io_work (q\<lparr>tq_nospace := False\<rparr>)) l else l)"

datatype sk_state = TCP_FIN_WAIT1 | TCP_CLOSE_WAIT | TCP_CLOSE | TCP_LISTEN | TCP_OTHER

definition nvmet_tcp_state_change :: "sk_state \<Rightarrow> lane \<Rightarrow> lane" where
  "nvmet_tcp_state_change st l =
     (if sk_user_data l \<and> (st = TCP_FIN_WAIT1 \<or> st = TCP_CLOSE_WAIT \<or> st = TCP_CLOSE)
      then l\<lparr>sk_user_data := False, l_t := nvmet_tcp_schedule_release_queue (l_t l)\<rparr> else l)"

definition nvmet_tcp_listen_data_ready :: "bool \<Rightarrow> sk_state \<Rightarrow> nvmet_tcp_port \<Rightarrow> nvmet_tcp_port" where
  "nvmet_tcp_listen_data_ready user_data st p = (if user_data \<and> st = TCP_LISTEN then p\<lparr>accept_scheduled := True\<rparr> else p)"

section \<open>New queues\<close>

text \<open>A list of calls that all have to succeed.\<close>

fun try_calls :: "senv \<Rightarrow> nat \<Rightarrow> server \<Rightarrow> errno option \<times> server" where
  "try_calls v 0 s = (None, s)"
| "try_calls v (Suc n) s = (case try_call v s of (Some x, s1) \<Rightarrow> (Some x, s1) | (None, s1) \<Rightarrow> try_calls v n s1)"

text \<open>The name of the socket, of its peer, the linger option, and the type of service when there is one.\<close>

definition nvmet_tcp_set_queue_sock :: "senv \<Rightarrow> lane \<Rightarrow> server \<Rightarrow> errno option \<times> lane \<times> server" where
  "nvmet_tcp_set_queue_sock v l s =
     (case try_calls v (if 0 < rcv_tos v then 4 else 3) s of
        (Some x, s1) \<Rightarrow> (Some x, l, s1)
      | (None, s1) \<Rightarrow> (None, l\<lparr>sk_user_data := True, sk_callbacks := True\<rparr>, s1))"

definition zero_cmd :: nvmet_tcp_cmd where
  "zero_cmd =
     \<lparr>c_write = False, c_command_id = 0, c_sgl_type = 0, c_sgl_len = 0, c_data_len = 0, transfer_len = 0, c_sg = [],
      cqe_id = 0, cqe_status = 0, rbytes_done = 0, wbytes_done = 0, c_pdu_len = 0, c_pdu_recv = 0, sg_idx = 0, c_nr_mapped = 0,
      recv_iov = [], recv_left = 0, c_rx = [], iov_live = False, init_failed = False, c_offset = 0, cur_sg = [],
      c_state = NVMET_TCP_SEND_DATA_PDU, c_exp_ddgst = [], c_recv_ddgst = [],
      data_pdu = \<lparr>ch_success = False, ch_last = False, ch_hdgst = False, ch_ddgst = False, ch_hlen = 0, ch_pdo = 0,
                   ch_plen = 0, ch_command_id = 0, ch_data_length = 0, ch_data_offset = 0\<rparr>,
      r2t_pdu = \<lparr>rh_hdgst = False, rh_hlen = 0, rh_pdo = 0, rh_plen = 0, rh_command_id = 0, rh_ttag = 0, rh_length = 0, rh_offset = 0\<rparr>,
      rsp_pdu = \<lparr>rs_hdgst = False, rs_hlen = 0, rs_pdo = 0, rs_plen = 0\<rparr>\<rparr>"

text \<open>The zeroed queue of \<open>kzalloc\<close>, with its arrays for the caravan.\<close>

definition zero_queue :: nvmet_tcp_queue where
  "zero_queue =
     \<lparr>sq_qid = 0, sq_ctrl = None, sqhd_disabled = False, tq_idx = 0, tq_cpu = 0, tq_prio_class = 0, orig_cpu = 0,
      tq_numa_node = 0, tq_metric = 0, nr_cmds = 0, free_list = [], resp_list = [], resp_send_list = [], send_list_len = 0,
      snd_cmd = None,
      tq_iovs = replicate (I10_TARGET_SEND_BUDGET * 3) \<lparr>seg_mem = Icresp_pdu, seg_off = 0, seg_len = 0\<rparr>, tq_nr_iovs = 0,
      tq_caravan_len = 0, caravan_cmds = replicate I10_TARGET_SEND_BUDGET Connect, nr_caravan_cmds = 0, tq_send_now = False,
      tq_mapped = replicate I10_TARGET_SEND_BUDGET 0, nr_caravan_mapped = 0,
      rcv_offset = 0, rcv_left = 0, rcv_state = NVMET_TCP_RECV_PDU, rcv_cmd = None, rcv_pdu = [], tq_hdr_digest = False,
      tq_data_digest = False, crypto_live = False, tq_state = NVMET_TCP_Q_CONNECTING, tq_io_work = False, tq_io_work_lat = False,
      release_work = False, tq_nospace = False\<rparr>"

definition new_lane :: lane where
  "new_lane =
     \<lparr>l_t = \<lparr>tq = zero_queue, cmds = (\<lambda>_. zero_cmd), twire = [], tsock_pos = 0, freed = [], tevents = [], tkthread_nice = 0\<rparr>,
      sk_user_data = False, sk_callbacks = False, sock_open = True, cmd_array = None, sk_rmem_alloc = 0\<rparr>"

text \<open>The core and the class of a new queue, from its number and the last core of the port.\<close>

definition place_queue :: "senv \<Rightarrow> int \<Rightarrow> nvmet_tcp_queue \<Rightarrow> nvmet_tcp_queue" where
  "place_queue v lcpu q =
     (let lat = num_online_cpus v < tq_idx q;
          cpu = (if lat then lcpu + 1 else lcpu);
          cpu1 = (if num_online_cpus v \<le> cpu then 0 else cpu) in
      q\<lparr>tq_prio_class := (if lat then 1 else 0), tq_cpu := cpu1, orig_cpu := cpu1,
        tq_numa_node := cpu1 smod num_online_nodes v, tq_metric := 0\<rparr>)"

text \<open>Allocations of the queue and of its three arrays, undone in reverse when one of them fails.\<close>

definition alloc_arrays :: "senv \<Rightarrow> server \<Rightarrow> (bool \<times> server) option" where
  "alloc_arrays v s = alloc_all v 0 4 s"

text \<open>The end of the error path: the number and the four allocations.\<close>

definition queue_fail :: "errno \<Rightarrow> nat \<Rightarrow> server \<Rightarrow> (rc \<times> server) option" where
  "queue_fail x idx s = do { s1 \<leftarrow> kfrees 4 (s\<lparr>queue_ida := removeAll idx (queue_ida s)\<rparr>); Some (Err x, s1) }"

definition start_queue :: "senv \<Rightarrow> renv \<Rightarrow> nat \<Rightarrow> lane \<Rightarrow> server \<Rightarrow> (rc \<times> server) option" where
  "start_queue v p idx l s =
     (let lcpu = (if idx \<noteq> 1 then cpumask_next_wrap v (last_cpu (port s)) else last_cpu (port s));
          l1 = upd_l (place_queue v lcpu) l;
          l2 = l1\<lparr>l_t := nvmet_prepare_receive_pdu p (l_t l1)\<rparr> in
      case nvmet_tcp_set_queue_sock v l2 (s\<lparr>port := (port s)\<lparr>last_cpu := lcpu\<rparr>\<rparr>) of
        (Some x, l3, s1) \<Rightarrow> do { s2 \<leftarrow> nvmet_tcp_free_cmd s1; queue_fail x idx s2 }
      | (None, l3, s1) \<Rightarrow> Some (Ret 0, s1\<lparr>queue_list := queue_list s1 @ [upd_l tqueue_io_work l3]\<rparr>))"

text \<open>The connect command and \<open>nvmet_sq_init\<close>.\<close>

definition alloc_connect :: "senv \<Rightarrow> renv \<Rightarrow> nat \<Rightarrow> server \<Rightarrow> (rc \<times> server) option" where
  "alloc_connect v p idx s = do {
     (ret, l1, s1) \<leftarrow> nvmet_tcp_alloc_cmd v Connect (upd_l (\<lambda>q. q\<lparr>tq_idx := int idx\<rparr>) new_lane) s;
     case ret of
       Err x \<Rightarrow> queue_fail x idx s1
     | Ret _ \<Rightarrow>
         (case try_call v s1 of
            (Some x, s2) \<Rightarrow> do { s3 \<leftarrow> nvmet_tcp_free_cmd s2; queue_fail x idx s3 }
          | (None, s2) \<Rightarrow> start_queue v p idx l1 s2) }"

definition nvmet_tcp_alloc_queue :: "senv \<Rightarrow> renv \<Rightarrow> server \<Rightarrow> (rc \<times> server) option" where
  "nvmet_tcp_alloc_queue v p s = do {
     (ok, s1) \<leftarrow> alloc_arrays v s;
     if \<not> ok then Some (Err ENOMEM, s1)
     else
       (case ida_simple_get v (queue_ida s1) of
          Inl x \<Rightarrow> do { s2 \<leftarrow> kfrees 4 s1; Some (Err x, s2) }
        | Inr idx \<Rightarrow> alloc_connect v p idx (s1\<lparr>queue_ida := idx # queue_ida s1\<rparr>)) }"

text \<open>The connections that wait at the socket of the port; a socket without a queue is closed again.\<close>

fun accept_loop :: "senv \<Rightarrow> renv \<Rightarrow> nat \<Rightarrow> server \<Rightarrow> server option" where
  "accept_loop v p 0 s = Some s"
| "accept_loop v p (Suc n) s = do { (ret, s1) \<leftarrow> nvmet_tcp_alloc_queue v p s; accept_loop v p n s1 }"

definition nvmet_tcp_accept_work :: "senv \<Rightarrow> renv \<Rightarrow> nat \<Rightarrow> server \<Rightarrow> server option" where
  "nvmet_tcp_accept_work v p waiting s = accept_loop v p waiting (s\<lparr>port := (port s)\<lparr>accept_scheduled := False\<rparr>\<rparr>)"

section \<open>Ports and controllers\<close>

datatype adrfam = NVMF_ADDR_FAMILY_IP4 | NVMF_ADDR_FAMILY_IP6 | Other_family nat

text \<open>
  A new port: the parse of the address, the socket, its four options, \<open>bind\<close> and \<open>listen\<close>. The port and its
  socket are two allocations. The result carries the size of inline data, which has a default.
\<close>

definition nvmet_tcp_add_port :: "senv \<Rightarrow> renv \<Rightarrow> adrfam \<Rightarrow> int \<Rightarrow> server \<Rightarrow> (rc \<times> int \<times> server) option" where
  "nvmet_tcp_add_port v p af inline s =
     (case kalloc v s of
        (False, s1) \<Rightarrow> Some (Err ENOMEM, inline, s1)
      | (True, s1) \<Rightarrow>
          (case af of
             Other_family n \<Rightarrow> do { s2 \<leftarrow> kfrees 1 s1; Some (Err EINVAL, inline, s2) }
           | _ \<Rightarrow>
             (case try_call v s1 of
                (Some x, s2) \<Rightarrow> do { s3 \<leftarrow> kfrees 1 s2; Some (Err x, inline, s3) }
              | (None, s2) \<Rightarrow>
                  (let inl = (if inline < 0 then int (4 * TPAGE_SIZE p) else inline);
                       fresh = \<lparr>last_cpu = -1, reset_metric = 0, print_time = 0, accept_scheduled = False\<rparr> in
                   case try_call v s2 of
                     (Some x, s3) \<Rightarrow> do { s4 \<leftarrow> kfrees 1 s3; Some (Err x, inl, s4) }
                   | (None, s3) \<Rightarrow>
                       (case try_calls v 6 (s3\<lparr>kmem := kmem s3 + 1\<rparr>) of
                          (Some x, s4) \<Rightarrow> do { s5 \<leftarrow> kfrees 2 s4; Some (Err x, inl, s5) }
                        | (None, s4) \<Rightarrow> Some (Ret 0, inl, s4\<lparr>port := fresh\<rparr>))))))"

definition nvmet_tcp_remove_port :: "server \<Rightarrow> server option" where
  "nvmet_tcp_remove_port s = kfrees 2 (s\<lparr>port := (port s)\<lparr>accept_scheduled := False\<rparr>\<rparr>)"

definition nvmet_tcp_delete_ctrl :: "nat \<Rightarrow> server \<Rightarrow> server" where
  "nvmet_tcp_delete_ctrl ctrl s =
     s\<lparr>queue_list := map (\<lambda>l. if sq_ctrl (lq l) = Some ctrl then l\<lparr>l_t := tlog Sock_shutdown (l_t l)\<rparr> else l) (queue_list s)\<rparr>"

definition nvmet_tcp_install_queue :: "senv \<Rightarrow> nat \<Rightarrow> nat \<Rightarrow> server \<Rightarrow> (u16 \<times> server) option" where
  "nvmet_tcp_install_queue v sq_size i s = do {
     l \<leftarrow> arr_get (queue_list s) (int i);
     (ret, l1, s1) \<leftarrow> nvmet_tcp_alloc_cmds v (upd_l (\<lambda>q. q\<lparr>nr_cmds := sq_size * 2\<rparr>) l) s;
     Some (if ret \<noteq> Ret 0 then NVME_SC_INTERNAL else 0, s1\<lparr>queue_list := (queue_list s1)[i := l1]\<rparr>) }"

section \<open>The module\<close>

definition nvmet_tcp_init :: "senv \<Rightarrow> server \<Rightarrow> (rc \<times> server) option" where
  "nvmet_tcp_init v s =
     (case kalloc v s of
        (False, s1) \<Rightarrow> Some (Err ENOMEM, s1)
      | (True, s1) \<Rightarrow>
          (case kalloc v s1 of
             (False, s2) \<Rightarrow> Some (Err ENOMEM, s2)
           | (True, s2) \<Rightarrow>
               (case try_call v s2 of
                  (Some x, s3) \<Rightarrow> do { s4 \<leftarrow> kfrees 2 s3; Some (Err x, s4) }
                | (None, s3) \<Rightarrow> Some (Ret 0, s3))))"

definition nvmet_tcp_exit :: "server \<Rightarrow> server option" where
  "nvmet_tcp_exit s =
     kfrees 2 (s\<lparr>queue_list := map (\<lambda>l. l\<lparr>l_t := tlog Sock_shutdown (l_t l)\<rparr>) (queue_list s)\<rparr>)"

end
