(* ===== verification/Tcp_Target_Inv.thy ===== *)
theory Tcp_Target_Inv
  imports Tcp_Target_Queue
begin

text \<open>
  Lemmas on the send side of the target. Every operation has a result and keeps the caravan in order as
  long as the connect command does not ask for data (\<open>tdef\<close>, \<open>tkeep\<close>); with room in the caravan the senders
  append exactly the pieces of the command (\<open>tgrow\<close>, \<open>reading_sends\<close>). The receive side leaves the caravan
  alone (\<open>rkeep\<close>).
\<close>

section \<open>The caravan stays in order\<close>

definition tcaravan_ok :: "nvmet_tcp_queue \<Rightarrow> bool" where
  "tcaravan_ok q \<longleftrightarrow>
     length (tq_iovs q) = I10_TARGET_SEND_BUDGET * 3 \<and> length (caravan_cmds q) = I10_TARGET_SEND_BUDGET \<and>
     length (tq_mapped q) = I10_TARGET_SEND_BUDGET \<and> tq_nr_iovs q \<le> I10_TARGET_SEND_BUDGET * 3 \<and>
     nr_caravan_cmds q \<le> I10_TARGET_SEND_BUDGET \<and> nr_caravan_mapped q \<le> I10_TARGET_SEND_BUDGET \<and>
     tq_caravan_len q = segs_len (tcaravan_segs q)"

lemma tcaravan_add_ok:
  assumes "tcaravan_ok q" "\<not> i10_target_is_caravan_full q"
  shows "\<exists>q'. tcaravan_add g q = Some q' \<and> tcaravan_ok q' \<and> tcaravan_segs q' = tcaravan_segs q @ [g] \<and>
           nr_caravan_mapped q' = nr_caravan_mapped q \<and> nr_caravan_cmds q' = nr_caravan_cmds q"
proof -
  have n: "tq_nr_iovs q < length (tq_iovs q)"
    using assms by (simp add: tcaravan_ok_def i10_target_is_caravan_full_def)
  let ?q = "q\<lparr>tq_iovs := (tq_iovs q)[tq_nr_iovs q := g], tq_nr_iovs := tq_nr_iovs q + 1,
              tq_caravan_len := tq_caravan_len q + seg_len g\<rparr>"
  have s: "tcaravan_segs ?q = tcaravan_segs q @ [g]"
    using n by (simp add: tcaravan_segs_def take_Suc_conv_app_nth)
  have "tcaravan_ok ?q"
    using assms n s by (simp add: tcaravan_ok_def i10_target_is_caravan_full_def segs_len_def)
  then show ?thesis using n s by (simp add: tcaravan_add_def)
qed

lemma tcaravan_map_ok:
  assumes "tcaravan_ok q" "nr_caravan_mapped q < I10_TARGET_SEND_BUDGET"
  shows "\<exists>q'. tcaravan_map p q = Some q' \<and> tcaravan_ok q' \<and> tcaravan_segs q' = tcaravan_segs q"
  using assms by (simp add: tcaravan_map_def tcaravan_ok_def tcaravan_segs_def)

lemma tcaravan_cmd_ok:
  assumes "tcaravan_ok q" "nr_caravan_cmds q < I10_TARGET_SEND_BUDGET"
  shows "\<exists>q'. tcaravan_cmd c q = Some q' \<and> tcaravan_ok q' \<and> tcaravan_segs q' = tcaravan_segs q"
  using assms by (simp add: tcaravan_cmd_def tcaravan_ok_def tcaravan_segs_def)

lemma tcaravan_ok_upd [simp]:
  "tcaravan_ok (q\<lparr>snd_cmd := a\<rparr>) = tcaravan_ok q"
  "tcaravan_ok (q\<lparr>tq_send_now := b\<rparr>) = tcaravan_ok q"
  "tcaravan_ok (q\<lparr>free_list := fl\<rparr>) = tcaravan_ok q"
  "tcaravan_ok (q\<lparr>resp_send_list := l\<rparr>) = tcaravan_ok q"
  "tcaravan_ok (q\<lparr>resp_list := l\<rparr>) = tcaravan_ok q"
  "tcaravan_ok (q\<lparr>send_list_len := n\<rparr>) = tcaravan_ok q"
  "tcaravan_ok (q\<lparr>tq_nospace := b\<rparr>) = tcaravan_ok q"
  by (simp_all add: tcaravan_ok_def tcaravan_segs_def)

definition tkeep :: "target \<Rightarrow> target \<Rightarrow> bool" where
  "tkeep s s' \<longleftrightarrow> tcaravan_ok (tq s') \<and> (\<forall>c. nvmet_tcp_need_data_in (cmds s' c) = nvmet_tcp_need_data_in (cmds s c))"

lemma tkeep_refl: "tcaravan_ok (tq s) \<Longrightarrow> tkeep s s"
  by (simp add: tkeep_def)

lemma tkeep_trans: "tkeep s t \<Longrightarrow> tkeep t u \<Longrightarrow> tkeep s u"
  by (simp add: tkeep_def)

lemma tkeep_upd_tq: "tkeep s s' \<Longrightarrow> tcaravan_ok (f (tq s')) \<Longrightarrow> tkeep s (upd_tq f s')"
  by (simp add: tkeep_def upd_tq_def)

lemma tkeep_upd_cmd:
  "tkeep s s' \<Longrightarrow> (\<And>x. nvmet_tcp_need_data_in (f x) = nvmet_tcp_need_data_in x) \<Longrightarrow> tkeep s (upd_cmd c f s')"
  by (simp add: tkeep_def upd_cmd_def)

lemma tkeep_ok: "tkeep s s' \<Longrightarrow> tcaravan_ok (tq s')"
  by (simp add: tkeep_def)

lemma need_data_in_upd [simp]:
  "nvmet_tcp_need_data_in (x\<lparr>c_offset := n\<rparr>) = nvmet_tcp_need_data_in x"
  "nvmet_tcp_need_data_in (x\<lparr>c_state := st\<rparr>) = nvmet_tcp_need_data_in x"
  "nvmet_tcp_need_data_in (x\<lparr>wbytes_done := n\<rparr>) = nvmet_tcp_need_data_in x"
  "nvmet_tcp_need_data_in (x\<lparr>cur_sg := l\<rparr>) = nvmet_tcp_need_data_in x"
  "nvmet_tcp_need_data_in (x\<lparr>iov_live := b\<rparr>) = nvmet_tcp_need_data_in x"
  "nvmet_tcp_need_data_in (x\<lparr>data_pdu := dp\<rparr>) = nvmet_tcp_need_data_in x"
  "nvmet_tcp_need_data_in (x\<lparr>r2t_pdu := rp\<rparr>) = nvmet_tcp_need_data_in x"
  "nvmet_tcp_need_data_in (x\<lparr>rsp_pdu := sp\<rparr>) = nvmet_tcp_need_data_in x"
  "nvmet_tcp_need_data_in (x\<lparr>c_exp_ddgst := dg\<rparr>) = nvmet_tcp_need_data_in x"
  by (simp_all add: nvmet_tcp_need_data_in_def nvmet_tcp_has_data_in_def)

lemma tkeep_other:
  "tkeep s s' \<Longrightarrow> tkeep s (s'\<lparr>tsock_pos := n\<rparr>)" "tkeep s s' \<Longrightarrow> tkeep s (s'\<lparr>twire := w\<rparr>)"
  "tkeep s s' \<Longrightarrow> tkeep s (s'\<lparr>freed := l\<rparr>)"
  by (simp_all add: tkeep_def)

lemma tdo_sendpage_keep: "tdo_sendpage e g s = (r, s1) \<Longrightarrow> tcaravan_ok (tq s) \<Longrightarrow> tkeep s s1"
  by (auto simp: tdo_sendpage_def Let_def tkeep_def split: rc.splits if_splits)

lemma tdo_sendmsg_keep: "tdo_sendmsg e gs n s = (r, s1) \<Longrightarrow> tcaravan_ok (tq s) \<Longrightarrow> tkeep s s1"
  by (auto simp: tdo_sendmsg_def Let_def tkeep_def split: rc.splits if_splits)

text \<open>A result that is there and keeps.\<close>

definition tdef :: "target \<Rightarrow> ('a \<times> target) option \<Rightarrow> bool" where
  "tdef s x \<longleftrightarrow> (\<exists>r s'. x = Some (r, s') \<and> tkeep s s')"

lemma tdefI: "x = Some (r, s') \<Longrightarrow> tkeep s s' \<Longrightarrow> tdef s x"
  by (auto simp: tdef_def)

lemma tdefE: "tdef s x \<Longrightarrow> (\<And>r s'. x = Some (r, s') \<Longrightarrow> tkeep s s' \<Longrightarrow> P) \<Longrightarrow> P"
  by (auto simp: tdef_def)

lemma tdef_Some [simp]: "tdef s (Some (r, s')) \<longleftrightarrow> tkeep s s'"
  by (auto simp: tdef_def)

lemma tsend_piece_total:
  assumes ok: "tcaravan_ok (tq s)"
  shows "tdef s (tsend_piece e gc gd page s)"
proof (cases "aggregating e (tq s) \<and> \<not> i10_target_is_caravan_full (tq s)")
  case True
  then have room: "nr_caravan_mapped (tq s) < I10_TARGET_SEND_BUDGET" by (simp add: i10_target_is_caravan_full_def)
  obtain q1 where q1: "tcaravan_add gc (tq s) = Some q1" "tcaravan_ok q1" "nr_caravan_mapped q1 = nr_caravan_mapped (tq s)"
    using tcaravan_add_ok [OF ok, of gc] True by auto
  have "\<exists>q2. (case page of None \<Rightarrow> Some q1 | Some p \<Rightarrow> tcaravan_map p q1) = Some q2 \<and> tcaravan_ok q2"
    using tcaravan_map_ok [OF q1(2)] q1 room by (cases page) auto
  then obtain q2 where q2: "(case page of None \<Rightarrow> Some q1 | Some p \<Rightarrow> tcaravan_map p q1) = Some q2" "tcaravan_ok q2"
    by blast
  have "tsend_piece e gc gd page s = Some (Some (Ret (seg_len gc)), s\<lparr>tq := q2\<rparr>)"
    using True q1(1) q2(1) by (simp add: tsend_piece_def)
  then show ?thesis using q2(2) by (simp add: tkeep_def)
next
  case False
  then show ?thesis
    using tdo_sendpage_keep [OF _ ok] tkeep_upd_tq [OF tkeep_refl [OF ok]] ok
    by (auto simp: tsend_piece_def Let_def split: prod.split)
qed

lemma put_cmd_keep: "tkeep s s' \<Longrightarrow> tkeep s (nvmet_tcp_put_cmd c s')"
  by (auto simp: nvmet_tcp_put_cmd_def intro!: tkeep_upd_tq dest: tkeep_ok)

lemma free_cmd_data_keep: "tkeep s s' \<Longrightarrow> tkeep s (free_cmd_data c s')"
  by (auto simp: free_cmd_data_def intro!: tkeep_upd_cmd tkeep_other)

lemma setup_keep:
  "tkeep s s' \<Longrightarrow> tkeep s (nvmet_setup_c2h_data_pdu e c s')"
  "tkeep s s' \<Longrightarrow> tkeep s (nvmet_setup_response_pdu e c s')"
  by (auto simp: nvmet_setup_c2h_data_pdu_def nvmet_setup_response_pdu_def nvmet_tcp_ddgst_def Let_def intro!: tkeep_upd_cmd)

lemma snd_none_keep: "tkeep s s' \<Longrightarrow> tkeep s (upd_tq (\<lambda>q. q\<lparr>snd_cmd := a\<rparr>) s')"
  by (auto intro!: tkeep_upd_tq dest: tkeep_ok)

lemma send_now_keep: "tkeep s s' \<Longrightarrow> tkeep s (upd_tq (\<lambda>q. q\<lparr>tq_send_now := a\<rparr>) s')"
  by (auto intro!: tkeep_upd_tq dest: tkeep_ok)

lemma offset_keep: "tkeep s s' \<Longrightarrow> tkeep s (upd_cmd c (\<lambda>x. x\<lparr>c_offset := c_offset x + n\<rparr>) s')"
  by (auto intro!: tkeep_upd_cmd)

lemmas tkeep_intros = put_cmd_keep free_cmd_data_keep setup_keep snd_none_keep send_now_keep offset_keep

text \<open>How the senders use a piece.\<close>

lemma tdef_piece:
  assumes ok: "tcaravan_ok (tq s)"
    and "\<And>s1. tkeep s s1 \<Longrightarrow> tdef s (A s1)" "\<And>x s1. tkeep s s1 \<Longrightarrow> tdef s (B x s1)" "\<And>n s1. tkeep s s1 \<Longrightarrow> tdef s (C n s1)"
  shows "tdef s (case tsend_piece e gc gd page s of
      None \<Rightarrow> None
    | Some (None, s1) \<Rightarrow> A s1
    | Some (Some (Err x), s1) \<Rightarrow> B x s1
    | Some (Some (Ret n), s1) \<Rightarrow> C n s1)"
proof -
  obtain ro s1 where "tsend_piece e gc gd page s = Some (ro, s1)" "tkeep s s1"
    using tsend_piece_total [OF ok] by (rule tdefE)
  then show ?thesis using assms(2-) by (simp split: option.split rc.split)
qed

lemma try_send_data_pdu_total: "tcaravan_ok (tq s) \<Longrightarrow> tdef s (nvmet_try_send_data_pdu e c s)"
  unfolding nvmet_try_send_data_pdu_def Let_def
  by (rule tdef_piece) (auto intro!: offset_keep tkeep_upd_cmd)

lemma try_send_r2t_total: "tcaravan_ok (tq s) \<Longrightarrow> tdef s (nvmet_try_send_r2t e c s)"
  unfolding nvmet_try_send_r2t_def Let_def
  by (rule tdef_piece) (auto intro!: offset_keep snd_none_keep)

lemma sg_advance_need [simp]: "nvmet_tcp_need_data_in (sg_advance n x) = nvmet_tcp_need_data_in x"
  by (auto simp: sg_advance_def Let_def split: list.split)

lemma send_sg_loop_total: "tcaravan_ok (tq s) \<Longrightarrow> tdef s (send_sg_loop e c s)"
proof (induction e c s rule: send_sg_loop.induct)
  case (1 e c s)
  show ?case
  proof (cases "cur_sg (cmds s c)")
    case Nil
    then show ?thesis using 1(2) by (simp add: send_sg_loop.simps tkeep_refl)
  next
    case (Cons g gs)
    define piece where "piece = \<lparr>seg_mem = Sg_page (sg_page g), seg_off = c_offset (cmds s c), seg_len = sg_length g - c_offset (cmds s c)\<rparr>"
    obtain ro s1 where p: "tsend_piece e piece piece (Some (sg_page g)) s = Some (ro, s1)" "tkeep s s1"
      using tsend_piece_total [OF 1(2)] by (rule tdefE)
    show ?thesis
    proof (cases "\<exists>n. ro = Some (Ret (Suc n))")
      case True
      then obtain n where ro: "ro = Some (Ret (Suc n))" by blast
      have k: "tkeep s (upd_cmd c (sg_advance (Suc n)) s1)" by (rule tkeep_upd_cmd [OF p(2)]) simp
      have "tdef (upd_cmd c (sg_advance (Suc n)) s1) (send_sg_loop e c (upd_cmd c (sg_advance (Suc n)) s1))"
        using 1(1) [OF Cons refl refl piece_def p(1) refl ro refl refl] tkeep_ok [OF k] by simp
      then show ?thesis
        using Cons p(1) ro k by (auto simp: send_sg_loop.simps [of e c s] piece_def [symmetric] Let_def tdef_def intro: tkeep_trans)
    next
      case False
      then show ?thesis using Cons p
        by (cases ro) (auto simp: send_sg_loop.simps [of e c s] piece_def [symmetric] Let_def split: rc.split nat.split)
    qed
  qed
qed

lemma try_send_data_total:
  assumes ok: "tcaravan_ok (tq s)"
  shows "tdef s (nvmet_try_send_data e c s)"
proof -
  obtain ro s1 where p: "send_sg_loop e c s = Some (ro, s1)" "tkeep s s1"
    using send_sg_loop_total [OF ok] by (rule tdefE)
  show ?thesis
    using p by (auto simp: nvmet_try_send_data_def Let_def split: option.split intro!: tkeep_intros tkeep_upd_cmd)
qed

lemma try_send_response_total:
  assumes ok: "tcaravan_ok (tq s)"
  shows "tdef s (nvmet_try_send_response e c s)"
proof (cases "aggregating e (tq s)")
  case False
  obtain r s1 where p: "tdo_sendpage e \<lparr>seg_mem = Rsp_pdu c, seg_off = c_offset (cmds s c),
      seg_len = tsizeof_rsp_pdu e + nvmet_tcp_hdgst_len e (tq s) - c_offset (cmds s c)\<rparr> s = (r, s1)" by fastforce
  note k = tdo_sendpage_keep [OF p ok]
  show ?thesis
    using False p k by (auto simp: nvmet_try_send_response_def Let_def split: rc.split intro!: tkeep_intros)
next
  case True
  define g where "g = \<lparr>seg_mem = Rsp_pdu c, seg_off = tsizeof_rsp_pdu e * c_offset (cmds s c),
      seg_len = tsizeof_rsp_pdu e + nvmet_tcp_hdgst_len e (tq s) - c_offset (cmds s c)\<rparr>"
  show ?thesis
  proof (cases "i10_target_is_caravan_full (tq s)")
    case full: True
    then show ?thesis using True ok by (simp add: nvmet_try_send_response_def send_now_keep tkeep_refl)
  next
    case room: False
    obtain q1 where q1: "tcaravan_add g (tq s) = Some q1" "tcaravan_ok q1" "nr_caravan_cmds q1 = nr_caravan_cmds (tq s)"
      using tcaravan_add_ok [OF ok room, of g] by auto
    then have "nr_caravan_cmds q1 < I10_TARGET_SEND_BUDGET" using room by (simp add: i10_target_is_caravan_full_def)
    then obtain q2 where q2: "tcaravan_cmd c q1 = Some q2" "tcaravan_ok q2"
      using tcaravan_cmd_ok [OF q1(2), of c] by auto
    have "tkeep s (s\<lparr>tq := q2\<lparr>snd_cmd := None\<rparr>\<rparr>)" using q2(2) by (simp add: tkeep_def)
    then show ?thesis
      using True room q1(1) q2(1) by (auto simp: nvmet_try_send_response_def Let_def g_def intro!: tkeep_upd_cmd)
  qed
qed

lemma try_send_ddgst_total:
  assumes ok: "tcaravan_ok (tq s)"
  shows "tdef s (Some (nvmet_try_send_ddgst e c s))"
proof -
  obtain r s1 where p: "tdo_sendmsg e [\<lparr>seg_mem = Exp_ddgst c, seg_off = 4 * c_offset (cmds s c), seg_len = TDIGEST_LENGTH e - c_offset (cmds s c)\<rparr>]
      (TDIGEST_LENGTH e - c_offset (cmds s c)) s = (r, s1)" by fastforce
  note k = tdo_sendmsg_keep [OF p ok]
  show ?thesis using p k by (auto simp: nvmet_try_send_ddgst_def Let_def split: rc.split intro!: tkeep_intros)
qed

lemma send_if_total:
  assumes "\<And>s. tcaravan_ok (tq s) \<Longrightarrow> tdef s (f s)" "\<And>ret s. tcaravan_ok (tq s) \<Longrightarrow> tdef s (k ret s)" "tcaravan_ok (tq s)"
  shows "tdef s (send_if st c f k ret s)"
proof -
  obtain r s1 where p: "f s = Some (r, s1)" "tkeep s s1" using assms(1) [OF assms(3)] by (rule tdefE)
  have "tdef s (k r s1)"
    using assms(2) [OF tkeep_ok [OF p(2)], of r] p(2) by (auto simp: tdef_def intro: tkeep_trans)
  then show ?thesis using p assms(2) [OF assms(3)] by (simp add: send_if_def)
qed

lemma send_states_total: "tcaravan_ok (tq s) \<Longrightarrow> tdef s (send_states e c s)"
  unfolding send_states_def
  by (intro send_if_total try_send_data_pdu_total try_send_data_total try_send_ddgst_total try_send_r2t_total
      try_send_response_total) (simp_all add: tkeep_refl)

text \<open>The connect command has no tag: it must not ask for data.\<close>

definition connect_quiet :: "target \<Rightarrow> bool" where
  "connect_quiet s \<longleftrightarrow> \<not> nvmet_tcp_need_data_in (cmds s Connect)"

lemma connect_quiet_keep: "tkeep s s' \<Longrightarrow> connect_quiet s \<Longrightarrow> connect_quiet s'"
  by (simp add: connect_quiet_def tkeep_def)

lemma setup_r2t_total:
  assumes "tcaravan_ok (tq s)" "c \<noteq> Connect"
  shows "\<exists>s'. nvmet_setup_r2t_pdu e c s = Some s' \<and> tkeep s s'"
  using assms by (cases c) (auto simp: nvmet_setup_r2t_pdu_def Let_def intro!: tkeep_upd_cmd tkeep_refl)

lemma fetch_setup_total:
  assumes "tcaravan_ok (tq s)" "connect_quiet s"
  shows "\<exists>s'. fetch_setup e c s = Some s' \<and> tkeep s s'"
  using assms setup_r2t_total [OF assms(1), of c e]
  by (auto simp: fetch_setup_def connect_quiet_def intro!: setup_keep tkeep_refl)

lemma process_resp_list_keep: "tcaravan_ok (tq s) \<Longrightarrow> tkeep s (nvmet_tcp_process_resp_list s)"
  by (auto simp: nvmet_tcp_process_resp_list_def intro!: tkeep_upd_tq tkeep_refl)

lemma fetch_cmd_total:
  assumes ok: "tcaravan_ok (tq s)" and cq: "connect_quiet s"
  shows "tdef s (nvmet_tcp_fetch_cmd e s)"
proof -
  define s1 where "s1 = (if resp_send_list (tq s) = [] then nvmet_tcp_process_resp_list s else s)"
  have k1: "tkeep s s1" using ok by (simp add: s1_def process_resp_list_keep tkeep_refl)
  show ?thesis
  proof (cases "resp_send_list (tq s1)")
    case Nil
    then show ?thesis using k1 by (simp add: nvmet_tcp_fetch_cmd_def Let_def s1_def [symmetric] snd_none_keep)
  next
    case (Cons c l)
    define s2 where "s2 = upd_tq (\<lambda>q. q\<lparr>snd_cmd := Some c, resp_send_list := l, send_list_len := send_list_len q - 1\<rparr>) s1"
    have k2: "tkeep s s2" using k1 by (auto simp: s2_def intro!: tkeep_upd_tq dest: tkeep_ok)
    obtain s3 where s3: "fetch_setup e c s2 = Some s3" "tkeep s2 s3"
      using fetch_setup_total [OF tkeep_ok [OF k2] connect_quiet_keep [OF k2 cq]] by blast
    have "nvmet_tcp_fetch_cmd e s = Some (Some c, s3)"
      using Cons s3(1) by (simp add: nvmet_tcp_fetch_cmd_def Let_def s1_def [symmetric] s2_def [symmetric])
    then show ?thesis using tkeep_trans [OF k2 s3(2)] by simp
  qed
qed

lemma try_send_one_total:
  assumes ok: "tcaravan_ok (tq s)" and cq: "connect_quiet s"
  shows "tdef s (nvmet_tcp_try_send_one e s)"
proof -
  define x where "x = (if snd_cmd (tq s) = None \<or> tq_state (tq s) = NVMET_TCP_Q_DISCONNECTING
                       then nvmet_tcp_fetch_cmd e s else Some (snd_cmd (tq s), s))"
  have "tdef s x" using fetch_cmd_total [OF ok cq] ok by (simp add: x_def tkeep_refl)
  then obtain co s1 where x: "x = Some (co, s1)" and k: "tkeep s s1" by (rule tdefE)
  show ?thesis
  proof (cases co)
    case None
    then show ?thesis using x k by (simp add: nvmet_tcp_try_send_one_def x_def [symmetric])
  next
    case (Some c)
    obtain r s2 where "send_states e c s1 = Some (r, s2)" "tkeep s1 s2"
      using send_states_total [OF tkeep_ok [OF k]] by (rule tdefE)
    then show ?thesis using Some x tkeep_trans [OF k] by (simp add: nvmet_tcp_try_send_one_def x_def [symmetric])
  qed
qed

lemma release_keep:
  "tkeep s s' \<Longrightarrow> tkeep s (fold (\<lambda>c x. nvmet_tcp_put_cmd c (free_cmd_data c x)) cs s')"
  by (induction cs arbitrary: s') (simp_all add: put_cmd_keep free_cmd_data_keep)

lemma send_tcaravan_keep:
  assumes ok: "tcaravan_ok (tq s)"
  shows "tkeep s (snd (send_tcaravan e s))"
proof -
  define s0 where "s0 = s\<lparr>tsock_pos := Suc (tsock_pos s)\<rparr>"
  have k0: "tkeep s s0" using ok by (simp add: s0_def tkeep_def)
  obtain r s1 where p: "tdo_sendmsg e (tcaravan_segs (tq s)) (tq_caravan_len (tq s)) s0 = (r, s1)" by fastforce
  have k1: "tkeep s s1" by (rule tkeep_trans [OF k0 tdo_sendmsg_keep [OF p tkeep_ok [OF k0]]])
  have empty: "tcaravan_ok (q\<lparr>tq_nr_iovs := 0, nr_caravan_cmds := 0, nr_caravan_mapped := 0, tq_caravan_len := 0,
                               tq_send_now := False\<rparr>)" if "tcaravan_ok q" for q
    using that by (simp add: tcaravan_ok_def tcaravan_segs_def)
  show ?thesis
    using k0 p release_keep [OF k1]
    by (auto simp: send_tcaravan_def Let_def s0_def [symmetric] intro!: tkeep_upd_tq empty dest: tkeep_ok)
qed

lemma try_send_loop_total:
  "tcaravan_ok (tq s) \<Longrightarrow> connect_quiet s \<Longrightarrow>
   \<exists>r n s'. try_send_loop e k sends ret s = Some (r, n, s') \<and> tkeep s s'"
proof (induction k arbitrary: sends ret s)
  case 0
  then show ?case by (simp add: tkeep_refl)
next
  case (Suc k)
  obtain r1 s1 where one: "nvmet_tcp_try_send_one e s = Some (r1, s1)" "tkeep s s1"
    using try_send_one_total [OF Suc.prems] by (rule tdefE)
  obtain stop s2 where c: "(if nvmet_tcp_aggr e \<and> tq_caravan_len (tq s1) \<noteq> 0 \<and> (tq_send_now (tq s1) \<or> \<not> rc_pos r1 \<or> k = 0)
                       then send_tcaravan e s1 else (False, s1)) = (stop, s2)" by fastforce
  have "tkeep s1 s2"
    using c send_tcaravan_keep [OF tkeep_ok [OF one(2)], of e] tkeep_refl [OF tkeep_ok [OF one(2)]]
    by (auto split: if_split_asm)
  then have k2: "tkeep s s2" by (rule tkeep_trans [OF one(2)])
  obtain r n s' where "try_send_loop e k (Suc sends) r1 s2 = Some (r, n, s')" "tkeep s2 s'"
    using Suc.IH [OF tkeep_ok [OF k2] connect_quiet_keep [OF k2 Suc.prems(2)]] by blast
  then show ?case using one(1) c k2 tkeep_trans [OF k2] by simp
qed

section \<open>What goes into a caravan\<close>

text \<open>A caravan that has grown by some pieces.\<close>

definition tgrow :: "tseg list \<Rightarrow> nat \<Rightarrow> nvmet_tcp_queue \<Rightarrow> nvmet_tcp_queue \<Rightarrow> bool" where
  "tgrow gs n q q' \<longleftrightarrow> tcaravan_ok q' \<and> tcaravan_segs q' = tcaravan_segs q @ gs \<and>
     (\<exists>a m. q' = q\<lparr>tq_iovs := a, tq_nr_iovs := tq_nr_iovs q + length gs, tq_caravan_len := tq_caravan_len q + segs_len gs,
                 tq_mapped := m, nr_caravan_mapped := nr_caravan_mapped q + n\<rparr>)"

lemma tgrow_refl: "tcaravan_ok q \<Longrightarrow> tgrow [] 0 q q"
  unfolding tgrow_def by (rule conjI, assumption, rule conjI, simp, rule exI [of _ "tq_iovs q"], rule exI [of _ "tq_mapped q"]) simp

lemma tgrow_trans: "tgrow gs n q q1 \<Longrightarrow> tgrow hs m q1 q2 \<Longrightarrow> tgrow (gs @ hs) (n + m) q q2"
  unfolding tgrow_def by (elim conjE exE) (simp add: add.assoc, blast)

lemma tgrowD:
  assumes "tgrow gs n q q'"
  shows "tcaravan_ok q'" "tcaravan_segs q' = tcaravan_segs q @ gs" "tq_nr_iovs q' = tq_nr_iovs q + length gs"
    "tq_caravan_len q' = tq_caravan_len q + segs_len gs" "nr_caravan_mapped q' = nr_caravan_mapped q + n"
    "nr_caravan_cmds q' = nr_caravan_cmds q" "caravan_cmds q' = caravan_cmds q" "aggregating e q' = aggregating e q"
    "tq_hdr_digest q' = tq_hdr_digest q" "tq_data_digest q' = tq_data_digest q" "sqhd_disabled q' = sqhd_disabled q"
    "snd_cmd q' = snd_cmd q" "free_list q' = free_list q" "nvmet_tcp_hdgst_len e q' = nvmet_tcp_hdgst_len e q"
  using assms by (auto simp: tgrow_def aggregating_def i10_target_is_admin_queue_def nvmet_tcp_hdgst_len_def)

lemma tsend_piece_room:
  assumes ok: "tcaravan_ok (tq s)" and "aggregating e (tq s)" "\<not> i10_target_is_caravan_full (tq s)"
  shows "\<exists>q'. tsend_piece e gc gd page s = Some (Some (Ret (seg_len gc)), s\<lparr>tq := q'\<rparr>) \<and>
           tgrow [gc] (if page = None then 0 else 1) (tq s) q'"
proof -
  have n: "tq_nr_iovs (tq s) < length (tq_iovs (tq s))" "nr_caravan_mapped (tq s) < length (tq_mapped (tq s))"
    using assms by (simp_all add: tcaravan_ok_def i10_target_is_caravan_full_def)
  define q1 where "q1 = (tq s)\<lparr>tq_iovs := (tq_iovs (tq s))[tq_nr_iovs (tq s) := gc], tq_nr_iovs := tq_nr_iovs (tq s) + 1,
      tq_caravan_len := tq_caravan_len (tq s) + seg_len gc\<rparr>"
  have a: "tcaravan_add gc (tq s) = Some q1" using n(1) by (simp add: tcaravan_add_def q1_def)
  then have q1: "tcaravan_ok q1" "tcaravan_segs q1 = tcaravan_segs (tq s) @ [gc]"
    using tcaravan_add_ok [OF ok assms(3), of gc] by auto
  show ?thesis
  proof (cases page)
    case None
    have "tgrow [gc] 0 (tq s) q1"
      unfolding tgrow_def using q1
      by (intro conjI exI [of _ "(tq_iovs (tq s))[tq_nr_iovs (tq s) := gc]"] exI [of _ "tq_mapped (tq s)"])
        (simp_all add: q1_def segs_len_def)
    then show ?thesis using None a assms(2,3) by (auto simp: tsend_piece_def)
  next
    case (Some p)
    define q2 where "q2 = q1\<lparr>tq_mapped := (tq_mapped (tq s))[nr_caravan_mapped (tq s) := p], nr_caravan_mapped := nr_caravan_mapped (tq s) + 1\<rparr>"
    have m: "tcaravan_map p q1 = Some q2" using n(2) by (simp add: tcaravan_map_def q2_def q1_def)
    have "nr_caravan_mapped q1 < I10_TARGET_SEND_BUDGET" using assms(3) by (simp add: q1_def i10_target_is_caravan_full_def)
    then have q2: "tcaravan_ok q2" "tcaravan_segs q2 = tcaravan_segs (tq s) @ [gc]"
      using tcaravan_map_ok [OF q1(1), of p] m q1(2) by auto
    have "tgrow [gc] 1 (tq s) q2"
      unfolding tgrow_def using q2
      by (intro conjI exI [of _ "(tq_iovs (tq s))[tq_nr_iovs (tq s) := gc]"] exI [of _ "(tq_mapped (tq s))[nr_caravan_mapped (tq s) := p]"])
        (simp_all add: q2_def q1_def segs_len_def)
    then show ?thesis using Some a m assms(2,3) by (auto simp: tsend_piece_def)
  qed
qed

text \<open>Room for more pieces, of which some map a page, with a number of bytes.\<close>

definition troom :: "nat \<Rightarrow> nat \<Rightarrow> nat \<Rightarrow> nvmet_tcp_queue \<Rightarrow> bool" where
  "troom n k bytes q \<longleftrightarrow> tq_caravan_len q + bytes < I10_TARGET_CARAVAN_CAPACITY \<and> tq_nr_iovs q + n \<le> I10_TARGET_SEND_BUDGET * 3 \<and>
     nr_caravan_cmds q < I10_TARGET_SEND_BUDGET \<and> nr_caravan_mapped q + k < I10_TARGET_SEND_BUDGET"

lemma troom_not_full: "troom (Suc n) k bytes q \<Longrightarrow> \<not> i10_target_is_caravan_full q"
  by (simp add: troom_def i10_target_is_caravan_full_def)

lemma troom_grow: "tgrow gs m q q' \<Longrightarrow> troom (length gs + n) (m + k) (segs_len gs + bytes) q \<Longrightarrow> troom n k bytes q'"
  by (simp add: troom_def tgrowD)

definition sg_seg :: "sg_ent \<Rightarrow> tseg" where
  "sg_seg g = \<lparr>seg_mem = Sg_page (sg_page g), seg_off = 0, seg_len = sg_length g\<rparr>"

definition sg_done :: "nat \<Rightarrow> nvmet_tcp_cmd \<Rightarrow> nvmet_tcp_cmd" where
  "sg_done n x = x\<lparr>cur_sg := [], c_offset := 0, wbytes_done := wbytes_done x + n\<rparr>"

lemma send_sg_loop_room:
  "cur_sg (cmds s c) = gs \<Longrightarrow> c_offset (cmds s c) = 0 \<Longrightarrow> list_all (\<lambda>g. 0 < sg_length g) gs \<Longrightarrow> tcaravan_ok (tq s) \<Longrightarrow>
   aggregating e (tq s) \<Longrightarrow> troom (length gs) (length gs) (segs_len (map sg_seg gs)) (tq s) \<Longrightarrow>
   \<exists>q'. send_sg_loop e c s = Some (None, (upd_cmd c (sg_done (segs_len (map sg_seg gs))) s)\<lparr>tq := q'\<rparr>) \<and>
        tgrow (map sg_seg gs) (length gs) (tq s) q'"
proof (induction gs arbitrary: s)
  case Nil
  have "sg_done 0 (cmds s c) = cmds s c" using Nil by (cases "cmds s c") (simp add: sg_done_def)
  then have "(upd_cmd c (sg_done 0) s)\<lparr>tq := tq s\<rparr> = s" by (cases s) (simp add: upd_cmd_def)
  then have "send_sg_loop e c s = Some (None, (upd_cmd c (sg_done 0) s)\<lparr>tq := tq s\<rparr>)"
    using Nil(1) by (simp add: send_sg_loop.simps)
  then show ?case using tgrow_refl [OF Nil(4)] by auto
next
  case (Cons g gs)
  have nf: "\<not> i10_target_is_caravan_full (tq s)" using Cons.prems(6) by (simp add: troom_not_full)
  obtain q1 where q1: "tsend_piece e (sg_seg g) (sg_seg g) (Some (sg_page g)) s = Some (Some (Ret (sg_length g)), s\<lparr>tq := q1\<rparr>)"
      "tgrow [sg_seg g] 1 (tq s) q1"
    using tsend_piece_room [OF Cons.prems(4,5) nf, of "sg_seg g" "sg_seg g" "Some (sg_page g)"] by (auto simp: sg_seg_def)
  obtain n where n: "sg_length g = Suc n" using Cons.prems(3) by (cases "sg_length g") auto
  define s1 where "s1 = upd_cmd c (sg_advance (sg_length g)) (s\<lparr>tq := q1\<rparr>)"
  have loop: "send_sg_loop e c s = send_sg_loop e c s1"
    using Cons.prems(1,2) q1(1) [unfolded sg_seg_def] n by (simp add: send_sg_loop.simps [of e c s] Let_def s1_def)
  have x1: "cmds s1 c = (cmds s c)\<lparr>cur_sg := gs, c_offset := 0, wbytes_done := wbytes_done (cmds s c) + sg_length g\<rparr>"
    using Cons.prems(1,2) by (simp add: s1_def upd_cmd_def sg_advance_def)
  have tq1: "tq s1 = q1" by (simp add: s1_def upd_cmd_def)
  have r: "troom (length gs) (length gs) (segs_len (map sg_seg gs)) q1"
    by (rule troom_grow [OF q1(2)]) (use Cons.prems(6) in \<open>simp add: segs_len_def\<close>)
  obtain q' where q': "send_sg_loop e c s1 = Some (None, (upd_cmd c (sg_done (segs_len (map sg_seg gs))) s1)\<lparr>tq := q'\<rparr>)"
      "tgrow (map sg_seg gs) (length gs) q1 q'"
    using Cons.IH [of s1] x1 tq1 r Cons.prems(3,5) tgrowD(1,8) [OF q1(2)] by auto
  have "(upd_cmd c (sg_done (segs_len (map sg_seg gs))) s1)\<lparr>tq := q'\<rparr> = (upd_cmd c (sg_done (segs_len (map sg_seg (g # gs)))) s)\<lparr>tq := q'\<rparr>"
    using Cons.prems(1,2) by (simp add: s1_def upd_cmd_def sg_done_def sg_advance_def segs_len_def sg_seg_def add.assoc)
  then show ?case using loop q' tgrow_trans [OF q1(2) q'(2)] by (auto simp: add.commute)
qed

definition data_hdr_seg :: "tenv \<Rightarrow> nvmet_tcp_queue \<Rightarrow> cmd_ref \<Rightarrow> tseg" where
  "data_hdr_seg e q c = \<lparr>seg_mem = Data_pdu c, seg_off = 0, seg_len = tsizeof_data_pdu e + nvmet_tcp_hdgst_len e q\<rparr>"

definition rsp_seg :: "tenv \<Rightarrow> nvmet_tcp_queue \<Rightarrow> cmd_ref \<Rightarrow> tseg" where
  "rsp_seg e q c = \<lparr>seg_mem = Rsp_pdu c, seg_off = 0, seg_len = tsizeof_rsp_pdu e + nvmet_tcp_hdgst_len e q\<rparr>"

lemma upd_cmd_tq: "upd_cmd c f (s\<lparr>tq := q\<rparr>) = (upd_cmd c f s)\<lparr>tq := q\<rparr>"
  by (simp add: upd_cmd_def)

lemma cmds_upd_cmd [simp]: "cmds (upd_cmd c f s) c = f (cmds s c)"
  by (simp add: upd_cmd_def)

lemma tq_upd [simp]: "tq (upd_cmd c f s) = tq s" "tq (upd_tq g s) = g (tq s)" "cmds (upd_tq g s) = cmds s"
  by (simp_all add: upd_cmd_def upd_tq_def)

lemma send_data_pdu_room:
  assumes "tcaravan_ok (tq s)" "aggregating e (tq s)" "\<not> i10_target_is_caravan_full (tq s)" "c_offset (cmds s c) = 0" "0 < tsizeof_data_pdu e"
  shows "\<exists>q'. nvmet_try_send_data_pdu e c s =
           Some (Ret 1, (upd_cmd c (\<lambda>x. x\<lparr>c_state := NVMET_TCP_SEND_DATA, c_offset := 0\<rparr>) s)\<lparr>tq := q'\<rparr>) \<and>
           tgrow [data_hdr_seg e (tq s) c] 0 (tq s) q'"
  using tsend_piece_room [OF assms(1-3), of "data_hdr_seg e (tq s) c" "data_hdr_seg e (tq s) c" None] assms(4,5)
  by (auto simp: nvmet_try_send_data_pdu_def Let_def data_hdr_seg_def upd_cmd_tq)

lemma send_response_room:
  assumes ok: "tcaravan_ok (tq s)" and "aggregating e (tq s)" "\<not> i10_target_is_caravan_full (tq s)" "c_offset (cmds s c) = 0"
  shows "\<exists>s'. nvmet_try_send_response e c s = Some (Ret 1, s') \<and> tcaravan_segs (tq s') = tcaravan_segs (tq s) @ [rsp_seg e (tq s) c] \<and>
           tcaravan_ok (tq s') \<and> take (nr_caravan_cmds (tq s')) (caravan_cmds (tq s')) = take (nr_caravan_cmds (tq s)) (caravan_cmds (tq s)) @ [c] \<and>
           snd_cmd (tq s') = None \<and> freed s' = freed s \<and> twire s' = twire s \<and>
           wbytes_done (cmds s' c) = wbytes_done (cmds s c) \<and> data_pdu (cmds s' c) = data_pdu (cmds s c)"
proof -
  have g: "\<lparr>seg_mem = Rsp_pdu c, seg_off = tsizeof_rsp_pdu e * 0, seg_len = tsizeof_rsp_pdu e + nvmet_tcp_hdgst_len e (tq s) - 0\<rparr> = rsp_seg e (tq s) c"
    by (simp add: rsp_seg_def)
  obtain q1 where q1: "tcaravan_add (rsp_seg e (tq s) c) (tq s) = Some q1" "tcaravan_ok q1"
      "tcaravan_segs q1 = tcaravan_segs (tq s) @ [rsp_seg e (tq s) c]" "nr_caravan_cmds q1 = nr_caravan_cmds (tq s)"
    using tcaravan_add_ok [OF ok assms(3), of "rsp_seg e (tq s) c"] by auto
  have cc: "caravan_cmds q1 = caravan_cmds (tq s)"
    using q1(1) by (auto simp: tcaravan_add_def split: if_splits)
  have n: "nr_caravan_cmds (tq s) < I10_TARGET_SEND_BUDGET" "length (caravan_cmds (tq s)) = I10_TARGET_SEND_BUDGET"
    using assms(3) ok by (simp_all add: i10_target_is_caravan_full_def tcaravan_ok_def)
  obtain q2 where q2: "tcaravan_cmd c q1 = Some q2" "tcaravan_ok q2" "tcaravan_segs q2 = tcaravan_segs q1"
    using tcaravan_cmd_ok [OF q1(2), of c] q1(4) n by auto
  have t: "take (nr_caravan_cmds q2) (caravan_cmds q2) = take (nr_caravan_cmds (tq s)) (caravan_cmds (tq s)) @ [c]"
    using q2(1) q1(4) cc n by (auto simp: tcaravan_cmd_def take_Suc_conv_app_nth)
  have e: "nvmet_try_send_response e c s =
      Some (Ret 1, upd_cmd c (\<lambda>x. x\<lparr>c_offset := c_offset x + (tsizeof_rsp_pdu e + nvmet_tcp_hdgst_len e (tq s) - 0)\<rparr>) (s\<lparr>tq := q2\<lparr>snd_cmd := None\<rparr>\<rparr>))"
    using assms(2-4) q1(1) q2(1) by (simp add: nvmet_try_send_response_def Let_def rsp_seg_def)
  have f: "tcaravan_segs (q2\<lparr>snd_cmd := None\<rparr>) = tcaravan_segs q2" by (simp add: tcaravan_segs_def)
  show ?thesis unfolding e using q1(3) q2 t f by (simp add: upd_cmd_def)
qed

text \<open>The command that is fetched for sending its data.\<close>

definition reading :: "tenv \<Rightarrow> cmd_ref \<Rightarrow> target \<Rightarrow> bool" where
  "reading e c s \<longleftrightarrow>
     tcaravan_ok (tq s) \<and> aggregating e (tq s) \<and> snd_cmd (tq s) = None \<and> (\<exists>l. resp_send_list (tq s) = c # l) \<and>
     nvmet_tcp_need_data_out (cmds s c) \<and> \<not> tq_data_digest (tq s) \<and> 0 < tsizeof_data_pdu e \<and>
     list_all (\<lambda>g. 0 < sg_length g) (cur_sg (cmds s c)) \<and> segs_len (map sg_seg (cur_sg (cmds s c))) = transfer_len (cmds s c) \<and>
     troom (length (cur_sg (cmds s c)) + 2) (length (cur_sg (cmds s c)))
       (tsizeof_data_pdu e + nvmet_tcp_hdgst_len e (tq s) + transfer_len (cmds s c)) (tq s)"

text \<open>After the header and the data have been put into the caravan.\<close>

definition data_queued :: "tenv \<Rightarrow> cmd_ref \<Rightarrow> target \<Rightarrow> target \<Rightarrow> bool" where
  "data_queued e c s t \<longleftrightarrow>
     tcaravan_ok (tq t) \<and> aggregating e (tq t) \<and> \<not> i10_target_is_caravan_full (tq t) \<and>
     tcaravan_segs (tq t) = tcaravan_segs (tq s) @ data_hdr_seg e (tq s) c # map sg_seg (cur_sg (cmds s c)) \<and>
     take (nr_caravan_cmds (tq t)) (caravan_cmds (tq t)) = take (nr_caravan_cmds (tq s)) (caravan_cmds (tq s)) \<and>
     snd_cmd (tq t) = Some c \<and> free_list (tq t) = free_list (tq s) \<and> sqhd_disabled (tq t) = sqhd_disabled (tq s) \<and>
     tq_data_digest (tq t) = tq_data_digest (tq s) \<and> nvmet_tcp_hdgst_len e (tq t) = nvmet_tcp_hdgst_len e (tq s) \<and>
     freed t = freed s \<and> twire t = twire s \<and> c_offset (cmds t c) = 0 \<and> c_state (cmds t c) = NVMET_TCP_SEND_DATA \<and>
     c_sg (cmds t c) = c_sg (cmds s c) \<and>
     wbytes_done (cmds t c) = wbytes_done (cmds s c) + transfer_len (cmds s c) \<and>
     ch_plen (data_pdu (cmds t c)) = segs_len (data_hdr_seg e (tq s) c # map sg_seg (cur_sg (cmds s c))) \<and>
     ch_data_length (data_pdu (cmds t c)) = transfer_len (cmds s c) \<and> ch_data_offset (data_pdu (cmds t c)) = wbytes_done (cmds s c) \<and>
     ch_command_id (data_pdu (cmds t c)) = cqe_id (cmds s c)"

lemma tgrow_seg: "segs_len (data_hdr_seg e q c # gs) = tsizeof_data_pdu e + nvmet_tcp_hdgst_len e q + segs_len gs"
  by (simp add: segs_len_def data_hdr_seg_def)

lemma reading_sends:
  assumes r: "reading e c s"
  shows "\<exists>s1 s2 t. nvmet_tcp_fetch_cmd e s = Some (Some c, s1) \<and> c_state (cmds s1 c) = NVMET_TCP_SEND_DATA_PDU \<and>
     nvmet_try_send_data_pdu e c s1 = Some (Ret 1, s2) \<and> c_state (cmds s2 c) = NVMET_TCP_SEND_DATA \<and>
     send_sg_loop e c s2 = Some (None, t) \<and> data_queued e c s t"
proof -
  obtain l where l: "resp_send_list (tq s) = c # l" using r by (auto simp: reading_def)
  let ?sgs = "cur_sg (cmds s c)" and ?N = "transfer_len (cmds s c)"
  define q0 where "q0 = (tq s)\<lparr>snd_cmd := Some c, resp_send_list := l, send_list_len := send_list_len (tq s) - 1\<rparr>"
  define s1 where "s1 = nvmet_setup_c2h_data_pdu e c (s\<lparr>tq := q0\<rparr>)"
  have f: "nvmet_tcp_fetch_cmd e s = Some (Some c, s1)"
    using r l by (simp add: nvmet_tcp_fetch_cmd_def fetch_setup_def reading_def q0_def s1_def upd_tq_def)
  have q0: "tcaravan_ok q0" "aggregating e q0" "troom (length ?sgs + 2) (length ?sgs) (tsizeof_data_pdu e + nvmet_tcp_hdgst_len e q0 + ?N) q0"
      "tcaravan_segs q0 = tcaravan_segs (tq s)" "caravan_cmds q0 = caravan_cmds (tq s)" "nr_caravan_cmds q0 = nr_caravan_cmds (tq s)"
      "snd_cmd q0 = Some c" "free_list q0 = free_list (tq s)" "sqhd_disabled q0 = sqhd_disabled (tq s)" "\<not> tq_data_digest q0"
      "nvmet_tcp_hdgst_len e q0 = nvmet_tcp_hdgst_len e (tq s)" "data_hdr_seg e q0 c = data_hdr_seg e (tq s) c"
    using r by (simp_all add: reading_def q0_def aggregating_def i10_target_is_admin_queue_def troom_def tcaravan_segs_def
        nvmet_tcp_hdgst_len_def data_hdr_seg_def)
  have c1: "tq s1 = q0" "c_offset (cmds s1 c) = 0" "c_state (cmds s1 c) = NVMET_TCP_SEND_DATA_PDU" "cur_sg (cmds s1 c) = ?sgs"
      "freed s1 = freed s" "twire s1 = twire s" "c_sg (cmds s1 c) = c_sg (cmds s c)" "wbytes_done (cmds s1 c) = wbytes_done (cmds s c)"
      "ch_plen (data_pdu (cmds s1 c)) = tsizeof_data_pdu e + nvmet_tcp_hdgst_len e (tq s) + ?N"
      "ch_data_length (data_pdu (cmds s1 c)) = ?N" "ch_data_offset (data_pdu (cmds s1 c)) = wbytes_done (cmds s c)"
      "ch_command_id (data_pdu (cmds s1 c)) = cqe_id (cmds s c)"
    using q0(10,11) by (simp_all add: s1_def nvmet_setup_c2h_data_pdu_def Let_def upd_cmd_def nvmet_tcp_ddgst_len_def)
  have p: "0 < tsizeof_data_pdu e" "list_all (\<lambda>g. 0 < sg_length g) ?sgs" "segs_len (map sg_seg ?sgs) = ?N"
    using r by (simp_all add: reading_def)
  have nf: "\<not> i10_target_is_caravan_full q0" using q0(3) by (simp add: troom_not_full)
  obtain q1 where q1: "nvmet_try_send_data_pdu e c s1 =
        Some (Ret 1, (upd_cmd c (\<lambda>x. x\<lparr>c_state := NVMET_TCP_SEND_DATA, c_offset := 0\<rparr>) s1)\<lparr>tq := q1\<rparr>)"
      "tgrow [data_hdr_seg e q0 c] 0 q0 q1"
    using send_data_pdu_room [of s1 e c] c1(1,2) q0(1,2) nf p(1) by auto
  define s2 where "s2 = (upd_cmd c (\<lambda>x. x\<lparr>c_state := NVMET_TCP_SEND_DATA, c_offset := 0\<rparr>) s1)\<lparr>tq := q1\<rparr>"
  have c2: "cmds s2 c = (cmds s1 c)\<lparr>c_state := NVMET_TCP_SEND_DATA, c_offset := 0\<rparr>" "tq s2 = q1" "freed s2 = freed s1" "twire s2 = twire s1"
    by (simp_all add: s2_def upd_cmd_def)
  have room: "troom (Suc (length ?sgs)) (length ?sgs) (segs_len (map sg_seg ?sgs)) q1"
    by (rule troom_grow [OF q1(2)]) (use q0(3) p(3) tgrow_seg [of e q0 c "[]"] in \<open>simp add: add.commute\<close>)
  then have room': "troom (length ?sgs) (length ?sgs) (segs_len (map sg_seg ?sgs)) q1" by (simp add: troom_def)
  have pre: "cur_sg (cmds s2 c) = ?sgs" "c_offset (cmds s2 c) = 0" "tcaravan_ok (tq s2)" "aggregating e (tq s2)"
    using c1(4) c2 tgrowD(1,8) [OF q1(2)] q0(2) by simp_all
  obtain q2 where q2: "send_sg_loop e c s2 = Some (None, (upd_cmd c (sg_done (segs_len (map sg_seg ?sgs))) s2)\<lparr>tq := q2\<rparr>)"
      "tgrow (map sg_seg ?sgs) (length ?sgs) q1 q2"
    using send_sg_loop_room [OF pre(1,2) p(2) pre(3,4)] room' c2(2) by auto
  define t where "t = (upd_cmd c (sg_done (segs_len (map sg_seg ?sgs))) s2)\<lparr>tq := q2\<rparr>"
  note g = tgrow_trans [OF q1(2) q2(2)]
  have nf2: "\<not> i10_target_is_caravan_full q2"
    by (rule troom_not_full, rule troom_grow [OF q2(2), where n = "Suc 0" and k = 0 and bytes = 0]) (use room in simp)
  have ct: "cmds t c = sg_done ?N (cmds s2 c)" "tq t = q2" "freed t = freed s" "twire t = twire s"
    using p(3) c2(3,4) c1(5,6) by (simp_all add: t_def upd_cmd_def)
  have "data_queued e c s t"
    unfolding data_queued_def ct(2-4) using tgrowD [OF g] q0 nf2 c1 r tgrow_seg [of e "tq s" c "map sg_seg ?sgs"] p(3)
    by (simp add: ct(1) c2(1) sg_done_def reading_def)
  then show ?thesis using f c1(3) q1(1) [folded s2_def] q2(1) [folded t_def] c2(1) by auto
qed

lemma try_send_one_fetch:
  assumes "snd_cmd (tq s) = None" "nvmet_tcp_fetch_cmd e s = Some (Some c, s1)" "send_states e c s1 = Some (Ret n, s2)"
  shows "nvmet_tcp_try_send_one e s = Some (Ret 1, s2)"
  using assms by (simp add: nvmet_tcp_try_send_one_def)

section \<open>Receiving leaves the caravan alone\<close>

definition rkeep :: "target \<Rightarrow> target \<Rightarrow> bool" where
  "rkeep s s' \<longleftrightarrow> tcaravan_ok (tq s') = tcaravan_ok (tq s)"

lemma rkeep_refl [simp]: "rkeep s s"
  by (simp add: rkeep_def)

lemma rkeep_trans: "rkeep s t \<Longrightarrow> rkeep t u \<Longrightarrow> rkeep s u"
  by (simp add: rkeep_def)

lemma tcaravan_ok_rcv [simp]:
  "tcaravan_ok (q\<lparr>rcv_offset := n\<rparr>) = tcaravan_ok q" "tcaravan_ok (q\<lparr>rcv_left := n\<rparr>) = tcaravan_ok q"
  "tcaravan_ok (q\<lparr>rcv_state := rs\<rparr>) = tcaravan_ok q" "tcaravan_ok (q\<lparr>rcv_cmd := rc\<rparr>) = tcaravan_ok q"
  "tcaravan_ok (q\<lparr>rcv_pdu := bs\<rparr>) = tcaravan_ok q" "tcaravan_ok (q\<lparr>tq_hdr_digest := b\<rparr>) = tcaravan_ok q"
  "tcaravan_ok (q\<lparr>tq_data_digest := b\<rparr>) = tcaravan_ok q" "tcaravan_ok (q\<lparr>crypto_live := b\<rparr>) = tcaravan_ok q"
  "tcaravan_ok (q\<lparr>tq_state := st\<rparr>) = tcaravan_ok q" "tcaravan_ok (q\<lparr>tq_io_work := b\<rparr>) = tcaravan_ok q"
  "tcaravan_ok (q\<lparr>tq_io_work_lat := b\<rparr>) = tcaravan_ok q" "tcaravan_ok (q\<lparr>release_work := b\<rparr>) = tcaravan_ok q"
  by (simp_all add: tcaravan_ok_def tcaravan_segs_def)

lemma rkeep_upd [simp]:
  "rkeep s (upd_cmd c f s') = rkeep s s'" "rkeep s (tlog ev s') = rkeep s s'" "rkeep s (outside_call s') = rkeep s s'"
  "rkeep s (s'\<lparr>freed := l\<rparr>) = rkeep s s'" "rkeep s (s'\<lparr>twire := w\<rparr>) = rkeep s s'" "rkeep s (s'\<lparr>tsock_pos := n\<rparr>) = rkeep s s'"
  "rkeep s (s'\<lparr>tkthread_nice := i\<rparr>) = rkeep s s'"
  by (simp_all add: rkeep_def upd_cmd_def tlog_def outside_call_def)

lemma rkeep_upd_tq: "(\<And>q. tcaravan_ok (f q) = tcaravan_ok q) \<Longrightarrow> rkeep s (upd_tq f s') = rkeep s s'"
  by (simp add: rkeep_def)

lemma rkeep_parts [simp]:
  "rkeep s (nvmet_tcp_fatal_error s') = rkeep s s'" "rkeep s (nvmet_prepare_receive_pdu p s') = rkeep s s'"
  "rkeep s (nvmet_tcp_queue_response c s') = rkeep s s'" "rkeep s (nvmet_tcp_ddgst e c s') = rkeep s s'"
  "rkeep s (nvmet_tcp_prep_recv_ddgst e c s') = rkeep s s'" "rkeep s (free_cmd_data c s') = rkeep s s'"
  "rkeep s (nvmet_tcp_schedule_release_queue s') = rkeep s s'"
  by (simp_all add: nvmet_tcp_fatal_error_def nvmet_prepare_receive_pdu_def nvmet_tcp_queue_response_def tqueue_io_work_def
      nvmet_tcp_ddgst_def nvmet_tcp_prep_recv_ddgst_def free_cmd_data_def nvmet_tcp_schedule_release_queue_def rkeep_upd_tq)

lemma rkeep_recvmsg: "tdo_recvmsg p n s = (x, s') \<Longrightarrow> rkeep s s'"
  by (auto simp: tdo_recvmsg_def)

lemma rkeep_sendmsg: "tdo_sendmsg e gs n s = (x, s') \<Longrightarrow> rkeep s s'"
  by (auto simp: tdo_sendmsg_def Let_def split: rc.splits if_splits)

lemma rkeep_map: "nvmet_tcp_map_pdu_iovec p c s = Some s' \<Longrightarrow> rkeep s s'"
  by (auto simp: nvmet_tcp_map_pdu_iovec_def Let_def split: bind_splits if_splits)

lemma rkeep_unmap: "nvmet_tcp_unmap_pdu_iovec c s = Some s' \<Longrightarrow> rkeep s s'"
  by (auto simp: nvmet_tcp_unmap_pdu_iovec_def split: if_splits)

lemma rkeep_finish: "nvmet_tcp_finish_cmd c s = Some s' \<Longrightarrow> rkeep s s'"
  by (auto simp: nvmet_tcp_finish_cmd_def dest!: rkeep_unmap split: bind_splits) (simp add: rkeep_def tlog_def)

lemma rkeep_map_data: "nvmet_tcp_map_data p c s = (x, s') \<Longrightarrow> rkeep s s'"
  by (auto simp: nvmet_tcp_map_data_def Let_def split: if_splits option.splits)

lemma rkeep_get_cmd: "nvmet_tcp_get_cmd s = (x, s') \<Longrightarrow> rkeep s s'"
  by (auto simp: nvmet_tcp_get_cmd_def rkeep_upd_tq split: list.splits)

lemma rkeep_crypto: "nvmet_tcp_alloc_crypto p s = (x, s') \<Longrightarrow> rkeep s s'" "nvmet_tcp_free_crypto s = Some t \<Longrightarrow> rkeep s t"
  by (auto simp: nvmet_tcp_alloc_crypto_def nvmet_tcp_free_crypto_def rkeep_upd_tq split: option.splits if_splits)

lemma rkeep_icreq:
  assumes "nvmet_tcp_handle_icreq e p s = Some (r, s')"
  shows "rkeep s s'"
proof -
  define pdu where "pdu = rcv_pdu (tq s)"
  define s0 where "s0 = (if unat (th_plen p pdu) \<noteq> sizeof_icreq_pdu p then nvmet_tcp_fatal_error s else s)"
  define s1 where "s1 = upd_tq (\<lambda>q. q\<lparr>tq_hdr_digest := icreq_hdgst p pdu, tq_data_digest := icreq_ddgst p pdu\<rparr>) s0"
  obtain er s2 where s2: "(if tq_hdr_digest (tq s1) \<or> tq_data_digest (tq s1) then nvmet_tcp_alloc_crypto p s1 else (None, s1)) = (er, s2)"
    by fastforce
  obtain x s3 where s3: "tdo_sendmsg e [\<lparr>seg_mem = Icresp_pdu, seg_off = 0, seg_len = sizeof_icresp_pdu p\<rparr>] (sizeof_icresp_pdu p) s2 = (x, s3)"
    by fastforce
  have k0: "rkeep s s0" by (simp add: s0_def)
  have k1: "rkeep s s1" using k0 by (simp add: s1_def rkeep_upd_tq)
  have k2: "rkeep s s2" using s2 k1 rkeep_trans [OF k1] by (auto split: if_split_asm dest: rkeep_crypto(1))
  have k3: "rkeep s s3" by (rule rkeep_trans [OF k2 rkeep_sendmsg [OF s3]])
  note u = assms [unfolded nvmet_tcp_handle_icreq_def, folded pdu_def, unfolded Let_def, folded s0_def, folded s1_def, unfolded s2 prod.case s3]
  show ?thesis
    using u k0 k2 k3 rkeep_trans [OF k3]
    by (auto split: if_split_asm option.splits rc.splits bind_splits simp: rkeep_upd_tq dest: rkeep_crypto(2))
qed

lemma rkeep_req_failure:
  assumes "nvmet_tcp_handle_req_failure p c s = Some s'"
  shows "rkeep s s'"
proof -
  define s1 where "s1 = upd_cmd c (\<lambda>x. x\<lparr>c_data_len := c_sgl_len x\<rparr>) s"
  obtain st s2 where s2: "nvmet_tcp_map_data p c s1 = (st, s2)" by fastforce
  have k1: "rkeep s s1" by (simp add: s1_def)
  note k2 = rkeep_trans [OF k1 rkeep_map_data [OF s2]]
  have k3: "rkeep s (upd_tq (\<lambda>q. q\<lparr>rcv_state := NVMET_TCP_RECV_DATA\<rparr>) s2)" using k2 by (simp add: rkeep_upd_tq)
  note u = assms [unfolded nvmet_tcp_handle_req_failure_def Let_def, folded s1_def, unfolded s2 prod.case]
  show ?thesis
    using u k1 k2 rkeep_trans [OF k3 rkeep_map] by (auto split: if_split_asm bind_splits)
qed

lemma rkeep_h2c:
  assumes "nvmet_tcp_handle_h2c_data_pdu p s = Some (r, s')"
  shows "rkeep s s'"
proof -
  have "rkeep s t" if "nvmet_tcp_map_pdu_iovec p c (upd_cmd c f s) = Some t" for t c f
    using rkeep_map [OF that] by (simp add: rkeep_def)
  then show ?thesis
    using assms by (auto simp: nvmet_tcp_handle_h2c_data_pdu_def Let_def rkeep_upd_tq split: if_split_asm bind_splits)
qed

lemma rkeep_capsule:
  assumes "handle_capsule p c s = Some (r, s')"
  shows "rkeep s s'"
proof -
  define x where "x = capsule p (rcv_pdu (tq s))"
  obtain ok init where i: "req_init p (tsock_pos s) x = (ok, init)" by (cases "req_init p (tsock_pos s) x")
  define s1 where "s1 = tlog (Req_init c ok) (upd_cmd c (load_capsule x init) (outside_call s))"
  obtain st s2 where s2: "nvmet_tcp_map_data p c s1 = (st, s2)" by fastforce
  have k1: "rkeep s s1" by (simp add: s1_def)
  note k2 = rkeep_trans [OF k1 rkeep_map_data [OF s2]]
  have k3: "rkeep s (upd_tq (\<lambda>q. q\<lparr>rcv_state := NVMET_TCP_RECV_DATA\<rparr>) s2)" using k2 by (simp add: rkeep_upd_tq)
  note u = assms [unfolded handle_capsule_def, folded x_def, unfolded Let_def, unfolded i prod.case, folded s1_def, unfolded s2 prod.case]
  show ?thesis
    using u k1 k2 rkeep_trans [OF k3 rkeep_map] rkeep_trans [OF k1 rkeep_req_failure] by (auto split: if_split_asm bind_splits)
qed

lemma rkeep_done_recv:
  assumes "nvmet_tcp_done_recv_pdu e p s = Some (r, s')"
  shows "rkeep s s'"
proof -
  obtain x s1 where g: "nvmet_tcp_get_cmd s = (x, s1)" by fastforce
  have k: "rkeep s (upd_tq (\<lambda>q. q\<lparr>rcv_cmd := a\<rparr>) s1)" for a using rkeep_get_cmd [OF g] by (simp add: rkeep_upd_tq)
  show ?thesis
    using assms k rkeep_trans [OF k rkeep_capsule]
    by (auto simp: nvmet_tcp_done_recv_pdu_def Let_def g split: if_split_asm option.splits dest: rkeep_icreq rkeep_h2c)
qed

lemma rkeep_recv_pdu_done: "recv_pdu_done e p s = Some (r, s') \<Longrightarrow> rkeep s s'"
  by (auto simp: recv_pdu_done_def split: if_split_asm dest: rkeep_done_recv)

lemma rkeep_pdu_step:
  assumes k: "\<And>t r s'. k t = Some (r, s') \<Longrightarrow> rkeep t s'" and s: "pdu_step e p k s = Some (r, s')"
  shows "rkeep s s'"
proof -
  obtain x s0 where g: "tdo_recvmsg p (rcv_left (tq s)) s = (x, s0)" by fastforce
  note k0 = rkeep_recvmsg [OF g]
  show ?thesis
  proof (cases x)
    case (Inl er)
    then show ?thesis using s k0 by (simp add: pdu_step_def g)
  next
    case (Inr bs)
    define s1 where "s1 = upd_tq (\<lambda>q. q\<lparr>rcv_pdu := rcv_pdu q @ bs, rcv_offset := rcv_offset q + length bs, rcv_left := rcv_left q - length bs\<rparr>) s0"
    have k1: "rkeep s s1" using k0 by (simp add: s1_def rkeep_upd_tq)
    have k2: "rkeep s (upd_tq (\<lambda>q. q\<lparr>rcv_left := f q\<rparr>) s1)" for f using k1 by (simp add: rkeep_upd_tq)
    note u = s [unfolded pdu_step_def g prod.case Inr sum.case Let_def, folded s1_def]
    show ?thesis
      using u k1 rkeep_trans [OF k1 rkeep_recv_pdu_done] rkeep_trans [OF k2 k] by (auto split: if_split_asm)
  qed
qed

lemma rkeep_try_recv_pdu:
  assumes "nvmet_tcp_try_recv_pdu e p s = Some (r, s')"
  shows "rkeep s s'"
proof -
  have "rkeep s (snd (r, s'))"
  proof (rule nvmet_tcp_try_recv_pdu.raw_induct [where P = "\<lambda>e p s y. rkeep s (snd y)", OF _ assms])
    fix f e p s y
    assume f: "\<And>e p s y. f e p s = Some y \<Longrightarrow> rkeep s (snd y)" and st: "pdu_step e p (f e p) s = Some (y :: rc \<times> target)"
    show "rkeep s (snd y)"
      by (rule rkeep_pdu_step [of "f e p" e p s "fst y"]) (use f st in fastforce)+
  qed
  then show ?thesis by simp
qed

lemma rkeep_recv_msg_loop: "rkeep s (snd (recv_msg_loop p c s))"
proof (induction p c s rule: recv_msg_loop.induct)
  case (1 p c s)
  obtain x s1 where g: "tdo_recvmsg p (recv_left (cmds s c)) s = (x, s1)" by fastforce
  note k = rkeep_recvmsg [OF g]
  show ?case
  proof (cases "\<exists>b bs. x = Inr (b # bs)")
    case False
    then show ?thesis using k g by (auto simp: recv_msg_loop.simps [of p c s] split: sum.split list.split)
  next
    case True
    then obtain b bs where x: "x = Inr (b # bs)" by blast
    show ?thesis
    proof (cases "recv_left (cmds s c) = 0")
      case True
      then show ?thesis by (simp add: recv_msg_loop.simps [of p c s])
    next
      case False
      define s2 where "s2 = upd_cmd c (\<lambda>x. x\<lparr>c_pdu_recv := c_pdu_recv x + length (b # bs), rbytes_done := rbytes_done x + length (b # bs),
                 recv_left := recv_left x - length (b # bs), c_rx := c_rx x @ b # bs\<rparr>) s1"
      have e: "recv_msg_loop p c s = recv_msg_loop p c s2" using False g x by (simp add: recv_msg_loop.simps [of p c s] s2_def)
      have "rkeep s s2" using k by (simp add: s2_def)
      then show ?thesis unfolding e using 1 [OF False g [symmetric] x refl, folded s2_def] by (rule rkeep_trans)
    qed
  qed
qed

lemma rkeep_try_recv_data:
  assumes "nvmet_tcp_try_recv_data e p s = Some (r, s')"
  shows "rkeep s s'"
proof -
  obtain c where c: "rcv_cmd (tq s) = Some c" using assms by (auto simp: nvmet_tcp_try_recv_data_def split: bind_splits)
  obtain x s1 where l: "recv_msg_loop p c s = (x, s1)" by fastforce
  have k: "rkeep s s1" using rkeep_recv_msg_loop [of s p c] l by simp
  show ?thesis
    using assms k rkeep_trans [OF k rkeep_unmap]
    by (auto simp: nvmet_tcp_try_recv_data_def c l Let_def split: option.splits bind_splits if_split_asm)
qed

lemma rkeep_try_recv_ddgst:
  assumes "nvmet_tcp_try_recv_ddgst p s = Some (r, s')"
  shows "rkeep s s'"
proof -
  obtain c where c: "rcv_cmd (tq s) = Some c" using assms by (auto simp: nvmet_tcp_try_recv_ddgst_def split: bind_splits)
  obtain x s0 where g: "tdo_recvmsg p (rcv_left (tq s)) s = (x, s0)" by fastforce
  note k0 = rkeep_recvmsg [OF g]
  show ?thesis
  proof (cases x)
    case (Inl er)
    then show ?thesis using assms k0 c by (simp add: nvmet_tcp_try_recv_ddgst_def g)
  next
    case (Inr bs)
    define s1 where "s1 = upd_cmd c (\<lambda>x. x\<lparr>c_recv_ddgst := c_recv_ddgst x @ bs\<rparr>)
        (upd_tq (\<lambda>q. q\<lparr>rcv_offset := rcv_offset q + length bs, rcv_left := rcv_left q - length bs\<rparr>) s0)"
    have k1: "rkeep s s1" using k0 by (simp add: s1_def rkeep_upd_tq)
    note u = assms [unfolded nvmet_tcp_try_recv_ddgst_def c g prod.case Inr sum.case Let_def bind.bind_lunit, folded s1_def]
    show ?thesis using u k1 rkeep_trans [OF k1 rkeep_finish] by (auto split: if_split_asm bind_splits)
  qed
qed

lemma rkeep_recv_if:
  assumes "\<And>s r s'. f s = Some (r, s') \<Longrightarrow> rkeep s s'" "\<And>s r s'. k s = Some (r, s') \<Longrightarrow> rkeep s s'"
    "recv_if st f k s = Some (r, s')"
  shows "rkeep s s'"
proof (cases "rcv_state (tq s) = st")
  case True
  then obtain r1 s1 where f: "f s = Some (r1, s1)" using assms(3) by (auto simp: recv_if_def split: bind_splits)
  show ?thesis
    using assms(3) True f assms(1) [OF f] rkeep_trans [OF assms(1) [OF f] assms(2)] by (auto simp: recv_if_def split: if_split_asm)
next
  case False
  then show ?thesis using assms(2,3) by (simp add: recv_if_def)
qed

lemma rkeep_try_recv_one:
  assumes "nvmet_tcp_try_recv_one e p s = Some (r, s')"
  shows "rkeep s s'"
proof -
  have "rkeep s t" if "recv_if NVMET_TCP_RECV_PDU (nvmet_tcp_try_recv_pdu e p)
                      (recv_if NVMET_TCP_RECV_DATA (nvmet_tcp_try_recv_data e p)
                       (recv_if NVMET_TCP_RECV_DDGST (nvmet_tcp_try_recv_ddgst p) (\<lambda>x. Some (Ret 0, x)))) s = Some (x, t)" for x t
    by (rule rkeep_recv_if [OF rkeep_try_recv_pdu rkeep_recv_if [OF rkeep_try_recv_data rkeep_recv_if [OF rkeep_try_recv_ddgst]] that]) auto
  then show ?thesis using assms by (auto simp: nvmet_tcp_try_recv_one_def split: if_split_asm bind_splits)
qed

lemma rkeep_try_recv_loop: "try_recv_loop e p k n ret s = Some (r, m, s') \<Longrightarrow> rkeep s s'"
proof (induction k arbitrary: n ret s)
  case (Suc k)
  then obtain r1 s1 where one: "nvmet_tcp_try_recv_one e p s = Some (r1, s1)" by (auto split: bind_splits)
  show ?case using Suc one rkeep_try_recv_one [OF one] by (auto split: if_split_asm intro: rkeep_trans)
qed simp

end
