(* ===== verification/Tcp_Target_Correct.thy ===== *)
theory Tcp_Target_Correct
  imports Tcp_Target_Inv
begin

text \<open>
  Properties of a queue of the target: its caravan under all operations, what the answer to a read looks
  like on the wire, two ways in which memory and digests are mishandled, and the end of the work loops.
\<close>

section \<open>An example\<close>

text \<open>A queue of the class for throughput with one read of a page to answer, and a socket that takes everything.\<close>

definition ex_tenv :: tenv where
  "ex_tenv = \<lparr>tsizeof_data_pdu = 24, tsizeof_r2t_pdu = 24, tsizeof_rsp_pdu = 24, TDIGEST_LENGTH = 4, nvmet_tcp_aggr = True,
     tsendpage = (\<lambda>_ n. Ret n), tsendmsg = (\<lambda>_ n. Ret n), twspace = (\<lambda>_. 8388608), sg_digest = (\<lambda>_ _. [0, 0, 0, 0])\<rparr>"

definition ex_sg :: sg_ent where "ex_sg = \<lparr>sg_page = 7, sg_offset = 0, sg_length = 4096\<rparr>"

definition ex_read :: target where
  "ex_read =
     \<lparr>tq = zero_queue\<lparr>sq_qid := 1, tq_idx := 2, nr_cmds := 4, tq_state := NVMET_TCP_Q_LIVE, resp_send_list := [Cmd 0], send_list_len := 1\<rparr>,
      cmds = (\<lambda>_. zero_cmd)(Cmd 0 := zero_cmd\<lparr>transfer_len := 4096, c_sg := [ex_sg], cur_sg := [ex_sg]\<rparr>),
      twire = [], tsock_pos = 0, freed = [], tevents = [], tkthread_nice = 0\<rparr>"

text \<open>Capsules of 72 bytes, all of the same command, from a connection on which nothing arrives.\<close>

definition ex_renv :: renv where
  "ex_renv =
     \<lparr>sizeof_hdr = 8, sizeof_icreq_pdu = 128, sizeof_icresp_pdu = 128, tsizeof_cmd_pdu = 72, TPAGE_SIZE = 4096, inline_data_size = 16384,
      th_type = (\<lambda>_. Nvme_tcp_cmd), th_hlen = (\<lambda>_. 72), th_plen = (\<lambda>_. 76), TF_HDGST = (\<lambda>_. True), TF_DDGST = (\<lambda>_. False),
      icreq_pfv = (\<lambda>_. 0), NVME_TCP_PFV_1_0 = 0, icreq_hpda = (\<lambda>_. 0), icreq_hdgst = (\<lambda>_. False), icreq_ddgst = (\<lambda>_. False),
      capsule = (\<lambda>_. \<lparr>opcode = 2, nvme_flags = 0, fctype = 0, command_id = 1, sgl_addr = 0, sgl_type = 0, sgl_length = 4096\<rparr>),
      data_ttag = (\<lambda>_. 0), data_offset = (\<lambda>_. 0), data_len_of = (\<lambda>_. 4096), tdigest = (\<lambda>bs. replicate 4 (of_nat (length bs))),
      crypto_alloc_ahash = None, ahash_request_alloc = (\<lambda>_. True), recvmsg = (\<lambda>_ _. Inl EAGAIN),
      req_init = (\<lambda>_ _. (True, 4096, 0)), sgl_alloc = (\<lambda>_ n. Some [\<lparr>sg_page = 9, sg_offset = 0, sg_length = n\<rparr>]), kmalloc_iov = (\<lambda>_. True)\<rparr>"

lemma ex_read_ok: "tcaravan_ok (tq ex_read)"
  by (simp add: ex_read_def zero_queue_def tcaravan_ok_def tcaravan_segs_def)

lemma ex_read_sends: "reading ex_tenv (Cmd 0) ex_read"
  using ex_read_ok
  by (simp add: reading_def, simp add: ex_read_def ex_tenv_def ex_sg_def zero_queue_def zero_cmd_def aggregating_def
      i10_target_is_admin_queue_def nvmet_tcp_need_data_out_def sg_seg_def segs_len_def troom_def nvmet_tcp_hdgst_len_def nvme_defs)

section \<open>The caravan\<close>

text \<open>
  Operations: the target core completes a command, which calls \<open>nvmet_tcp_queue_response\<close>, and rounds of
  receiving and of sending.
\<close>

datatype tgt_op = Core_responds cmd_ref u16 u16 | Recv_round int | Send_round int

fun tgt_exec :: "tenv \<Rightarrow> renv \<Rightarrow> tgt_op \<Rightarrow> target \<Rightarrow> target option" where
  "tgt_exec e p (Core_responds c i st) s = Some (nvmet_tcp_queue_response c (upd_cmd c (\<lambda>x. x\<lparr>cqe_id := i, cqe_status := st\<rparr>) s))"
| "tgt_exec e p (Recv_round budget) s = map_option (\<lambda>(r, n, s1). s1) (nvmet_tcp_try_recv e p budget 0 s)"
| "tgt_exec e p (Send_round budget) s = map_option (\<lambda>(r, n, s1). s1) (nvmet_tcp_try_send e budget 0 s)"

text \<open>The connect command has no tag, so no R2T can be sent for it.\<close>

fun tgt_ok :: "tgt_op \<Rightarrow> target \<Rightarrow> bool" where
  "tgt_ok (Send_round budget) s = connect_quiet s"
| "tgt_ok _ s = True"

interpretation tgti: op_invariant "tgt_exec e p" tgt_ok "\<lambda>s. tcaravan_ok (tq s)" for e p
proof
  fix s a s'
  assume i: "tcaravan_ok (tq s)" "tgt_ok a s" "tgt_exec e p a s = Some s'"
  show "tcaravan_ok (tq s')"
  proof (cases a)
    case (Core_responds c i st)
    then have "rkeep s s'" using i(3) by auto
    then show ?thesis using i(1) by (simp add: rkeep_def)
  next
    case (Recv_round b)
    then have "rkeep s s'" using i(3) by (auto simp: nvmet_tcp_try_recv_def dest: rkeep_try_recv_loop)
    then show ?thesis using i(1) by (simp add: rkeep_def)
  next
    case (Send_round b)
    then show ?thesis
      using i try_send_loop_total [OF i(1), of e "nat b" 0 "Ret 0"] by (auto simp: nvmet_tcp_try_send_def tkeep_def)
  qed
qed

text \<open>
  C6: The caravan of a target queue. Take any sequence of responses, receive rounds and send rounds in which
  the connect command, which has no tag an R2T could carry, is not waiting for data (\<open>connect_quiet\<close>) at
  the start of each send round. After it the vector, the commands and the mapped pages of the caravan are
  within their arrays and the length counts the collected bytes; and if \<open>connect_quiet\<close> holds then, a
  further round of sending has a result, of which the same is true.
\<close>

theorem target_caravan_bounds:
  assumes "tgti.run e p s ops s'" "tcaravan_ok (tq s)"
  shows "tcaravan_ok (tq s') \<and>
    (connect_quiet s' \<longrightarrow> (\<exists>r n t. nvmet_tcp_try_send e budget k s' = Some (r, n, t) \<and> tcaravan_ok (tq t)))"
proof -
  have ok: "tcaravan_ok (tq s')" by (rule tgti.run_inv [OF assms])
  show ?thesis
    using ok try_send_loop_total [OF ok, of e "nat budget" k "Ret 0"] by (auto simp: nvmet_tcp_try_send_def dest: tkeep_ok)
qed

lemma ex_tgt_run: "\<exists>s'. tgti.run ex_tenv ex_renv ex_read [Core_responds (Cmd 1) 5 0, Recv_round 8] s' \<and> connect_quiet s'"
proof -
  define s1 where "s1 = nvmet_tcp_queue_response (Cmd 1) (upd_cmd (Cmd 1) (\<lambda>x. x\<lparr>cqe_id := 5, cqe_status := 0\<rparr>) ex_read)"
  have st: "rcv_state (tq s1) = NVMET_TCP_RECV_PDU" "connect_quiet s1"
    by (simp_all add: s1_def nvmet_tcp_queue_response_def ex_read_def zero_queue_def tqueue_io_work_def i10_target_is_latency_def
        connect_quiet_def nvmet_tcp_need_data_in_def nvmet_tcp_has_data_in_def upd_cmd_def upd_tq_def zero_cmd_def)
  have one: "nvmet_tcp_try_recv_one ex_tenv ex_renv s1 = Some (Ret 0, outside_call s1)"
    using st(1) by (simp add: nvmet_tcp_try_recv_one_def recv_if_def nvmet_tcp_try_recv_pdu.simps pdu_step_def tdo_recvmsg_def ex_renv_def)
  have r: "tgt_exec ex_tenv ex_renv (Recv_round 8) s1 = Some (outside_call s1)"
    by (simp add: nvmet_tcp_try_recv_def one eval_nat_numeral)
  have "connect_quiet (outside_call s1)" using st(2) by (simp add: connect_quiet_def outside_call_def)
  moreover have "tgti.run ex_tenv ex_renv ex_read [Core_responds (Cmd 1) 5 0, Recv_round 8] (outside_call s1)"
    by (rule tgti.run_cons [OF _ _ tgti.run_cons [OF _ r tgti.run_nil]]) (simp_all add: s1_def)
  ultimately show ?thesis by blast
qed

theorem target_caravan_bounds_witness:
  "\<exists>s' r n t. tgti.run ex_tenv ex_renv ex_read [Core_responds (Cmd 1) 5 0, Recv_round 8] s' \<and> tcaravan_ok (tq s') \<and>
     nvmet_tcp_try_send ex_tenv 16 0 s' = Some (r, n, t) \<and> tcaravan_ok (tq t)"
proof -
  obtain s' where "tgti.run ex_tenv ex_renv ex_read [Core_responds (Cmd 1) 5 0, Recv_round 8] s'" "connect_quiet s'"
    using ex_tgt_run by blast
  then show ?thesis using target_caravan_bounds [OF _ ex_read_ok, of ex_tenv ex_renv _ s' 16 0] by blast
qed

text \<open>
  C10: The answer to a read on an aggregating queue without data digests whose submission queue flow control
  is not disabled. When no command is being sent, the read heads the list of responses, none of its pages
  has length zero and together they make up its transfer length, and the caravan has room for it (the pages
  and two more vector entries, the pages and the bytes), one call of the sender appends to the caravan the
  header of the data PDU, the pages of the command in order and the response, in this order; the length in
  the header is the length of header and data, all bytes count as written, and the command waits in the
  caravan for its release.
\<close>

theorem read_in_caravan:
  assumes r: "reading e c s" and q: "\<not> sqhd_disabled (tq s)"
  shows "\<exists>s'. nvmet_tcp_try_send_one e s = Some (Ret 1, s') \<and> tcaravan_ok (tq s') \<and>
     tcaravan_segs (tq s') = tcaravan_segs (tq s) @ data_hdr_seg e (tq s) c # map sg_seg (cur_sg (cmds s c)) @ [rsp_seg e (tq s) c] \<and>
     take (nr_caravan_cmds (tq s')) (caravan_cmds (tq s')) = take (nr_caravan_cmds (tq s)) (caravan_cmds (tq s)) @ [c] \<and>
     ch_plen (data_pdu (cmds s' c)) = segs_len (data_hdr_seg e (tq s) c # map sg_seg (cur_sg (cmds s c))) \<and>
     ch_data_length (data_pdu (cmds s' c)) = transfer_len (cmds s c) \<and> ch_command_id (data_pdu (cmds s' c)) = cqe_id (cmds s c) \<and>
     wbytes_done (cmds s' c) = wbytes_done (cmds s c) + transfer_len (cmds s c) \<and>
     snd_cmd (tq s') = None \<and> freed s' = freed s \<and> twire s' = twire s"
proof -
  obtain s1 s2 t where st: "nvmet_tcp_fetch_cmd e s = Some (Some c, s1)" "c_state (cmds s1 c) = NVMET_TCP_SEND_DATA_PDU"
      "nvmet_try_send_data_pdu e c s1 = Some (Ret 1, s2)" "c_state (cmds s2 c) = NVMET_TCP_SEND_DATA"
      "send_sg_loop e c s2 = Some (None, t)" and d: "data_queued e c s t"
    using reading_sends [OF r] by blast
  define s4 where "s4 = nvmet_setup_response_pdu e c t"
  have dig: "\<not> tq_data_digest (tq t)" "\<not> sqhd_disabled (tq t)" using d r q by (simp_all add: data_queued_def reading_def)
  have data: "nvmet_try_send_data e c s2 = Some (Ret 1, s4)"
    using st(5) dig by (simp add: nvmet_try_send_data_def Let_def s4_def)
  have c4: "tq s4 = tq t" "c_offset (cmds s4 c) = 0" "c_state (cmds s4 c) = NVMET_TCP_SEND_RESPONSE" "freed s4 = freed t" "twire s4 = twire t"
      "wbytes_done (cmds s4 c) = wbytes_done (cmds t c)" "data_pdu (cmds s4 c) = data_pdu (cmds t c)"
    by (simp_all add: s4_def nvmet_setup_response_pdu_def Let_def upd_cmd_def)
  have t: "tcaravan_ok (tq s4)" "aggregating e (tq s4)" "\<not> i10_target_is_caravan_full (tq s4)"
    using d by (simp_all add: data_queued_def c4(1))
  have rs: "rsp_seg e (tq t) c = rsp_seg e (tq s) c" using d by (simp add: rsp_seg_def data_queued_def)
  obtain s' where s': "nvmet_try_send_response e c s4 = Some (Ret 1, s')" "tcaravan_segs (tq s') = tcaravan_segs (tq t) @ [rsp_seg e (tq s) c]"
      "tcaravan_ok (tq s')" "take (nr_caravan_cmds (tq s')) (caravan_cmds (tq s')) = take (nr_caravan_cmds (tq t)) (caravan_cmds (tq t)) @ [c]"
      "snd_cmd (tq s') = None" "freed s' = freed t" "twire s' = twire t"
      "wbytes_done (cmds s' c) = wbytes_done (cmds t c)" "data_pdu (cmds s' c) = data_pdu (cmds t c)"
    using send_response_room [OF t c4(2)] unfolding c4 rs by blast
  have "send_states e c s1 = Some (Ret 1, s')"
    using st(2-4) data c4(3) s'(1) by (simp add: send_states_def send_if_def)
  then have one: "nvmet_tcp_try_send_one e s = Some (Ret 1, s')"
    using try_send_one_fetch [OF _ st(1)] r by (simp add: reading_def)
  show ?thesis
    by (rule exI [of _ s']) (use one s' d in \<open>simp add: data_queued_def\<close>)
qed

theorem read_in_caravan_witness:
  "\<exists>s'. nvmet_tcp_try_send_one ex_tenv ex_read = Some (Ret 1, s') \<and> map seg_mem (tcaravan_segs (tq s')) = [Data_pdu (Cmd 0), Sg_page 7, Rsp_pdu (Cmd 0)] \<and>
     ch_plen (data_pdu (cmds s' (Cmd 0))) = 4120"
proof -
  have x: "\<not> sqhd_disabled (tq ex_read)" "cur_sg (cmds ex_read (Cmd 0)) = [ex_sg]" "tcaravan_segs (tq ex_read) = []" "\<not> tq_hdr_digest (tq ex_read)"
    by (simp_all add: ex_read_def zero_queue_def tcaravan_segs_def)
  show ?thesis
    using read_in_caravan [OF ex_read_sends x(1)] x(2-4)
    by (auto simp: data_hdr_seg_def sg_seg_def rsp_seg_def ex_sg_def segs_len_def ex_tenv_def nvmet_tcp_hdgst_len_def)
qed

text \<open>
  C35: Pages freed too early. When the flow control of the submission queue is disabled the pages of a read
  are freed and its command is free for reuse as soon as they are in the caravan, before anything has been
  sent: the caravan points to freed memory.
\<close>

theorem freed_in_caravan:
  assumes r: "reading e c s" and q: "sqhd_disabled (tq s)" and "c \<noteq> Connect" "cur_sg (cmds s c) = c_sg (cmds s c)"
  shows "\<exists>s'. nvmet_tcp_try_send_one e s = Some (Ret 1, s') \<and>
     tcaravan_segs (tq s') = tcaravan_segs (tq s) @ data_hdr_seg e (tq s) c # map sg_seg (c_sg (cmds s c)) \<and>
     freed s' = freed s @ map sg_page (c_sg (cmds s c)) \<and> free_list (tq s') = free_list (tq s) @ [c] \<and> twire s' = twire s"
proof -
  obtain s1 s2 t where st: "nvmet_tcp_fetch_cmd e s = Some (Some c, s1)" "c_state (cmds s1 c) = NVMET_TCP_SEND_DATA_PDU"
      "nvmet_try_send_data_pdu e c s1 = Some (Ret 1, s2)" "c_state (cmds s2 c) = NVMET_TCP_SEND_DATA"
      "send_sg_loop e c s2 = Some (None, t)" and d: "data_queued e c s t"
    using reading_sends [OF r] by blast
  define s4 where "s4 = free_cmd_data c (nvmet_tcp_put_cmd c (upd_tq (\<lambda>q. q\<lparr>snd_cmd := None\<rparr>) t))"
  have dig: "\<not> tq_data_digest (tq t)" "sqhd_disabled (tq t)" using d r q by (simp_all add: data_queued_def reading_def)
  have data: "nvmet_try_send_data e c s2 = Some (Ret 1, s4)"
    using st(5) dig by (simp add: nvmet_try_send_data_def Let_def s4_def)
  have c4: "tcaravan_segs (tq s4) = tcaravan_segs (tq t)" "freed s4 = freed t @ map sg_page (c_sg (cmds t c))"
      "free_list (tq s4) = free_list (tq t) @ [c]" "twire s4 = twire t" "c_state (cmds s4 c) = NVMET_TCP_SEND_DATA"
    using assms(3) d by (simp_all add: s4_def free_cmd_data_def nvmet_tcp_put_cmd_def upd_tq_def upd_cmd_def tcaravan_segs_def data_queued_def)
  have "send_states e c s1 = Some (Ret 1, s4)"
    using st(2-4) data c4(5) by (simp add: send_states_def send_if_def)
  then have one: "nvmet_tcp_try_send_one e s = Some (Ret 1, s4)"
    using try_send_one_fetch [OF _ st(1)] r by (simp add: reading_def)
  show ?thesis
    by (rule exI [of _ s4]) (use one c4 d assms(4) in \<open>simp add: data_queued_def\<close>)
qed

definition ex_read_sqhd :: target where
  "ex_read_sqhd = upd_tq (\<lambda>q. q\<lparr>sqhd_disabled := True\<rparr>) ex_read"

theorem freed_in_caravan_witness:
  "\<exists>s'. nvmet_tcp_try_send_one ex_tenv ex_read_sqhd = Some (Ret 1, s') \<and> map seg_mem (tcaravan_segs (tq s')) = [Data_pdu (Cmd 0), Sg_page 7] \<and>
     7 \<in> set (freed s') \<and> Cmd 0 \<in> set (free_list (tq s')) \<and> twire s' = []"
proof -
  have r: "reading ex_tenv (Cmd 0) ex_read_sqhd"
    using ex_read_sends by (simp add: ex_read_sqhd_def reading_def upd_tq_def tcaravan_ok_def tcaravan_segs_def aggregating_def
        i10_target_is_admin_queue_def troom_def nvmet_tcp_hdgst_len_def)
  have x: "sqhd_disabled (tq ex_read_sqhd)" "cur_sg (cmds ex_read_sqhd (Cmd 0)) = [ex_sg]" "c_sg (cmds ex_read_sqhd (Cmd 0)) = [ex_sg]"
      "tcaravan_segs (tq ex_read_sqhd) = []" "twire ex_read_sqhd = []"
    by (simp_all add: ex_read_sqhd_def upd_tq_def ex_read_def zero_queue_def tcaravan_segs_def)
  show ?thesis
    using freed_in_caravan [OF r x(1)] x(2-5) by (auto simp: data_hdr_seg_def sg_seg_def ex_sg_def)
qed

section \<open>The header digest\<close>

lemma hdgst_keeps_received:
  assumes "th_hlen p pdu + TDIGEST_LENGTH e \<le> len" "len \<le> length pdu"
  shows "take (TDIGEST_LENGTH e) (drop (th_hlen p pdu) (nvmet_tcp_hdgst p pdu len)) =
         take (TDIGEST_LENGTH e) (drop (th_hlen p pdu) pdu)"
proof -
  have "take (TDIGEST_LENGTH e) (drop (th_hlen p pdu) (take len pdu @ xs)) = take (TDIGEST_LENGTH e) (drop (th_hlen p pdu) pdu)" for xs
  proof -
    have "TDIGEST_LENGTH e \<le> length (drop (th_hlen p pdu) (take len pdu))" using assms by simp
    then have "take (TDIGEST_LENGTH e) (drop (th_hlen p pdu) (take len pdu @ xs)) = take (TDIGEST_LENGTH e) (drop (th_hlen p pdu) (take len pdu))"
      using assms by simp
    also have "\<dots> = take (TDIGEST_LENGTH e) (take (len - th_hlen p pdu) (drop (th_hlen p pdu) pdu))" by (simp add: drop_take)
    also have "\<dots> = take (TDIGEST_LENGTH e) (drop (th_hlen p pdu) pdu)" using assms by (simp add: min_def)
    finally show ?thesis .
  qed
  then show ?thesis unfolding nvmet_tcp_hdgst_def Let_def .
qed

text \<open>
  C34: The header digest is not checked. The digest is computed over the header and the digest that was
  received, and written behind them; what is compared is the received digest with itself. Every PDU with
  the flag set goes to its handler, whatever its digest.
\<close>

theorem header_digest_unchecked:
  assumes "TF_HDGST p (rcv_pdu (tq s))" "rcv_offset (tq s) = th_hlen p (rcv_pdu (tq s)) + TDIGEST_LENGTH e"
    "length (rcv_pdu (tq s)) = rcv_offset (tq s)" "\<not> tq_data_digest (tq s)"
  shows "recv_pdu_done e p s = nvmet_tcp_done_recv_pdu e p s"
  using assms hdgst_keeps_received [of p "rcv_pdu (tq s)" e "rcv_offset (tq s)"]
  by (simp add: recv_pdu_done_def nvmet_tcp_verify_hdgst_def Let_def)

definition ex_header :: target where
  "ex_header = upd_tq (\<lambda>q. q\<lparr>tq_hdr_digest := True, rcv_pdu := replicate 72 1 @ [222, 173, 190, 239], rcv_offset := 76\<rparr>) ex_read"

theorem header_digest_unchecked_witness:
  "tq_hdr_digest (tq ex_header) \<and> drop 72 (rcv_pdu (tq ex_header)) \<noteq> tdigest ex_renv (take 72 (rcv_pdu (tq ex_header))) \<and>
   recv_pdu_done ex_tenv ex_renv ex_header = nvmet_tcp_done_recv_pdu ex_tenv ex_renv ex_header"
proof -
  have q: "rcv_pdu (tq ex_header) = replicate 72 1 @ [222, 173, 190, 239]" "rcv_offset (tq ex_header) = 76" "tq_hdr_digest (tq ex_header)"
      "\<not> tq_data_digest (tq ex_header)"
    by (simp_all add: ex_header_def ex_read_def zero_queue_def upd_tq_def)
  have p: "TF_HDGST ex_renv (rcv_pdu (tq ex_header))" "th_hlen ex_renv (rcv_pdu (tq ex_header)) = 72" "TDIGEST_LENGTH ex_tenv = 4"
      "tdigest ex_renv (take 72 (rcv_pdu (tq ex_header))) = [72, 72, 72, 72]"
    by (simp_all add: ex_renv_def ex_tenv_def q(1) eval_nat_numeral)
  have "recv_pdu_done ex_tenv ex_renv ex_header = nvmet_tcp_done_recv_pdu ex_tenv ex_renv ex_header"
    by (rule header_digest_unchecked [OF p(1)]) (use p(2,3) q in simp_all)
  then show ?thesis using q(1,3) p(4) by simp
qed

section \<open>The work loops end\<close>

text \<open>Every successful operation is counted.\<close>

lemma try_recv_loop_counts:
  "try_recv_loop e p k n ret s = Some (r, m, s') \<Longrightarrow> n \<le> m \<and> (rc_pos r \<longrightarrow> n < m \<or> r = ret)"
proof (induction k arbitrary: n ret s)
  case 0
  then show ?case by simp
next
  case (Suc k)
  then obtain r1 s1 where one: "nvmet_tcp_try_recv_one e p s = Some (r1, s1)" by (auto split: bind_splits)
  show ?case
  proof (cases "rc_pos r1")
    case True
    then show ?thesis using Suc.IH [of "Suc n" r1 s1] Suc.prems one by auto
  next
    case False
    then show ?thesis using Suc.prems one by auto
  qed
qed

lemma try_send_loop_counts:
  "try_send_loop e k n ret s = Some (r, m, s') \<Longrightarrow> n \<le> m \<and> (rc_pos r \<longrightarrow> n < m \<or> r = ret)"
proof (induction k arbitrary: n ret s)
  case 0
  then show ?case by simp
next
  case (Suc k)
  then obtain r1 s1 where one: "nvmet_tcp_try_send_one e s = Some (r1, s1)" by (auto split: bind_splits)
  obtain stop s2 where c: "(if nvmet_tcp_aggr e \<and> tq_caravan_len (tq s1) \<noteq> 0 \<and> (tq_send_now (tq s1) \<or> \<not> rc_pos r1 \<or> k = 0)
                       then send_tcaravan e s1 else (False, s1)) = (stop, s2)" by fastforce
  have st: "try_send_loop e (Suc k) n ret s =
      (if stop then Some (Ret 0, n, s2) else if \<not> rc_pos r1 then Some (r1, n, s2) else try_send_loop e k (Suc n) r1 s2)"
    using one c by simp
  show ?case
    using Suc.prems Suc.IH [of "Suc n" r1 s2] unfolding st by (auto split: if_split_asm)
qed

lemma io_round_counts:
  assumes "io_round e p b ops s = Some (True, pending, ops1, s1)"
  shows "ops < ops1 \<and> int ops1 < nvmet_tcp_io_work_budget b"
proof -
  obtain n k t m s2 where r: "nvmet_tcp_try_recv e p (nvmet_tcp_io_recv_budget b) ops s = Some (Ret n, k, t)"
      "nvmet_tcp_try_send e (nvmet_tcp_io_send_budget b) k t = Some (Ret m, ops1, s2)" "0 < n \<or> 0 < m"
      "int ops1 < nvmet_tcp_io_work_budget b"
    using assms by (auto simp: io_round_def Let_def split: bind_splits rc.splits prod.splits)
  then show ?thesis
    using try_recv_loop_counts [OF r(1) [unfolded nvmet_tcp_try_recv_def]]
      try_send_loop_counts [OF r(2) [unfolded nvmet_tcp_try_send_def]] by auto
qed

fun io_rounds :: "tenv \<Rightarrow> renv \<Rightarrow> budgets \<Rightarrow> nat \<Rightarrow> nat \<Rightarrow> target \<Rightarrow> (nat \<times> target) option" where
  "io_rounds e p b 0 ops s = Some (ops, s)"
| "io_rounds e p b (Suc n) ops s = do {
     (go, pending, ops1, s1) \<leftarrow> io_round e p b ops s;
     if go then io_rounds e p b n ops1 s1 else None }"

lemma tio_work_loop_ends:
  "tio_work_loop e p b ops s = None \<Longrightarrow>
   \<exists>n ops' s'. int ops + int n \<le> max (int ops) (nvmet_tcp_io_work_budget b) \<and>
     io_rounds e p b n ops s = Some (ops', s') \<and> io_round e p b ops' s' = None"
proof (induction "nat (nvmet_tcp_io_work_budget b - int ops)" arbitrary: ops s rule: less_induct)
  case less
  show ?case
  proof (cases "io_round e p b ops s")
    case None
    show ?thesis by (rule exI [of _ 0], rule exI [of _ ops], rule exI [of _ s]) (use None in simp)
  next
    case (Some x)
    obtain go pending ops1 s1 where x: "x = (go, pending, ops1, s1)" by (cases x)
    have go: go using less.prems Some x by (subst (asm) tio_work_loop.simps) (simp split: if_split_asm)
    note c = io_round_counts [OF Some [unfolded x, simplified go]]
    have "tio_work_loop e p b ops1 s1 = None"
      using less.prems Some x go by (subst (asm) tio_work_loop.simps) simp
    then obtain n ops' s' where n: "int ops1 + int n \<le> max (int ops1) (nvmet_tcp_io_work_budget b)"
        "io_rounds e p b n ops1 s1 = Some (ops', s')" "io_round e p b ops' s' = None"
      using less.hyps [of ops1 s1] c by auto
    show ?thesis by (rule exI [of _ "Suc n"], rule exI [of _ ops'], rule exI [of _ s']) (use n Some x go c in simp)
  qed
qed

lemma pdu_step_once:
  assumes "sizeof_hdr p < rcv_offset (tq s) + rcv_left (tq s)"
  shows "pdu_step e p k s = pdu_step e p k' s"
proof -
  obtain x s0 where r: "tdo_recvmsg p (rcv_left (tq s)) s = (x, s0)" by fastforce
  then have "tq s0 = tq s" by (auto simp: tdo_recvmsg_def outside_call_def)
  then show ?thesis using assms r by (auto simp: pdu_step_def Let_def split: sum.split)
qed

lemma pdu_step_cong:
  assumes "\<And>s1. sizeof_hdr p = rcv_offset (tq s1) \<Longrightarrow> sizeof_hdr p < rcv_offset (tq s1) + rcv_left (tq s1) \<Longrightarrow> k s1 = k' s1"
    and sizes: "\<And>ty. nvmet_tcp_pdu_valid ty \<Longrightarrow> sizeof_hdr p < nvmet_tcp_pdu_size e p ty"
  shows "pdu_step e p k s = pdu_step e p k' s"
proof -
  have "k (upd_tq (\<lambda>q. q\<lparr>rcv_left := h - rcv_offset q + nvmet_tcp_hdgst_len e q\<rparr>) s1) =
        k' (upd_tq (\<lambda>q. q\<lparr>rcv_left := h - rcv_offset q + nvmet_tcp_hdgst_len e q\<rparr>) s1)"
    if "rcv_offset (tq s1) = sizeof_hdr p" "nvmet_tcp_pdu_valid ty" "h = nvmet_tcp_pdu_size e p ty" for s1 h ty
    using assms(1) [of "upd_tq (\<lambda>q. q\<lparr>rcv_left := h - rcv_offset q + nvmet_tcp_hdgst_len e q\<rparr>) s1"] sizes [OF that(2)] that by simp
  then show ?thesis
    by (cases "tdo_recvmsg p (rcv_left (tq s)) s") (auto simp: pdu_step_def Let_def split: sum.split)
qed

lemma try_recv_pdu_two:
  assumes "\<And>ty. nvmet_tcp_pdu_valid ty \<Longrightarrow> sizeof_hdr p < nvmet_tcp_pdu_size e p ty"
  shows "nvmet_tcp_try_recv_pdu e p s = pdu_step e p (pdu_step e p k) s"
proof -
  have "nvmet_tcp_try_recv_pdu e p s = pdu_step e p (nvmet_tcp_try_recv_pdu e p) s"
    by (rule nvmet_tcp_try_recv_pdu.simps)
  also have "\<dots> = pdu_step e p (pdu_step e p k) s"
    by (rule pdu_step_cong [OF _ assms]) (subst nvmet_tcp_try_recv_pdu.simps, rule pdu_step_once)
  finally show ?thesis .
qed

text \<open>
  C12: The work functions return. The loop of \<open>nvmet_tcp_io_work\<close> has a result unless one of the rounds it
  makes has none, and it makes at most as many rounds as its budget. A header is read in at most two calls of
  the socket: what would follow a third does not matter.
\<close>

theorem io_work_terminates:
  assumes "\<And>ty. nvmet_tcp_pdu_valid ty \<Longrightarrow> sizeof_hdr p < nvmet_tcp_pdu_size e p ty"
  shows "(tio_work_loop e p b 0 s = None \<longrightarrow>
      (\<exists>n ops' s'. int n \<le> max 0 (nvmet_tcp_io_work_budget b) \<and> io_rounds e p b n 0 s = Some (ops', s') \<and> io_round e p b ops' s' = None)) \<and>
    nvmet_tcp_try_recv_pdu e p s = pdu_step e p (pdu_step e p k) s"
  using tio_work_loop_ends [of e p b 0 s] try_recv_pdu_two [OF assms] by simp

theorem io_work_terminates_witness:
  "nvmet_tcp_try_recv_pdu ex_tenv ex_renv ex_read = pdu_step ex_tenv ex_renv (pdu_step ex_tenv ex_renv (\<lambda>_. None)) ex_read"
proof -
  have "sizeof_hdr ex_renv < nvmet_tcp_pdu_size ex_tenv ex_renv ty" if "nvmet_tcp_pdu_valid ty" for ty
    using that by (auto simp: nvmet_tcp_pdu_valid_def nvmet_tcp_pdu_size_def ex_renv_def ex_tenv_def)
  then show ?thesis using io_work_terminates [of ex_renv ex_tenv _ ex_read] by blast
qed

end
