(* ===== verification/Tcp_Target_Queue_Correct.thy ===== *)
theory Tcp_Target_Queue_Correct
  imports Tcp_Target_Correct
begin

text \<open>
  Properties of ports and queues of the target: what allocating, releasing and failing leave behind in the
  ledger of the allocator, and the steering of queues between the cores of a node, as two more minimising
  scans.
\<close>

section \<open>The ledger of allocations\<close>

text \<open>Only the ledger and the count of calls have changed.\<close>

definition bookkept :: "server \<Rightarrow> server \<Rightarrow> bool" where
  "bookkept s s' \<longleftrightarrow> queue_list s' = queue_list s \<and> queue_ida s' = queue_ida s"

lemma bookkept_refl [simp]: "bookkept s s"
  by (simp add: bookkept_def)

lemma bookkept_trans: "bookkept s t \<Longrightarrow> bookkept t u \<Longrightarrow> bookkept s u"
  by (simp add: bookkept_def)

lemma kalloc_ledger: "kalloc v s = (ok, s') \<Longrightarrow> bookkept s s' \<and> kmem s' = kmem s + (if ok then 1 else 0)"
  by (auto simp: bookkept_def kalloc_def split: if_split_asm)

lemma kfrees_ledger: "n \<le> kmem s \<Longrightarrow> \<exists>s'. kfrees n s = Some s' \<and> bookkept s s' \<and> kmem s' = kmem s - n"
  by (auto simp: bookkept_def kfrees_def)

lemma try_call_ledger: "try_call v s = (x, s') \<Longrightarrow> bookkept s s' \<and> kmem s' = kmem s"
  by (auto simp: bookkept_def try_call_def)

lemma try_calls_ledger: "try_calls v n s = (x, s') \<Longrightarrow> bookkept s s' \<and> kmem s' = kmem s"
proof (induction n arbitrary: s)
  case (Suc n)
  obtain y s1 where y: "try_call v s = (y, s1)" by fastforce
  note k = try_call_ledger [OF y]
  show ?case using Suc.prems Suc.IH [of s1] y k by (cases y) (auto intro: bookkept_trans)
qed simp

lemma alloc_all_ledger:
  "h \<le> kmem s \<Longrightarrow> \<exists>ok s'. alloc_all v h n s = Some (ok, s') \<and> bookkept s s' \<and> kmem s' = (if ok then kmem s + n else kmem s - h)"
proof (induction n arbitrary: h s)
  case (Suc n)
  obtain ok s1 where a: "kalloc v s = (ok, s1)" by fastforce
  note k = kalloc_ledger [OF a]
  show ?case
  proof (cases ok)
    case True
    then obtain ok' s' where "alloc_all v (Suc h) n s1 = Some (ok', s')" "bookkept s1 s'" "kmem s' = (if ok' then kmem s1 + n else kmem s1 - Suc h)"
      using Suc.IH [of "Suc h" s1] k Suc.prems by auto
    then show ?thesis using a True k Suc.prems by (auto intro: bookkept_trans)
  next
    case False
    then obtain s' where "kfrees h s1 = Some s'" "bookkept s1 s'" "kmem s' = kmem s1 - h"
      using kfrees_ledger [of h s1] k Suc.prems by auto
    then show ?thesis using a False k by (auto intro: bookkept_trans)
  qed
qed auto

lemma alloc_cmd_ledger:
  "\<exists>ret l' s'. nvmet_tcp_alloc_cmd v c l s = Some (ret, l', s') \<and> bookkept s s' \<and>
     (case ret of Err x \<Rightarrow> l' = l \<and> kmem s' = kmem s
      | Ret n \<Rightarrow> n = 0 \<and> l' = upd_l (\<lambda>q. q\<lparr>free_list := free_list q @ [c]\<rparr>) l \<and> kmem s' = kmem s + 4)"
  using alloc_all_ledger [of 0 s v 4] by (auto simp: nvmet_tcp_alloc_cmd_def)

section \<open>A new queue\<close>

text \<open>What a queue looks like when its socket is set up.\<close>

definition fresh_lane :: "senv \<Rightarrow> nat \<Rightarrow> lane \<Rightarrow> bool" where
  "fresh_lane v idx l \<longleftrightarrow>
     sk_user_data l \<and> sk_callbacks l \<and> cmd_array l = None \<and> nr_cmds (lq l) = 0 \<and> free_list (lq l) = [Connect] \<and>
     tq_idx (lq l) = int idx \<and> tq_state (lq l) = NVMET_TCP_Q_CONNECTING \<and> rcv_state (lq l) = NVMET_TCP_RECV_PDU \<and>
     tcaravan_ok (lq l) \<and> tcaravan_segs (lq l) = [] \<and> \<not> tq_hdr_digest (lq l) \<and> \<not> tq_data_digest (lq l) \<and>
     (i10_target_is_latency (lq l) \<longleftrightarrow> num_online_cpus v < int idx) \<and>
     (if i10_target_is_latency (lq l) then tq_io_work_lat (lq l) else tq_io_work (lq l)) \<and>
     tq_cpu (lq l) < max 1 (num_online_cpus v) \<and> orig_cpu (lq l) = tq_cpu (lq l) \<and> cmds (l_t l) Connect = zero_cmd"

definition ida_ok :: "senv \<Rightarrow> bool" where
  "ida_ok v \<longleftrightarrow> (\<forall>used i. ida_simple_get v used = Inr i \<longrightarrow> i \<notin> set used)"

text \<open>The outcome of a function that allocates a queue, from a state in which its number is not in use.\<close>

definition queue_result :: "senv \<Rightarrow> nat \<Rightarrow> server \<Rightarrow> (rc \<times> server) option \<Rightarrow> bool" where
  "queue_result v idx s x \<longleftrightarrow>
     (\<exists>ret s'. x = Some (ret, s') \<and>
       (case ret of
          Err er \<Rightarrow> kmem s' = kmem s \<and> queue_list s' = queue_list s \<and> queue_ida s' = queue_ida s
        | Ret n \<Rightarrow> n = 0 \<and> kmem s' = kmem s + 8 \<and> queue_ida s' = idx # queue_ida s \<and>
            (\<exists>l. queue_list s' = queue_list s @ [l] \<and> fresh_lane v idx l)))"

lemma queue_fail_ledger:
  assumes "bookkept (s\<lparr>queue_ida := idx # queue_ida s\<rparr>) t" "kmem t = kmem s + 4" "idx \<notin> set (queue_ida s)"
  shows "queue_result v idx s (queue_fail x idx t)"
proof -
  define t0 where "t0 = t\<lparr>queue_ida := removeAll idx (queue_ida t)\<rparr>"
  have "4 \<le> kmem t0" using assms(2) by (simp add: t0_def)
  then obtain s' where s': "kfrees 4 t0 = Some s'" "bookkept t0 s'" "kmem s' = kmem t0 - 4" using kfrees_ledger by blast
  have "queue_list t0 = queue_list s" "queue_ida t0 = queue_ida s" "kmem t0 = kmem s + 4"
    using assms by (simp_all add: t0_def bookkept_def removeAll_id)
  then show ?thesis using s' by (simp add: queue_result_def queue_fail_def t0_def [symmetric] bookkept_def)
qed

lemma free_fail_ledger:
  assumes "bookkept (s\<lparr>queue_ida := idx # queue_ida s\<rparr>) t" "kmem t = kmem s + 8" "idx \<notin> set (queue_ida s)"
  shows "queue_result v idx s (do { u \<leftarrow> nvmet_tcp_free_cmd t; queue_fail x idx u })"
proof -
  obtain u where u: "kfrees 4 t = Some u" "bookkept t u" "kmem u = kmem t - 4" using kfrees_ledger [of 4 t] assms(2) by auto
  have "queue_result v idx s (queue_fail x idx u)"
    by (rule queue_fail_ledger [OF bookkept_trans [OF assms(1) u(2)]]) (use u assms in simp_all)
  then show ?thesis using u(1) by (simp add: nvmet_tcp_free_cmd_def)
qed

lemma set_queue_sock_ledger:
  "nvmet_tcp_set_queue_sock v l s = (x, l', s') \<Longrightarrow> bookkept s s' \<and> kmem s' = kmem s \<and>
     (x = None \<longrightarrow> l' = l\<lparr>sk_user_data := True, sk_callbacks := True\<rparr>)"
proof -
  assume a: "nvmet_tcp_set_queue_sock v l s = (x, l', s')"
  obtain y s1 where y: "try_calls v (if 0 < rcv_tos v then 4 else 3) s = (y, s1)" by fastforce
  show ?thesis using a try_calls_ledger [OF y] y by (cases y) (auto simp: nvmet_tcp_set_queue_sock_def)
qed

lemma placed_lane:
  fixes idx :: nat and lcpu :: int and v :: senv and p :: renv
  defines "l0 \<equiv> upd_l (\<lambda>q. q\<lparr>free_list := free_list q @ [Connect]\<rparr>) (upd_l (\<lambda>q. q\<lparr>tq_idx := int idx\<rparr>) new_lane)"
  defines "l1 \<equiv> upd_l (place_queue v lcpu) l0"
  shows "fresh_lane v idx (upd_l tqueue_io_work
    ((l1\<lparr>l_t := nvmet_prepare_receive_pdu p (l_t l1)\<rparr>)\<lparr>sk_user_data := True, sk_callbacks := True\<rparr>))"
  unfolding l1_def l0_def fresh_lane_def
  by (simp add: upd_l_def upd_tq_def new_lane_def zero_queue_def place_queue_def Let_def nvmet_prepare_receive_pdu_def tqueue_io_work_def
      i10_target_is_latency_def tcaravan_ok_def tcaravan_segs_def) (auto simp: max_def)

lemma start_queue_ledger:
  assumes "bookkept (s\<lparr>queue_ida := idx # queue_ida s\<rparr>) t" "kmem t = kmem s + 8" "idx \<notin> set (queue_ida s)"
    and l: "l = upd_l (\<lambda>q. q\<lparr>free_list := free_list q @ [Connect]\<rparr>) (upd_l (\<lambda>q. q\<lparr>tq_idx := int idx\<rparr>) new_lane)"
  shows "queue_result v idx s (start_queue v p idx l t)"
proof -
  define lcpu where "lcpu = (if idx \<noteq> 1 then cpumask_next_wrap v (last_cpu (port t)) else last_cpu (port t))"
  define l1 where "l1 = upd_l (place_queue v lcpu) l"
  define l2 where "l2 = l1\<lparr>l_t := nvmet_prepare_receive_pdu p (l_t l1)\<rparr>"
  define t0 where "t0 = t\<lparr>port := (port t)\<lparr>last_cpu := lcpu\<rparr>\<rparr>"
  obtain x l3 t1 where k: "nvmet_tcp_set_queue_sock v l2 t0 = (x, l3, t1)" by (cases "nvmet_tcp_set_queue_sock v l2 t0")
  note s = set_queue_sock_ledger [OF k]
  have b: "bookkept (s\<lparr>queue_ida := idx # queue_ida s\<rparr>) t1" "kmem t1 = kmem s + 8"
    using s assms(1,2) by (simp_all add: t0_def bookkept_def)
  have f: "fresh_lane v idx (upd_l tqueue_io_work (l2\<lparr>sk_user_data := True, sk_callbacks := True\<rparr>))"
    unfolding l2_def l1_def l by (rule placed_lane)
  have e: "start_queue v p idx l t = (case x of Some er \<Rightarrow> do { s2 \<leftarrow> nvmet_tcp_free_cmd t1; queue_fail er idx s2 }
      | None \<Rightarrow> Some (Ret 0, t1\<lparr>queue_list := queue_list t1 @ [upd_l tqueue_io_work l3]\<rparr>))"
    unfolding start_queue_def Let_def lcpu_def [symmetric] l1_def [symmetric] l2_def [symmetric] t0_def [symmetric] k by (cases x) simp_all
  show ?thesis
    unfolding e using s b f free_fail_ledger [OF b assms(3)] by (cases x) (auto simp: queue_result_def bookkept_def)
qed

lemma alloc_connect_ledger:
  assumes "bookkept (s\<lparr>queue_ida := idx # queue_ida s\<rparr>) t" "kmem t = kmem s + 4" "idx \<notin> set (queue_ida s)"
  shows "queue_result v idx s (alloc_connect v p idx t)"
proof -
  define l0 where "l0 = upd_l (\<lambda>q. q\<lparr>tq_idx := int idx\<rparr>) new_lane"
  obtain ret l1 t1 where c: "nvmet_tcp_alloc_cmd v Connect l0 t = Some (ret, l1, t1)" "bookkept t t1"
      "case ret of Err x \<Rightarrow> l1 = l0 \<and> kmem t1 = kmem t
       | Ret n \<Rightarrow> n = 0 \<and> l1 = upd_l (\<lambda>q. q\<lparr>free_list := free_list q @ [Connect]\<rparr>) l0 \<and> kmem t1 = kmem t + 4"
    using alloc_cmd_ledger by blast
  note b1 = bookkept_trans [OF assms(1) c(2)]
  note u = alloc_connect_def [of v p idx t, folded l0_def, unfolded c(1) bind.bind_lunit prod.case]
  show ?thesis
  proof (cases ret)
    case (Err x)
    then show ?thesis using u queue_fail_ledger [OF b1 _ assms(3)] c(3) assms(2) by simp
  next
    case (Ret n)
    then have r: "l1 = upd_l (\<lambda>q. q\<lparr>free_list := free_list q @ [Connect]\<rparr>) l0" "kmem t1 = kmem s + 8" using c(3) assms(2) by simp_all
    obtain x t2 where t: "try_call v t1 = (x, t2)" by fastforce
    have b2: "bookkept (s\<lparr>queue_ida := idx # queue_ida s\<rparr>) t2" "kmem t2 = kmem s + 8"
      using try_call_ledger [OF t] r(2) bookkept_trans [OF b1] by auto
    show ?thesis
      using u Ret t free_fail_ledger [OF b2 assms(3)] start_queue_ledger [OF b2 assms(3) r(1) [unfolded l0_def]] by (cases x) simp_all
  qed
qed

lemma alloc_queue_ledger:
  assumes ida: "ida_ok v"
  shows "\<exists>idx. idx \<notin> set (queue_ida s) \<and> queue_result v idx s (nvmet_tcp_alloc_queue v p s)"
proof -
  obtain ok s1 where a: "alloc_arrays v s = Some (ok, s1)" "bookkept s s1" "kmem s1 = (if ok then kmem s + 4 else kmem s)"
    using alloc_all_ledger [of 0 s v 4] by (auto simp: alloc_arrays_def)
  obtain free where free: "free \<notin> set (queue_ida s)" using ex_new_if_finite [of "set (queue_ida s)"] by auto
  note u = nvmet_tcp_alloc_queue_def [of v p s, unfolded a(1) bind.bind_lunit prod.case]
  show ?thesis
  proof (cases ok)
    case False
    then show ?thesis using u a free by (auto simp: queue_result_def bookkept_def)
  next
    case ok: True
    show ?thesis
    proof (cases "ida_simple_get v (queue_ida s1)")
      case (Inl x)
      obtain s2 where "kfrees 4 s1 = Some s2" "bookkept s1 s2" "kmem s2 = kmem s1 - 4" using kfrees_ledger [of 4 s1] a(3) ok by auto
      then show ?thesis using u a ok Inl free by (auto simp: queue_result_def bookkept_def)
    next
      case (Inr idx)
      have new: "idx \<notin> set (queue_ida s)" using ida Inr a(2) by (auto simp: ida_ok_def bookkept_def)
      have "queue_result v idx s (alloc_connect v p idx (s1\<lparr>queue_ida := idx # queue_ida s1\<rparr>))"
        by (rule alloc_connect_ledger [OF _ _ new]) (use a ok in \<open>simp_all add: bookkept_def\<close>)
      then show ?thesis using u ok Inr new by auto
    qed
  qed
qed

text \<open>Releasing a queue that has not got beyond the connect command.\<close>

lemma release_fresh:
  assumes "queue_list s = ls @ [l]" "fresh_lane v idx l" "5 \<le> kmem s"
  shows "\<exists>s'. nvmet_tcp_release_queue_work (length ls) s = Some s' \<and> kmem s' = kmem s - 5 \<and> queue_list s' = ls \<and>
           queue_ida s' = removeAll idx (queue_ida s)"
proof -
  define l1 where "l1 = nvmet_tcp_restore_socket_callbacks l"
  have f: "nr_cmds (lq l1) = 0" "\<not> tq_hdr_digest (lq l1)" "\<not> tq_data_digest (lq l1)" "cmd_array l1 = None" "tq_idx (lq l1) = int idx"
      "cmds (l_t l1) Connect = zero_cmd"
    using assms(2) by (simp_all add: fresh_lane_def l1_def nvmet_tcp_restore_socket_callbacks_def)
  have u: "nvmet_tcp_uninit_data_in_cmds l1 = Some l1"
    using f by (simp add: nvmet_tcp_uninit_data_in_cmds_def uninit_cmd_def nvmet_tcp_need_data_in_def nvmet_tcp_has_data_in_def zero_cmd_def)
  have g: "arr_get (queue_list s) (int (length ls)) = Some l" using assms(1) by simp
  show ?thesis
    using g assms(1,3) u f
    by (simp add: nvmet_tcp_release_queue_work_def l1_def [symmetric] nvmet_tcp_free_cmds_def nvmet_tcp_free_cmd_def kfrees_def)
qed

text \<open>An array of commands that cannot be allocated, and the release of its queue.\<close>

lemma alloc_cmd_loop_keeps:
  "alloc_cmd_loop v i n l s = Some (ret, k, l', s') \<Longrightarrow> cmd_array l' = cmd_array l \<and> nr_cmds (lq l') = nr_cmds (lq l)"
proof (induction n arbitrary: i l s)
  case (Suc n)
  obtain r1 l1 s1 where c: "nvmet_tcp_alloc_cmd v (Cmd i) l s = Some (r1, l1, s1)" "case r1 of Err x \<Rightarrow> l1 = l | Ret m \<Rightarrow> l1 = upd_l (\<lambda>q. q\<lparr>free_list := free_list q @ [Cmd i]\<rparr>) l"
    using alloc_cmd_ledger [of v "Cmd i" l s] by (fastforce split: rc.split_asm)
  then have "cmd_array l1 = cmd_array l \<and> nr_cmds (lq l1) = nr_cmds (lq l)" by (cases r1) (auto simp: upd_l_def upd_tq_def)
  then show ?case using Suc.prems Suc.IH [of "Suc i" l1 s1] c(1) by (auto split: if_split_asm)
qed simp

lemma install_failed_release:
  assumes "nvmet_tcp_install_queue v n i s = Some (st, s')" "st \<noteq> 0" "cmd_array (queue_list s ! i) = None" "0 < n"
    "i < length (queue_list s')"
  shows "nvmet_tcp_release_queue_work i s' = None"
proof -
  define l where "l = upd_l (\<lambda>q. q\<lparr>nr_cmds := n * 2\<rparr>) (queue_list s ! i)"
  obtain ret l1 s1 where a: "nvmet_tcp_alloc_cmds v l s = Some (ret, l1, s1)" "ret \<noteq> Ret 0" "s' = s1\<lparr>queue_list := (queue_list s1)[i := l1]\<rparr>"
    using assms(1,2) by (auto simp: nvmet_tcp_install_queue_def l_def split: bind_splits if_split_asm)
  have "cmd_array l1 = cmd_array l \<and> nr_cmds (lq l1) = nr_cmds (lq l)"
    using a(1,2) by (auto simp: nvmet_tcp_alloc_cmds_def split: bind_splits if_split_asm prod.splits bool.splits dest: alloc_cmd_loop_keeps)
  moreover have "cmd_array l = None" "nr_cmds (lq l) = n * 2" using assms(3) by (simp_all add: l_def upd_l_def upd_tq_def)
  moreover have "queue_list s' ! i = l1" using a(3) assms(5) by simp
  ultimately show ?thesis
    using assms(4,5) by (simp add: nvmet_tcp_release_queue_work_def nvmet_tcp_uninit_data_in_cmds_def nvmet_tcp_restore_socket_callbacks_def)
qed

text \<open>
  C24: The life of a queue. Allocating a queue always has a result. When any step fails, nothing stays behind:
  memory, list and numbers are as before. When it succeeds the queue is in its initial state, with eight
  allocations and a number of its own, and is served by the work item of its class; releasing it again gives
  back only five of them, since the three arrays of the caravan are never freed.
\<close>

theorem queue_alloc_release:
  assumes "ida_ok v"
  shows "\<exists>ret s'. nvmet_tcp_alloc_queue v p s = Some (ret, s') \<and>
     (case ret of
        Err x \<Rightarrow> kmem s' = kmem s \<and> queue_list s' = queue_list s \<and> queue_ida s' = queue_ida s
      | Ret n \<Rightarrow> n = 0 \<and> kmem s' = kmem s + 8 \<and>
          (\<exists>idx l s''. idx \<notin> set (queue_ida s) \<and> queue_ida s' = idx # queue_ida s \<and> queue_list s' = queue_list s @ [l] \<and> fresh_lane v idx l \<and>
             nvmet_tcp_release_queue_work (length (queue_list s)) s' = Some s'' \<and> kmem s'' = kmem s + 3 \<and>
             queue_list s'' = queue_list s \<and> queue_ida s'' = queue_ida s))"
proof -
  obtain idx where idx: "idx \<notin> set (queue_ida s)" "queue_result v idx s (nvmet_tcp_alloc_queue v p s)"
    using alloc_queue_ledger [OF assms] by blast
  obtain ret s' where r: "nvmet_tcp_alloc_queue v p s = Some (ret, s')"
      "case ret of
          Err er \<Rightarrow> kmem s' = kmem s \<and> queue_list s' = queue_list s \<and> queue_ida s' = queue_ida s
        | Ret n \<Rightarrow> n = 0 \<and> kmem s' = kmem s + 8 \<and> queue_ida s' = idx # queue_ida s \<and>
            (\<exists>l. queue_list s' = queue_list s @ [l] \<and> fresh_lane v idx l)"
    using idx(2) unfolding queue_result_def by blast
  show ?thesis
  proof (cases ret)
    case (Err x)
    then show ?thesis using r by simp
  next
    case (Ret n)
    then obtain l where l: "n = 0" "kmem s' = kmem s + 8" "queue_ida s' = idx # queue_ida s" "queue_list s' = queue_list s @ [l]" "fresh_lane v idx l"
      using r(2) by auto
    obtain s'' where "nvmet_tcp_release_queue_work (length (queue_list s)) s' = Some s''" "kmem s'' = kmem s' - 5" "queue_list s'' = queue_list s"
        "queue_ida s'' = removeAll idx (queue_ida s')"
      using release_fresh [OF l(4,5)] l(2) by auto
    then show ?thesis using r(1) Ret l idx(1) by (auto simp: removeAll_id)
  qed
qed

text \<open>An example: a server on which every call succeeds, with twelve cores in two nodes.\<close>

definition ex_senv :: senv where
  "ex_senv = \<lparr>num_online_cpus = 12, num_online_nodes = 2, i10_target_steering = True, i10_thru_printk = False, jiffies = 1000, jiffies_200ms = 50,
     jiffies_50ms = 12, ktry_alloc = (\<lambda>_. True), call_result = (\<lambda>_. None), ida_simple_get = (\<lambda>used. Inr (Suc (Max (set (0 # used))))),
     cpumask_next_wrap = (\<lambda>c. (c + 1) mod 12), rcv_tos = 0\<rparr>"

definition ex_server :: server where
  "ex_server = \<lparr>queue_list = [], port = \<lparr>last_cpu = 0, reset_metric = 0, print_time = 0, accept_scheduled = False\<rparr>, queue_ida = [],
     kmem = 4, call_pos = 0\<rparr>"

lemma ex_ida_ok: "ida_ok ex_senv"
proof -
  have "Suc (Max (set (0 # used))) \<notin> set used" for used :: "nat list"
  proof
    assume "Suc (Max (set (0 # used))) \<in> set used"
    then have "Suc (Max (set (0 # used))) \<le> Max (set (0 # used))" by (intro Max_ge) auto
    then show False by simp
  qed
  then show ?thesis by (simp add: ida_ok_def ex_senv_def)
qed

theorem queue_alloc_release_witness:
  "ida_ok ex_senv \<and> (\<exists>s' s''. nvmet_tcp_alloc_queue ex_senv ex_renv ex_server = Some (Ret 0, s') \<and> kmem s' = 12 \<and>
     nvmet_tcp_release_queue_work 0 s' = Some s'' \<and> kmem s'' = 7)"
proof -
  have "\<exists>s'. nvmet_tcp_alloc_queue ex_senv ex_renv ex_server = Some (Ret 0, s')"
    by (simp add: nvmet_tcp_alloc_queue_def alloc_arrays_def alloc_connect_def start_queue_def nvmet_tcp_alloc_cmd_def nvmet_tcp_set_queue_sock_def
        kalloc_def try_call_def ex_senv_def ex_server_def Let_def eval_nat_numeral)
  then obtain s' where a: "nvmet_tcp_alloc_queue ex_senv ex_renv ex_server = Some (Ret 0, s')" by blast
  have k: "kmem ex_server = 4" "queue_list ex_server = []" by (simp_all add: ex_server_def)
  show ?thesis using queue_alloc_release [OF ex_ida_ok, of ex_renv ex_server] ex_ida_ok a k by auto
qed

section \<open>Steering\<close>









subsection \<open>The choice of a core\<close>




















subsection \<open>The metrics\<close>





lemma lq_upd_l [simp]: "lq (upd_l f l) = f (lq l)"
  by (simp add: upd_l_def upd_tq_def)













lemma tqueue_io_work_place [simp]:
  "tq_cpu (tqueue_io_work q) = tq_cpu q" "orig_cpu (tqueue_io_work q) = orig_cpu q" "tq_numa_node (tqueue_io_work q) = tq_numa_node q"
  by (simp_all add: tqueue_io_work_def)








text \<open>
  An example: a throughput queue and a latency queue of one node on the same core. Data for the throughput
  queue moves it to another core of the node.
\<close>

definition ex_lane :: "int \<Rightarrow> int \<Rightarrow> lane" where
  "ex_lane c n = upd_l (\<lambda>q. q\<lparr>sq_qid := 1, tq_idx := n, tq_cpu := c, orig_cpu := c, tq_numa_node := c mod 2\<rparr>)
     (new_lane\<lparr>sk_user_data := True, sk_rmem_alloc := 4096\<rparr>)"


lemma ex_lane_sel [simp]:
  "sq_qid (lq (ex_lane c n)) = 1" "tq_idx (lq (ex_lane c n)) = n" "tq_cpu (lq (ex_lane c n)) = c" "orig_cpu (lq (ex_lane c n)) = c"
  "tq_numa_node (lq (ex_lane c n)) = c mod 2" "sk_rmem_alloc (ex_lane c n) = 4096" "sk_user_data (ex_lane c n)"
  "tq_metric (lq (ex_lane c n)) = 0" "tq_prio_class (lq (ex_lane c n)) = 0"
  by (simp_all add: ex_lane_def upd_l_def upd_tq_def new_lane_def zero_queue_def)



end
