(* ===== verification/Spec2Isabelle.thy ===== *)
theory Spec2Isabelle
  imports Blk_Mq_Dispatch_Correct Blk_Mq_Setup_Mem Blk_Mq_Poll Tcp_Host_Stream Tcp_Host_Progress Tcp_Host_Ctrl Switch_Lanes
    Tcp_Target_Queue_Correct
begin

text \<open>
  \<^bold>\<open>blk-switch: a verification development.\<close>

  The repository changes the Linux block layer and the NVMe-over-TCP drivers so that latency-sensitive
  (L) and throughput-bound (T) applications can share a host: L-requests get their own hardware
  queues, T-requests are steered away from busy cores, applications are moved between cores, and the
  drivers of host and target aggregate PDUs into i10 \<open>caravans\<close>. A bio enters the block layer in
  \<open>blk_mq_make_request\<close>, becomes a request whose hardware queue blk-switch chooses, is dispatched to the host
  driver and put on a send list; the driver sends command and data PDUs, the target receives them, executes
  the command, and answers with data, R2T and response PDUs, which the host completes.

  \<^bold>\<open>Conventions.\<close> The state of a component is a record, an operation a function on it. \<^const>\<open>None\<close> as the value of an
  operation stands for undefined behaviour (an index outside of an array, a null or dangling pointer, memory
  freed twice) and, in the functions defined by \<^theory_text>\<open>partial_function\<close>, for a loop that does not end. Error codes are
  values of \<^typ>\<open>rc\<close> and \<^typ>\<open>errno\<close>. Machine integers are words where they wrap or are compared with a sign. Services
  of the kernel that are not part of the repository (allocator, sockets, timers, tags, digests, layout of
  PDUs, fabrics and target core) are fields of parameter records; their answers are indexed by the number of
  calls made so far. Locks and memory ordering are not modelled: an operation is atomic, and the invariants
  are proved for arbitrary sequences of operations.

  \<^bold>\<open>Theories.\<close>
  \<^item> \<open>Prelude\<close>: words, checked arrays, loops; the interfaces \<open>moving_average\<close>, \<open>min_scan\<close> (a loop that keeps the best
    candidate), \<open>op_invariant\<close> (sequences of operations) and \<open>op_progress\<close> (sequences of operations that are all
    defined), each interpreted on the components below.
  \<^item> \<open>Blk_Types\<close>: structures of \<open>block/blk-mq.h\<close>, \<open>include/linux/blk-mq.h\<close> and \<open>blkdev.h\<close>, and the services the block layer
    uses.
  \<^item> \<open>Blk_Switch\<close>: metrics, application and request steering in \<open>blk_mq_get_request\<close> (\<open>block/blk-mq.c\<close>,
    \<open>block/blk-switch.h\<close>). \<open>Blk_Switch_Correct\<close>: steering is defined on at most 64 CPUs and changes what it should,
    the chosen cores are minimal, metrics lie between their samples; what happens on RDMA queues and beyond 64
    CPUs.
  \<^item> \<open>Blk_Mq_Request\<close>: life of a request: allocation, start, completion, requeue, timeout, end.
    \<open>Blk_Mq_Request_Correct\<close>: counters of requests, references and bytes under all sequences of operations;
    timeouts are reported once; requests with tag 0.
  \<^item> \<open>Blk_Mq_Run\<close>: software queues, running of hardware queues, freeze and quiesce. \<open>Blk_Mq_Run_Correct\<close>: pending work
    is reported and run, order of flushing and dequeueing, choice of the CPU, nesting of freezes.
  \<^item> \<open>Blk_Mq_Dispatch\<close>: driver tags, dispatch of a list, direct issue, plug lists, submission.
    \<open>Blk_Mq_Dispatch_Correct\<close>: no request is lost or offered twice, batches of a plug, busyness average.
  \<^item> \<open>Kobj\<close>: kernel objects with a lifetime and a count of those alive, for the code that sets things up and takes
    them down.
  \<^item> \<open>Blk_Mq_Tags\<close>: requests in pages, maps of requests, tag sets. \<open>Blk_Mq_Tags_Correct\<close>: layout of the requests, tag sets are
    set up and taken down in balance; what a failing allocation leaks.
  \<^item> \<open>Blk_Mq_Setup\<close>: hardware and software contexts, their maps, set-up and release of queues, changes of the number of
    hardware queues, CPUs that go away. \<open>Blk_Mq_Setup_Correct\<close>: the maps are what the driver asked for, requests of a
    dead CPU move; \<open>Blk_Mq_Setup_Mem\<close>: the memory of hardware contexts is accounted for.
  \<^item> \<open>Blk_Mq_Poll\<close>: statistics of completions, hybrid sleep and the polling loop, which returns.
  \<^item> \<open>Tcp_Wire\<close>, \<open>Nvme\<close>: pieces of memory on the wire and what is read of \<open>include/linux/nvme.h\<close>, shared by the two drivers.
  \<^item> \<open>Tcp_Host_Send\<close>, \<open>Tcp_Host_Recv\<close>: the data path of \<open>drivers/nvme/host/tcp.c\<close>: send list, doorbell timer, caravan, send
    states; receive states and handlers of PDUs. \<open>Tcp_Host_Inv\<close>, \<open>Tcp_Host_Correct\<close>: the invariant of a queue,
    the stream only grows, batches ring the doorbell, the timer flushes the caravan; lost parts and digests.
    \<open>Tcp_Host_Stream\<close>: receiving does not depend on how the stream is cut, data reaches its request, errors stop the
    connection.
  \<^item> \<open>Tcp_Host_Cmd\<close>: the operations the block layer calls for a request, which set up its command PDU and queue it.
    \<open>Tcp_Host_Progress\<close>: no operation of the sender leaves an array as long as requests describe their data
    consistently, and the accounting of the caravan; requests of the block layer and R2Ts are of this kind, but
    for an R2T of length zero, which blocks its queue.
  \<^item> \<open>Tcp_Host_Ctrl\<close>: queues and controllers of the host driver: allocation and release with sockets and buffers, kinds of
    I/O queues, set-up, reset and removal of controllers, the module. \<open>Switch_Lanes\<close>: from the class of a task
    through the maps of the queues to the lane of the driver: L- and T-applications stay apart.
  \<^item> \<open>Tcp_Target_Send\<close>, \<open>Tcp_Target_Recv\<close>, \<open>Tcp_Target_Queue\<close>: \<open>drivers/nvme/target/tcp.c\<close>: commands, headers, caravans
    and send states; connection request, capsules, H2C data, digests, work functions; allocation and release
    of queues, socket callbacks with core steering, ports, module. \<open>Tcp_Target_Inv\<close>, \<open>Tcp_Target_Correct\<close>: the caravan of
    the target, layout of the answer to a read, the work loops end; freed pages in a caravan and the header
    digest. \<open>Tcp_Target_Queue_Correct\<close>: ledger of allocations, steering within a node.
  \<^item> This theory: a write across host and target.

  \<^bold>\<open>Bounds.\<close> Loops of the code that end for structural reasons are structural recursions or have a termination
  proof; there is no fuel except the budgets of the code itself. The receive loops of host and target,
  the work loop of the target, the repeated random draw and the polling loop are partial functions; that they have a
  result, or end within their budget, is proved (\<open>recv_segmentation\<close>, \<open>io_work_terminates\<close>, \<open>blk_switch_steer_safe\<close>, \<open>blk_poll_returns\<close>).
  So is the loop that cuts requests out of pages, which ends when a request fits into the largest block of
  pages (\<open>rqs_layout\<close>). The connections that wait at a listening socket are finite in number. Module parameters and the
  number of online CPUs are fields of the parameter records: they do not change during a sequence of operations.

  \<^bold>\<open>Not modelled.\<close> The tag allocator, the spreading of CPUs over queues, the fabrics library and the NVMe and target
  cores, which are not part of the repository and are parameters; properties of the set-up of controllers, which
  is modelled in \<open>Tcp_Host_Ctrl\<close> but of which only the kinds of queues are reasoned about; the RDMA driver, of which the
  repository changes only the type of the transport; the stand-alone i10 drivers, from which the caravans of \<open>tcp.c\<close>
  were taken; configfs attributes; the discovery address text of the target; flags of socket calls and mappings of
  pages; print-outs; the copies of Caladan and SPDK, and scripts, which serve the experiments.
\<close>

section \<open>A write between host and target\<close>

text \<open>The bytes of a PDU on the wire carry the fields of a header.\<close>

definition r2t_carries :: "penv \<Rightarrow> u8 list \<Rightarrow> r2t_hdr \<Rightarrow> bool" where
  "r2t_carries p pdu h \<longleftrightarrow> r2t_command_id p pdu = unat (rh_command_id h) \<and> r2t_length p pdu = rh_length h \<and>
     r2t_offset p pdu = rh_offset h \<and> r2t_ttag p pdu = rh_ttag h"

definition h2c_carries :: "renv \<Rightarrow> u8 list \<Rightarrow> h2c_hdr \<Rightarrow> bool" where
  "h2c_carries p pdu h \<longleftrightarrow> data_ttag p pdu = h2c_ttag h \<and> data_offset p pdu = h2c_data_offset h \<and> data_len_of p pdu = h2c_data_length h"

lemma map_iov_loop_total:
  "n \<le> sum_list (map sg_length gs) \<Longrightarrow> list_all (\<lambda>g. sg_length g < 2 ^ 32) gs \<Longrightarrow>
   \<exists>iov. map_iov_loop 0 gs n = Some iov \<and> segs_len iov = n"
proof (induction gs arbitrary: n)
  case Nil
  then show ?case by simp
next
  case (Cons g gs)
  show ?case
  proof (cases n)
    case 0
    then show ?thesis by simp
  next
    case (Suc m)
    have u: "unat (of_nat (sg_length g) - of_nat 0 :: u32) = sg_length g"
      using Cons.prems(2) by (simp add: unsigned_of_nat take_bit_nat_eq_self_iff)
    have rest: "Suc m - min (Suc m) (sg_length g) \<le> sum_list (map sg_length gs)"
      using Cons.prems(1) Suc by (auto simp: min_def)
    obtain iov where "map_iov_loop 0 gs (Suc m - min (Suc m) (sg_length g)) = Some iov" "segs_len iov = Suc m - min (Suc m) (sg_length g)"
      using Cons.IH [of "Suc m - min (Suc m) (sg_length g)"] rest Cons.prems(2) by auto
    then show ?thesis using Suc u by (simp add: Let_def segs_len_def)
  qed
qed

text \<open>A write command of the target that waits for all of its data.\<close>

definition write_waiting :: "renv \<Rightarrow> nat \<Rightarrow> nat \<Rightarrow> target \<Rightarrow> bool" where
  "write_waiting p n len t \<longleftrightarrow>
     (let x = cmds t (Cmd n) in
      nvmet_tcp_need_data_in x \<and> rbytes_done x = 0 \<and> transfer_len x = len \<and> \<not> init_failed x \<and> iov_live x \<and>
      n < nr_cmds (tq t) \<and> nr_cmds (tq t) \<le> 65536 \<and> len \<le> sum_list (map sg_length (c_sg x)) \<and>
      list_all (\<lambda>g. sg_length g < 2 ^ 32) (c_sg x) \<and> div_round_up len (TPAGE_SIZE p) \<le> length (c_sg x))"

text \<open>What has arrived when the vector of a command is full.\<close>

lemma recv_msg_loop_full:
  "recv_msg_loop p c s = (None, s') \<Longrightarrow>
     tq s' = tq s \<and> (\<exists>bs. length bs = recv_left (cmds s c) \<and>
       cmds s' c = (cmds s c)\<lparr>c_pdu_recv := c_pdu_recv (cmds s c) + length bs, rbytes_done := rbytes_done (cmds s c) + length bs,
                       recv_left := 0, c_rx := c_rx (cmds s c) @ bs\<rparr>)"
proof (induction p c s rule: recv_msg_loop.induct)
  case (1 p c s)
  show ?case
  proof (cases "recv_left (cmds s c) = 0")
    case True
    then have "s' = s" using 1(2) by (simp add: recv_msg_loop.simps [of p c s])
    then show ?thesis using True by (intro conjI exI [of _ "[]"]) simp_all
  next
    case False
    obtain x s1 where g: "tdo_recvmsg p (recv_left (cmds s c)) s = (x, s1)" by fastforce
    obtain b bs where x: "x = Inr (b # bs)"
      using 1(2) False g by (auto simp: recv_msg_loop.simps [of p c s] split: sum.splits list.splits)
    define s2 where "s2 = upd_cmd c (\<lambda>x. x\<lparr>c_pdu_recv := c_pdu_recv x + length (b # bs), rbytes_done := rbytes_done x + length (b # bs),
                 recv_left := recv_left x - length (b # bs), c_rx := c_rx x @ b # bs\<rparr>) s1"
    have e: "recv_msg_loop p c s = recv_msg_loop p c s2" using False g x by (simp add: recv_msg_loop.simps [of p c s] s2_def)
    have s1: "tq s1 = tq s" "cmds s1 = cmds s" using g by (auto simp: tdo_recvmsg_def outside_call_def)
    obtain r where "take (recv_left (cmds s c)) r = b # bs" using g x by (auto simp: tdo_recvmsg_def split: sum.splits)
    then have le: "length (b # bs) \<le> recv_left (cmds s c)" by (metis length_take min.cobounded2)
    obtain cs where cs: "tq s' = tq s2" "length cs = recv_left (cmds s2 c)"
        "cmds s' c = (cmds s2 c)\<lparr>c_pdu_recv := c_pdu_recv (cmds s2 c) + length cs, rbytes_done := rbytes_done (cmds s2 c) + length cs,
                       recv_left := 0, c_rx := c_rx (cmds s2 c) @ cs\<rparr>"
      using 1(1) [OF False g [symmetric] x refl, folded s2_def] 1(2) e by auto
    show ?thesis
      by (rule conjI, use cs(1) s1(1) in \<open>simp add: s2_def\<close>, rule exI [of _ "b # bs @ cs"])
        (use cs s1 le in \<open>simp add: s2_def algebra_simps\<close>)
  qed
qed

lemma h2c_accepted:
  assumes w: "write_waiting p n len t" and h: "h2c_carries p (rcv_pdu (tq t)) h" "h2c_ttag h = of_nat n" "h2c_data_offset h = 0" "h2c_data_length h = len"
  shows "\<exists>t1 iov. nvmet_tcp_handle_h2c_data_pdu p t = Some (Ret 0, t1) \<and> segs_len iov = len \<and> tevents t1 = tevents t \<and>
     tq t1 = (tq t)\<lparr>rcv_cmd := Some (Cmd n), rcv_state := NVMET_TCP_RECV_DATA\<rparr> \<and>
     cmds t1 (Cmd n) = (cmds t (Cmd n))\<lparr>c_pdu_len := len, c_pdu_recv := 0, c_nr_mapped := div_round_up len (TPAGE_SIZE p), sg_idx := 0,
                           recv_iov := iov, recv_left := len\<rparr>"
proof -
  let ?x = "cmds t (Cmd n)"
  have w': "rbytes_done ?x = 0" "iov_live ?x" "n < nr_cmds (tq t)" "nr_cmds (tq t) \<le> 65536" "len \<le> sum_list (map sg_length (c_sg ?x))"
      "list_all (\<lambda>g. sg_length g < 2 ^ 32) (c_sg ?x)"
    using w by (simp_all add: write_waiting_def Let_def)
  have tag: "unat (data_ttag p (rcv_pdu (tq t))) = n"
    using h w'(3,4) by (simp add: h2c_carries_def unsigned_of_nat take_bit_nat_eq_self_iff)
  have d: "data_offset p (rcv_pdu (tq t)) = 0" "data_len_of p (rcv_pdu (tq t)) = len" using h by (simp_all add: h2c_carries_def)
  obtain iov where iov: "map_iov_loop 0 (c_sg ?x) len = Some iov" "segs_len iov = len" using map_iov_loop_total [OF w'(5,6)] by blast
  have z: "div_round_up 0 (TPAGE_SIZE p) = 0" by (cases "TPAGE_SIZE p") (simp_all add: div_round_up_def)
  show ?thesis
    using w' tag d iov z
    by (simp add: nvmet_tcp_handle_h2c_data_pdu_def Let_def nvmet_tcp_map_pdu_iovec_def upd_cmd_def upd_tq_def, blast)
qed

lemma data_executes:
  assumes "rcv_cmd (tq t1) = Some c" "recv_msg_loop p c t1 = (None, t2)" "\<not> tq_data_digest (tq t1)"
    "\<not> init_failed (cmds t1 c)" "rbytes_done (cmds t1 c) + recv_left (cmds t1 c) = transfer_len (cmds t1 c)"
    "sg_idx (cmds t1 c) + c_nr_mapped (cmds t1 c) \<le> length (c_sg (cmds t1 c))"
  shows "\<exists>bs t3. nvmet_tcp_try_recv_data e p t1 = Some (Ret 0, t3) \<and> tevents t3 = tevents t2 @ [Req_execute c] \<and> rcv_state (tq t3) = NVMET_TCP_RECV_PDU \<and>
     length bs = recv_left (cmds t1 c) \<and> c_rx (cmds t3 c) = c_rx (cmds t1 c) @ bs"
proof -
  obtain bs where bs: "tq t2 = tq t1" "length bs = recv_left (cmds t1 c)"
      "cmds t2 c = (cmds t1 c)\<lparr>c_pdu_recv := c_pdu_recv (cmds t1 c) + length bs, rbytes_done := rbytes_done (cmds t1 c) + length bs,
                       recv_left := 0, c_rx := c_rx (cmds t1 c) @ bs\<rparr>"
    using recv_msg_loop_full [OF assms(2)] by blast
  have u: "nvmet_tcp_unmap_pdu_iovec c t2 = Some t2" using bs(3) assms(6) by (simp add: nvmet_tcp_unmap_pdu_iovec_def)
  have "nvmet_tcp_try_recv_data e p t1 = Some (Ret 0, nvmet_prepare_receive_pdu p (tlog (Req_execute c) t2))"
    using assms bs u by (simp add: nvmet_tcp_try_recv_data_def Let_def)
  then show ?thesis using bs by (simp add: nvmet_prepare_receive_pdu_def tlog_def upd_tq_def)
qed

lemma h2c_executes:
  assumes w: "write_waiting p n len t" and dig: "\<not> tq_data_digest (tq t)"
    and h: "h2c_carries p (rcv_pdu (tq t)) h" "h2c_ttag h = of_nat n" "h2c_data_offset h = 0" "h2c_data_length h = len"
  shows "\<exists>t3. nvmet_tcp_handle_h2c_data_pdu p t = Some (Ret 0, t3) \<and>
    (\<forall>t4. recv_msg_loop p (Cmd n) t3 = (None, t4) \<longrightarrow>
      (\<exists>t5 bs. nvmet_tcp_try_recv_data e p t3 = Some (Ret 0, t5) \<and> tevents t5 = tevents t4 @ [Req_execute (Cmd n)] \<and>
         length bs = len \<and> c_rx (cmds t5 (Cmd n)) = c_rx (cmds t (Cmd n)) @ bs))"
proof -
  obtain t3 iov where t3: "nvmet_tcp_handle_h2c_data_pdu p t = Some (Ret 0, t3)"
      "tq t3 = (tq t)\<lparr>rcv_cmd := Some (Cmd n), rcv_state := NVMET_TCP_RECV_DATA\<rparr>"
      "cmds t3 (Cmd n) = (cmds t (Cmd n))\<lparr>c_pdu_len := len, c_pdu_recv := 0, c_nr_mapped := div_round_up len (TPAGE_SIZE p), sg_idx := 0,
                         recv_iov := iov, recv_left := len\<rparr>"
    using h2c_accepted [OF w h] by blast
  have pre: "rcv_cmd (tq t3) = Some (Cmd n)" "\<not> tq_data_digest (tq t3)" "\<not> init_failed (cmds t3 (Cmd n))"
      "rbytes_done (cmds t3 (Cmd n)) + recv_left (cmds t3 (Cmd n)) = transfer_len (cmds t3 (Cmd n))"
      "sg_idx (cmds t3 (Cmd n)) + c_nr_mapped (cmds t3 (Cmd n)) \<le> length (c_sg (cmds t3 (Cmd n)))"
      "recv_left (cmds t3 (Cmd n)) = len" "c_rx (cmds t3 (Cmd n)) = c_rx (cmds t (Cmd n))"
    using t3(2,3) dig w by (simp_all add: write_waiting_def Let_def)
  show ?thesis using t3(1) data_executes [OF pre(1) _ pre(2-5), of p _ e] unfolding pre(6,7) by blast
qed

lemma r2t_asks:
  assumes "write_waiting p n len t" "nvmet_setup_r2t_pdu e (Cmd n) t = Some t1"
  shows "\<exists>h. cmds t1 (Cmd n) = (cmds t (Cmd n))\<lparr>c_offset := 0, c_state := NVMET_TCP_SEND_R2T, r2t_pdu := h\<rparr> \<and> tq t1 = tq t \<and>
     rh_command_id h = c_command_id (cmds t (Cmd n)) \<and> rh_ttag h = of_nat n \<and> rh_length h = len \<and> rh_offset h = 0"
  using assms by (auto simp: nvmet_setup_r2t_pdu_def Let_def write_waiting_def)

lemma r2t_answered:
  assumes "tag_to_rq p (r2t_command_id p pdu) = Some r" "data_sent (reqs s r) = 0" "data_len (reqs s r) = r2t_length p pdu" "r2t_offset p pdu = 0"
  shows "\<exists>s' h. nvme_tcp_handle_r2t e p pdu s = (None, s') \<and> req_h2c (reqs s' r) = Some h \<and> send_list (hq s') = send_list (hq s) @ [r] \<and>
      h2c_ttag h = r2t_ttag p pdu \<and> h2c_data_offset h = 0 \<and> h2c_data_length h = r2t_length p pdu"
proof -
  have q: "send_list (hq (nvme_tcp_queue_request e r x)) = send_list (hq x) @ [r]" for x
    by (simp add: nvme_tcp_queue_request_def Let_def ring_doorbell_def queue_io_work_def)
  show ?thesis
    using assms by (simp add: nvme_tcp_handle_r2t_def nvme_tcp_setup_h2c_data_pdu_def Let_def q queue_request_rx upd_req_def)
qed

lemma write_waiting_upd:
  "write_waiting p n len t \<Longrightarrow> cmds t' (Cmd n) = (cmds t (Cmd n))\<lparr>c_offset := k, c_state := st, r2t_pdu := h\<rparr> \<Longrightarrow> tq t' = (tq t)\<lparr>rcv_pdu := bs\<rparr> \<Longrightarrow>
   write_waiting p n len t'"
  by (simp add: write_waiting_def Let_def)

text \<open>
  C7: A write from request to execution. The target asks for the data of a write with an R2T; the host accepts
  it and answers with a data PDU for exactly these bytes and with the tag of the target's command; the target
  accepts that PDU for the same command, reads exactly the data of the write and executes it.
\<close>

theorem write_round_trip:
  assumes w: "write_waiting rp n len t" and dig: "\<not> tq_data_digest (tq t)"
    and r2t: "nvmet_setup_r2t_pdu te (Cmd n) t = Some t1" "r2t_carries hp pdu (r2t_pdu (cmds t1 (Cmd n)))"
    and host: "tag_to_rq hp (unat (c_command_id (cmds t (Cmd n)))) = Some r" "data_sent (reqs s r) = 0" "data_len (reqs s r) = len"
  shows "\<exists>s' h. nvme_tcp_handle_r2t he hp pdu s = (None, s') \<and> req_h2c (reqs s' r) = Some h \<and> send_list (hq s') = send_list (hq s) @ [r] \<and>
    h2c_ttag h = of_nat n \<and> h2c_data_offset h = 0 \<and> h2c_data_length h = len \<and>
    (\<forall>pdu2. h2c_carries rp pdu2 h \<longrightarrow>
      (\<exists>t3. nvmet_tcp_handle_h2c_data_pdu rp (upd_tq (\<lambda>q. q\<lparr>rcv_pdu := pdu2\<rparr>) t1) = Some (Ret 0, t3) \<and>
        (\<forall>t4. recv_msg_loop rp (Cmd n) t3 = (None, t4) \<longrightarrow>
          (\<exists>t5 bs. nvmet_tcp_try_recv_data te rp t3 = Some (Ret 0, t5) \<and> tevents t5 = tevents t4 @ [Req_execute (Cmd n)] \<and>
             length bs = len \<and> c_rx (cmds t5 (Cmd n)) = c_rx (cmds t (Cmd n)) @ bs))))"
proof -
  obtain k where k: "cmds t1 (Cmd n) = (cmds t (Cmd n))\<lparr>c_offset := 0, c_state := NVMET_TCP_SEND_R2T, r2t_pdu := k\<rparr>" "tq t1 = tq t"
      "rh_command_id k = c_command_id (cmds t (Cmd n))" "rh_ttag k = of_nat n" "rh_length k = len" "rh_offset k = 0"
    using r2t_asks [OF w r2t(1)] by blast
  have f: "r2t_command_id hp pdu = unat (c_command_id (cmds t (Cmd n)))" "r2t_length hp pdu = len" "r2t_offset hp pdu = 0" "r2t_ttag hp pdu = of_nat n"
    using r2t(2) k by (simp_all add: r2t_carries_def)
  obtain s' h where h: "nvme_tcp_handle_r2t he hp pdu s = (None, s')" "req_h2c (reqs s' r) = Some h" "send_list (hq s') = send_list (hq s) @ [r]"
      "h2c_ttag h = of_nat n" "h2c_data_offset h = 0" "h2c_data_length h = len"
    using r2t_answered [of hp pdu r s he] host unfolding f by blast
  have "\<exists>t3. nvmet_tcp_handle_h2c_data_pdu rp (upd_tq (\<lambda>q. q\<lparr>rcv_pdu := pdu2\<rparr>) t1) = Some (Ret 0, t3) \<and>
        (\<forall>t4. recv_msg_loop rp (Cmd n) t3 = (None, t4) \<longrightarrow>
          (\<exists>t5 bs. nvmet_tcp_try_recv_data te rp t3 = Some (Ret 0, t5) \<and> tevents t5 = tevents t4 @ [Req_execute (Cmd n)] \<and>
             length bs = len \<and> c_rx (cmds t5 (Cmd n)) = c_rx (cmds t (Cmd n)) @ bs))" if p2: "h2c_carries rp pdu2 h" for pdu2
  proof -
    define t2 where "t2 = upd_tq (\<lambda>q. q\<lparr>rcv_pdu := pdu2\<rparr>) t1"
    have t2: "cmds t2 = cmds t1" "tq t2 = (tq t)\<lparr>rcv_pdu := pdu2\<rparr>" using k(2) by (simp_all add: t2_def upd_tq_def)
    have w2: "write_waiting rp n len t2" by (rule write_waiting_upd [OF w _ t2(2)]) (simp add: t2(1) k(1))
    have rx: "c_rx (cmds t2 (Cmd n)) = c_rx (cmds t (Cmd n))" by (simp add: t2(1) k(1))
    show ?thesis
      using h2c_executes [OF w2 _ _ h(4-6), of te] p2 dig unfolding t2_def [symmetric] rx by (simp add: t2(2))
  qed
  then show ?thesis using h by blast
qed

text \<open>An example: a write of 512 bytes from the host's request 0 to the target's command 0.\<close>

definition ex_write :: target where
  "ex_write =
     \<lparr>tq = zero_queue\<lparr>sq_qid := 1, tq_idx := 2, nr_cmds := 4, tq_state := NVMET_TCP_Q_LIVE\<rparr>,
      cmds = (\<lambda>_. zero_cmd\<lparr>c_write := True, transfer_len := 512, c_sg := [ex_sg], cur_sg := [ex_sg], iov_live := True\<rparr>),
      twire = [], tsock_pos = 0, freed = [], tevents = [], tkthread_nice = 0\<rparr>"

definition ex_data_renv :: renv where
  "ex_data_renv = ex_renv\<lparr>data_len_of := (\<lambda>_. 512), recvmsg := (\<lambda>_ n. Inr (replicate n 5))\<rparr>"

definition ex_r2t_penv :: penv where
  "ex_r2t_penv = ex_penv\<lparr>r2t_length := (\<lambda>_. 512)\<rparr>"

lemma ex_write_waiting: "write_waiting ex_data_renv 0 512 ex_write"
  by (simp add: write_waiting_def ex_write_def zero_queue_def zero_cmd_def nvmet_tcp_need_data_in_def nvmet_tcp_has_data_in_def ex_sg_def
      ex_data_renv_def ex_renv_def div_round_up_def)

lemma ex_recv_loop: "\<exists>t'. recv_msg_loop ex_data_renv c t = (None, t')"
proof (cases "recv_left (cmds t c)")
  case 0
  then show ?thesis by (simp add: recv_msg_loop.simps)
next
  case (Suc m)
  then show ?thesis
    by (subst recv_msg_loop.simps) (simp add: tdo_recvmsg_def ex_data_renv_def, subst recv_msg_loop.simps, simp add: outside_call_def)
qed

theorem write_round_trip_witness:
  "\<exists>t1 t3 t5 s'. nvmet_setup_r2t_pdu ex_tenv (Cmd 0) ex_write = Some t1 \<and> nvme_tcp_handle_r2t ex_henv ex_r2t_penv [] ex_host = (None, s') \<and>
     nvmet_tcp_handle_h2c_data_pdu ex_data_renv (upd_tq (\<lambda>q. q\<lparr>rcv_pdu := []\<rparr>) t1) = Some (Ret 0, t3) \<and>
     nvmet_tcp_try_recv_data ex_tenv ex_data_renv t3 = Some (Ret 0, t5) \<and> Req_execute (Cmd 0) \<in> set (tevents t5) \<and> length (c_rx (cmds t5 (Cmd 0))) = 512"
proof -
  obtain t1 where t1: "nvmet_setup_r2t_pdu ex_tenv (Cmd 0) ex_write = Some t1" by (simp add: nvmet_setup_r2t_pdu_def Let_def)
  have x: "c_command_id (cmds ex_write (Cmd 0)) = 0" "\<not> tq_data_digest (tq ex_write)" "c_rx (cmds ex_write (Cmd 0)) = []"
    by (simp_all add: ex_write_def zero_cmd_def zero_queue_def)
  obtain k where k: "cmds t1 (Cmd 0) = (cmds ex_write (Cmd 0))\<lparr>c_offset := 0, c_state := NVMET_TCP_SEND_R2T, r2t_pdu := k\<rparr>"
      "rh_command_id k = 0" "rh_ttag k = 0" "rh_length k = 512" "rh_offset k = 0"
    using r2t_asks [OF ex_write_waiting t1] x(1) by auto
  have c: "r2t_carries ex_r2t_penv [] (r2t_pdu (cmds t1 (Cmd 0)))"
    using k by (simp add: r2t_carries_def ex_r2t_penv_def ex_penv_def)
  have hst: "tag_to_rq ex_r2t_penv (unat (c_command_id (cmds ex_write (Cmd 0)))) = Some 0" "data_sent (reqs ex_host 0) = 0" "data_len (reqs ex_host 0) = 512"
    by (simp_all add: x(1) ex_r2t_penv_def ex_penv_def ex_host_def ex_nreq_def)
  have p2: "h2c_carries ex_data_renv [] h" if "h2c_ttag h = of_nat 0" "h2c_data_offset h = 0" "h2c_data_length h = 512" for h
    using that by (simp add: h2c_carries_def ex_data_renv_def ex_renv_def)
  obtain s' t3 where a: "nvme_tcp_handle_r2t ex_henv ex_r2t_penv [] ex_host = (None, s')"
      "nvmet_tcp_handle_h2c_data_pdu ex_data_renv (upd_tq (\<lambda>q. q\<lparr>rcv_pdu := []\<rparr>) t1) = Some (Ret 0, t3)"
      "\<forall>t4. recv_msg_loop ex_data_renv (Cmd 0) t3 = (None, t4) \<longrightarrow>
          (\<exists>t5 bs. nvmet_tcp_try_recv_data ex_tenv ex_data_renv t3 = Some (Ret 0, t5) \<and> tevents t5 = tevents t4 @ [Req_execute (Cmd 0)] \<and>
             length bs = 512 \<and> c_rx (cmds t5 (Cmd 0)) = c_rx (cmds ex_write (Cmd 0)) @ bs)"
    using write_round_trip [OF ex_write_waiting x(2) t1 c hst, of ex_henv] p2 by blast
  obtain t5 where "nvmet_tcp_try_recv_data ex_tenv ex_data_renv t3 = Some (Ret 0, t5)" "Req_execute (Cmd 0) \<in> set (tevents t5)" "length (c_rx (cmds t5 (Cmd 0))) = 512"
    using a(3) ex_recv_loop [of "Cmd 0" t3] x(3) by auto
  then show ?thesis using t1 a(1,2) by blast
qed

end
